(* ===== verification/DS_Prelude.thy ===== *)
theory DS_Prelude
  imports Main "HOL-Library.Multiset" "HOL-Library.List_Lexorder" "HOL-Library.Char_ord"
    "HOL-Library.Sublist"
begin

text \<open>
  Prelude of the delivery-system development.  It holds what every component shares:
  \<^item> the exceptions of the Python program as values and the result type \<open>'a res\<close> with its
    sequencing combinators (\<open>rbind\<close>, \<open>sequence\<close>) and the rewrite rules that take a successful
    run apart;
  \<^item> the dynamically typed Python values (\<open>pyval\<close>) the program passes between its components;
  \<^item> the two library primitives the program builds on and that stay parameters of the model,
    SHA-256 and Unicode NFC normalisation (\<open>prims\<close>);
  \<^item> generic lemmas on lists, sorting and characters.

  Strings are \<open>char list\<close>s and stand for the UTF-8 encoding of the Python string.  UTF-8 order is
  code point order, so sorting agrees; the JSON escapes and the ASCII tests of the code act on
  single bytes, so they agree as well.
\<close>

named_theorems res_simps \<open>rewrite rules that decompose a successful run\<close>

section \<open>Exceptions and results\<close>

datatype exn =
    ValueError string
  | TypeError
  | KeyError
  | IndexError
  | AttributeError
  | IntegrityError \<comment> \<open>\<open>sqlite3.IntegrityError\<close>\<close>

type_synonym 'a res = "exn + 'a"

definition rbind :: "'a res \<Rightarrow> ('a \<Rightarrow> 'b res) \<Rightarrow> 'b res" where
  "rbind m f = (case m of Inl e \<Rightarrow> Inl e | Inr x \<Rightarrow> f x)"

lemma rbind_simps [simp]:
  "rbind (Inl e) f = Inl e"
  "rbind (Inr x) f = f x"
  by (simp_all add: rbind_def)

lemma rbind_Inr [res_simps]: "rbind m f = Inr y \<longleftrightarrow> (\<exists>x. m = Inr x \<and> f x = Inr y)"
  by (cases m) auto

lemma rbind_Inl: "rbind m f = Inl e \<longleftrightarrow> m = Inl e \<or> (\<exists>x. m = Inr x \<and> f x = Inl e)"
  by (cases m) auto

lemma rbind_assoc: "rbind (rbind m f) g = rbind m (\<lambda>x. rbind (f x) g)"
  by (cases m) auto

text \<open>\<open>raise_if c code k\<close> is \<open>if c: raise ValueError(code)\<close> followed by \<open>k\<close>.\<close>

definition raise_if :: "bool \<Rightarrow> string \<Rightarrow> 'a res \<Rightarrow> 'a res" where
  "raise_if c code k = (if c then Inl (ValueError code) else k)"

lemma raise_if_simps [simp]:
  "raise_if True code k = Inl (ValueError code)"
  "raise_if False code k = k"
  by (simp_all add: raise_if_def)

lemma raise_if_Inr [res_simps]: "raise_if c code k = Inr y \<longleftrightarrow> \<not> c \<and> k = Inr y"
  by (simp add: raise_if_def)

text \<open>Assertions and lookups that fail with a fixed exception.\<close>

definition of_option :: "exn \<Rightarrow> 'a option \<Rightarrow> 'a res" where
  "of_option e x = (case x of None \<Rightarrow> Inl e | Some y \<Rightarrow> Inr y)"

lemma of_option_simps [simp]:
  "of_option e None = Inl e"
  "of_option e (Some y) = Inr y"
  by (simp_all add: of_option_def)

lemma of_option_Inr [res_simps]: "of_option e x = Inr y \<longleftrightarrow> x = Some y"
  by (cases x) auto

text \<open>Re-raising: an exception handler \<open>except ...: raise e\<close> around a call.\<close>

definition catch :: "'a res \<Rightarrow> (exn \<Rightarrow> 'a res) \<Rightarrow> 'a res" where
  "catch m h = (case m of Inl e \<Rightarrow> h e | Inr x \<Rightarrow> Inr x)"

lemma catch_simps [simp]:
  "catch (Inl e) h = h e"
  "catch (Inr x) h = Inr x"
  by (simp_all add: catch_def)

fun sequence :: "'a res list \<Rightarrow> 'a list res" where
  "sequence [] = Inr []"
| "sequence (m # ms) = rbind m (\<lambda>x. rbind (sequence ms) (\<lambda>xs. Inr (x # xs)))"

lemma sequence_Inr [res_simps]: "sequence ms = Inr xs \<longleftrightarrow> ms = map Inr xs"
  by (induction ms arbitrary: xs) (auto simp: rbind_Inr Cons_eq_map_conv)

lemma sequence_map_Inr [simp]: "sequence (map (\<lambda>x. Inr (f x)) xs) = Inr (map f xs)"
  by (induction xs) auto

lemma sequence_length: "sequence ms = Inr xs \<Longrightarrow> length xs = length ms"
  by (simp add: sequence_Inr)

lemma map_Inr_eq_conv: "map f xs = map Inr ys \<longleftrightarrow> list_all2 (\<lambda>x y. f x = Inr y) xs ys"
  by (induction xs arbitrary: ys) (auto simp: list_all2_Cons1 Cons_eq_map_conv)

lemma map_Inr_elem: "map f xs = map Inr ys \<Longrightarrow> y \<in> set ys \<Longrightarrow> \<exists>x \<in> set xs. f x = Inr y"
  by (induction xs arbitrary: ys) (auto simp: Cons_eq_map_conv)

section \<open>Python values\<close>

text \<open>
  A finite float is represented by its \<open>repr\<close> text, which is all the program ever uses of it;
  \<open>NonFinite\<close> stands for NaN and the infinities.  \<open>PDict\<close> is any mapping in insertion order,
  \<open>PSet\<close> a set or frozenset in some enumeration order, \<open>POther\<close> any value of another class.
\<close>

datatype pyfloat = Finite string | NonFinite

datatype pyval =
    PNone
  | PBool bool
  | PInt int
  | PFloat pyfloat
  | PStr string
  | PList "pyval list"
  | PTuple "pyval list"
  | PSet "pyval list"
  | PDict "(pyval \<times> pyval) list"
  | POther

text \<open>A mapping literal with string keys.\<close>

definition obj :: "(string \<times> pyval) list \<Rightarrow> pyval" where
  "obj kvs = PDict (map (\<lambda>(k, v). (PStr k, v)) kvs)"

definition strs :: "string list \<Rightarrow> pyval" where
  "strs ss = PList (map PStr ss)"

text \<open>\<open>value.get(key)\<close> on a mapping: \<open>None\<close> of the model is \<open>key not in value\<close>.\<close>

fun dict_lookup :: "pyval \<Rightarrow> string \<Rightarrow> pyval option" where
  "dict_lookup (PDict kvs) k = map_of kvs (PStr k)"
| "dict_lookup _ k = None"

definition dict_get :: "pyval \<Rightarrow> string \<Rightarrow> pyval" where
  "dict_get d k = (case dict_lookup d k of None \<Rightarrow> PNone | Some v \<Rightarrow> v)"

definition dict_item :: "pyval \<Rightarrow> string \<Rightarrow> pyval res" where
  "dict_item d k = of_option KeyError (dict_lookup d k)"

fun is_mapping :: "pyval \<Rightarrow> bool" where
  "is_mapping (PDict _) = True"
| "is_mapping _ = False"

fun dict_keys :: "pyval \<Rightarrow> pyval set" where
  "dict_keys (PDict kvs) = fst ` set kvs"
| "dict_keys _ = {}"

text \<open>\<open>set(value) == {...}\<close> on a mapping.\<close>

definition has_exactly :: "pyval \<Rightarrow> string list \<Rightarrow> bool" where
  "has_exactly d ks \<longleftrightarrow> dict_keys d = PStr ` set ks"

fun nonempty_str :: "pyval \<Rightarrow> bool" where
  "nonempty_str (PStr s) = (s \<noteq> [])"
| "nonempty_str _ = False"

fun str_of :: "pyval \<Rightarrow> string" where
  "str_of (PStr s) = s"
| "str_of _ = []"

text \<open>Python truth value; objects of other classes are true.\<close>

fun truthy :: "pyval \<Rightarrow> bool" where
  "truthy PNone = False"
| "truthy (PBool b) = b"
| "truthy (PInt i) = (i \<noteq> 0)"
| "truthy (PFloat (Finite r)) = (r \<notin> {''0.0'', ''-0.0''})"
| "truthy (PFloat NonFinite) = True"
| "truthy (PStr s) = (s \<noteq> [])"
| "truthy (PList xs) = (xs \<noteq> [])"
| "truthy (PTuple xs) = (xs \<noteq> [])"
| "truthy (PSet xs) = (xs \<noteq> [])"
| "truthy (PDict kvs) = (kvs \<noteq> [])"
| "truthy POther = True"

fun opt_str :: "string option \<Rightarrow> pyval" where
  "opt_str None = PNone"
| "opt_str (Some s) = PStr s"

lemma opt_str_inject [simp]: "opt_str a = opt_str b \<longleftrightarrow> a = b"
  by (cases a; cases b) auto

lemma PStr_inj [simp]: "inj PStr"
  by (simp add: inj_def)

lemma map_PStr_inject [simp]: "map PStr xs = map PStr ys \<longleftrightarrow> xs = ys"
  by (rule inj_map_eq_map) simp

lemma strs_inject [simp]: "strs xs = strs ys \<longleftrightarrow> xs = ys"
  by (simp add: strs_def)

lemma nonempty_str_iff: "nonempty_str v \<longleftrightarrow> (\<exists>s. v = PStr s \<and> s \<noteq> [])"
  by (cases v) auto

lemma is_mapping_iff: "is_mapping v \<longleftrightarrow> (\<exists>kvs. v = PDict kvs)"
  by (cases v) auto

lemma map_of_obj: "map_of (map (\<lambda>(k, v). (PStr k, v)) kvs) (PStr k) = map_of kvs k"
  by (induction kvs) auto

lemma dict_lookup_obj [simp]: "dict_lookup (obj kvs) k = map_of kvs k"
  by (simp add: obj_def map_of_obj)

lemma is_mapping_obj [simp]: "is_mapping (obj kvs)"
  by (simp add: obj_def)

lemma dict_keys_obj [simp]: "dict_keys (obj kvs) = PStr ` fst ` set kvs"
  by (force simp: obj_def image_iff)

lemma has_exactly_obj: "has_exactly (obj kvs) ks \<longleftrightarrow> fst ` set kvs = set ks"
  by (simp add: has_exactly_def inj_image_eq_iff)

section \<open>Library primitives\<close>

text \<open>
  \<open>lower_other\<close> is \<open>str.lower\<close> on text that is not pure ASCII; \<open>sha256_hex\<close> is \<open>hashlib.sha256(text).hexdigest()\<close>, \<open>nfc_other\<close> is
  \<open>unicodedata.normalize("NFC", text)\<close> on text that is not pure ASCII; \<open>repr_other\<close> is \<open>str(value)\<close> of a
  container or another object.  On ASCII text
  normalisation is the identity, which \<open>nfc\<close> has built in.
\<close>

record prims =
  sha256_hex :: "string \<Rightarrow> string"
  nfc_other :: "string \<Rightarrow> string"
  lower_other :: "string \<Rightarrow> string"
  repr_other :: "pyval \<Rightarrow> string"

definition is_ascii :: "string \<Rightarrow> bool" where
  "is_ascii s \<longleftrightarrow> list_all (\<lambda>c. of_char c < (128 :: nat)) s"

definition nfc :: "prims \<Rightarrow> string \<Rightarrow> string" where
  "nfc P s = (if is_ascii s then s else nfc_other P s)"

definition lower_char :: "char \<Rightarrow> char" where
  "lower_char c = (if (65 :: nat) \<le> of_char c \<and> of_char c \<le> (90 :: nat) then char_of ((of_char c :: nat) + 32) else c)"

definition lower :: "prims \<Rightarrow> string \<Rightarrow> string" where
  "lower P s = (if is_ascii s then map lower_char s else lower_other P s)"

lemma nfc_ascii [simp]: "is_ascii s \<Longrightarrow> nfc P s = s"
  by (simp add: nfc_def)

text \<open>An instance of the primitives to evaluate examples with: the hash is the text itself.\<close>

definition plain_prims :: prims where
  "plain_prims = \<lparr>sha256_hex = (\<lambda>s. s), nfc_other = (\<lambda>s. s), lower_other = (\<lambda>s. s), repr_other = (\<lambda>_. ''object'')\<rparr>"

section \<open>Characters and numerals\<close>

definition hex_digits :: string where
  "hex_digits = ''0123456789abcdef''"

definition is_lower_hex :: "char \<Rightarrow> bool" where
  "is_lower_hex c \<longleftrightarrow> c \<in> set hex_digits"

definition digit_char :: "nat \<Rightarrow> char" where
  "digit_char n = char_of (48 + n)"

fun nat_repr :: "nat \<Rightarrow> string" where
  "nat_repr n = (if n < 10 then [digit_char n] else nat_repr (n div 10) @ [digit_char (n mod 10)])"

declare nat_repr.simps [simp del]

definition int_repr :: "int \<Rightarrow> string" where
  "int_repr i = (if i < 0 then CHR ''-'' # nat_repr (nat (- i)) else nat_repr (nat i))"

definition is_digit :: "char \<Rightarrow> bool" where
  "is_digit c \<longleftrightarrow> 48 \<le> (of_char c :: nat) \<and> (of_char c :: nat) \<le> 57"

lemma digit_char_is_digit [simp]: "n < 10 \<Longrightarrow> is_digit (digit_char n)"
  by (simp add: is_digit_def digit_char_def of_char_of)

lemma digit_char_inject: "m < 10 \<Longrightarrow> n < 10 \<Longrightarrow> digit_char m = digit_char n \<longleftrightarrow> m = n"
  by (auto simp: digit_char_def char_of_eq_iff of_char_of take_bit_eq_mod)

lemma nat_repr_digits: "c \<in> set (nat_repr n) \<Longrightarrow> is_digit c"
proof (induction n rule: nat_repr.induct)
  case (1 n)
  then show ?case by (subst (asm) nat_repr.simps) (auto split: if_splits)
qed

lemma nat_repr_nonempty [simp]: "nat_repr n \<noteq> []"
  by (subst nat_repr.simps) simp

lemma nat_repr_inject: "nat_repr m = nat_repr n \<longleftrightarrow> m = n"
proof (induction m arbitrary: n rule: nat_repr.induct)
  case (1 m)
  have *: "[] \<noteq> nat_repr k" for k by (metis nat_repr_nonempty)
  show ?case
  proof (cases "m < 10 \<or> n < 10")
    case True
    then show ?thesis
      by (subst nat_repr.simps, subst (2) nat_repr.simps) (auto simp: digit_char_inject *)
  next
    case False
    then have "nat_repr m = nat_repr n \<longleftrightarrow> m div 10 = n div 10 \<and> m mod 10 = n mod 10"
      using "1" by (subst nat_repr.simps, subst (2) nat_repr.simps) (simp add: digit_char_inject)
    also have "\<dots> \<longleftrightarrow> m = n" by (metis div_mult_mod_eq)
    finally show ?thesis .
  qed
qed

lemma int_repr_nonempty [simp]: "int_repr i \<noteq> []"
  by (simp add: int_repr_def)

lemma int_repr_inject: "int_repr i = int_repr j \<longleftrightarrow> i = j"
proof -
  have minus: "CHR ''-'' \<notin> set (nat_repr n)" for n
    using nat_repr_digits [of "CHR ''-''" n] by (auto simp: is_digit_def)
  then have "nat_repr n \<noteq> CHR ''-'' # s" for n s
    by (metis list.set_intros(1))
  then show ?thesis
    by (auto simp: int_repr_def nat_repr_inject split: if_splits) metis+
qed

section \<open>Sorting\<close>

text \<open>Stable sorting with an injective key depends only on the multiset sorted.\<close>

lemma insort_key_map: "insort_key f (g x) (map g ys) = map g (insort_key (\<lambda>z. f (g z)) x ys)"
  by (induction ys) auto

lemma sort_key_map: "sort_key f (map g xs) = map g (sort_key (\<lambda>z. f (g z)) xs)"
  by (induction xs) (auto simp: insort_key_map comp_def)

lemma distinct_map_sort_key: "distinct (map f (sort_key g xs)) \<longleftrightarrow> distinct (map f xs)"
  by (rule mset_eq_imp_distinct_iff) (metis mset_map mset_sort)

lemma filter_key_replicate:
  assumes "inj_on f (set xs)" and "k \<in> set xs"
  shows "filter (\<lambda>x. f k = f x) xs = replicate (count (mset xs) k) k"
proof -
  have "filter (\<lambda>x. f k = f x) xs = filter ((=) k) xs"
    using assms by (intro filter_cong) (auto dest: inj_onD)
  also have "\<dots> = replicate (count (mset xs) k) k"
    by (induction xs) auto
  finally show ?thesis .
qed

lemma sort_key_mset_cong:
  assumes "mset xs = mset ys" and "inj_on f (set xs)"
  shows "sort_key f xs = sort_key f ys"
proof (rule properties_for_sort_key)
  have sets: "set ys = set xs" using assms(1) by (metis set_mset_mset)
  show "mset (sort_key f ys) = mset xs" using assms(1) by simp
  show "sorted (map f (sort_key f ys))" by simp
  fix k
  assume "k \<in> set (sort_key f ys)"
  then show "filter (\<lambda>x. f k = f x) (sort_key f ys) = filter (\<lambda>x. f k = f x) xs"
    using assms sets by (simp add: filter_key_replicate)
qed

end
