(* ===== verification/Program.thy ===== *)
theory Program
  imports DS_Prelude
begin

text \<open>
  Stateful Python code as state-and-exception programs: a program maps a state to a result or an
  exception together with the state it leaves, so the effects made before an exception are kept
  (only a database transaction undoes its own, see \<open>Execution_Context\<close>).

  The relational calculus at the end bounds what a program does to the state whether it returns
  or raises: \<open>moves R m\<close> says that every run of \<open>m\<close> moves the state along \<open>R\<close>.  It is a locale over
  the reflexive and transitive relations; the execution components interpret it for the relations
  they need (untouched database, grown history, rows only ever added).
\<close>

named_theorems run_simps \<open>rules that decompose a successful run of a program\<close>

type_synonym ('w, 'a) program = "'w \<Rightarrow> 'a res \<times> 'w"

definition ret :: "'a \<Rightarrow> ('w, 'a) program" where
  "ret x = (\<lambda>w. (Inr x, w))"

definition fail :: "exn \<Rightarrow> ('w, 'a) program" where
  "fail e = (\<lambda>w. (Inl e, w))"

definition lift :: "'a res \<Rightarrow> ('w, 'a) program" where
  "lift r = (\<lambda>w. (r, w))"

definition bnd :: "('w, 'a) program \<Rightarrow> ('a \<Rightarrow> ('w, 'b) program) \<Rightarrow> ('w, 'b) program" where
  "bnd m f = (\<lambda>w. case m w of (Inl e, w') \<Rightarrow> (Inl e, w') | (Inr x, w') \<Rightarrow> f x w')"

text \<open>\<open>refuse c code\<close> is \<open>if c: raise ValueError(code)\<close>.\<close>

definition refuse :: "bool \<Rightarrow> string \<Rightarrow> ('w, unit) program" where
  "refuse c code = (if c then fail (ValueError code) else ret ())"

definition view :: "('w \<Rightarrow> 'a) \<Rightarrow> ('w, 'a) program" where
  "view f = (\<lambda>w. (Inr (f w), w))"

definition change :: "('w \<Rightarrow> 'w) \<Rightarrow> ('w, unit) program" where
  "change f = (\<lambda>w. (Inr (), f w))"

text \<open>\<open>try: m except ...: h\<close>\<close>

definition handle :: "('w, 'a) program \<Rightarrow> (exn \<Rightarrow> ('w, 'a) program) \<Rightarrow> ('w, 'a) program" where
  "handle m h = (\<lambda>w. case m w of (Inl e, w') \<Rightarrow> h e w' | r \<Rightarrow> r)"

text \<open>\<open>try: m except ...: h  else: f\<close>, where the exceptions of \<open>f\<close> are not caught.\<close>

definition attempt_then ::
  "('w, 'a) program \<Rightarrow> (exn \<Rightarrow> ('w, 'b) program) \<Rightarrow> ('a \<Rightarrow> ('w, 'b) program) \<Rightarrow> ('w, 'b) program" where
  "attempt_then m h f = (\<lambda>w. case m w of (Inl e, w') \<Rightarrow> h e w' | (Inr x, w') \<Rightarrow> f x w')"

fun each :: "('a \<Rightarrow> ('w, 'b) program) \<Rightarrow> 'a list \<Rightarrow> ('w, 'b list) program" where
  "each f [] = ret []"
| "each f (x # xs) = bnd (f x) (\<lambda>y. bnd (each f xs) (\<lambda>ys. ret (y # ys)))"

section \<open>Successful runs\<close>

lemma ret_run [run_simps]: "ret x w = (Inr y, w') \<longleftrightarrow> y = x \<and> w' = w"
  by (auto simp: ret_def)

lemma fail_run [run_simps]: "fail e w \<noteq> (Inr y, w')"
  by (simp add: fail_def)

lemma lift_run [run_simps]: "lift r w = (Inr y, w') \<longleftrightarrow> r = Inr y \<and> w' = w"
  by (auto simp: lift_def)

lemma bnd_run [run_simps]:
  "bnd m f w = (Inr y, w'') \<longleftrightarrow> (\<exists>x w'. m w = (Inr x, w') \<and> f x w' = (Inr y, w''))"
  by (auto simp: bnd_def split: prod.splits sum.splits)

lemma refuse_run [run_simps]: "refuse c code w = (Inr u, w') \<longleftrightarrow> \<not> c \<and> w' = w"
  by (auto simp: refuse_def ret_def fail_def)

lemma view_run [run_simps]: "view f w = (Inr y, w') \<longleftrightarrow> y = f w \<and> w' = w"
  by (auto simp: view_def)

lemma change_run [run_simps]: "change f w = (Inr u, w') \<longleftrightarrow> w' = f w"
  by (auto simp: change_def)

lemma bnd_Inr: "m w = (Inr x, w') \<Longrightarrow> bnd m f w = f x w'"
  by (simp add: bnd_def)

lemma bnd_Inl: "m w = (Inl e, w') \<Longrightarrow> bnd m f w = (Inl e, w')"
  by (simp add: bnd_def)

text \<open>Execution rules for evaluating a program at a state.\<close>

lemma exec_simps [simp]:
  "ret x w = (Inr x, w)" "fail e w = (Inl e, w)" "lift r w = (r, w)" "view f w = (Inr (f w), w)"
  "change g w = (Inr (), g w)"
  by (simp_all add: ret_def fail_def lift_def view_def change_def)

lemma refuse_exec [simp]: "refuse True code w = (Inl (ValueError code), w)" "refuse False code w = (Inr (), w)"
  by (simp_all add: refuse_def)

lemma bnd_exec: "bnd m f w = (case m w of (Inl e, w') \<Rightarrow> (Inl e, w') | (Inr x, w') \<Rightarrow> f x w')"
  by (simp add: bnd_def)

lemma bnd_exec_simps [simp]:
  "bnd (ret x) f w = f x w" "bnd (fail e) g w = (Inl e, w)" "bnd (lift (Inr x)) f w = f x w"
  "bnd (lift (Inl e)) f w = (Inl e, w)" "bnd (view h) k w = k (h w) w" "bnd (change i) l w = l () (i w)"
  "bnd (refuse True code) n w = (Inl (ValueError code), w)" "bnd (refuse False code) n w = n () w"
  by (simp_all add: bnd_def)

section \<open>What every run does to the state\<close>

definition moves :: "('w \<Rightarrow> 'w \<Rightarrow> bool) \<Rightarrow> ('w, 'a) program \<Rightarrow> bool" where
  "moves R m \<longleftrightarrow> (\<forall>w. R w (snd (m w)))"

lemma moves_run: "moves R m \<Longrightarrow> m w = (r, w') \<Longrightarrow> R w w'"
  by (metis moves_def snd_conv)

lemma moves_mono: "moves R m \<Longrightarrow> (\<And>w w'. R w w' \<Longrightarrow> S w w') \<Longrightarrow> moves S m"
  by (simp add: moves_def)

locale frame =
  fixes R :: "'w \<Rightarrow> 'w \<Rightarrow> bool"
  assumes frame_refl: "R w w"
    and frame_trans: "R w w' \<Longrightarrow> R w' w'' \<Longrightarrow> R w w''"
begin

lemma moves_ret: "moves R (ret x)"
  by (simp add: moves_def frame_refl)

lemma moves_fail: "moves R (fail e)"
  by (simp add: moves_def frame_refl)

lemma moves_lift: "moves R (lift r)"
  by (simp add: moves_def frame_refl)

lemma moves_view: "moves R (view f)"
  by (simp add: moves_def frame_refl)

lemma moves_refuse: "moves R (refuse c code)"
  by (simp add: refuse_def moves_ret moves_fail)

lemma moves_change: "(\<And>w. R w (f w)) \<Longrightarrow> moves R (change f)"
  by (simp add: moves_def)

lemma moves_bnd:
  assumes "moves R m" "\<And>x. moves R (f x)"
  shows "moves R (bnd m f)"
  unfolding moves_def
proof
  fix w
  obtain r w' where m: "m w = (r, w')" by fastforce
  then have 1: "R w w'" using assms(1) moves_run by metis
  have f: "R w' (snd (f x w'))" for x using assms(2) by (simp add: moves_def)
  show "R w (snd (bnd m f w))"
  proof (cases r)
    case (Inl e)
    then show ?thesis using 1 m by (simp add: bnd_def)
  next
    case (Inr x)
    then have "bnd m f w = f x w'" using m by (simp add: bnd_def)
    then show ?thesis using frame_trans [OF 1 f] by simp
  qed
qed

lemma moves_attempt_then:
  assumes "moves R m" "\<And>e. moves R (h e)" "\<And>x. moves R (f x)"
  shows "moves R (attempt_then m h f)"
  unfolding moves_def
proof
  fix w
  obtain r w' where m: "m w = (r, w')" by fastforce
  then have 1: "R w w'" using assms(1) moves_run by metis
  have h: "R w' (snd (h e w'))" for e using assms(2) by (simp add: moves_def)
  have f: "R w' (snd (f x w'))" for x using assms(3) by (simp add: moves_def)
  show "R w (snd (attempt_then m h f w))"
  proof (cases r)
    case (Inl e)
    then have "attempt_then m h f w = h e w'" using m by (simp add: attempt_then_def)
    then show ?thesis using frame_trans [OF 1 h] by simp
  next
    case (Inr x)
    then have "attempt_then m h f w = f x w'" using m by (simp add: attempt_then_def)
    then show ?thesis using frame_trans [OF 1 f] by simp
  qed
qed

lemma moves_handle:
  assumes "moves R m" "\<And>e. moves R (h e)"
  shows "moves R (handle m h)"
proof -
  have "handle m h = attempt_then m h ret"
    by (auto simp: handle_def attempt_then_def fun_eq_iff split: prod.splits sum.splits)
  then show ?thesis using assms moves_attempt_then moves_ret by metis
qed

lemma moves_each: "(\<And>x. moves R (f x)) \<Longrightarrow> moves R (each f xs)"
  by (induction xs) (simp_all add: moves_ret moves_bnd)

lemma moves_if: "(c \<Longrightarrow> moves R m) \<Longrightarrow> (\<not> c \<Longrightarrow> moves R n) \<Longrightarrow> moves R (if c then m else n)"
  by simp

lemma moves_option: "moves R m \<Longrightarrow> (\<And>x. moves R (f x)) \<Longrightarrow> moves R (case o' of None \<Rightarrow> m | Some x \<Rightarrow> f x)"
  by (simp split: option.splits)

lemmas moves_rules = moves_ret moves_fail moves_lift moves_view moves_refuse moves_bnd moves_attempt_then
  moves_handle moves_each moves_if moves_option

end

end
