(* ===== verification/Database.thy ===== *)
theory Database
  imports DS_Prelude
begin

text \<open>
  The four tables of schema V6 (\<open>sqlite_schema.py\<close>, \<open>_V6_DDL\<close>) the execution store of
  \<open>execution_store.py\<close> works on, and the SQL statements it executes on them.  A table is the list
  of its rows in insertion order, a row its primary key and the JSON document of its payload
  column.  \<open>INSERT\<close> on an existing key is \<open>sqlite3.IntegrityError\<close>.

  What the store relies on is the interface \<open>keyed_table\<close>; the row lists interpret it.
\<close>

section \<open>Tables as row lists\<close>

type_synonym ('k, 'v) table = "('k \<times> 'v) list"

definition select_row :: "'k \<Rightarrow> ('k, 'v) table \<Rightarrow> 'v option" where
  "select_row k t = map_of t k"

definition insert_row :: "'k \<Rightarrow> 'v \<Rightarrow> ('k, 'v) table \<Rightarrow> ('k, 'v) table res" where
  "insert_row k v t = (if k \<in> fst ` set t then Inl IntegrityError else Inr (t @ [(k, v)]))"

definition update_row :: "'k \<Rightarrow> 'v \<Rightarrow> ('k, 'v) table \<Rightarrow> ('k, 'v) table" where
  "update_row k v t = map (\<lambda>r. if fst r = k then (k, v) else r) t"

text \<open>\<open>INSERT ... ON CONFLICT ... DO UPDATE SET payload=excluded.payload\<close> and \<open>INSERT OR IGNORE\<close>.\<close>

definition upsert_row :: "'k \<Rightarrow> 'v \<Rightarrow> ('k, 'v) table \<Rightarrow> ('k, 'v) table" where
  "upsert_row k v t = (if k \<in> fst ` set t then update_row k v t else t @ [(k, v)])"

definition ignore_row :: "'k \<Rightarrow> 'v \<Rightarrow> ('k, 'v) table \<Rightarrow> ('k, 'v) table" where
  "ignore_row k v t = (if k \<in> fst ` set t then t else t @ [(k, v)])"

section \<open>The interface the store relies on\<close>

locale keyed_table =
  fixes sel :: "'k \<Rightarrow> 't \<Rightarrow> 'v option"
    and ins :: "'k \<Rightarrow> 'v \<Rightarrow> 't \<Rightarrow> 't res"
    and upd :: "'k \<Rightarrow> 'v \<Rightarrow> 't \<Rightarrow> 't"
    and ups :: "'k \<Rightarrow> 'v \<Rightarrow> 't \<Rightarrow> 't"
    and ign :: "'k \<Rightarrow> 'v \<Rightarrow> 't \<Rightarrow> 't"
  assumes sel_ins: "ins k v t = Inr t' \<Longrightarrow> sel j t' = (if j = k then Some v else sel j t)"
    and ins_Inl: "ins k v t = Inl e \<longleftrightarrow> sel k t \<noteq> None \<and> e = IntegrityError"
    and sel_upd: "sel j (upd k v t) = (if j = k \<and> sel k t \<noteq> None then Some v else sel j t)"
    and sel_ups: "sel j (ups k v t) = (if j = k then Some v else sel j t)"
    and sel_ign: "sel j (ign k v t) = (if j = k \<and> sel k t = None then Some v else sel j t)"
begin

text \<open>\<open>keeps t t'\<close>: no row of \<open>t\<close> is missing in \<open>t'\<close>; \<open>extends\<close>: none has changed either.\<close>

definition keeps :: "'t \<Rightarrow> 't \<Rightarrow> bool" where
  "keeps t t' \<longleftrightarrow> (\<forall>k. sel k t \<noteq> None \<longrightarrow> sel k t' \<noteq> None)"

definition extends :: "'t \<Rightarrow> 't \<Rightarrow> bool" where
  "extends t t' \<longleftrightarrow> (\<forall>k v. sel k t = Some v \<longrightarrow> sel k t' = Some v)"

lemma keeps_refl [simp]: "keeps t t" and extends_refl [simp]: "extends t t"
  by (simp_all add: keeps_def extends_def)

lemma keeps_trans: "keeps t t' \<Longrightarrow> keeps t' t'' \<Longrightarrow> keeps t t''"
  by (simp add: keeps_def)

lemma extends_trans: "extends t t' \<Longrightarrow> extends t' t'' \<Longrightarrow> extends t t''"
  by (simp add: extends_def)

lemma extends_keeps: "extends t t' \<Longrightarrow> keeps t t'"
  by (auto simp: extends_def keeps_def)

lemma ins_Inr_absent: "ins k v t = Inr t' \<Longrightarrow> sel k t = None"
  using ins_Inl by (metis sum.distinct(1))

lemma ins_present: "sel k t \<noteq> None \<Longrightarrow> ins k v t = Inl IntegrityError"
  by (simp add: ins_Inl)

lemma ins_absent: "sel k t = None \<Longrightarrow> \<exists>t'. ins k v t = Inr t'"
  using ins_Inl by (metis old.sum.exhaust)

lemma ins_extends: "ins k v t = Inr t' \<Longrightarrow> extends t t'"
  by (auto simp: extends_def sel_ins dest: ins_Inr_absent)

lemma upd_keeps: "keeps t (upd k v t)"
  by (simp add: keeps_def sel_upd)

lemma ups_keeps: "keeps t (ups k v t)"
  by (simp add: keeps_def sel_ups)

lemma ign_extends: "extends t (ign k v t)"
  by (simp add: extends_def sel_ign)

text \<open>Once inserted, a key can never be inserted again, whatever happened to its row since.\<close>

lemma ins_once: "ins k v t = Inr t' \<Longrightarrow> keeps t' t'' \<Longrightarrow> ins k u t'' = Inl IntegrityError"
  by (rule ins_present) (simp add: keeps_def sel_ins)

end

lemma map_of_update_row: "map_of (update_row k v t) j = (if j = k \<and> map_of t k \<noteq> None then Some v else map_of t j)"
  by (induction t) (auto simp: update_row_def)

lemma map_of_snoc:
  "map_of (t @ [(k, v)]) j = (case map_of t j of None \<Rightarrow> if j = k then Some v else None | Some x \<Rightarrow> Some x)"
  by (induction t) auto

lemma key_iff: "k \<in> fst ` set t \<longleftrightarrow> map_of t k \<noteq> None"
  by (simp add: map_of_eq_None_iff)

interpretation table: keyed_table select_row insert_row update_row upsert_row ignore_row
  by unfold_locales
    (auto simp: select_row_def insert_row_def upsert_row_def ignore_row_def map_of_update_row map_of_snoc key_iff
       simp del: map_of_append split: option.splits if_splits)

section \<open>The execution tables\<close>

type_synonym application_key = "string \<times> string" \<comment> \<open>workspace, application\<close>
type_synonym operation_key = "string \<times> string \<times> string" \<comment> \<open>workspace, application, operation\<close>

record database =
  db_executions :: "(application_key, pyval) table"
  db_attempts :: "(operation_key, pyval) table"
  db_operation_receipts :: "(operation_key, pyval) table"
  db_application_receipts :: "(application_key, pyval) table"

definition empty_database :: database where
  "empty_database = \<lparr>db_executions = [], db_attempts = [], db_operation_receipts = [], db_application_receipts = []\<rparr>"

text \<open>
  \<open>json.dumps(value, sort_keys=True)\<close> raises \<open>TypeError\<close> on sets and on objects JSON does not know;
  two documents have the same text exactly if they are equal up to the order of their entries.
\<close>

fun json_text :: "pyval \<Rightarrow> pyval res" where
  "json_text (PDict kvs) =
     (if list_all (\<lambda>k. case k of PStr _ \<Rightarrow> True | _ \<Rightarrow> False) (map fst kvs)
      then let entries = sort_key (\<lambda>e. str_of (fst e)) (zip (map fst kvs) (map (\<lambda>kv. json_text (snd kv)) kvs)) in
           rbind (sequence (map snd entries)) (\<lambda>vs. Inr (PDict (zip (map fst entries) vs)))
      else Inl TypeError)"
| "json_text (PList xs) = rbind (sequence (map json_text xs)) (\<lambda>vs. Inr (PList vs))"
| "json_text (PTuple xs) = rbind (sequence (map json_text xs)) (\<lambda>vs. Inr (PList vs))"
| "json_text (PSet xs) = Inl TypeError"
| "json_text POther = Inl TypeError"
| "json_text v = Inr v"

definition same_text :: "pyval \<Rightarrow> pyval \<Rightarrow> bool" where
  "same_text a b \<longleftrightarrow> json_text a = json_text b"

end
