(* ===== verification/Canonical.thy ===== *)
theory Canonical
  imports DS_Prelude
begin

text \<open>
  Model of \<open>delivery_system/canonical.py\<close>: text normalisation, the normal form of Python values,
  the canonical JSON text and the SHA-256 digest over it.  A normalised value has type \<open>json\<close>,
  the type of \<open>json.loads\<close> results.

  The lemmas show that the canonical text determines the normal form (the serialisation is
  injective), that it does not depend on the insertion order of mapping keys or on the
  enumeration order of sets, and that normalising ASCII values twice changes nothing.
\<close>

section \<open>Data\<close>

datatype json =
    JNull
  | JBool bool
  | JInt int
  | JFloat string
  | JStr string
  | JArr "json list"
  | JObj "(string \<times> json) list"

section \<open>Text normalisation\<close>

text \<open>The UTF-8 encodings of the characters \<open>str.strip\<close> removes.\<close>

definition ws_tokens :: "string list" where
  "ws_tokens = map (map char_of) [
     [0x09::nat], [0x0A], [0x0B], [0x0C], [0x0D], [0x1C], [0x1D], [0x1E], [0x1F], [0x20],
     [0xC2, 0x85], [0xC2, 0xA0], [0xE1, 0x9A, 0x80],
     [0xE2, 0x80, 0x80], [0xE2, 0x80, 0x81], [0xE2, 0x80, 0x82], [0xE2, 0x80, 0x83],
     [0xE2, 0x80, 0x84], [0xE2, 0x80, 0x85], [0xE2, 0x80, 0x86], [0xE2, 0x80, 0x87],
     [0xE2, 0x80, 0x88], [0xE2, 0x80, 0x89], [0xE2, 0x80, 0x8A], [0xE2, 0x80, 0xA8],
     [0xE2, 0x80, 0xA9], [0xE2, 0x80, 0xAF], [0xE2, 0x81, 0x9F], [0xE3, 0x80, 0x80]]"

function strip_front :: "string list \<Rightarrow> string \<Rightarrow> string" where
  "strip_front toks s =
     (case find (\<lambda>t. t \<noteq> [] \<and> prefix t s) toks of
        None \<Rightarrow> s
      | Some t \<Rightarrow> strip_front toks (drop (length t) s))"
  by pat_completeness auto
termination
proof (relation "measure (\<lambda>(toks, s). length s)")
  fix toks :: "string list" and s t
  assume "find (\<lambda>t. t \<noteq> [] \<and> prefix t s) toks = Some t"
  then have "t \<noteq> [] \<and> prefix t s" by (auto simp: find_Some_iff)
  then show "((toks, drop (length t) s), (toks, s)) \<in> measure (\<lambda>(toks, s). length s)"
    by (cases s) auto
qed simp

declare strip_front.simps [simp del]

definition lstrip :: "string \<Rightarrow> string" where
  "lstrip s = strip_front ws_tokens s"

definition rstrip :: "string \<Rightarrow> string" where
  "rstrip s = rev (strip_front (map rev ws_tokens) (rev s))"

definition strip :: "string \<Rightarrow> string" where
  "strip s = rstrip (lstrip s)"

definition LF :: char where "LF = CHR 0x0A"
definition CR :: char where "CR = CHR 0x0D"

fun replace_crlf :: "string \<Rightarrow> string" where
  "replace_crlf (c # d # s) = (if c = CR \<and> d = LF then LF # replace_crlf s else c # replace_crlf (d # s))"
| "replace_crlf s = s"

definition replace_cr :: "string \<Rightarrow> string" where
  "replace_cr s = map (\<lambda>c. if c = CR then LF else c) s"

fun split_lines :: "string \<Rightarrow> string list" where
  "split_lines [] = [[]]"
| "split_lines (c # s) =
     (if c = LF then [] # split_lines s
      else (case split_lines s of [] \<Rightarrow> [[c]] | l # ls \<Rightarrow> (c # l) # ls))"

fun join_with :: "string \<Rightarrow> string list \<Rightarrow> string" where
  "join_with sep [] = []"
| "join_with sep [x] = x"
| "join_with sep (x # y # xs) = x @ sep @ join_with sep (y # xs)"

definition text_norm :: "prims \<Rightarrow> string \<Rightarrow> string" where
  "text_norm P value =
     (let value = nfc P (replace_cr (replace_crlf value))
      in strip (join_with [LF] (map rstrip (split_lines value))))"

section \<open>Canonical JSON text\<close>

definition hex_char :: "nat \<Rightarrow> char" where
  "hex_char n = hex_digits ! (n mod 16)"

definition json_escape_char :: "char \<Rightarrow> string" where
  "json_escape_char c =
     (let n = (of_char c :: nat) in
      if c = CHR 0x22 then [CHR 0x5C, CHR 0x22]
      else if c = CHR 0x5C then [CHR 0x5C, CHR 0x5C]
      else if n = 8 then [CHR 0x5C, CHR ''b'']
      else if n = 12 then [CHR 0x5C, CHR ''f'']
      else if n = 10 then [CHR 0x5C, CHR ''n'']
      else if n = 13 then [CHR 0x5C, CHR ''r'']
      else if n = 9 then [CHR 0x5C, CHR ''t'']
      else if n < 32 then [CHR 0x5C, CHR ''u'', CHR ''0'', CHR ''0'', hex_char (n div 16), hex_char n]
      else [c])"

definition json_string :: "string \<Rightarrow> string" where
  "json_string s = CHR 0x22 # concat (map json_escape_char s) @ [CHR 0x22]"

fun json_dumps :: "json \<Rightarrow> string" where
  "json_dumps JNull = ''null''"
| "json_dumps (JBool b) = (if b then ''true'' else ''false'')"
| "json_dumps (JInt i) = int_repr i"
| "json_dumps (JFloat r) = r"
| "json_dumps (JStr s) = json_string s"
| "json_dumps (JArr xs) = ''['' @ join_with '','' (map json_dumps xs) @ '']''"
| "json_dumps (JObj kvs) =
     ''{'' @ join_with '','' (map (\<lambda>(k, t). json_string k @ '':'' @ t)
                 (sort_key fst (map (\<lambda>(k, v). (k, json_dumps v)) kvs))) @ ''}''"

section \<open>Normal form\<close>

fun normalize_keys :: "prims \<Rightarrow> pyval list \<Rightarrow> string list \<Rightarrow> string list res" where
  "normalize_keys P [] seen = Inr []"
| "normalize_keys P (key # ks) seen =
     (case key of
        PStr k \<Rightarrow>
          (let normalized_key = nfc P k in
           raise_if (normalized_key \<in> set seen) ''Canonical mapping keys collide after NFC normalization''
             (rbind (normalize_keys P ks (normalized_key # seen)) (\<lambda>nks. Inr (normalized_key # nks))))
      | _ \<Rightarrow> Inl TypeError)"

fun normalize :: "prims \<Rightarrow> pyval \<Rightarrow> json res" where
  "normalize P (PStr s) = Inr (JStr (text_norm P s))"
| "normalize P (PDict kvs) =
     rbind (normalize_keys P (map fst kvs) []) (\<lambda>nks.
       let entries = sort_key fst (zip nks (map (\<lambda>kv. normalize P (snd kv)) kvs)) in
       rbind (sequence (map snd entries)) (\<lambda>vs. Inr (JObj (zip (map fst entries) vs))))"
| "normalize P (PList xs) = rbind (sequence (map (normalize P) xs)) (\<lambda>vs. Inr (JArr vs))"
| "normalize P (PTuple xs) = rbind (sequence (map (normalize P) xs)) (\<lambda>vs. Inr (JArr vs))"
| "normalize P (PSet xs) =
     rbind (sequence (map (normalize P) xs)) (\<lambda>items. Inr (JArr (sort_key json_dumps items)))"
| "normalize P (PBool b) = Inr (JBool b)"
| "normalize P (PInt i) = Inr (JInt i)"
| "normalize P PNone = Inr JNull"
| "normalize P (PFloat (Finite r)) = Inr (JFloat r)"
| "normalize P (PFloat NonFinite) = Inl (ValueError ''NaN and infinite floats are not canonical values'')"
| "normalize P POther = Inl TypeError"

definition canonical_payload :: "prims \<Rightarrow> pyval \<Rightarrow> string res" where
  "canonical_payload P value = rbind (normalize P value) (\<lambda>j. Inr (json_dumps j))"

definition digest :: "prims \<Rightarrow> pyval \<Rightarrow> string res" where
  "digest P value = rbind (canonical_payload P value) (\<lambda>text. Inr (''sha256:'' @ sha256_hex P text))"

text \<open>\<open>digest(...).split(":", 1)[1]\<close>\<close>

definition after_colon :: "string \<Rightarrow> string" where
  "after_colon s = tl (dropWhile (\<lambda>c. c \<noteq> CHR '':'') s)"

definition digest_hex :: "prims \<Rightarrow> pyval \<Rightarrow> string res" where
  "digest_hex P value = rbind (digest P value) (\<lambda>d. Inr (after_colon d))"

section \<open>The JSON text determines the value\<close>

text \<open>
  Every JSON text is read back without looking past its end: whatever follows starts with one of
  the delimiters (or is empty), and equal texts followed by delimited rests come from equal
  values.
\<close>

definition num_char :: "char \<Rightarrow> bool" where
  "num_char c \<longleftrightarrow> is_digit c \<or> c \<in> set ''+-.e''"

definition float_repr_ok :: "string \<Rightarrow> bool" where
  "float_repr_ok r \<longleftrightarrow> list_all num_char r \<and> list_ex (\<lambda>c. c = CHR ''.'' \<or> c = CHR ''e'') r"

definition delimited :: "string \<Rightarrow> bool" where
  "delimited r \<longleftrightarrow> r = [] \<or> hd r \<in> set '',]}''"

fun json_ok :: "json \<Rightarrow> bool" where
  "json_ok (JFloat r) = float_repr_ok r"
| "json_ok (JArr xs) = list_all json_ok xs"
| "json_ok (JObj kvs) = (sorted_wrt (<) (map fst kvs) \<and> list_all (\<lambda>kv. json_ok (snd kv)) kvs)"
| "json_ok _ = True"

definition uniquely_read :: "('a \<Rightarrow> string) \<Rightarrow> ('a \<Rightarrow> bool) \<Rightarrow> 'a \<Rightarrow> bool" where
  "uniquely_read f ok x \<longleftrightarrow>
     (\<forall>y r r'. ok y \<longrightarrow> delimited r \<longrightarrow> delimited r' \<longrightarrow> f x @ r = f y @ r' \<longrightarrow> x = y \<and> r = r')"

lemma uniquely_readD:
  "uniquely_read f ok x \<Longrightarrow> f x @ r = f y @ r' \<Longrightarrow> ok y \<Longrightarrow> delimited r \<Longrightarrow> delimited r' \<Longrightarrow> x = y \<and> r = r'"
  by (simp add: uniquely_read_def)

subsection \<open>Strings\<close>

text \<open>Reading one escaped character back.\<close>

definition hex_value :: "char \<Rightarrow> nat" where
  "hex_value c = length (takeWhile (\<lambda>d. d \<noteq> c) hex_digits)"

lemma hex_value_char: "n < 16 \<Longrightarrow> hex_value (hex_char n) = n"
proof -
  assume n: "n < 16"
  have d: "distinct hex_digits" "length hex_digits = 16" by (simp_all add: hex_digits_def)
  have "takeWhile (\<lambda>d. d \<noteq> hex_digits ! n) hex_digits = take n hex_digits"
    using n d by (intro takeWhile_eq_take_P_nth) (simp_all add: nth_eq_iff_index_eq)
  with n d show ?thesis by (simp add: hex_value_def hex_char_def)
qed

definition unescape :: "string \<Rightarrow> char \<times> string" where
  "unescape s =
     (if hd s \<noteq> CHR 0x5C then (hd s, tl s)
      else let k = s ! 1 in
        if k = CHR ''u'' then (char_of (16 * hex_value (s ! 4) + hex_value (s ! 5)), drop 6 s)
        else (if k = CHR ''b'' then CHR 0x08 else if k = CHR ''f'' then CHR 0x0C
              else if k = CHR ''n'' then CHR 0x0A else if k = CHR ''r'' then CHR 0x0D
              else if k = CHR ''t'' then CHR 0x09 else k, drop 2 s))"

lemma char_eq_nat: "c = d" if "(of_char c :: nat) = n" "(of_char d :: nat) = n"
  using that by (metis of_char_eq_iff)

lemma char_eq_CHR:
  "(of_char c :: nat) = 8 \<Longrightarrow> c = CHR 0x08" "(of_char c :: nat) = 12 \<Longrightarrow> c = CHR 0x0C"
  "(of_char c :: nat) = 10 \<Longrightarrow> c = CHR 0x0A" "(of_char c :: nat) = 13 \<Longrightarrow> c = CHR 0x0D"
  "(of_char c :: nat) = 9 \<Longrightarrow> c = CHR 0x09"
  by (erule char_eq_nat, simp)+

lemma unescape_escape: "unescape (json_escape_char c @ x) = (c, x)"
proof -
  consider "c = CHR 0x22" | "c = CHR 0x5C" | "(of_char c :: nat) = 8" | "(of_char c :: nat) = 12"
    | "(of_char c :: nat) = 10" | "(of_char c :: nat) = 13" | "(of_char c :: nat) = 9"
    | "c \<noteq> CHR 0x22" "c \<noteq> CHR 0x5C" "(of_char c :: nat) \<notin> {8, 9, 10, 12, 13}" "(of_char c :: nat) < 32"
    | "c \<noteq> CHR 0x22" "c \<noteq> CHR 0x5C" "(of_char c :: nat) \<notin> {8, 9, 10, 12, 13}" "\<not> (of_char c :: nat) < 32"
    by blast
  then show ?thesis
  proof cases
    case 8
    have "hex_value (hex_char (of_char c)) = of_char c mod 16"
      using hex_value_char [of "of_char c mod 16"] by (simp add: hex_char_def)
    moreover have "hex_value (hex_char (of_char c div 16)) = of_char c div 16"
      using 8 by (intro hex_value_char) simp
    ultimately have "16 * hex_value (hex_char (of_char c div 16)) + hex_value (hex_char (of_char c)) = (of_char c :: nat)"
      by simp
    with 8 show ?thesis by (simp add: unescape_def json_escape_char_def Let_def)
  next
    case 3
    then show ?thesis using char_eq_CHR(1) [OF 3] by (simp add: unescape_def json_escape_char_def)
  next
    case 4
    then show ?thesis using char_eq_CHR(2) [OF 4] by (simp add: unescape_def json_escape_char_def)
  next
    case 5
    then show ?thesis using char_eq_CHR(3) [OF 5] by (simp add: unescape_def json_escape_char_def)
  next
    case 6
    then show ?thesis using char_eq_CHR(4) [OF 6] by (simp add: unescape_def json_escape_char_def)
  next
    case 7
    then show ?thesis using char_eq_CHR(5) [OF 7] by (simp add: unescape_def json_escape_char_def)
  qed (simp_all add: unescape_def json_escape_char_def Let_def)
qed

lemma json_escape_char_inject:
  "json_escape_char c @ x = json_escape_char d @ y \<Longrightarrow> c = d \<and> x = y"
  by (metis unescape_escape prod.inject)

lemma json_escape_char_hd: "\<exists>h t. json_escape_char c = h # t \<and> h \<noteq> CHR 0x22"
  by (auto simp: json_escape_char_def Let_def)

lemma json_escape_inject:
  "concat (map json_escape_char s) @ CHR 0x22 # r = concat (map json_escape_char t) @ CHR 0x22 # r' \<Longrightarrow>
   s = t \<and> r = r'"
proof (induction s arbitrary: t)
  case Nil
  show ?case
  proof (cases t)
    case (Cons d t')
    obtain h u where "json_escape_char d = h # u" "h \<noteq> CHR 0x22"
      using json_escape_char_hd by blast
    with Nil Cons show ?thesis by simp
  qed (use Nil in simp)
next
  case (Cons c s)
  show ?case
  proof (cases t)
    case Nil
    then show ?thesis using Cons.prems json_escape_char_hd [of c] by auto
  next
    case (Cons d t')
    with Cons.prems have "json_escape_char c @ concat (map json_escape_char s) @ CHR 0x22 # r =
        json_escape_char d @ concat (map json_escape_char t') @ CHR 0x22 # r'" by simp
    from json_escape_char_inject [OF this] Cons.IH Cons show ?thesis by blast
  qed
qed

lemma json_string_inject: "json_string s @ r = json_string t @ r' \<Longrightarrow> s = t \<and> r = r'"
  using json_escape_inject [of s r t r'] by (simp add: json_string_def)

subsection \<open>Numbers\<close>

lemma num_prefix_inject:
  assumes "list_all num_char s" "list_all num_char t" "delimited r" "delimited r'" "s @ r = t @ r'"
  shows "s = t \<and> r = r'"
proof -
  have tw: "takeWhile num_char (s @ r) = s" if "list_all num_char s" "delimited r" for s r
  proof -
    have "\<not> num_char (hd r)" if "r \<noteq> []"
      using \<open>delimited r\<close> that by (auto simp: delimited_def num_char_def is_digit_def)
    then have "takeWhile num_char r = []" by (cases r) auto
    then show ?thesis using that(1) by (simp add: takeWhile_append2 list_all_iff)
  qed
  have "s = t" using tw [OF assms(1,3)] tw [OF assms(2,4)] assms(5) by simp
  then show ?thesis using assms(5) by simp
qed

lemma int_repr_num: "list_all num_char (int_repr i)"
  by (auto simp: int_repr_def list_all_iff num_char_def dest: nat_repr_digits)

lemma int_repr_not_float: "\<not> float_repr_ok (int_repr i)"
proof -
  have "c \<noteq> CHR ''.'' \<and> c \<noteq> CHR ''e''" if "c \<in> set (nat_repr n)" for c n
    using nat_repr_digits [OF that] by (auto simp: is_digit_def)
  then show ?thesis by (auto simp: float_repr_ok_def int_repr_def list_ex_iff split: if_splits)
qed

subsection \<open>Sequences\<close>

lemma join_with_Cons: "join_with sep (x # xs) = x @ (if xs = [] then [] else sep @ join_with sep xs)"
  by (cases xs) auto

lemma join_with_inject:
  assumes "\<And>x. x \<in> set xs \<Longrightarrow> uniquely_read f ok x"
    and "close \<in> set '']}''"
    and hd: "\<And>x. ok x \<Longrightarrow> \<exists>c s. f x = c # s \<and> c \<noteq> close"
    and "join_with '','' (map f xs) @ close # r = join_with '','' (map f ys) @ close # r'"
    and "list_all ok xs" and "list_all ok ys"
  shows "xs = ys \<and> r = r'"
  using assms(1,4,5,6)
proof (induction xs arbitrary: ys)
  case Nil
  show ?case
  proof (cases ys)
    case Nil
    then show ?thesis using Nil.prems by simp
  next
    case (Cons y ys')
    then obtain c s where "f y = c # s" "c \<noteq> close" using hd [of y] Nil.prems by auto
    then show ?thesis using Nil.prems Cons by (simp add: join_with_Cons)
  qed
next
  case (Cons x xs)
  show ?case
  proof (cases ys)
    case Nil
    obtain c s where "f x = c # s" "c \<noteq> close" using hd [of x] Cons.prems by auto
    then show ?thesis using Cons.prems(2) Nil by (simp add: join_with_Cons)
  next
    case (Cons y ys')
    let ?rest = "\<lambda>zs q. (if zs = [] then [] else '','' @ join_with '','' (map f zs)) @ close # q"
    have eq: "f x @ ?rest xs r = f y @ ?rest ys' r'"
      using Cons.prems(2) Cons by (auto simp: join_with_Cons)
    moreover have "delimited (?rest zs q)" for zs q using assms(2) by (auto simp: delimited_def)
    ultimately have "x = y \<and> ?rest xs r = ?rest ys' r'"
      using Cons.prems(1,4) Cons by (intro uniquely_readD [where f = f and ok = ok]) auto
    then have xy: "x = y" and rest: "?rest xs r = ?rest ys' r'" by blast+
    from rest assms(2) have "xs = [] \<longleftrightarrow> ys' = []" by (auto split: if_splits)
    with rest have "join_with '','' (map f xs) @ close # r = join_with '','' (map f ys') @ close # r'"
      by (auto split: if_splits)
    then have "xs = ys' \<and> r = r'" using Cons.IH Cons.prems(1,3,4) Cons by auto
    with xy Cons show ?thesis by simp
  qed
qed

subsection \<open>Values\<close>

lemma json_dumps_hd:
  assumes "json_ok j"
  obtains c s where "json_dumps j = c # s" "c \<notin> set '',]}:''"
    "num_char c \<longleftrightarrow> (\<exists>i. j = JInt i) \<or> (\<exists>r. j = JFloat r)"
proof -
  have num: "\<exists>c s. t = c # s \<and> c \<notin> set '',]}:'' \<and> num_char c" if "t \<noteq> []" "list_all num_char t" for t
    using that by (cases t) (auto simp: num_char_def is_digit_def)
  show ?thesis
  proof (cases j)
    case (JInt i)
    then show ?thesis using num [OF int_repr_nonempty int_repr_num, of i] that by auto
  next
    case (JFloat r)
    then have "r \<noteq> []" "list_all num_char r" using assms by (auto simp: float_repr_ok_def)
    then show ?thesis using num [of r] that JFloat by auto
  next
    case (JBool b)
    then show ?thesis using that by (cases b) (auto simp: num_char_def is_digit_def)
  qed (use that in \<open>auto simp: num_char_def is_digit_def json_string_def\<close>)
qed

lemma sort_key_fst_sorted: "sorted_wrt (<) (map fst kvs) \<Longrightarrow> sort_key fst kvs = kvs"
  by (simp add: sort_key_id_if_sorted strict_sorted_iff)

lemma json_dumps_obj:
  assumes "sorted_wrt (<) (map fst kvs)"
  shows "json_dumps (JObj kvs) =
    ''{'' @ join_with '','' (map (\<lambda>kv. json_string (fst kv) @ '':'' @ json_dumps (snd kv)) kvs) @ ''}''"
proof -
  have "sort_key fst (map (\<lambda>(k, v). (k, json_dumps v)) kvs) = map (\<lambda>(k, v). (k, json_dumps v)) kvs"
    using assms by (intro sort_key_fst_sorted) (simp add: comp_def case_prod_unfold)
  then show ?thesis by (simp add: comp_def case_prod_unfold)
qed

fun json_kind :: "json \<Rightarrow> char" where
  "json_kind JNull = CHR ''n''"
| "json_kind (JBool b) = (if b then CHR ''t'' else CHR ''f'')"
| "json_kind (JInt i) = CHR ''0''"
| "json_kind (JFloat r) = CHR ''0''"
| "json_kind (JStr s) = CHR 0x22"
| "json_kind (JArr xs) = CHR ''[''"
| "json_kind (JObj kvs) = CHR ''{''"

lemma json_kind_hd:
  assumes "json_ok j"
  shows "json_kind j = (if num_char (hd (json_dumps j)) then CHR ''0'' else hd (json_dumps j))"
proof -
  obtain c s where "json_dumps j = c # s"
    "num_char c \<longleftrightarrow> (\<exists>i. j = JInt i) \<or> (\<exists>r. j = JFloat r)"
    using json_dumps_hd [OF assms] by metis
  then show ?thesis by (cases j) (auto simp: json_string_def)
qed

lemma json_kind_eq:
  assumes "json_ok a" "json_ok b" "json_dumps a @ r = json_dumps b @ r'"
  shows "json_kind a = json_kind b"
proof -
  have "json_dumps a \<noteq> []" "json_dumps b \<noteq> []"
    using json_dumps_hd [OF assms(1)] json_dumps_hd [OF assms(2)] by (metis list.discI)+
  then have "hd (json_dumps a) = hd (json_dumps b)"
    using assms(3) by (metis hd_append2)
  then show ?thesis using json_kind_hd assms(1,2) by simp
qed

lemma json_dumps_num:
  assumes "json_ok a" "json_kind a = CHR ''0''"
  shows "list_all num_char (json_dumps a)"
  using assms by (cases a) (auto simp: int_repr_num float_repr_ok_def split: if_splits)

lemma json_dumps_num_inject:
  assumes "json_ok a" "json_ok b" "json_kind a = CHR ''0''" "json_kind b = CHR ''0''"
    and "json_dumps a = json_dumps b"
  shows "a = b"
  using assms by (cases a; cases b) (auto simp: int_repr_inject int_repr_not_float split: if_splits)

lemma uniquely_read_num:
  assumes "json_ok a" "json_kind a = CHR ''0''"
  shows "uniquely_read json_dumps json_ok a"
  unfolding uniquely_read_def
proof (intro allI impI)
  fix b r r'
  assume *: "json_ok b" "delimited r" "delimited r'" "json_dumps a @ r = json_dumps b @ r'"
  then have kb: "json_kind b = CHR ''0''" using assms json_kind_eq by metis
  then have "json_dumps a = json_dumps b \<and> r = r'"
    using * assms by (intro num_prefix_inject) (auto intro: json_dumps_num)
  then show "a = b \<and> r = r'"
    using json_dumps_num_inject assms * kb by blast
qed

lemma uniquely_read_arr:
  assumes "\<And>x. x \<in> set xs \<Longrightarrow> uniquely_read json_dumps json_ok x" "json_ok (JArr xs)"
  shows "uniquely_read json_dumps json_ok (JArr xs)"
  unfolding uniquely_read_def
proof (intro allI impI)
  fix b r r'
  assume *: "json_ok b" "delimited r" "delimited r'" "json_dumps (JArr xs) @ r = json_dumps b @ r'"
  then have "json_kind b = CHR ''[''" using assms json_kind_eq [of "JArr xs" b r r'] by simp
  then obtain ys where b: "b = JArr ys" by (cases b) (auto split: if_splits)
  have "xs = ys \<and> r = r'"
  proof (rule join_with_inject [where f = json_dumps and ok = json_ok and close = "CHR '']''"])
    show "join_with '','' (map json_dumps xs) @ CHR '']'' # r = join_with '','' (map json_dumps ys) @ CHR '']'' # r'"
      using * b by simp
    show "list_all json_ok ys" using * b by simp
  qed (use assms in \<open>auto elim: json_dumps_hd\<close>)
  with b show "JArr xs = b \<and> r = r'" by simp
qed

lemma uniquely_read_obj:
  assumes "\<And>kv. kv \<in> set kvs \<Longrightarrow> uniquely_read json_dumps json_ok (snd kv)" "json_ok (JObj kvs)"
  shows "uniquely_read json_dumps json_ok (JObj kvs)"
  unfolding uniquely_read_def
proof (intro allI impI)
  fix b r r'
  let ?f = "\<lambda>kv. json_string (fst kv) @ '':'' @ json_dumps (snd kv)"
  let ?ok = "\<lambda>kv. json_ok (snd kv)"
  assume *: "json_ok b" "delimited r" "delimited r'" "json_dumps (JObj kvs) @ r = json_dumps b @ r'"
  then have "json_kind b = CHR ''{''" using assms json_kind_eq [of "JObj kvs" b r r'] by simp
  then obtain ys where b: "b = JObj ys" by (cases b) (auto split: if_splits)
  have item: "uniquely_read ?f ?ok kv" if "kv \<in> set kvs" for kv
    unfolding uniquely_read_def
  proof (intro allI impI)
    fix y q q'
    assume **: "json_ok (snd y)" "delimited q" "delimited q'" "?f kv @ q = ?f y @ q'"
    then have "fst kv = fst y \<and> '':'' @ json_dumps (snd kv) @ q = '':'' @ json_dumps (snd y) @ q'"
      by (intro json_string_inject) simp
    moreover from this have "snd kv = snd y \<and> q = q'"
      using uniquely_readD [OF assms(1) [OF that], of q "snd y" q'] ** by simp
    ultimately show "kv = y \<and> q = q'" by (simp add: prod_eq_iff)
  qed
  have "kvs = ys \<and> r = r'"
  proof (rule join_with_inject [where f = ?f and ok = ?ok and close = "CHR ''}''"])
    show "join_with '','' (map ?f kvs) @ CHR ''}'' # r = join_with '','' (map ?f ys) @ CHR ''}'' # r'"
      using * b assms(2) by (simp add: json_dumps_obj del: json_dumps.simps)
    show "list_all ?ok ys" "list_all ?ok kvs" using * b assms(2) by simp_all
  qed (use item in \<open>auto simp: json_string_def\<close>)
  with b show "JObj kvs = b \<and> r = r'" by simp
qed

lemma uniquely_read_scalar:
  assumes "a = JNull \<or> (\<exists>b. a = JBool b) \<or> (\<exists>s. a = JStr s)"
  shows "uniquely_read json_dumps json_ok a"
  unfolding uniquely_read_def
proof (intro allI impI)
  fix b r r'
  assume *: "json_ok b" "json_dumps a @ r = json_dumps b @ r'"
  have "json_ok a" using assms by auto
  then have k: "json_kind a = json_kind b" using * by (intro json_kind_eq) auto
  show "a = b \<and> r = r'"
    using assms k *(2) by (cases b) (auto split: if_splits dest: json_string_inject)
qed

lemma json_dumps_uniquely_read: "json_ok a \<Longrightarrow> uniquely_read json_dumps json_ok a"
proof (induction a)
  case (JArr xs)
  then show ?case by (intro uniquely_read_arr) (auto simp: list_all_iff)
next
  case (JObj kvs)
  have "uniquely_read json_dumps json_ok (snd kv)" if "kv \<in> set kvs" for kv
    using JObj.IH [OF that, of "snd kv"] JObj.prems that by (cases kv) (auto simp: list_all_iff)
  then show ?case using JObj.prems by (rule uniquely_read_obj)
qed (auto intro: uniquely_read_num uniquely_read_scalar)

lemma json_dumps_inject:
  assumes "json_ok a" "json_ok b" "json_dumps a = json_dumps b"
  shows "a = b"
  using uniquely_readD [OF json_dumps_uniquely_read [OF assms(1)], of "[]" b "[]"] assms
  by (simp add: delimited_def)

section \<open>Properties of the normal form\<close>

text \<open>The floats of a value print as JSON numbers (what \<open>float.__repr__\<close> produces).\<close>

fun floats_ok :: "pyval \<Rightarrow> bool" where
  "floats_ok (PFloat (Finite r)) = float_repr_ok r"
| "floats_ok (PList xs) = list_all floats_ok xs"
| "floats_ok (PTuple xs) = list_all floats_ok xs"
| "floats_ok (PSet xs) = list_all floats_ok xs"
| "floats_ok (PDict kvs) = list_all (\<lambda>kv. floats_ok (snd kv)) kvs"
| "floats_ok _ = True"

lemma normalize_keys_Inr:
  "normalize_keys P ks seen = Inr nks \<longleftrightarrow>
     (\<exists>ss. ks = map PStr ss \<and> nks = map (nfc P) ss \<and> distinct nks \<and> set nks \<inter> set seen = {})"
proof (induction ks arbitrary: seen nks)
  case (Cons k ks)
  show ?case
    by (cases k) (auto simp: Let_def res_simps Cons.IH Cons_eq_map_conv)
qed auto

lemma sort_entries_map:
  "sort_key fst (zip ks (map f vs)) = map (\<lambda>kv. (fst kv, f (snd kv))) (sort_key fst (zip ks vs))"
proof -
  have "zip ks (map f vs) = map (\<lambda>kv. (fst kv, f (snd kv))) (zip ks vs)"
    by (simp add: zip_map2 case_prod_unfold)
  then show ?thesis by (simp only: sort_key_map fst_conv)
qed

lemma sequence_sorted_entries:
  fixes ns :: "'a res list"
  assumes "length ks = length ns"
  shows "sequence (map snd (sort_key fst (zip ks ns))) = Inr ws \<longleftrightarrow>
     (\<exists>vs. ns = map Inr vs \<and> ws = map snd (sort_key fst (zip ks vs)))"
proof
  assume "sequence (map snd (sort_key fst (zip ks ns))) = Inr ws"
  then have *: "map snd (sort_key fst (zip ks ns)) = map Inr ws" by (simp add: sequence_Inr)
  have "set ns = set (map snd (zip ks ns))" using assms by simp
  also have "\<dots> = set (map snd (sort_key fst (zip ks ns)))" by simp
  also have "\<dots> \<subseteq> range Inr" using * by auto
  finally obtain vs where vs: "ns = map Inr vs" by (metis ex_map_conv image_iff subset_iff)
  with * have "map (Inr :: 'a \<Rightarrow> 'a res) (map snd (sort_key fst (zip ks vs))) = map Inr ws"
    by (simp add: sort_entries_map comp_def)
  then have "ws = map snd (sort_key fst (zip ks vs))"
    by (metis inj_Inr inj_map_eq_map)
  with vs show "\<exists>vs. ns = map Inr vs \<and> ws = map snd (sort_key fst (zip ks vs))" by blast
next
  assume "\<exists>vs. ns = map Inr vs \<and> ws = map snd (sort_key fst (zip ks vs))"
  then show "sequence (map snd (sort_key fst (zip ks ns))) = Inr ws"
    by (auto simp: sort_entries_map sequence_Inr comp_def)
qed

lemma normalize_PDict_Inr:
  "normalize P (PDict kvs) = Inr j \<longleftrightarrow>
     (\<exists>ss vs. map fst kvs = map PStr ss \<and> distinct (map (nfc P) ss) \<and>
        map (\<lambda>kv. normalize P (snd kv)) kvs = map Inr vs \<and>
        j = JObj (sort_key fst (zip (map (nfc P) ss) vs)))"
proof -
  define ns where "ns = map (\<lambda>kv. normalize P (snd kv)) kvs"
  have entries: "(\<exists>ws. sequence (map snd (sort_key fst (zip ks ns))) = Inr ws
      \<and> JObj (zip (map fst (sort_key fst (zip ks ns))) ws) = j)
    \<longleftrightarrow> (\<exists>vs. ns = map Inr vs \<and> j = JObj (sort_key fst (zip ks vs)))"
    if "length ks = length ns" for ks
    unfolding sequence_sorted_entries [OF that]
    by (auto simp: sort_entries_map comp_def zip_map_fst_snd)
  have len: "length (map (nfc P) ss) = length ns" if "map fst kvs = map PStr ss" for ss
    using that unfolding ns_def by (metis length_map)
  have "normalize P (PDict kvs) = Inr j \<longleftrightarrow>
     (\<exists>ss. map fst kvs = map PStr ss \<and> distinct (map (nfc P) ss) \<and>
       (\<exists>ws. sequence (map snd (sort_key fst (zip (map (nfc P) ss) ns))) = Inr ws
         \<and> JObj (zip (map fst (sort_key fst (zip (map (nfc P) ss) ns))) ws) = j))"
    by (auto simp: Let_def res_simps normalize_keys_Inr ns_def)
  also have "\<dots> \<longleftrightarrow> (\<exists>ss vs. map fst kvs = map PStr ss \<and> distinct (map (nfc P) ss) \<and>
        ns = map Inr vs \<and> j = JObj (sort_key fst (zip (map (nfc P) ss) vs)))"
    using entries len by blast
  finally show ?thesis unfolding ns_def .
qed

lemma normalize_json_ok: "normalize P v = Inr j \<Longrightarrow> floats_ok v \<Longrightarrow> json_ok j"
proof (induction v arbitrary: j rule: floats_ok.induct)
  case (5 kvs)
  then obtain ss vs where *: "map fst kvs = map PStr ss" "distinct (map (nfc P) ss)"
      "map (\<lambda>kv. normalize P (snd kv)) kvs = map Inr vs" "j = JObj (sort_key fst (zip (map (nfc P) ss) vs))"
    by (auto simp only: normalize_PDict_Inr)
  have len: "length ss = length vs" using * by (metis length_map)
  have "json_ok v" if v: "v \<in> set vs" for v
    using map_Inr_elem [OF *(3) v] "5.IH" "5.prems"(2) by (auto simp: list_all_iff)
  moreover have "distinct (map fst (sort_key fst (zip (map (nfc P) ss) vs)))"
    using * len by (simp add: distinct_map_sort_key)
  ultimately show ?case
    using * by (auto simp: strict_sorted_iff list_all_iff dest: set_zip_rightD)
qed (auto simp: res_simps list_all_iff, (metis map_Inr_elem)+)

lemma canonical_payload_inject:
  assumes "floats_ok a" "floats_ok b"
    and "canonical_payload P a = Inr s" "canonical_payload P b = Inr s"
  shows "normalize P a = normalize P b"
proof -
  obtain j k where "normalize P a = Inr j" "normalize P b = Inr k" "json_dumps j = s" "json_dumps k = s"
    using assms(3,4) by (auto simp: canonical_payload_def res_simps)
  then show ?thesis using json_dumps_inject assms(1,2) normalize_json_ok by metis
qed

text \<open>Mapping order and set enumeration order do not matter.\<close>

lemma normalize_keys_perm:
  assumes "mset kvs = mset kvs'" "map fst kvs = map PStr ss"
  obtains ss' where "map fst kvs' = map PStr ss'" "mset ss' = mset ss"
proof -
  have "set (map fst kvs') = set (map fst kvs)" using assms(1) by (metis mset_map set_mset_mset)
  then have "set (map fst kvs') \<subseteq> range PStr" using assms(2) by auto
  then obtain ss' where ss': "map fst kvs' = map PStr ss'" by (metis ex_map_conv image_iff subset_iff)
  have "image_mset PStr (mset ss') = image_mset PStr (mset ss)"
    using assms ss' by (metis mset_map)
  then have "mset ss' = mset ss" by (rule multiset.inj_map [OF PStr_inj, THEN injD])
  with ss' that show ?thesis by blast
qed

lemma normalize_dict_perm:
  assumes "mset kvs = mset kvs'" and ok: "normalize P (PDict kvs) = Inr j"
  shows "normalize P (PDict kvs') = Inr j"
proof -
  obtain ss vs where *: "map fst kvs = map PStr ss" "distinct (map (nfc P) ss)"
      "map (\<lambda>kv. normalize P (snd kv)) kvs = map Inr vs" "j = JObj (sort_key fst (zip (map (nfc P) ss) vs))"
    using ok by (auto simp only: normalize_PDict_Inr)
  let ?g = "\<lambda>kv. (nfc P (str_of (fst kv)), projr (normalize P (snd kv)))"
  have z: "zip (map (nfc P) ss) vs = map ?g kvs" if
    "map fst kvs = map PStr ss" "map (\<lambda>kv. normalize P (snd kv)) kvs = map Inr vs" for kvs ss vs
  proof -
    have "ss = map (\<lambda>kv. str_of (fst kv)) kvs" using that(1)
      by (metis (no_types, lifting) list.map_comp list.map_ident_strong comp_apply map_eq_conv str_of.simps(1))
    moreover have "vs = map (\<lambda>kv. projr (normalize P (snd kv))) kvs" using that(2)
      by (metis (no_types, lifting) list.map_comp list.map_ident_strong comp_apply map_eq_conv sum.sel(2))
    ultimately show ?thesis by (simp add: zip_map_map comp_def zip_same_conv_map)
  qed
  obtain ss' where ss': "map fst kvs' = map PStr ss'" "mset ss' = mset ss"
    using normalize_keys_perm assms(1) *(1) by blast
  have "set (map (\<lambda>kv. normalize P (snd kv)) kvs') \<subseteq> range Inr"
    using assms(1) *(3) by (metis list.set_map mset_map set_mset_mset image_subset_iff rangeI)
  then obtain vs' where vs': "map (\<lambda>kv. normalize P (snd kv)) kvs' = map Inr vs'"
    by (metis ex_map_conv image_iff subset_iff)
  have "sort_key fst (zip (map (nfc P) ss) vs) = sort_key fst (zip (map (nfc P) ss') vs')"
  proof (rule sort_key_mset_cong)
    show "mset (zip (map (nfc P) ss) vs) = mset (zip (map (nfc P) ss') vs')"
      unfolding z [OF *(1,3)] z [OF ss'(1) vs'] using assms(1) by (metis mset_map)
    have "length ss = length vs" using * by (metis length_map)
    then have "distinct (map fst (zip (map (nfc P) ss) vs))" using *(2) by simp
    then show "inj_on fst (set (zip (map (nfc P) ss) vs))" by (simp add: distinct_map)
  qed
  moreover have "distinct (map (nfc P) ss')"
    using *(2) ss'(2) by (metis mset_eq_imp_distinct_iff mset_map)
  ultimately show ?thesis using ss' vs' * by (auto simp only: normalize_PDict_Inr)
qed

lemma normalize_set_perm:
  assumes "mset xs = mset ys" "floats_ok (PSet xs)" and ok: "normalize P (PSet xs) = Inr j"
  shows "normalize P (PSet ys) = Inr j"
proof -
  obtain vs where vs: "map (normalize P) xs = map Inr vs" "j = JArr (sort_key json_dumps vs)"
    using ok by (auto simp: res_simps)
  have "set (map (normalize P) ys) \<subseteq> range Inr"
    using assms(1) vs by (metis list.set_map mset_map set_mset_mset image_subset_iff rangeI)
  then obtain ws where ws: "map (normalize P) ys = map Inr ws" by (metis ex_map_conv image_iff subset_iff)
  have "image_mset (Inr :: json \<Rightarrow> json res) (mset vs) = image_mset Inr (mset ws)"
    using vs ws assms(1) by (metis mset_map)
  then have "mset vs = mset ws" by (rule multiset.inj_map [OF inj_Inr, THEN injD])
  moreover have "json_ok v" if "v \<in> set vs" for v
    using map_Inr_elem [OF vs(1) that] normalize_json_ok assms(2) by (auto simp: list_all_iff)
  then have "inj_on json_dumps (set vs)" by (auto intro!: inj_onI json_dumps_inject)
  ultimately have "sort_key json_dumps vs = sort_key json_dumps ws" by (rule sort_key_mset_cong)
  then show ?thesis using vs ws by (simp add: res_simps)
qed

section \<open>Normalising ASCII text twice\<close>

text \<open>On ASCII text the stripping functions drop the ASCII white space.\<close>

definition ascii_ws :: "char \<Rightarrow> bool" where
  "ascii_ws c \<longleftrightarrow> (of_char c :: nat) \<in> {9, 10, 11, 12, 13, 28, 29, 30, 31, 32}"

lemma ascii_ws_LF [simp]: "ascii_ws LF"
  by (simp add: ascii_ws_def LF_def)

lemma is_ascii_simps [simp]:
  "is_ascii []" "is_ascii (c # s) \<longleftrightarrow> of_char c < (128::nat) \<and> is_ascii s"
  "is_ascii (s @ t) \<longleftrightarrow> is_ascii s \<and> is_ascii t" "is_ascii (rev s) \<longleftrightarrow> is_ascii s"
  by (auto simp: is_ascii_def list_all_iff)

lemma ws_tokens_ascii:
  assumes "t \<in> set ws_tokens" "is_ascii t"
  shows "\<exists>c. t = [c] \<and> ascii_ws c"
proof -
  have "list_all (\<lambda>t. is_ascii t \<longrightarrow> length t = 1 \<and> ascii_ws (hd t)) ws_tokens"
    by (simp add: ws_tokens_def is_ascii_def ascii_ws_def of_char_of take_bit_eq_mod)
  then have "length t = 1 \<and> ascii_ws (hd t)" using assms by (simp add: list_all_iff)
  then show ?thesis by (cases t) auto
qed

lemma ascii_ws_token: "ascii_ws c \<Longrightarrow> [c] \<in> set ws_tokens"
proof -
  assume "ascii_ws c"
  then have "c \<in> char_of ` ({9, 10, 11, 12, 13, 28, 29, 30, 31, 32} :: nat set)"
    unfolding ascii_ws_def by (metis char_of_char image_eqI)
  then show ?thesis by (auto simp: ws_tokens_def)
qed

lemma strip_front_ascii:
  assumes "\<And>t. t \<in> set toks \<Longrightarrow> is_ascii t \<Longrightarrow> \<exists>c. t = [c] \<and> ascii_ws c"
    and "\<And>c. ascii_ws c \<Longrightarrow> [c] \<in> set toks" and "is_ascii s"
  shows "strip_front toks s = dropWhile ascii_ws s"
  using assms(3)
proof (induction s)
  case Nil
  show ?case
    by (subst strip_front.simps) (auto simp: find_Some_iff split: option.splits)
next
  case (Cons c s)
  have tok: "t = [c] \<and> ascii_ws c" if "t \<in> set toks" "t \<noteq> []" "prefix t (c # s)" for t
  proof -
    have "is_ascii t" using that(3) Cons.prems by (metis is_ascii_simps(3) prefix_def)
    then show ?thesis using assms(1) [OF that(1)] that(3) by auto
  qed
  show ?case
  proof (cases "find (\<lambda>t. t \<noteq> [] \<and> prefix t (c # s)) toks")
    case None
    then have "\<not> ascii_ws c" using assms(2) [of c] by (auto simp: find_None_iff)
    with None show ?thesis by (subst strip_front.simps) simp
  next
    case (Some t)
    then have "t \<in> set toks" "t \<noteq> []" "prefix t (c # s)" by (auto simp: find_Some_iff)
    from tok [OF this] Some show ?thesis using Cons by (subst strip_front.simps) simp
  qed
qed

lemma lstrip_ascii: "is_ascii s \<Longrightarrow> lstrip s = dropWhile ascii_ws s"
  unfolding lstrip_def by (rule strip_front_ascii) (auto dest: ws_tokens_ascii ascii_ws_token)

lemma rstrip_ascii:
  assumes "is_ascii s"
  shows "rstrip s = rev (dropWhile ascii_ws (rev s))"
proof -
  have "strip_front (map rev ws_tokens) (rev s) = dropWhile ascii_ws (rev s)"
  proof (rule strip_front_ascii)
    fix c assume "ascii_ws c"
    then have "rev [c] \<in> rev ` set ws_tokens" by (intro imageI ascii_ws_token)
    then show "[c] \<in> set (map rev ws_tokens)" by simp
  qed (use assms in \<open>auto dest: ws_tokens_ascii\<close>)
  then show ?thesis by (simp add: rstrip_def)
qed

definition rstripped :: "string \<Rightarrow> bool" where
  "rstripped l \<longleftrightarrow> l = [] \<or> \<not> ascii_ws (last l)"

lemma rstrip_prefix:
  assumes "is_ascii s"
  obtains t where "s = rstrip s @ t" "rstripped (rstrip s)" "is_ascii (rstrip s)"
proof -
  have "rev s = takeWhile ascii_ws (rev s) @ dropWhile ascii_ws (rev s)" by simp
  then have s: "s = rstrip s @ rev (takeWhile ascii_ws (rev s))"
    using rstrip_ascii [OF assms] by (metis rev_append rev_rev_ident)
  have "rstripped (rstrip s)"
    using hd_dropWhile [of ascii_ws "rev s"] by (auto simp: rstripped_def rstrip_ascii [OF assms] last_rev)
  moreover have "is_ascii (rstrip s)" using s assms by (metis is_ascii_simps(3))
  ultimately show thesis using s that by blast
qed

lemma rstrip_id: "is_ascii s \<Longrightarrow> rstripped s \<Longrightarrow> rstrip s = s"
  by (cases s rule: rev_cases) (auto simp: rstrip_ascii rstripped_def)

lemma strip_visible: "is_ascii s \<Longrightarrow> list_all (\<lambda>c. \<not> ascii_ws c) s \<Longrightarrow> strip s = s"
proof -
  assume a: "is_ascii s" "list_all (\<lambda>c. \<not> ascii_ws c) s"
  have "dropWhile ascii_ws xs = xs" if "list_all (\<lambda>c. \<not> ascii_ws c) xs" for xs
    using that by (cases xs) auto
  then show ?thesis using a by (simp add: strip_def lstrip_ascii rstrip_ascii)
qed

text \<open>A text whose lines carry no trailing white space, on the characters.\<close>

fun trail_ok :: "string \<Rightarrow> bool" where
  "trail_ok [] = True"
| "trail_ok (c # s) = ((ascii_ws c \<and> c \<noteq> LF \<longrightarrow> s \<noteq> [] \<and> hd s \<noteq> LF) \<and> trail_ok s)"

lemma trail_ok_suffix: "trail_ok (xs @ ys) \<Longrightarrow> trail_ok ys"
  by (induction xs) auto

lemma trail_ok_prefix: "trail_ok (xs @ ys) \<Longrightarrow> rstripped xs \<Longrightarrow> trail_ok xs"
proof (induction xs)
  case (Cons c xs)
  then show ?case by (cases xs) (auto simp: rstripped_def)
qed simp

lemma trail_ok_line: "rstripped l \<Longrightarrow> LF \<notin> set l \<Longrightarrow> trail_ok (l @ LF # s) \<longleftrightarrow> trail_ok s"
proof (induction l)
  case (Cons c l)
  then show ?case by (cases l) (auto simp: rstripped_def)
qed simp

lemma trail_ok_last_line: "rstripped l \<Longrightarrow> LF \<notin> set l \<Longrightarrow> trail_ok l"
proof (induction l)
  case (Cons c l)
  then show ?case by (cases l) (auto simp: rstripped_def)
qed simp

lemma trail_ok_join:
  "(\<And>l. l \<in> set ls \<Longrightarrow> rstripped l \<and> LF \<notin> set l) \<Longrightarrow> trail_ok (join_with [LF] ls)"
proof (induction ls)
  case (Cons l ls)
  then show ?case by (cases ls) (auto simp: trail_ok_line trail_ok_last_line)
qed simp

lemma split_lines_nonempty [simp]: "split_lines s \<noteq> []"
  by (induction s) (auto split: list.splits)

lemma join_split_lines: "join_with [LF] (split_lines s) = s"
  by (induction s) (auto split: list.splits simp: join_with_Cons)

lemma split_lines_chars: "l \<in> set (split_lines s) \<Longrightarrow> LF \<notin> set l \<and> set l \<subseteq> set s"
proof (induction s arbitrary: l)
  case (Cons c s)
  obtain m ms where m: "split_lines s = m # ms" by (cases "split_lines s") auto
  have "LF \<notin> set m \<and> set m \<subseteq> set s" by (rule Cons.IH) (simp add: m)
  moreover have "LF \<notin> set k \<and> set k \<subseteq> set s" if "k \<in> set ms" for k by (rule Cons.IH) (simp add: m that)
  ultimately show ?case using Cons.prems m by (cases "c = LF") auto
qed simp

lemma split_lines_hd: "hd (split_lines s) = [] \<longleftrightarrow> s = [] \<or> hd s = LF"
  by (cases s) (auto split: list.splits)

lemma trail_ok_lines: "trail_ok s \<Longrightarrow> l \<in> set (split_lines s) \<Longrightarrow> rstripped l"
proof (induction s arbitrary: l)
  case (Cons c s)
  obtain m ms where m: "split_lines s = m # ms" by (cases "split_lines s") auto
  then have "m = [] \<longleftrightarrow> s = [] \<or> hd s = LF" using split_lines_hd [of s] by simp
  moreover have "rstripped m" by (rule Cons.IH) (use Cons.prems m in auto)
  moreover have "rstripped k" if "k \<in> set ms" for k by (rule Cons.IH) (use Cons.prems m that in auto)
  ultimately show ?case using Cons.prems m by (cases "c = LF"; cases "m = []") (auto simp: rstripped_def)
qed (simp add: rstripped_def)

lemma is_ascii_subset: "is_ascii s \<Longrightarrow> set t \<subseteq> set s \<Longrightarrow> is_ascii t"
  by (auto simp: is_ascii_def list_all_iff)

lemma set_replace_crlf: "set (replace_crlf s) \<subseteq> set s"
  by (induction s rule: replace_crlf.induct) auto

lemma replace_id: "CR \<notin> set s \<Longrightarrow> replace_cr (replace_crlf s) = s"
proof -
  assume *: "CR \<notin> set s"
  then have "replace_crlf s = s" by (induction s rule: replace_crlf.induct) auto
  then have "replace_cr (replace_crlf s) = map (\<lambda>c. if c = CR then LF else c) s" by (simp add: replace_cr_def)
  also have "\<dots> = s" using * by (intro map_idI) auto
  finally show ?thesis .
qed

lemma set_join_with: "set (join_with sep ls) \<subseteq> \<Union> (set ` set ls) \<union> set sep"
  by (induction sep ls rule: join_with.induct) auto

lemma text_norm_shape:
  assumes "is_ascii s"
  obtains u where "u = text_norm P s" "is_ascii u" "CR \<notin> set u" "trail_ok u" "rstripped u"
    "u = [] \<or> \<not> ascii_ws (hd u)"
proof -
  define v where "v = replace_cr (replace_crlf s)"
  have CRLF: "CR \<noteq> LF" "of_char LF < (128::nat)" by (simp_all add: CR_def LF_def)
  have "set v \<subseteq> set s \<union> {LF} - {CR}"
    using set_replace_crlf [of s] CRLF by (auto simp: v_def replace_cr_def)
  then have v: "is_ascii v" "CR \<notin> set v"
    using assms CRLF by (auto simp: is_ascii_def list_all_iff)
  define w where "w = join_with [LF] (map rstrip (split_lines v))"
  have line: "rstripped (rstrip l) \<and> LF \<notin> set (rstrip l) \<and> set (rstrip l) \<subseteq> set v"
    if "l \<in> set (split_lines v)" for l
  proof -
    have l: "LF \<notin> set l \<and> set l \<subseteq> set v" using split_lines_chars [OF that] .
    then have "is_ascii l" using v is_ascii_subset by blast
    then obtain t where "l = rstrip l @ t" "rstripped (rstrip l)" using rstrip_prefix by metis
    with l show ?thesis by (metis Un_iff set_append subset_iff)
  qed
  have w_ok: "trail_ok w" unfolding w_def by (rule trail_ok_join) (use line in auto)
  have "set w \<subseteq> set v \<union> {LF}"
    using set_join_with [of "[LF]" "map rstrip (split_lines v)"] line unfolding w_def by fastforce
  then have w: "is_ascii w" "CR \<notin> set w" using v CRLF by (auto simp: is_ascii_def list_all_iff)
  define x where "x = dropWhile ascii_ws w"
  have wx: "w = takeWhile ascii_ws w @ x" unfolding x_def by simp
  then have x: "is_ascii x" "trail_ok x" "CR \<notin> set x"
    using w w_ok trail_ok_suffix by (metis is_ascii_simps(3), metis, metis UnCI set_append)
  then obtain t where t: "x = rstrip x @ t" "rstripped (rstrip x)" "is_ascii (rstrip x)" using rstrip_prefix by metis
  have u: "text_norm P s = rstrip x"
    using v by (simp add: text_norm_def Let_def strip_def w_def [symmetric] lstrip_ascii [OF w(1)] x_def flip: v_def)
  have "rstrip x = [] \<or> \<not> ascii_ws (hd (rstrip x))"
    using t(1) hd_dropWhile [of ascii_ws w] unfolding x_def by (metis Nil_is_append_conv hd_append2)
  moreover have "trail_ok (rstrip x)" using t x trail_ok_prefix by metis
  moreover have "CR \<notin> set (rstrip x)" using t x by (metis UnCI set_append)
  ultimately show thesis using that u t by metis
qed

lemma text_norm_idem:
  assumes "is_ascii s"
  shows "text_norm P (text_norm P s) = text_norm P s"
proof -
  obtain u where u: "u = text_norm P s" "is_ascii u" "CR \<notin> set u" "trail_ok u" "rstripped u"
    "u = [] \<or> \<not> ascii_ws (hd u)"
    using text_norm_shape [OF assms] by blast
  have "rstrip l = l" if "l \<in> set (split_lines u)" for l
    using split_lines_chars [OF that] trail_ok_lines [OF u(4) that] is_ascii_subset [OF u(2)]
    by (simp add: rstrip_id)
  then have "map rstrip (split_lines u) = split_lines u" by (simp add: map_idI)
  then have "text_norm P u = strip u"
    using u by (simp add: text_norm_def replace_id join_split_lines)
  also have "\<dots> = u"
    using u(2,5,6) by (cases u) (auto simp: strip_def lstrip_ascii rstrip_id)
  finally show ?thesis using u by simp
qed

text \<open>The normal form read back as a Python value, and values all of whose text is ASCII.\<close>

fun py_of :: "json \<Rightarrow> pyval" where
  "py_of JNull = PNone"
| "py_of (JBool b) = PBool b"
| "py_of (JInt i) = PInt i"
| "py_of (JFloat r) = PFloat (Finite r)"
| "py_of (JStr s) = PStr s"
| "py_of (JArr xs) = PList (map py_of xs)"
| "py_of (JObj kvs) = PDict (map (\<lambda>kv. (PStr (fst kv), py_of (snd kv))) kvs)"

fun ascii_val :: "pyval \<Rightarrow> bool" where
  "ascii_val (PStr s) = is_ascii s"
| "ascii_val (PList xs) = list_all ascii_val xs"
| "ascii_val (PTuple xs) = list_all ascii_val xs"
| "ascii_val (PSet xs) = list_all ascii_val xs"
| "ascii_val (PDict kvs) = list_all (\<lambda>kv. is_ascii (str_of (fst kv)) \<and> ascii_val (snd kv)) kvs"
| "ascii_val _ = True"

fun canonical_json :: "prims \<Rightarrow> json \<Rightarrow> bool" where
  "canonical_json P (JStr s) = (text_norm P s = s)"
| "canonical_json P (JArr xs) = list_all (canonical_json P) xs"
| "canonical_json P (JObj kvs) =
     (sorted_wrt (<) (map fst kvs) \<and> list_all (\<lambda>kv. nfc P (fst kv) = fst kv \<and> canonical_json P (snd kv)) kvs)"
| "canonical_json P _ = True"

lemma normalize_canonical: "canonical_json P j \<Longrightarrow> normalize P (py_of j) = Inr j"
proof (induction P j rule: canonical_json.induct)
  case (2 P xs)
  then have "map (normalize P \<circ> py_of) xs = map Inr xs" by (simp add: list_all_iff)
  then show ?case by (simp add: sequence_Inr rbind_Inr)
next
  case (3 P kvs)
  let ?kvs = "map (\<lambda>kv. (PStr (fst kv), py_of (snd kv))) kvs"
  have n: "map (nfc P) (map fst kvs) = map fst kvs" using "3.prems" by (simp add: list_all_iff)
  moreover have "zip (map fst kvs) (map snd kvs) = kvs" by (simp add: zip_map_fst_snd)
  moreover have "map (\<lambda>kv. normalize P (snd kv)) ?kvs = map Inr (map snd kvs)"
    using 3 by (simp add: list_all_iff)
  moreover have "map fst ?kvs = map PStr (map fst kvs)" by simp
  ultimately show ?case
    using "3.prems" unfolding py_of.simps normalize_PDict_Inr
    by (intro exI [of _ "map fst kvs"] exI [of _ "map snd kvs"])
      (simp add: sort_key_fst_sorted strict_sorted_iff n del: map_map map_eq_conv)
qed auto

lemma normalize_PFloat: "normalize P (PFloat f) = Inr j \<longleftrightarrow> (\<exists>r. f = Finite r \<and> j = JFloat r)"
  by (cases f) auto

lemma normalize_ascii_canonical: "normalize P v = Inr j \<Longrightarrow> ascii_val v \<Longrightarrow> canonical_json P j"
proof (induction v arbitrary: j rule: ascii_val.induct)
  case (5 kvs)
  then obtain ss vs where *: "map fst kvs = map PStr ss" "distinct (map (nfc P) ss)"
      "map (\<lambda>kv. normalize P (snd kv)) kvs = map Inr vs" "j = JObj (sort_key fst (zip (map (nfc P) ss) vs))"
    by (auto simp only: normalize_PDict_Inr)
  have len: "length ss = length vs" using * by (metis length_map)
  have asc: "is_ascii s" if "s \<in> set ss" for s
  proof -
    have "PStr s \<in> set (map fst kvs)" using that *(1) by simp
    then show ?thesis using "5.prems"(2) by (fastforce simp: list_all_iff)
  qed
  then have nss: "map (nfc P) ss = ss" by (simp add: map_idI)
  have "canonical_json P v" if v: "v \<in> set vs" for v
    using map_Inr_elem [OF *(3) v] "5.IH" "5.prems"(2) by (auto simp: list_all_iff)
  moreover have "distinct (map fst (sort_key fst (zip ss vs)))"
    using * len nss by (simp add: distinct_map_sort_key)
  moreover have "nfc P s = s" if "s \<in> set ss" for s
    using asc [OF that] by simp
  ultimately show ?case
    using * nss by (auto simp: strict_sorted_iff list_all_iff dest: set_zip_rightD set_zip_leftD)
next
  case (1 s)
  then show ?case using text_norm_idem by auto
next
  case (2 xs)
  then show ?case by (force dest: map_Inr_elem simp: res_simps list_all_iff)
next
  case (3 xs)
  then show ?case by (force dest: map_Inr_elem simp: res_simps list_all_iff)
next
  case (4 xs)
  then show ?case by (force dest: map_Inr_elem simp: res_simps list_all_iff)
qed (auto simp: normalize_PFloat)


section \<open>Digests\<close>

lemma digest_Inr: "digest P v = Inr d \<longleftrightarrow> (\<exists>s. canonical_payload P v = Inr s \<and> d = ''sha256:'' @ sha256_hex P s)"
  by (auto simp: digest_def res_simps)

lemma after_colon_digest [simp]: "after_colon (''sha256:'' @ h) = h"
  by (simp add: after_colon_def)

lemma digest_hex_Inr: "digest_hex P v = Inr h \<longleftrightarrow> (\<exists>s. canonical_payload P v = Inr s \<and> h = sha256_hex P s)"
  by (auto simp: digest_hex_def digest_Inr res_simps simp del: append.simps)

lemma digest_cases: "digest P v = Inr d \<Longrightarrow> d = ''sha256:'' @ after_colon d"
  by (auto simp: digest_Inr simp del: append.simps)

text \<open>Two hashes are not confused when SHA-256 separates the two texts they are taken of.\<close>

definition separates :: "prims \<Rightarrow> string \<Rightarrow> string \<Rightarrow> bool" where
  "separates P s t \<longleftrightarrow> (sha256_hex P s = sha256_hex P t \<longrightarrow> s = t)"

definition collision_free :: "prims \<Rightarrow> pyval \<Rightarrow> pyval \<Rightarrow> bool" where
  "collision_free P a b \<longleftrightarrow>
     (\<forall>s t. canonical_payload P a = Inr s \<longrightarrow> canonical_payload P b = Inr t \<longrightarrow> separates P s t)"

lemma digest_binds:
  assumes "digest P a = Inr d" "digest P b = Inr d" "collision_free P a b" "floats_ok a" "floats_ok b"
  shows "normalize P a = normalize P b"
proof -
  obtain s t where "canonical_payload P a = Inr s" "canonical_payload P b = Inr t" "sha256_hex P s = sha256_hex P t"
    using assms(1,2) by (auto simp: digest_Inr)
  moreover from this have "s = t" using assms(3) by (auto simp: collision_free_def separates_def)
  ultimately show ?thesis using canonical_payload_inject assms(4,5) by metis
qed

lemma digest_hex_binds:
  assumes "digest_hex P a = Inr d" "digest_hex P b = Inr d" "collision_free P a b" "floats_ok a" "floats_ok b"
  shows "normalize P a = normalize P b"
  using digest_binds [of P a "''sha256:'' @ d" b] assms by (auto simp: digest_Inr digest_hex_Inr)

lemma digest_cong: "normalize P a = normalize P b \<Longrightarrow> digest P a = digest P b"
  by (simp add: digest_def canonical_payload_def)

section \<open>Mapping literals\<close>

definition normalizable :: "prims \<Rightarrow> pyval \<Rightarrow> bool" where
  "normalizable P v \<longleftrightarrow> (\<exists>j. normalize P v = Inr j)"

lemma normalizable_simps [simp]:
  "normalizable P (PStr s)" "normalizable P PNone" "normalizable P (PInt i)" "normalizable P (PBool b)"
  "normalizable P (PFloat (Finite r))"
  by (simp_all add: normalizable_def)

lemma normalizable_list [simp]: "normalizable P (PList xs) \<longleftrightarrow> list_all (normalizable P) xs"
proof
  assume "normalizable P (PList xs)"
  then obtain vs where "map (normalize P) xs = map Inr vs"
    by (auto simp: normalizable_def rbind_Inr sequence_Inr)
  then show "list_all (normalizable P) xs"
    by (auto simp: list_all_iff normalizable_def) (metis imageE image_eqI list.set_map)
next
  assume "list_all (normalizable P) xs"
  then have "\<exists>vs. map (normalize P) xs = map Inr vs"
    by (induction xs) (auto simp: normalizable_def, metis list.simps(9))
  then show "normalizable P (PList xs)" by (auto simp: normalizable_def rbind_Inr sequence_Inr)
qed

lemma normalizable_strs [simp]: "normalizable P (strs ss)"
  by (simp add: strs_def list_all_iff)

lemma normalizable_opt_str [simp]: "normalizable P (opt_str s)"
  by (cases s) simp_all

definition literal_keys :: "(string \<times> pyval) list \<Rightarrow> bool" where
  "literal_keys kvs \<longleftrightarrow> distinct (map fst kvs) \<and> list_all (\<lambda>kv. is_ascii (fst kv)) kvs"

lemma literal_keys_nfc: "literal_keys kvs \<Longrightarrow> map (nfc P) (map fst kvs) = map fst kvs"
  by (simp add: literal_keys_def list_all_iff)

lemma normalize_obj_Inr:
  assumes "literal_keys kvs"
  shows "normalize P (obj kvs) = Inr j \<longleftrightarrow>
     (\<exists>vs. map (\<lambda>kv. normalize P (snd kv)) kvs = map Inr vs \<and> j = JObj (sort_key fst (zip (map fst kvs) vs)))"
proof -
  let ?kvs = "map (\<lambda>(k, v). (PStr k, v)) kvs"
  have keys: "map fst ?kvs = map PStr (map fst kvs)" and vals: "map (\<lambda>kv. normalize P (snd kv)) ?kvs = map (\<lambda>kv. normalize P (snd kv)) kvs"
    by (simp_all add: comp_def case_prod_unfold)
  have "normalize P (obj kvs) = Inr j \<longleftrightarrow>
     (\<exists>ss vs. map PStr (map fst kvs) = map PStr ss \<and> distinct (map (nfc P) ss) \<and>
        map (\<lambda>kv. normalize P (snd kv)) kvs = map Inr vs \<and> j = JObj (sort_key fst (zip (map (nfc P) ss) vs)))"
    unfolding obj_def normalize_PDict_Inr keys vals ..
  also have "\<dots> \<longleftrightarrow> (\<exists>vs. map (\<lambda>kv. normalize P (snd kv)) kvs = map Inr vs \<and>
       j = JObj (sort_key fst (zip (map fst kvs) vs)))"
    using assms literal_keys_nfc [OF assms, of P] unfolding map_PStr_inject
    by (metis literal_keys_def)
  finally show ?thesis .
qed

lemma normalizable_obj:
  assumes "literal_keys kvs" "list_all (\<lambda>kv. normalizable P (snd kv)) kvs"
  shows "normalizable P (obj kvs)"
proof -
  have "list_all (normalizable P) (map snd kvs)" using assms(2) by (simp add: list_all_iff)
  then have "normalizable P (PList (map snd kvs))" by simp
  then obtain vs where "map (\<lambda>kv. normalize P (snd kv)) kvs = map Inr vs"
    by (auto simp: normalizable_def rbind_Inr sequence_Inr comp_def simp del: normalizable_list)
  then show ?thesis using normalize_obj_Inr [OF assms(1)] by (auto simp: normalizable_def)
qed

text \<open>Equal normal forms of two literals with the same keys have equal normal forms in each field.\<close>

lemma normalize_obj_fields:
  assumes "literal_keys kvs" "map fst kvs = map fst kvs'"
    and "normalize P (obj kvs) = Inr j" "normalize P (obj kvs') = Inr j"
  shows "map (\<lambda>kv. normalize P (snd kv)) kvs = map (\<lambda>kv. normalize P (snd kv)) kvs'"
proof -
  have lk': "literal_keys kvs'"
  proof -
    have "list_all is_ascii (map fst kvs)" using assms(1) by (simp add: literal_keys_def list_all_iff)
    then show ?thesis using assms(1,2) by (simp add: literal_keys_def list_all_iff)
  qed
  obtain vs ws where *: "map (\<lambda>kv. normalize P (snd kv)) kvs = map Inr vs" "j = JObj (sort_key fst (zip (map fst kvs) vs))"
    "map (\<lambda>kv. normalize P (snd kv)) kvs' = map Inr ws" "j = JObj (sort_key fst (zip (map fst kvs') ws))"
    using assms(3,4) normalize_obj_Inr [OF assms(1)] normalize_obj_Inr [OF lk'] by blast
  have len: "length (map fst kvs) = length vs" "length (map fst kvs) = length ws"
    using *(1,3) assms(2) by (metis length_map)+
  have "set (zip (map fst kvs) vs) = set (zip (map fst kvs) ws)"
    using *(2,4) assms(2) by (metis json.inject(6) set_sort)
  moreover have "distinct (map fst kvs)" using assms(1) by (simp add: literal_keys_def)
  ultimately have "map_of (zip (map fst kvs) vs) = map_of (zip (map fst kvs) ws)"
    using len by (subst map_of_inject_set) auto
  then have "vs = ws" using len \<open>distinct (map fst kvs)\<close> by (intro map_of_zip_inject) auto
  then show ?thesis using * by simp
qed

lemma floats_ok_obj [simp]: "floats_ok (obj kvs) \<longleftrightarrow> list_all (\<lambda>kv. floats_ok (snd kv)) kvs"
  by (simp add: obj_def list_all_iff case_prod_unfold)

lemma floats_ok_strs [simp]: "floats_ok (strs ss)"
  by (simp add: strs_def list_all_iff)

lemma floats_ok_opt_str [simp]: "floats_ok (opt_str s)"
  by (cases s) simp_all

lemma normalize_strs: "normalize P (strs ss) = Inr (JArr (map (\<lambda>s. JStr (text_norm P s)) ss))"
  by (simp add: strs_def comp_def)

lemma digest_normalizable: "normalizable P v \<Longrightarrow> \<exists>h. digest P v = Inr (''sha256:'' @ h)"
  by (auto simp: normalizable_def digest_def canonical_payload_def)

lemma digest_hex_normalizable: "normalizable P v \<Longrightarrow> \<exists>h. digest_hex P v = Inr h"
  using digest_normalizable by (fastforce simp: digest_hex_def)

section \<open>Properties\<close>

text \<open>Text of printable ASCII characters is its own normal form.\<close>

definition printable :: "string \<Rightarrow> bool" where
  "printable s \<longleftrightarrow> list_all (\<lambda>c. (33 :: nat) \<le> of_char c \<and> of_char c < (127 :: nat)) s"

lemma split_lines_single: "LF \<notin> set s \<Longrightarrow> split_lines s = [s]"
  by (induction s) auto

lemma text_norm_printable: "printable s \<Longrightarrow> text_norm P s = s"
proof -
  assume s: "printable s"
  then have ascii: "is_ascii s" by (auto simp: printable_def is_ascii_def list_all_iff)
  have ws: "\<not> ascii_ws c" if "c \<in> set s" for c
    using s that by (auto simp: printable_def list_all_iff ascii_ws_def)
  have lf: "LF \<notin> set s" "CR \<notin> set s"
    using s by (auto simp: printable_def list_all_iff LF_def CR_def)
  have "rstripped s" using ws by (auto simp: rstripped_def)
  then have "rstrip s = s" using ascii rstrip_id by blast
  moreover have "lstrip s = s" using ws ascii by (simp add: lstrip_ascii dropWhile_eq_self_iff)
  ultimately show ?thesis
    using lf ascii by (simp add: text_norm_def replace_id split_lines_single strip_def)
qed

lemma plain_collision_free [simp]: "collision_free plain_prims a b"
  by (simp add: collision_free_def separates_def plain_prims_def)

text \<open>
  C16: the canonical text of a value determines its normal form: two values have the same
  canonical JSON text exactly if normalisation makes them equal.
\<close>

theorem canonical_payload_faithful:
  assumes "floats_ok a" "floats_ok b" "canonical_payload P a = Inr s"
  shows "canonical_payload P b = Inr s \<longleftrightarrow> normalize P b = normalize P a"
proof
  assume "canonical_payload P b = Inr s"
  then show "normalize P b = normalize P a" using assms canonical_payload_inject by metis
next
  assume "normalize P b = normalize P a"
  then show "canonical_payload P b = Inr s" using assms(3) by (simp add: canonical_payload_def)
qed

theorem canonical_payload_faithful_witness:
  "canonical_payload plain_prims (PList [PInt 1]) \<noteq> canonical_payload plain_prims (PList [PInt 1, PInt 1])"
proof -
  have one: "canonical_payload plain_prims (PList [PInt 1]) = Inr (json_dumps (JArr [JInt 1]))"
    by (simp add: canonical_payload_def)
  show ?thesis
    using canonical_payload_faithful [of "PList [PInt 1]" "PList [PInt 1, PInt 1]" plain_prims, OF _ _ one]
    by (auto simp: one)
qed

text \<open>
  Normalisation does not see the insertion order of a mapping: a mapping with the same
  entries in another order has the same normal form.
\<close>

theorem normalize_ignores_entry_order:
  assumes "mset kvs = mset kvs'" "normalize P (PDict kvs) = Inr j"
  shows "digest P (PDict kvs) = digest P (PDict kvs')"
  using normalize_dict_perm [OF assms] assms(2) by (intro digest_cong) simp

theorem normalize_ignores_entry_order_witness:
  "digest plain_prims (PDict [(PStr ''k'', PInt 1), (PStr ''a'', PInt 2)]) =
   digest plain_prims (PDict [(PStr ''a'', PInt 2), (PStr ''k'', PInt 1)])"
proof (rule normalize_ignores_entry_order)
  have "normalizable plain_prims (obj [(''k'', PInt 1), (''a'', PInt 2)])"
    by (rule normalizable_obj) (simp_all add: literal_keys_def)
  then show "normalize plain_prims (PDict [(PStr ''k'', PInt 1), (PStr ''a'', PInt 2)]) =
      Inr (the (case normalize plain_prims (PDict [(PStr ''k'', PInt 1), (PStr ''a'', PInt 2)]) of
                  Inl _ \<Rightarrow> None | Inr j \<Rightarrow> Some j))"
    by (auto simp: normalizable_def obj_def)
qed simp

text \<open>
  C17: normalisation of ASCII values is idempotent: the normal form, read back as a value, is its
  own normal form, so re-normalising stored canonical payloads changes nothing.
\<close>

theorem normalize_idem:
  assumes "ascii_val v" "normalize P v = Inr j"
  shows "normalize P (py_of j) = Inr j"
  using normalize_canonical normalize_ascii_canonical assms by blast

theorem normalize_idem_witness:
  "normalize plain_prims (py_of (JArr [JInt 7, JBool True])) = Inr (JArr [JInt 7, JBool True])"
  by (rule normalize_idem [of "PTuple [PInt 7, PBool True]"]) simp_all

end
