(* ===== verification/Write_Operations.thy ===== *)
theory Write_Operations
  imports DS_Prelude
begin

text \<open>
  Model of \<open>delivery_system/write_operations.py\<close> and of the operation encoding of
  \<open>delivery_system/runtime.py\<close>: the shape check of planned write operations
  (\<open>normalize_write_operations\<close> and its V2 form with typed endpoints), the evaluation that decides
  whether an operation sequence may be written, and the envelope V2 operations are executed in.

  The lemmas reduce each evaluation to its specification: an operation sequence is eligible
  exactly if it is the canonical sequence (one create per item in item order, then one
  relationship per planned pair in plan order) over known endpoints.
\<close>

section \<open>Data\<close>

text \<open>A canonical V1 operation: a mapping with exactly these three keys.\<close>

record write_op =
  operation_kind :: string
  client_refs :: "string list"
  depends_on :: "string list"

record write_operation_evaluation =
  eval_operations :: "write_op list"
  eligible :: bool
  blockers :: "string list"

definition write_operation_kinds :: "string list" where
  "write_operation_kinds = [''create_issue'', ''add_sub_issue'', ''add_dependency'']"

definition relationship_kinds :: "string \<Rightarrow> string option" where
  "relationship_kinds k =
     (if k = ''add_sub_issue'' then Some ''planned_parent''
      else if k = ''add_dependency'' then Some ''planned_dependency'' else None)"

definition operation_fields :: "string list" where
  "operation_fields = [''operation_kind'', ''client_refs'', ''depends_on'']"

text \<open>The mapping a canonical operation is.\<close>

definition operation_doc :: "write_op \<Rightarrow> pyval" where
  "operation_doc op = obj [(''operation_kind'', PStr (operation_kind op)),
     (''client_refs'', strs (client_refs op)), (''depends_on'', strs (depends_on op))]"

section \<open>Shape of V1 operations\<close>

text \<open>\<open>isinstance(v, Sequence)\<close> and not text.\<close>

fun as_sequence :: "pyval \<Rightarrow> pyval list option" where
  "as_sequence (PList xs) = Some xs"
| "as_sequence (PTuple xs) = Some xs"
| "as_sequence _ = None"

text \<open>\<open>isinstance(v, list)\<close> with non-empty strings only.\<close>

fun nonempty_strs :: "pyval \<Rightarrow> string list option" where
  "nonempty_strs (PList xs) = (if list_all nonempty_str xs then Some (map str_of xs) else None)"
| "nonempty_strs _ = None"

definition normalize_write_operation :: "pyval \<Rightarrow> write_op res" where
  "normalize_write_operation operation =
     raise_if (\<not> is_mapping operation \<or> \<not> has_exactly operation operation_fields) ''write_operation_shape_invalid''
       (let kind = dict_get operation ''operation_kind'';
            refs = nonempty_strs (dict_get operation ''client_refs'');
            deps = nonempty_strs (dict_get operation ''depends_on'')
        in case (refs, deps) of
             (Some refs, Some deps) \<Rightarrow>
               raise_if (\<not> nonempty_str kind) ''write_operation_shape_invalid''
                 (raise_if (\<not> distinct refs) ''write_operation_client_refs_duplicate''
                    (Inr \<lparr>operation_kind = str_of kind, client_refs = refs, depends_on = deps\<rparr>))
           | _ \<Rightarrow> Inl (ValueError ''write_operation_shape_invalid''))"

definition normalize_write_operations :: "pyval \<Rightarrow> write_op list res" where
  "normalize_write_operations operation_intents =
     (case as_sequence operation_intents of
        None \<Rightarrow> Inl (ValueError ''write_operation_set_invalid'')
      | Some ops \<Rightarrow> sequence (map normalize_write_operation ops))"

fun drop_ids :: "pyval \<Rightarrow> pyval" where
  "drop_ids (PDict kvs) = PDict (filter (\<lambda>kv. fst kv \<notin> {PStr ''id'', PStr ''operation_id''}) kvs)"
| "drop_ids v = v"

definition operation_set_digest_payload :: "pyval \<Rightarrow> pyval res" where
  "operation_set_digest_payload operation_intents =
     (case as_sequence operation_intents of
        None \<Rightarrow> Inl (ValueError ''write_operation_set_invalid'')
      | Some ops \<Rightarrow>
          raise_if (\<not> list_all is_mapping ops) ''write_operation_shape_invalid''
            (Inr (obj [(''operation_intents'', PList (map drop_ids ops))])))"

section \<open>Evaluation of V1 operations\<close>

fun hashable :: "pyval \<Rightarrow> bool" where
  "hashable (PList _) = False"
| "hashable (PDict _) = False"
| "hashable (PSet _) = False"
| "hashable (PTuple xs) = list_all hashable xs"
| "hashable _ = True"

type_synonym planned_pair = "string \<times> string \<times> string"

text \<open>One entry of \<open>planned_relationships\<close>; membership in a set literal raises on unhashable values.\<close>

definition planned_relationship :: "pyval \<Rightarrow> planned_pair res" where
  "planned_relationship relationship =
     raise_if (\<not> is_mapping relationship) ''write_operation_relationships_invalid''
       (let kind = dict_get relationship ''kind'';
            source = dict_get relationship ''from_client_ref'';
            target = dict_get relationship ''to_client_ref''
        in if \<not> hashable kind then Inl TypeError
           else raise_if (kind \<notin> {PStr ''planned_parent'', PStr ''planned_dependency''} \<or>
                   \<not> nonempty_str source \<or> \<not> nonempty_str target) ''write_operation_relationships_invalid''
             (Inr (str_of kind, str_of source, str_of target)))"

definition operation_blockers :: "string set \<Rightarrow> write_op \<Rightarrow> string list" where
  "operation_blockers known_refs op =
     (let kind = operation_kind op; refs = client_refs op in
      (if \<not> set refs \<subseteq> known_refs then [''write_operation_unknown_client_ref''] else []) @
      (if depends_on op \<noteq> [] then [''write_operation_dependencies_unsupported''] else []) @
      (if kind \<notin> set write_operation_kinds then [''write_operation_kind_not_write_eligible'']
       else if kind = ''create_issue'' \<and> length refs \<noteq> 1 then [''write_operation_create_issue_shape_invalid'']
       else if relationship_kinds kind \<noteq> None \<and> (length refs \<noteq> 2 \<or> refs ! 0 = refs ! 1)
         then [''write_operation_relationship_shape_invalid''] else []))"

definition create_refs_of :: "write_op list \<Rightarrow> string list" where
  "create_refs_of ops =
     map (\<lambda>op. client_refs op ! 0) (filter (\<lambda>op. operation_kind op = ''create_issue'' \<and> length (client_refs op) = 1) ops)"

definition operation_pairs_of :: "write_op list \<Rightarrow> planned_pair list" where
  "operation_pairs_of ops =
     map (\<lambda>op. (the (relationship_kinds (operation_kind op)), client_refs op ! 0, client_refs op ! 1))
       (filter (\<lambda>op. relationship_kinds (operation_kind op) \<noteq> None \<and> length (client_refs op) = 2) ops)"

definition create_op :: "string \<Rightarrow> write_op" where
  "create_op ref = \<lparr>operation_kind = ''create_issue'', client_refs = [ref], depends_on = []\<rparr>"

definition relationship_op :: "planned_pair \<Rightarrow> write_op" where
  "relationship_op pair = (case pair of (kind, source, target) \<Rightarrow>
     \<lparr>operation_kind = (if kind = ''planned_parent'' then ''add_sub_issue'' else ''add_dependency''),
      client_refs = [source, target], depends_on = []\<rparr>)"

definition expected_operations_for :: "string list \<Rightarrow> planned_pair list \<Rightarrow> write_op list" where
  "expected_operations_for item_refs planned_pairs = map create_op item_refs @ map relationship_op planned_pairs"

definition evaluation_blockers :: "string list \<Rightarrow> planned_pair list \<Rightarrow> write_op list \<Rightarrow> string list" where
  "evaluation_blockers item_refs planned_pairs ops =
     (let known_refs = set item_refs; create_refs = create_refs_of ops; pairs = operation_pairs_of ops in
      concat (map (operation_blockers known_refs) ops) @
      (if \<not> distinct create_refs then [''write_operation_duplicate_create_issue''] else []) @
      (if set create_refs \<noteq> known_refs \<or> length create_refs \<noteq> card known_refs
       then [''write_operation_create_issue_incomplete''] else []) @
      (if \<not> set planned_pairs \<subseteq> set pairs then [''write_operation_relationship_incomplete''] else []) @
      (if \<not> set pairs \<subseteq> set planned_pairs then [''write_operation_relationship_unplanned''] else []) @
      (if ops \<noteq> expected_operations_for item_refs planned_pairs then [''write_operation_order_invalid''] else []))"

text \<open>The item references: every item a mapping, at least one, all distinct non-empty strings.\<close>

definition item_refs_of :: "pyval list \<Rightarrow> string list res" where
  "item_refs_of items =
     (let refs = map (\<lambda>item. dict_get item ''client_ref'') (filter is_mapping items) in
      raise_if (length refs \<noteq> length items \<or> refs = [] \<or> \<not> list_all nonempty_str refs \<or> \<not> distinct refs)
        ''write_operation_item_set_invalid'' (Inr (map str_of refs)))"

definition planned_pairs_of :: "pyval \<Rightarrow> pyval \<Rightarrow> planned_pair list res" where
  "planned_pairs_of dflt semantic_payload =
     (if \<not> is_mapping semantic_payload then Inl AttributeError
      else case (case dict_lookup semantic_payload ''planned_relationships'' of None \<Rightarrow> dflt | Some v \<Rightarrow> v) of
             PList planned \<Rightarrow> sequence (map planned_relationship planned)
           | _ \<Rightarrow> Inl (ValueError ''write_operation_relationships_invalid''))"

definition evaluate_write_operations ::
  "pyval \<Rightarrow> pyval list \<Rightarrow> pyval \<Rightarrow> write_operation_evaluation res" where
  "evaluate_write_operations operation_intents items semantic_payload =
     rbind (normalize_write_operations operation_intents) (\<lambda>ops.
     rbind (item_refs_of items) (\<lambda>item_refs.
     rbind (planned_pairs_of (PTuple []) semantic_payload) (\<lambda>planned_pairs.
       let bs = evaluation_blockers item_refs planned_pairs ops in
       Inr \<lparr>eval_operations = ops, eligible = (bs = []), blockers = sort (remdups bs)\<rparr>)))"

section \<open>V2 operations with typed endpoints\<close>

datatype endpoint = WorkItem string | ExistingIssue string

datatype write_op_v2 =
    CreateIssueV2 endpoint "string list"
  | RelationshipV2 string endpoint endpoint "string list"

definition v2_endpoint :: "pyval \<Rightarrow> endpoint res" where
  "v2_endpoint value =
     raise_if (\<not> is_mapping value \<or> \<not> has_exactly value [''endpoint_type'', ''client_ref''] \<and>
                 \<not> has_exactly value [''endpoint_type'', ''endpoint_ref'']) ''write_operation_endpoint_invalid''
       (let kind = dict_get value ''endpoint_type'' in
        if kind = PStr ''work_item'' \<and> has_exactly value [''endpoint_type'', ''client_ref''] then
          (let ref = dict_get value ''client_ref'' in
           raise_if (\<not> nonempty_str ref) ''write_operation_endpoint_invalid'' (Inr (WorkItem (str_of ref))))
        else if kind = PStr ''existing_issue'' \<and> has_exactly value [''endpoint_type'', ''endpoint_ref''] then
          (let ref = dict_get value ''endpoint_ref'' in
           raise_if (\<not> nonempty_str ref) ''write_operation_endpoint_invalid'' (Inr (ExistingIssue (str_of ref))))
        else Inl (ValueError ''write_operation_endpoint_invalid''))"

fun is_work_item :: "endpoint \<Rightarrow> bool" where
  "is_work_item (WorkItem _) = True"
| "is_work_item (ExistingIssue _) = False"

fun endpoint_ref_of :: "endpoint \<Rightarrow> string" where
  "endpoint_ref_of (WorkItem r) = r"
| "endpoint_ref_of (ExistingIssue r) = r"

definition normalize_write_operation_v2 :: "pyval \<Rightarrow> write_op_v2 res" where
  "normalize_write_operation_v2 operation =
     raise_if (\<not> is_mapping operation) ''write_operation_shape_invalid''
       (case (dict_get operation ''operation_kind'', nonempty_strs (dict_get operation ''depends_on'')) of
          (PStr kind, Some deps) \<Rightarrow>
            if kind = ''create_issue'' then
              raise_if (\<not> has_exactly operation [''operation_kind'', ''endpoint'', ''depends_on''])
                ''write_operation_shape_invalid''
                (rbind (v2_endpoint (dict_get operation ''endpoint'')) (\<lambda>endpoint.
                   raise_if (\<not> is_work_item endpoint) ''write_operation_create_endpoint_invalid''
                     (Inr (CreateIssueV2 endpoint deps))))
            else if kind \<in> {''add_sub_issue'', ''add_dependency''} then
              raise_if (\<not> has_exactly operation [''operation_kind'', ''operands'', ''depends_on''])
                ''write_operation_shape_invalid''
                (case dict_get operation ''operands'' of
                   PList [a, b] \<Rightarrow>
                     rbind (v2_endpoint a) (\<lambda>first. rbind (v2_endpoint b) (\<lambda>second.
                       raise_if (first = second) ''write_operation_relationship_shape_invalid''
                         (Inr (RelationshipV2 kind first second deps))))
                 | _ \<Rightarrow> Inl (ValueError ''write_operation_relationship_shape_invalid''))
            else Inl (ValueError ''write_operation_kind_not_write_eligible'')
        | _ \<Rightarrow> Inl (ValueError ''write_operation_shape_invalid''))"

definition normalize_write_operations_v2 :: "pyval \<Rightarrow> write_op_v2 list res" where
  "normalize_write_operations_v2 operation_intents =
     (case as_sequence operation_intents of
        None \<Rightarrow> Inl (ValueError ''write_operation_set_invalid'')
      | Some ops \<Rightarrow> sequence (map normalize_write_operation_v2 ops))"

definition operation_set_digest_payload_v2 :: "pyval \<Rightarrow> pyval res" where
  "operation_set_digest_payload_v2 operation_intents =
     (case as_sequence operation_intents of
        None \<Rightarrow> Inl (ValueError ''write_operation_set_invalid'')
      | Some ops \<Rightarrow>
          raise_if (\<not> list_all is_mapping ops) ''write_operation_shape_invalid''
            (Inr (obj [(''canonical_version'', PStr ''2''), (''operation_intents'', PList ops)])))"

type_synonym planned_pair_v2 = "string \<times> endpoint \<times> endpoint"

record write_operation_evaluation_v2 =
  eval_operations_v2 :: "write_op_v2 list"
  eligible_v2 :: bool
  blockers_v2 :: "string list"

definition planned_relationship_v2 :: "pyval \<Rightarrow> planned_pair_v2 res" where
  "planned_relationship_v2 rel =
     raise_if (\<not> is_mapping rel) ''write_operation_relationships_invalid''
       (let kind = dict_get rel ''kind'' in
        if \<not> hashable kind then Inl TypeError
        else raise_if (kind \<notin> {PStr ''planned_parent'', PStr ''planned_dependency''})
               ''write_operation_relationships_invalid''
          (rbind (v2_endpoint (dict_get rel ''from_endpoint'')) (\<lambda>source.
           rbind (v2_endpoint (dict_get rel ''to_endpoint'')) (\<lambda>target.
             Inr (str_of kind, source, target)))))"

definition planned_pairs_v2_of :: "pyval \<Rightarrow> planned_pair_v2 list res" where
  "planned_pairs_v2_of semantic_payload =
     (if \<not> is_mapping semantic_payload then Inl AttributeError
      else case (case dict_lookup semantic_payload ''planned_relationships'' of None \<Rightarrow> PList [] | Some v \<Rightarrow> v) of
             PList planned \<Rightarrow> sequence (map planned_relationship_v2 planned)
           | _ \<Rightarrow> Inl (ValueError ''write_operation_relationships_invalid''))"

fun known_endpoint :: "string set \<Rightarrow> string set \<Rightarrow> endpoint \<Rightarrow> bool" where
  "known_endpoint known_work known_existing (WorkItem r) = (r \<in> known_work)"
| "known_endpoint known_work known_existing (ExistingIssue r) = (r \<in> known_existing)"

fun operation_blockers_v2 :: "string set \<Rightarrow> string set \<Rightarrow> write_op_v2 \<Rightarrow> string list" where
  "operation_blockers_v2 known_work known_existing (CreateIssueV2 e deps) =
     (if deps \<noteq> [] then [''write_operation_dependencies_unsupported''] else []) @
     (if \<not> is_work_item e \<or> endpoint_ref_of e \<notin> known_work then [''write_operation_unknown_endpoint''] else [])"
| "operation_blockers_v2 known_work known_existing (RelationshipV2 kind a b deps) =
     (if deps \<noteq> [] then [''write_operation_dependencies_unsupported''] else []) @
     concat (map (\<lambda>e. if \<not> known_endpoint known_work known_existing e
                      then [''write_operation_unknown_endpoint''] else []) [a, b])"

definition planned_blockers_v2 :: "planned_pair_v2 \<Rightarrow> string list" where
  "planned_blockers_v2 pair = (case pair of (kind, source, target) \<Rightarrow>
     (if source = target then [''write_operation_relationship_shape_invalid''] else []) @
     (if \<not> is_work_item source \<and> \<not> is_work_item target
      then [''write_operation_existing_to_existing_unsupported''] else []))"

fun create_refs_v2_of :: "write_op_v2 list \<Rightarrow> string list" where
  "create_refs_v2_of [] = []"
| "create_refs_v2_of (CreateIssueV2 e deps # ops) = endpoint_ref_of e # create_refs_v2_of ops"
| "create_refs_v2_of (_ # ops) = create_refs_v2_of ops"

fun operation_pairs_v2_of :: "write_op_v2 list \<Rightarrow> planned_pair_v2 list" where
  "operation_pairs_v2_of [] = []"
| "operation_pairs_v2_of (RelationshipV2 kind a b deps # ops) =
     (if kind = ''add_sub_issue'' then ''planned_parent'' else ''planned_dependency'', a, b) # operation_pairs_v2_of ops"
| "operation_pairs_v2_of (_ # ops) = operation_pairs_v2_of ops"

text \<open>The observed remote relationships: \<open>isinstance(record, Mapping)\<close> with kind and both ends equal.\<close>

definition remote_relationship_exists :: "pyval list \<Rightarrow> string \<Rightarrow> string \<Rightarrow> string \<Rightarrow> bool" where
  "remote_relationship_exists records remote_kind source_id target_id \<longleftrightarrow>
     list_ex (\<lambda>r. is_mapping r \<and> dict_get r ''kind'' = PStr remote_kind \<and>
        dict_get r ''from'' = PStr source_id \<and> dict_get r ''to'' = PStr target_id) records"

text \<open>The dict comprehension over the bindings keeps the last binding of a reference.\<close>

definition binding_id :: "pyval list \<Rightarrow> string \<Rightarrow> pyval" where
  "binding_id bindings ref =
     (case find (\<lambda>b. is_mapping b \<and> dict_get b ''endpoint_ref'' = PStr ref) (rev bindings) of
        None \<Rightarrow> PNone | Some b \<Rightarrow> dict_get b ''issue_id'')"

definition existing_pair_blockers :: "pyval list \<Rightarrow> pyval list \<Rightarrow> planned_pair_v2 \<Rightarrow> string list" where
  "existing_pair_blockers bindings records pair = (case pair of
     (kind, ExistingIssue s, ExistingIssue t) \<Rightarrow>
       (case (binding_id bindings s, binding_id bindings t) of
          (PStr source_id, PStr target_id) \<Rightarrow>
            (if remote_relationship_exists records
                  (if kind = ''planned_parent'' then ''existing_parent'' else ''existing_dependency'') source_id target_id
             then [''relationship_already_exists''] else [])
        | _ \<Rightarrow> [])
   | _ \<Rightarrow> [])"

definition create_op_v2 :: "string \<Rightarrow> write_op_v2" where
  "create_op_v2 ref = CreateIssueV2 (WorkItem ref) []"

definition relationship_op_v2 :: "planned_pair_v2 \<Rightarrow> write_op_v2" where
  "relationship_op_v2 pair = (case pair of (kind, src, dst) \<Rightarrow>
     RelationshipV2 (if kind = ''planned_parent'' then ''add_sub_issue'' else ''add_dependency'') src dst [])"

definition expected_operations_v2_for :: "string list \<Rightarrow> planned_pair_v2 list \<Rightarrow> write_op_v2 list" where
  "expected_operations_v2_for item_refs pairs = map create_op_v2 item_refs @ map relationship_op_v2 pairs"

definition evaluation_blockers_v2 ::
  "string list \<Rightarrow> string list \<Rightarrow> planned_pair_v2 list \<Rightarrow> pyval list \<Rightarrow> pyval list \<Rightarrow> write_op_v2 list \<Rightarrow> string list" where
  "evaluation_blockers_v2 item_refs endpoint_refs planned_pairs bindings records ops =
     (let create_refs = create_refs_v2_of ops in
      concat (map (operation_blockers_v2 (set item_refs) (set endpoint_refs)) ops) @
      (if \<not> distinct create_refs \<or> set create_refs \<noteq> set item_refs
       then [''write_operation_create_issue_incomplete''] else []) @
      concat (map planned_blockers_v2 planned_pairs) @
      (if set planned_pairs \<noteq> set (operation_pairs_v2_of ops) then [''write_operation_relationship_incomplete''] else []) @
      concat (map (existing_pair_blockers bindings records) planned_pairs) @
      (if ops \<noteq> expected_operations_v2_for item_refs planned_pairs then [''write_operation_order_invalid''] else []))"

definition item_refs_v2_of :: "pyval list \<Rightarrow> string list res" where
  "item_refs_v2_of items =
     (let refs = map (\<lambda>item. dict_get item ''client_ref'') (filter is_mapping items) in
      raise_if (refs = [] \<or> \<not> list_all nonempty_str refs \<or> \<not> distinct refs)
        ''write_operation_item_set_invalid'' (Inr (map str_of refs)))"

definition endpoint_refs_v2_of :: "pyval list \<Rightarrow> string list res" where
  "endpoint_refs_v2_of bindings =
     (let refs = map (\<lambda>b. dict_get b ''endpoint_ref'') (filter is_mapping bindings) in
      raise_if (\<not> list_all nonempty_str refs \<or> \<not> distinct refs)
        ''write_operation_endpoint_set_invalid'' (Inr (map str_of refs)))"

definition evaluate_write_operations_v2 ::
  "pyval \<Rightarrow> pyval list \<Rightarrow> pyval \<Rightarrow> pyval list \<Rightarrow> pyval list \<Rightarrow> write_operation_evaluation_v2 res" where
  "evaluate_write_operations_v2 operation_intents items semantic_payload endpoint_bindings relationship_records =
     rbind (normalize_write_operations_v2 operation_intents) (\<lambda>ops.
     rbind (item_refs_v2_of items) (\<lambda>item_refs.
     rbind (endpoint_refs_v2_of endpoint_bindings) (\<lambda>endpoint_refs.
     raise_if (set item_refs \<inter> set endpoint_refs \<noteq> {}) ''write_operation_reference_namespace_collision''
     (rbind (planned_pairs_v2_of semantic_payload) (\<lambda>planned_pairs.
       let bs = evaluation_blockers_v2 item_refs endpoint_refs planned_pairs endpoint_bindings relationship_records ops in
       Inr \<lparr>eval_operations_v2 = ops, eligible_v2 = (bs = []), blockers_v2 = sort (remdups bs)\<rparr>)))))"

section \<open>The execution envelope of V2 operations\<close>

fun encode_endpoint :: "endpoint \<Rightarrow> string" where
  "encode_endpoint (WorkItem r) = ''work_item:'' @ r"
| "encode_endpoint (ExistingIssue r) = ''existing_issue:'' @ r"

fun encode_operation_v2 :: "write_op_v2 \<Rightarrow> write_op" where
  "encode_operation_v2 (CreateIssueV2 e deps) =
     \<lparr>operation_kind = ''create_issue'', client_refs = [endpoint_ref_of e], depends_on = []\<rparr>"
| "encode_operation_v2 (RelationshipV2 kind a b deps) =
     \<lparr>operation_kind = kind, client_refs = [encode_endpoint a, encode_endpoint b], depends_on = []\<rparr>"

text \<open>\<open>canonical.get("operation_intents", [])\<close>\<close>

definition operation_intents_of :: "pyval \<Rightarrow> pyval" where
  "operation_intents_of canonical =
     (case dict_lookup canonical ''operation_intents'' of None \<Rightarrow> PList [] | Some v \<Rightarrow> v)"

definition execution_operations :: "pyval \<Rightarrow> write_op list res" where
  "execution_operations canonical =
     (if dict_get canonical ''canonical_version'' = PStr ''2''
      then rbind (normalize_write_operations_v2 (operation_intents_of canonical))
             (\<lambda>ops. Inr (map encode_operation_v2 ops))
      else normalize_write_operations (operation_intents_of canonical))"

section \<open>Canonical operations\<close>

definition wf_op :: "write_op \<Rightarrow> bool" where
  "wf_op op \<longleftrightarrow> operation_kind op \<noteq> [] \<and> [] \<notin> set (client_refs op) \<and> [] \<notin> set (depends_on op) \<and>
     distinct (client_refs op)"

lemma all_nonempty_str_map:
  "list_all nonempty_str xs \<Longrightarrow> xs = map PStr (map str_of xs) \<and> [] \<notin> set (map str_of xs)"
  by (induction xs) (auto simp: nonempty_str_iff)

lemma all_nonempty_str: "list_all nonempty_str xs \<longleftrightarrow> (\<exists>ss. xs = map PStr ss \<and> [] \<notin> set ss)"
proof
  assume "list_all nonempty_str xs"
  then show "\<exists>ss. xs = map PStr ss \<and> [] \<notin> set ss" by (blast dest: all_nonempty_str_map)
qed (auto simp: list_all_iff nonempty_str_iff)

lemma nonempty_strs_Some: "nonempty_strs v = Some ss \<longleftrightarrow> v = strs ss \<and> [] \<notin> set ss"
  by (cases v) (auto simp: strs_def all_nonempty_str comp_def)

lemma nonempty_strs_strs [simp]: "nonempty_strs (strs ss) = (if [] \<in> set ss then None else Some ss)"
  by (cases "nonempty_strs (strs ss)") (auto simp: nonempty_strs_Some, metis nonempty_strs_Some option.distinct(1))

lemma normalize_write_operation_Inr:
  "normalize_write_operation v = Inr op \<longleftrightarrow>
     is_mapping v \<and> has_exactly v operation_fields \<and> wf_op op \<and>
     dict_get v ''operation_kind'' = PStr (operation_kind op) \<and>
     dict_get v ''client_refs'' = strs (client_refs op) \<and> dict_get v ''depends_on'' = strs (depends_on op)"
  (is "?l \<longleftrightarrow> ?r")
proof
  assume ?l
  then show ?r
    by (auto simp: normalize_write_operation_def res_simps Let_def wf_op_def nonempty_str_iff
        nonempty_strs_Some split: option.splits)
next
  assume ?r
  then show ?l
    by (cases op) (simp add: normalize_write_operation_def Let_def wf_op_def)
qed

lemma normalize_operation_doc: "wf_op op \<Longrightarrow> normalize_write_operation (operation_doc op) = Inr op"
  unfolding normalize_write_operation_Inr
  by (simp add: operation_doc_def has_exactly_obj operation_fields_def dict_get_def insert_commute)

lemma normalize_write_operations_wf:
  "normalize_write_operations v = Inr ops \<Longrightarrow> list_all wf_op ops"
  by (auto simp: normalize_write_operations_def res_simps list_all_iff normalize_write_operation_Inr
      split: option.splits dest!: map_Inr_elem)

text \<open>Canonical operations are fixed points: encoding them as mappings and checking them again
  returns them unchanged.\<close>

lemma normalize_write_operations_docs:
  "list_all wf_op ops \<Longrightarrow> normalize_write_operations (PList (map operation_doc ops)) = Inr ops"
  by (simp add: normalize_write_operations_def sequence_Inr list_all_iff normalize_operation_doc)

section \<open>Eligibility of V1 operation sequences\<close>

lemma relationship_kinds_planned:
  "k \<in> {''planned_parent'', ''planned_dependency''} \<Longrightarrow>
     relationship_kinds (operation_kind (relationship_op (k, s, t))) = Some k"
  by (auto simp: relationship_op_def relationship_kinds_def)

lemma create_refs_of_expected:
  "create_refs_of (expected_operations_for refs pairs) = refs"
proof -
  have "create_refs_of (map create_op refs) = refs"
    by (induction refs) (auto simp: create_refs_of_def create_op_def)
  moreover have "filter (\<lambda>op. operation_kind op = ''create_issue'' \<and> length (client_refs op) = 1) (map relationship_op pairs) = []"
    by (auto simp: relationship_op_def filter_empty_conv split: prod.splits)
  ultimately show ?thesis by (simp add: create_refs_of_def expected_operations_for_def)
qed

lemma operation_pairs_of_expected:
  assumes "\<And>p. p \<in> set pairs \<Longrightarrow> fst p \<in> {''planned_parent'', ''planned_dependency''}"
  shows "operation_pairs_of (expected_operations_for refs pairs) = pairs"
proof -
  have "filter (\<lambda>op. relationship_kinds (operation_kind op) \<noteq> None \<and> length (client_refs op) = 2) (map create_op refs) = []"
    by (auto simp: create_op_def relationship_kinds_def filter_empty_conv)
  moreover have "operation_pairs_of (map relationship_op pairs) = pairs"
    using assms
  proof (induction pairs)
    case (Cons p pairs)
    have step: "operation_pairs_of (relationship_op p # ops) = p # operation_pairs_of ops" for ops
      using Cons.prems [of p]
      by (cases p) (auto simp: operation_pairs_of_def relationship_op_def relationship_kinds_def)
    have "operation_pairs_of (map relationship_op pairs) = pairs"
      by (rule Cons.IH) (use Cons.prems in auto)
    then show ?case by (simp add: step)
  qed (simp add: operation_pairs_of_def)
  ultimately show ?thesis by (simp add: operation_pairs_of_def expected_operations_for_def)
qed

lemma planned_pairs_of_kinds:
  "planned_pairs_of d sem = Inr pairs \<Longrightarrow> p \<in> set pairs \<Longrightarrow> fst p \<in> {''planned_parent'', ''planned_dependency''}"
  by (auto simp: planned_pairs_of_def planned_relationship_def res_simps Let_def
      split: if_splits option.splits pyval.splits dest!: map_Inr_elem)

lemma operation_blockers_create:
  "operation_blockers known (create_op r) = (if r \<in> known then [] else [''write_operation_unknown_client_ref''])"
  by (simp add: operation_blockers_def create_op_def write_operation_kinds_def relationship_kinds_def)

lemma operation_blockers_relationship:
  "operation_blockers known (relationship_op (k, s, t)) = [] \<longleftrightarrow> s \<in> known \<and> t \<in> known \<and> s \<noteq> t"
  by (auto simp: operation_blockers_def relationship_op_def write_operation_kinds_def relationship_kinds_def)

lemma evaluation_blockers_Nil:
  assumes wf: "list_all wf_op ops" and refs: "distinct refs"
    and kinds: "\<And>p. p \<in> set pairs \<Longrightarrow> fst p \<in> {''planned_parent'', ''planned_dependency''}"
  shows "evaluation_blockers refs pairs ops = [] \<longleftrightarrow>
     ops = expected_operations_for refs pairs \<and> (\<forall>(k, s, t) \<in> set pairs. s \<in> set refs \<and> t \<in> set refs)"
proof (cases "ops = expected_operations_for refs pairs")
  case True
  have ne: "s \<noteq> t" if "(k, s, t) \<in> set pairs" for k s t
  proof -
    have "relationship_op (k, s, t) \<in> set ops"
      using that True by (auto simp: expected_operations_for_def intro!: imageI)
    then have "wf_op (relationship_op (k, s, t))" using wf by (simp add: list_all_iff)
    then show ?thesis by (auto simp: wf_op_def relationship_op_def)
  qed
  have "concat (map (operation_blockers (set refs)) ops) = [] \<longleftrightarrow>
     (\<forall>(k, s, t) \<in> set pairs. s \<in> set refs \<and> t \<in> set refs)"
    using ne unfolding True
    by (auto simp: expected_operations_for_def operation_blockers_create operation_blockers_relationship)
  then show ?thesis
    using True refs operation_pairs_of_expected [OF kinds]
    by (simp add: evaluation_blockers_def Let_def create_refs_of_expected distinct_card)
qed (simp add: evaluation_blockers_def Let_def)

lemma item_refs_of_distinct: "item_refs_of items = Inr refs \<Longrightarrow> distinct refs \<and> refs \<noteq> []"
proof -
  assume *: "item_refs_of items = Inr refs"
  define vs where "vs = map (\<lambda>item. dict_get item ''client_ref'') (filter is_mapping items)"
  have "vs \<noteq> []" "list_all nonempty_str vs" "distinct vs" "refs = map str_of vs"
    using * by (auto simp: item_refs_of_def res_simps Let_def vs_def)
  then show ?thesis by (auto simp: all_nonempty_str distinct_map comp_def inj_on_def)
qed

lemma evaluate_write_operations_eligible:
  assumes "evaluate_write_operations intents items sem = Inr ev"
    and "item_refs_of items = Inr refs" and "planned_pairs_of (PTuple []) sem = Inr pairs"
  shows "eligible ev \<longleftrightarrow>
     eval_operations ev = expected_operations_for refs pairs \<and>
     (\<forall>(k, s, t) \<in> set pairs. s \<in> set refs \<and> t \<in> set refs)"
proof -
  obtain ops where ops: "normalize_write_operations intents = Inr ops" "eval_operations ev = ops"
      "eligible ev \<longleftrightarrow> evaluation_blockers refs pairs ops = []"
    using assms by (auto simp: evaluate_write_operations_def res_simps Let_def)
  then show ?thesis
    using evaluation_blockers_Nil [OF normalize_write_operations_wf [OF ops(1)]]
      item_refs_of_distinct [OF assms(2)] planned_pairs_of_kinds [OF assms(3)] by simp
qed

text \<open>In the canonical sequence every endpoint is created before the relationship that uses it.\<close>

lemma expected_operations_order:
  assumes known: "\<forall>(k, s, t) \<in> set pairs. s \<in> set refs \<and> t \<in> set refs"
    and i: "i < length (expected_operations_for refs pairs)"
    and rel: "operation_kind (expected_operations_for refs pairs ! i) \<noteq> ''create_issue''"
    and ref: "ref \<in> set (client_refs (expected_operations_for refs pairs ! i))"
  shows "\<exists>j < i. expected_operations_for refs pairs ! j = create_op ref"
proof -
  let ?n = "length refs"
  have ge: "\<not> i < ?n"
  proof
    assume "i < ?n"
    then have "expected_operations_for refs pairs ! i = create_op (refs ! i)"
      by (simp add: expected_operations_for_def nth_append)
    with rel show False by (simp add: create_op_def)
  qed
  define p where "p = pairs ! (i - ?n)"
  have "i - ?n < length pairs" using i ge by (auto simp: expected_operations_for_def)
  then have p: "expected_operations_for refs pairs ! i = relationship_op p" "p \<in> set pairs"
    using ge by (auto simp: expected_operations_for_def nth_append p_def)
  then have "ref \<in> set refs"
    using ref known by (cases p) (auto simp: relationship_op_def)
  then obtain j where j: "j < ?n" "refs ! j = ref" by (auto simp: in_set_conv_nth)
  then have "expected_operations_for refs pairs ! j = create_op ref"
    by (simp add: expected_operations_for_def nth_append)
  with j ge show ?thesis by (meson less_le_trans not_less)
qed

section \<open>Eligibility of V2 operation sequences\<close>

lemma relationship_op_v2_pair:
  "relationship_op_v2 (kind, src, dst) =
     RelationshipV2 (if kind = ''planned_parent'' then ''add_sub_issue'' else ''add_dependency'') src dst []"
  by (simp add: relationship_op_v2_def)

lemma create_refs_v2_expected: "create_refs_v2_of (expected_operations_v2_for refs pairs) = refs"
proof -
  have "create_refs_v2_of (map relationship_op_v2 pairs) = []"
    by (induction pairs) (auto simp: relationship_op_v2_def split: prod.splits)
  then show ?thesis
    unfolding expected_operations_v2_for_def by (induction refs) (auto simp: create_op_v2_def)
qed

lemma operation_pairs_v2_expected:
  assumes "\<And>p. p \<in> set pairs \<Longrightarrow> fst p \<in> {''planned_parent'', ''planned_dependency''}"
  shows "operation_pairs_v2_of (expected_operations_v2_for refs pairs) = pairs"
proof -
  have "operation_pairs_v2_of (map relationship_op_v2 pairs) = pairs"
    using assms
  proof (induction pairs)
    case (Cons p pairs)
    have "operation_pairs_v2_of (map relationship_op_v2 pairs) = pairs"
      by (rule Cons.IH) (use Cons.prems in auto)
    then show ?case using Cons.prems [of p] by (cases p) (auto simp: relationship_op_v2_pair)
  qed simp
  then show ?thesis
    unfolding expected_operations_v2_for_def by (induction refs) (auto simp: create_op_v2_def)
qed

lemma planned_pairs_v2_kinds:
  "planned_pairs_v2_of sem = Inr pairs \<Longrightarrow> p \<in> set pairs \<Longrightarrow> fst p \<in> {''planned_parent'', ''planned_dependency''}"
  by (auto simp: planned_pairs_v2_of_def planned_relationship_v2_def res_simps Let_def
      split: if_splits option.splits pyval.splits dest!: map_Inr_elem)

fun wf_op_v2 :: "write_op_v2 \<Rightarrow> bool" where
  "wf_op_v2 (CreateIssueV2 e deps) = (is_work_item e \<and> endpoint_ref_of e \<noteq> [])"
| "wf_op_v2 (RelationshipV2 kind a b deps) =
     (kind \<in> {''add_sub_issue'', ''add_dependency''} \<and> a \<noteq> b \<and> endpoint_ref_of a \<noteq> [] \<and> endpoint_ref_of b \<noteq> [])"

lemma v2_endpoint_nonempty: "v2_endpoint v = Inr e \<Longrightarrow> endpoint_ref_of e \<noteq> []"
  by (auto simp: v2_endpoint_def res_simps Let_def nonempty_str_iff split: if_splits)

lemma normalize_write_operation_v2_wf: "normalize_write_operation_v2 v = Inr op \<Longrightarrow> wf_op_v2 op"
  by (auto simp: normalize_write_operation_v2_def res_simps dest: v2_endpoint_nonempty
      split: if_splits option.splits pyval.splits list.splits)

lemma normalize_write_operations_v2_wf: "normalize_write_operations_v2 v = Inr ops \<Longrightarrow> list_all wf_op_v2 ops"
  by (auto simp: normalize_write_operations_v2_def res_simps list_all_iff
      split: option.splits dest!: map_Inr_elem intro: normalize_write_operation_v2_wf)

definition pair_v2_ok :: "string set \<Rightarrow> string set \<Rightarrow> planned_pair_v2 \<Rightarrow> bool" where
  "pair_v2_ok work existing p \<longleftrightarrow> (case p of (k, s, t) \<Rightarrow>
     known_endpoint work existing s \<and> known_endpoint work existing t \<and> (is_work_item s \<or> is_work_item t))"

lemma existing_pair_blockers_new:
  "pair_v2_ok work existing p \<Longrightarrow> existing_pair_blockers bindings records p = []"
  by (auto simp: pair_v2_ok_def existing_pair_blockers_def split: prod.splits endpoint.splits)

lemma evaluation_blockers_v2_Nil:
  assumes wf: "list_all wf_op_v2 ops" and refs: "distinct refs"
    and kinds: "\<And>p. p \<in> set pairs \<Longrightarrow> fst p \<in> {''planned_parent'', ''planned_dependency''}"
  shows "evaluation_blockers_v2 refs erefs pairs bindings records ops = [] \<longleftrightarrow>
     ops = expected_operations_v2_for refs pairs \<and> list_all (pair_v2_ok (set refs) (set erefs)) pairs"
proof (cases "ops = expected_operations_v2_for refs pairs")
  case True
  have ne: "s \<noteq> t" if "(k, s, t) \<in> set pairs" for k s t
  proof -
    have "relationship_op_v2 (k, s, t) \<in> set ops"
      using that True by (auto simp: expected_operations_v2_for_def intro!: imageI)
    then have "wf_op_v2 (relationship_op_v2 (k, s, t))" using wf by (simp add: list_all_iff)
    then show ?thesis by (auto simp: relationship_op_v2_def)
  qed
  have known: "concat (map (operation_blockers_v2 (set refs) (set erefs)) ops) = [] \<longleftrightarrow>
     (\<forall>(k, s, t) \<in> set pairs. known_endpoint (set refs) (set erefs) s \<and> known_endpoint (set refs) (set erefs) t)"
  proof -
    have "operation_blockers_v2 (set refs) (set erefs) (relationship_op_v2 p) = [] \<longleftrightarrow>
      (case p of (k, s, t) \<Rightarrow> known_endpoint (set refs) (set erefs) s \<and> known_endpoint (set refs) (set erefs) t)" for p
      by (cases p) (auto simp: relationship_op_v2_pair)
    then show ?thesis
      unfolding True by (auto simp: expected_operations_v2_for_def create_op_v2_def)
  qed
  have unsupported: "concat (map planned_blockers_v2 pairs) = [] \<longleftrightarrow>
     (\<forall>(k, s, t) \<in> set pairs. is_work_item s \<or> is_work_item t)"
  proof -
    have "planned_blockers_v2 p = [] \<longleftrightarrow> (case p of (k, s, t) \<Rightarrow> is_work_item s \<or> is_work_item t)"
      if "p \<in> set pairs" for p
      using ne that by (cases p) (auto simp: planned_blockers_v2_def)
    then show ?thesis by auto
  qed
  have "concat (map (existing_pair_blockers bindings records) pairs) = []"
    if "list_all (pair_v2_ok (set refs) (set erefs)) pairs"
    using that by (auto simp: list_all_iff existing_pair_blockers_new)
  moreover have "list_all (pair_v2_ok (set refs) (set erefs)) pairs \<longleftrightarrow>
      concat (map (operation_blockers_v2 (set refs) (set erefs)) ops) = [] \<and> concat (map planned_blockers_v2 pairs) = []"
    unfolding known unsupported by (auto simp: list_all_iff pair_v2_ok_def)
  moreover have "set pairs = set (operation_pairs_v2_of ops)"
    using operation_pairs_v2_expected [OF kinds] True by simp
  ultimately show ?thesis
    using True refs unfolding evaluation_blockers_v2_def Let_def
    by (auto simp only: create_refs_v2_expected append_Nil append_Nil2 append_is_Nil_conv if_True if_False simp_thms)
qed (simp add: evaluation_blockers_v2_def Let_def)

lemma item_refs_v2_of_distinct: "item_refs_v2_of items = Inr refs \<Longrightarrow> distinct refs"
proof -
  assume *: "item_refs_v2_of items = Inr refs"
  define vs where "vs = map (\<lambda>item. dict_get item ''client_ref'') (filter is_mapping items)"
  have "list_all nonempty_str vs" "distinct vs" "refs = map str_of vs"
    using * by (auto simp: item_refs_v2_of_def res_simps Let_def vs_def)
  then show ?thesis by (auto simp: all_nonempty_str distinct_map comp_def inj_on_def)
qed

lemma evaluate_write_operations_v2_eligible:
  assumes "evaluate_write_operations_v2 intents items sem bindings records = Inr ev"
    and "item_refs_v2_of items = Inr refs" and "endpoint_refs_v2_of bindings = Inr erefs"
    and "planned_pairs_v2_of sem = Inr pairs"
  shows "eligible_v2 ev \<longleftrightarrow>
     eval_operations_v2 ev = expected_operations_v2_for refs pairs \<and>
     list_all (pair_v2_ok (set refs) (set erefs)) pairs"
proof -
  obtain ops where ops: "normalize_write_operations_v2 intents = Inr ops" "eval_operations_v2 ev = ops"
      "eligible_v2 ev \<longleftrightarrow> evaluation_blockers_v2 refs erefs pairs bindings records ops = []"
    using assms by (auto simp: evaluate_write_operations_v2_def res_simps Let_def)
  then show ?thesis
    using evaluation_blockers_v2_Nil [OF normalize_write_operations_v2_wf [OF ops(1)]]
      item_refs_v2_of_distinct [OF assms(2)] planned_pairs_v2_kinds [OF assms(4)] by simp
qed

section \<open>The execution envelope\<close>

lemma encode_endpoint_inject [simp]: "encode_endpoint a = encode_endpoint b \<longleftrightarrow> a = b"
  by (cases a; cases b) auto

lemma encode_operation_v2_wf:
  assumes "wf_op_v2 op"
  shows "wf_op (encode_operation_v2 op)"
proof (cases op)
  case (RelationshipV2 kind a b deps)
  have "[] \<noteq> encode_endpoint e" for e by (cases e) auto
  then show ?thesis using RelationshipV2 assms by (auto simp: wf_op_def)
qed (use assms in \<open>auto simp: wf_op_def\<close>)

fun deps_of_v2 :: "write_op_v2 \<Rightarrow> string list" where
  "deps_of_v2 (CreateIssueV2 e deps) = deps"
| "deps_of_v2 (RelationshipV2 kind a b deps) = deps"

lemma encode_operation_v2_inject:
  assumes "wf_op_v2 a" "wf_op_v2 b" "deps_of_v2 a = deps_of_v2 b" "encode_operation_v2 a = encode_operation_v2 b"
  shows "a = b"
proof -
  have "e = f" if "is_work_item e" "is_work_item f" "endpoint_ref_of e = endpoint_ref_of f" for e f
    using that by (cases e; cases f) auto
  then show ?thesis using assms by (cases a; cases b) auto
qed

lemma execution_operations_wf: "execution_operations canonical = Inr ops \<Longrightarrow> list_all wf_op ops"
  by (auto simp: execution_operations_def res_simps list_all_iff
      dest!: normalize_write_operations_wf normalize_write_operations_v2_wf
      intro!: encode_operation_v2_wf split: if_splits)

section \<open>Properties\<close>

text \<open>An operation set that creates two items and relates them, to evaluate the properties on.\<close>

definition demo_ops :: "write_op list" where
  "demo_ops = [create_op ''A'', create_op ''B'', relationship_op (''planned_parent'', ''A'', ''B'')]"

definition demo_intents :: pyval where
  "demo_intents = PList (map operation_doc demo_ops)"

definition demo_items :: "pyval list" where
  "demo_items = [obj [(''client_ref'', PStr ''A'')], obj [(''client_ref'', PStr ''B'')]]"

definition demo_semantic :: pyval where
  "demo_semantic = obj [(''planned_relationships'', PList [obj [(''kind'', PStr ''planned_parent''),
     (''from_client_ref'', PStr ''A''), (''to_client_ref'', PStr ''B'')]])]"

lemma demo_evaluation:
  "evaluate_write_operations demo_intents demo_items demo_semantic =
     Inr \<lparr>eval_operations = demo_ops, eligible = True, blockers = []\<rparr>"
  by code_simp

text \<open>
  C18: an evaluation of V1 operations answers \<open>eligible\<close> exactly if the operations are the canonical
  sequence (one create per item in item order, then one relationship per planned pair in plan
  order) and every planned pair relates known items.
\<close>

theorem write_eligible_iff:
  assumes "evaluate_write_operations intents items sem = Inr ev"
  shows "\<exists>refs pairs. item_refs_of items = Inr refs \<and> planned_pairs_of (PTuple []) sem = Inr pairs \<and>
     (eligible ev \<longleftrightarrow> eval_operations ev = expected_operations_for refs pairs \<and>
        (\<forall>(k, s, t) \<in> set pairs. s \<in> set refs \<and> t \<in> set refs))"
proof -
  obtain refs pairs where "item_refs_of items = Inr refs" "planned_pairs_of (PTuple []) sem = Inr pairs"
    using assms by (auto simp: evaluate_write_operations_def res_simps)
  with evaluate_write_operations_eligible [OF assms this] show ?thesis by blast
qed

theorem write_eligible_iff_witness:
  "\<exists>refs pairs. item_refs_of demo_items = Inr refs \<and> planned_pairs_of (PTuple []) demo_semantic = Inr pairs \<and>
     demo_ops = expected_operations_for refs pairs"
  using write_eligible_iff [OF demo_evaluation] by auto

text \<open>
  C19: in an eligible V1 operation set no relationship precedes the creation of an item it refers to.
\<close>

theorem eligible_creates_before_use:
  assumes "evaluate_write_operations intents items sem = Inr ev" "eligible ev"
    and "i < length (eval_operations ev)" "operation_kind (eval_operations ev ! i) \<noteq> ''create_issue''"
    and "ref \<in> set (client_refs (eval_operations ev ! i))"
  shows "\<exists>j < i. eval_operations ev ! j = create_op ref"
proof -
  obtain refs pairs where "item_refs_of items = Inr refs" "planned_pairs_of (PTuple []) sem = Inr pairs"
    using assms(1) by (auto simp: evaluate_write_operations_def res_simps)
  with evaluate_write_operations_eligible [OF assms(1) this] show ?thesis
    using expected_operations_order assms(2-5) by simp
qed

theorem eligible_creates_before_use_witness: "\<exists>j < 2. demo_ops ! j = create_op ''B''"
  using eligible_creates_before_use [OF demo_evaluation, of 2 "''B''"]
  by (simp add: demo_ops_def relationship_op_def create_op_def)

text \<open>The same for V2, with an existing issue as the child.\<close>

definition demo_ops_v2 :: "write_op_v2 list" where
  "demo_ops_v2 = [CreateIssueV2 (WorkItem ''A'') [], RelationshipV2 ''add_sub_issue'' (WorkItem ''A'') (ExistingIssue ''E'') []]"

definition demo_intents_v2 :: pyval where
  "demo_intents_v2 = PList
     [obj [(''operation_kind'', PStr ''create_issue''),
        (''endpoint'', obj [(''endpoint_type'', PStr ''work_item''), (''client_ref'', PStr ''A'')]), (''depends_on'', PList [])],
      obj [(''operation_kind'', PStr ''add_sub_issue''),
        (''operands'', PList [obj [(''endpoint_type'', PStr ''work_item''), (''client_ref'', PStr ''A'')],
           obj [(''endpoint_type'', PStr ''existing_issue''), (''endpoint_ref'', PStr ''E'')]]), (''depends_on'', PList [])]]"

definition demo_semantic_v2 :: pyval where
  "demo_semantic_v2 = obj [(''planned_relationships'', PList [obj [(''kind'', PStr ''planned_parent''),
     (''from_endpoint'', obj [(''endpoint_type'', PStr ''work_item''), (''client_ref'', PStr ''A'')]),
     (''to_endpoint'', obj [(''endpoint_type'', PStr ''existing_issue''), (''endpoint_ref'', PStr ''E'')])]])]"

lemma demo_evaluation_v2:
  "evaluate_write_operations_v2 demo_intents_v2 [obj [(''client_ref'', PStr ''A'')]] demo_semantic_v2
     [obj [(''endpoint_ref'', PStr ''E''), (''issue_id'', PStr ''I'')]] [] =
     Inr \<lparr>eval_operations_v2 = demo_ops_v2, eligible_v2 = True, blockers_v2 = []\<rparr>"
  by code_simp

text \<open>
  C20: an evaluation of V2 operations answers \<open>eligible\<close> exactly if the operations are the canonical
  sequence and every planned pair relates known endpoints of which at least one is a work item of
  the plan (two existing issues are never related).
\<close>

theorem write_eligible_v2_iff:
  assumes "evaluate_write_operations_v2 intents items sem bindings records = Inr ev"
  shows "\<exists>refs erefs pairs. item_refs_v2_of items = Inr refs \<and> endpoint_refs_v2_of bindings = Inr erefs \<and>
     planned_pairs_v2_of sem = Inr pairs \<and>
     (eligible_v2 ev \<longleftrightarrow> eval_operations_v2 ev = expected_operations_v2_for refs pairs \<and>
        list_all (pair_v2_ok (set refs) (set erefs)) pairs)"
proof -
  obtain refs erefs pairs where "item_refs_v2_of items = Inr refs" "endpoint_refs_v2_of bindings = Inr erefs"
      "planned_pairs_v2_of sem = Inr pairs"
    using assms by (auto simp: evaluate_write_operations_v2_def res_simps)
  with evaluate_write_operations_v2_eligible [OF assms this] show ?thesis by blast
qed

theorem write_eligible_v2_iff_witness:
  "\<exists>refs pairs. item_refs_v2_of [obj [(''client_ref'', PStr ''A'')]] = Inr refs \<and>
     planned_pairs_v2_of demo_semantic_v2 = Inr pairs \<and> demo_ops_v2 = expected_operations_v2_for refs pairs"
  using write_eligible_v2_iff [OF demo_evaluation_v2] by auto

text \<open>
  C21: the execution envelope loses nothing of an eligible V2 operation set: two sealed previews
  whose V2 operations carry no dependencies and have the same execution operations have the same
  V2 operations.
\<close>

theorem execution_operations_faithful:
  assumes "dict_get c ''canonical_version'' = PStr ''2''" "dict_get d ''canonical_version'' = PStr ''2''"
    and "normalize_write_operations_v2 (operation_intents_of c) = Inr xs"
    and "normalize_write_operations_v2 (operation_intents_of d) = Inr ys"
    and "list_all (\<lambda>op. deps_of_v2 op = []) xs" "list_all (\<lambda>op. deps_of_v2 op = []) ys"
    and "execution_operations c = execution_operations d"
  shows "xs = ys"
proof -
  have "map encode_operation_v2 xs = map encode_operation_v2 ys"
    using assms by (simp add: execution_operations_def)
  moreover have "inj_on encode_operation_v2 (set xs \<union> set ys)"
    using assms(5,6) normalize_write_operations_v2_wf [OF assms(3)] normalize_write_operations_v2_wf [OF assms(4)]
    by (intro inj_onI encode_operation_v2_inject) (auto simp: list_all_iff)
  ultimately show ?thesis by (rule map_inj_on)
qed

theorem execution_operations_faithful_witness:
  "\<exists>c xs. normalize_write_operations_v2 (operation_intents_of c) = Inr xs \<and> xs = demo_ops_v2"
proof -
  let ?c = "obj [(''canonical_version'', PStr ''2''), (''operation_intents'', demo_intents_v2)]"
  have norm: "normalize_write_operations_v2 demo_intents_v2 = Inr demo_ops_v2" by code_simp
  have doc: "dict_get ?c ''canonical_version'' = PStr ''2''" "operation_intents_of ?c = demo_intents_v2"
    by (simp_all add: dict_get_def operation_intents_of_def)
  have "demo_ops_v2 = demo_ops_v2"
    using execution_operations_faithful [of ?c ?c demo_ops_v2 demo_ops_v2] norm doc
    by (simp add: demo_ops_v2_def)
  then show ?thesis using norm doc by metis
qed

end
