(* ===== verification/App_Identity.thy ===== *)
theory App_Identity
  imports Canonical Write_Operations
begin

text \<open>
  Model of \<open>delivery_system/application_identity.py\<close> and of the data of
  \<open>delivery_system/application_authority.py\<close>: the protected application authority, the logical
  identity of an approved application, the credential continuity anchor, and the identifiers of
  operations and requests.

  The lemmas show which fields an identifier binds (and that issuance and credential-instance
  fields are not among them), that an identity survives its serialisation, and that continuity
  anchors separate principals from legacy instances.
\<close>

section \<open>Application authority\<close>

record authority =
  au_authority_id :: string
  au_workspace_identity :: string
  au_repository_identity :: string
  au_preview_id :: string
  au_revision :: int
  au_sealed_preview_digest :: string
  au_plan_digest :: string
  au_operation_set_digest :: string
  au_remote_snapshot_digest :: string
  au_audit_id :: string
  au_audit_digest :: string
  au_approval_id :: string
  au_approval_digest :: string
  au_credential_binding_id :: string
  au_credential_instance_id :: string
  au_issuer_id :: string
  au_credential_principal_identity :: string
  au_github_subject_identity :: string
  au_driver_identity :: string
  au_remote_authority :: string
  au_required_capabilities :: "string list"
  au_granted_capabilities :: "string list"
  au_issued_at :: string
  au_expires_at :: string

definition authority_fields :: "authority \<Rightarrow> (string \<times> pyval) list" where
  "authority_fields a =
     [(''authority_id'', PStr (au_authority_id a)),
      (''workspace_identity'', PStr (au_workspace_identity a)),
      (''repository_identity'', PStr (au_repository_identity a)),
      (''preview_id'', PStr (au_preview_id a)), (''revision'', PInt (au_revision a)),
      (''sealed_preview_digest'', PStr (au_sealed_preview_digest a)),
      (''plan_digest'', PStr (au_plan_digest a)),
      (''operation_set_digest'', PStr (au_operation_set_digest a)),
      (''remote_snapshot_digest'', PStr (au_remote_snapshot_digest a)),
      (''audit_id'', PStr (au_audit_id a)), (''audit_digest'', PStr (au_audit_digest a)),
      (''approval_id'', PStr (au_approval_id a)), (''approval_digest'', PStr (au_approval_digest a)),
      (''credential_binding_id'', PStr (au_credential_binding_id a)),
      (''credential_instance_id'', PStr (au_credential_instance_id a)),
      (''issuer_id'', PStr (au_issuer_id a)),
      (''credential_principal_identity'', PStr (au_credential_principal_identity a)),
      (''github_subject_identity'', PStr (au_github_subject_identity a)),
      (''driver_identity'', PStr (au_driver_identity a)),
      (''remote_authority'', PStr (au_remote_authority a)),
      (''required_capabilities'', PTuple (map PStr (au_required_capabilities a))),
      (''granted_capabilities'', PTuple (map PStr (au_granted_capabilities a))),
      (''issued_at'', PStr (au_issued_at a)), (''expires_at'', PStr (au_expires_at a))]"

definition authority_to_dict :: "authority \<Rightarrow> pyval" where
  "authority_to_dict a = obj (authority_fields a)"

definition authority_identity_payload :: "authority \<Rightarrow> pyval" where
  "authority_identity_payload a =
     obj [(''domain'', PStr ''delivery-system:application-authority:v1''),
          (''authority'', obj (filter (\<lambda>kv. fst kv \<notin> {''authority_id'', ''issued_at''}) (authority_fields a)))]"

definition authority_expected_id :: "prims \<Rightarrow> authority \<Rightarrow> string res" where
  "authority_expected_id P a =
     rbind (canonical_payload P (authority_identity_payload a))
       (\<lambda>text. Inr (''application-authority-'' @ sha256_hex P text))"

section \<open>Logical application identity\<close>

definition application_id_domain :: string where
  "application_id_domain = ''delivery-system:application:v1''"

record app_values =
  v_workspace_identity :: string
  v_repository_identity :: string
  v_preview_id :: string
  v_revision :: int
  v_sealed_preview_digest :: string
  v_plan_digest :: string
  v_operation_set_digest :: string
  v_remote_snapshot_digest :: string
  v_audit_id :: string
  v_audit_digest :: string
  v_approval_id :: string
  v_approval_digest :: string
  v_github_subject_identity :: string
  v_driver_identity :: string
  v_remote_authority :: string
  v_required_capabilities :: "string list"

definition application_binding_fields :: "string list" where
  "application_binding_fields =
     [''workspace_identity'', ''repository_identity'', ''preview_id'', ''revision'',
      ''sealed_preview_digest'', ''plan_digest'', ''operation_set_digest'',
      ''remote_snapshot_digest'', ''audit_id'', ''audit_digest'', ''approval_id'',
      ''approval_digest'', ''github_subject_identity'', ''driver_identity'',
      ''remote_authority'', ''required_capabilities'']"

text \<open>The checks on one field of the binding.\<close>

definition bound_str :: "pyval \<Rightarrow> string \<Rightarrow> string res" where
  "bound_str values field =
     (case dict_get values field of
        PStr s \<Rightarrow> raise_if (s = []) ''application_binding_invalid'' (Inr s)
      | _ \<Rightarrow> Inl (ValueError ''application_binding_invalid''))"

definition bound_revision :: "pyval \<Rightarrow> int res" where
  "bound_revision values =
     (case dict_get values ''revision'' of
        PInt i \<Rightarrow> raise_if (i < 1) ''application_binding_invalid'' (Inr i)
      | _ \<Rightarrow> Inl (ValueError ''application_binding_invalid''))"

fun as_collection :: "pyval \<Rightarrow> pyval list option" where
  "as_collection (PList xs) = Some xs"
| "as_collection (PTuple xs) = Some xs"
| "as_collection (PSet xs) = Some xs"
| "as_collection _ = None"

definition bound_capabilities :: "pyval \<Rightarrow> string list res" where
  "bound_capabilities values =
     (case as_collection (dict_get values ''required_capabilities'') of
        None \<Rightarrow> Inl (ValueError ''application_binding_invalid'')
      | Some xs \<Rightarrow>
          raise_if (\<not> list_all nonempty_str xs \<or> \<not> distinct xs) ''application_binding_invalid''
            (Inr (sort (map str_of xs))))"

definition logical_values :: "pyval \<Rightarrow> app_values res" where
  "logical_values values =
     raise_if (\<not> is_mapping values \<or> \<not> PStr ` set application_binding_fields \<subseteq> dict_keys values)
       ''application_binding_invalid''
     (rbind (bound_str values ''workspace_identity'') (\<lambda>workspace.
      rbind (bound_str values ''repository_identity'') (\<lambda>repository.
      rbind (bound_str values ''preview_id'') (\<lambda>preview.
      rbind (bound_revision values) (\<lambda>revision.
      rbind (bound_str values ''sealed_preview_digest'') (\<lambda>sealed.
      rbind (bound_str values ''plan_digest'') (\<lambda>plan.
      rbind (bound_str values ''operation_set_digest'') (\<lambda>operation_set.
      rbind (bound_str values ''remote_snapshot_digest'') (\<lambda>snapshot.
      rbind (bound_str values ''audit_id'') (\<lambda>audit.
      rbind (bound_str values ''audit_digest'') (\<lambda>audit_digest.
      rbind (bound_str values ''approval_id'') (\<lambda>approval.
      rbind (bound_str values ''approval_digest'') (\<lambda>approval_digest.
      rbind (bound_str values ''github_subject_identity'') (\<lambda>subject.
      rbind (bound_str values ''driver_identity'') (\<lambda>driver.
      rbind (bound_str values ''remote_authority'') (\<lambda>remote.
      rbind (bound_capabilities values) (\<lambda>capabilities.
        Inr \<lparr>v_workspace_identity = workspace, v_repository_identity = repository,
             v_preview_id = preview, v_revision = revision, v_sealed_preview_digest = sealed,
             v_plan_digest = plan, v_operation_set_digest = operation_set,
             v_remote_snapshot_digest = snapshot, v_audit_id = audit, v_audit_digest = audit_digest,
             v_approval_id = approval, v_approval_digest = approval_digest,
             v_github_subject_identity = subject, v_driver_identity = driver,
             v_remote_authority = remote, v_required_capabilities = capabilities\<rparr>)))))))))))))))))"

definition values_fields :: "app_values \<Rightarrow> (string \<times> pyval) list" where
  "values_fields v =
     [(''workspace_identity'', PStr (v_workspace_identity v)),
      (''repository_identity'', PStr (v_repository_identity v)),
      (''preview_id'', PStr (v_preview_id v)), (''revision'', PInt (v_revision v)),
      (''sealed_preview_digest'', PStr (v_sealed_preview_digest v)),
      (''plan_digest'', PStr (v_plan_digest v)),
      (''operation_set_digest'', PStr (v_operation_set_digest v)),
      (''remote_snapshot_digest'', PStr (v_remote_snapshot_digest v)),
      (''audit_id'', PStr (v_audit_id v)), (''audit_digest'', PStr (v_audit_digest v)),
      (''approval_id'', PStr (v_approval_id v)), (''approval_digest'', PStr (v_approval_digest v)),
      (''github_subject_identity'', PStr (v_github_subject_identity v)),
      (''driver_identity'', PStr (v_driver_identity v)),
      (''remote_authority'', PStr (v_remote_authority v)),
      (''required_capabilities'', strs (v_required_capabilities v))]"

definition values_to_dict :: "app_values \<Rightarrow> pyval" where
  "values_to_dict v = obj (values_fields v)"

record logical_identity =
  id_values :: app_values
  id_application_id :: string

definition identity_to_dict :: "app_values \<Rightarrow> pyval" where
  "identity_to_dict v = obj [(''domain'', PStr application_id_domain), (''application'', values_to_dict v)]"

definition LogicalApplicationIdentity :: "prims \<Rightarrow> pyval \<Rightarrow> logical_identity res" where
  "LogicalApplicationIdentity P values =
     raise_if (\<not> has_exactly values application_binding_fields) ''application_identity_invalid''
     (rbind (logical_values values) (\<lambda>v.
      rbind (digest_hex P (identity_to_dict v)) (\<lambda>h.
        Inr \<lparr>id_values = v, id_application_id = ''application-'' @ h\<rparr>)))"

definition identity_from_authority :: "prims \<Rightarrow> authority \<Rightarrow> logical_identity res" where
  "identity_from_authority P a =
     rbind (logical_values (authority_to_dict a)) (\<lambda>v. LogicalApplicationIdentity P (values_to_dict v))"

definition identity_from_dict :: "prims \<Rightarrow> pyval \<Rightarrow> logical_identity res" where
  "identity_from_dict P value =
     raise_if (\<not> is_mapping value \<or> \<not> has_exactly value [''domain'', ''application'']) ''application_identity_invalid''
     (raise_if (dict_get value ''domain'' \<noteq> PStr application_id_domain \<or>
                \<not> is_mapping (dict_get value ''application'')) ''application_identity_invalid''
        (LogicalApplicationIdentity P (dict_get value ''application'')))"

section \<open>Credential continuity\<close>

datatype anchor_mode = PRINCIPAL | LEGACY_INSTANCE

record continuity_anchor =
  anchor_mode :: anchor_mode
  anchor_values :: "string list"

definition continuity_domain :: string where
  "continuity_domain = ''delivery-system:credential-continuity:v1''"

fun anchor_mode_name :: "anchor_mode \<Rightarrow> string" where
  "anchor_mode_name PRINCIPAL = ''PRINCIPAL''"
| "anchor_mode_name LEGACY_INSTANCE = ''LEGACY_INSTANCE''"

fun anchor_arity :: "anchor_mode \<Rightarrow> nat" where
  "anchor_arity PRINCIPAL = 1"
| "anchor_arity LEGACY_INSTANCE = 2"

definition CredentialContinuityAnchor :: "pyval \<Rightarrow> pyval list \<Rightarrow> continuity_anchor res" where
  "CredentialContinuityAnchor mode values =
     (if \<not> hashable mode then Inl TypeError
      else case find (\<lambda>m. mode = PStr (anchor_mode_name m)) [PRINCIPAL, LEGACY_INSTANCE] of
        None \<Rightarrow> Inl (ValueError ''credential_continuity_invalid'')
      | Some m \<Rightarrow>
          raise_if (values = [] \<or> \<not> list_all nonempty_str values) ''credential_continuity_invalid''
          (raise_if (length values \<noteq> anchor_arity m) ''credential_continuity_invalid''
            (Inr \<lparr>anchor_mode = m, anchor_values = map str_of values\<rparr>)))"

definition anchor_from_authority :: "authority \<Rightarrow> continuity_anchor res" where
  "anchor_from_authority a =
     (if au_credential_principal_identity a \<noteq> []
      then CredentialContinuityAnchor (PStr ''PRINCIPAL'') [PStr (au_credential_principal_identity a)]
      else CredentialContinuityAnchor (PStr ''LEGACY_INSTANCE'')
             [PStr (au_issuer_id a), PStr (au_credential_instance_id a)])"

definition anchor_to_dict :: "continuity_anchor \<Rightarrow> pyval" where
  "anchor_to_dict a = obj [(''domain'', PStr continuity_domain),
     (''mode'', PStr (anchor_mode_name (anchor_mode a))), (''values'', strs (anchor_values a))]"

definition anchor_from_dict :: "pyval \<Rightarrow> continuity_anchor res" where
  "anchor_from_dict value =
     raise_if (\<not> is_mapping value \<or> \<not> has_exactly value [''domain'', ''mode'', ''values''] \<or>
                dict_get value ''domain'' \<noteq> PStr continuity_domain) ''credential_continuity_invalid''
     (case as_sequence (dict_get value ''values'') of
        None \<Rightarrow> Inl (ValueError ''credential_continuity_invalid'')
      | Some values \<Rightarrow> CredentialContinuityAnchor (dict_get value ''mode'') values)"

section \<open>Operation and request identifiers\<close>

definition operation_identity_payload :: "string \<Rightarrow> int \<Rightarrow> write_op \<Rightarrow> pyval" where
  "operation_identity_payload app index op =
     obj [(''domain'', PStr ''delivery-system:operation:v1''), (''application_id'', PStr app),
          (''operation_index'', PInt index), (''operation'', operation_doc op)]"

definition operation_identity :: "prims \<Rightarrow> string \<Rightarrow> int \<Rightarrow> pyval \<Rightarrow> string res" where
  "operation_identity P app index operation =
     raise_if (index < 0 \<or> app = []) ''operation_identity_invalid''
     (case normalize_write_operations (PList [operation]) of
        Inl _ \<Rightarrow> Inl (ValueError ''operation_identity_invalid'')
      | Inr ops \<Rightarrow>
          rbind (digest_hex P (operation_identity_payload app index (hd ops))) (\<lambda>h. Inr (''operation-'' @ h)))"

definition request_identity_payload :: "string \<Rightarrow> pyval" where
  "request_identity_payload op_id =
     obj [(''domain'', PStr ''delivery-system:application-request:v1''), (''operation_identity'', PStr op_id)]"

definition request_identity :: "prims \<Rightarrow> string \<Rightarrow> string res" where
  "request_identity P op_id =
     raise_if (op_id = []) ''request_identity_invalid''
       (rbind (digest_hex P (request_identity_payload op_id)) (\<lambda>h. Inr (''application-request-'' @ h)))"

section \<open>Well-formed binding values\<close>

definition values_ok :: "app_values \<Rightarrow> bool" where
  "values_ok v \<longleftrightarrow>
     list_all (\<lambda>s. s \<noteq> []) [v_workspace_identity v, v_repository_identity v, v_preview_id v, v_sealed_preview_digest v,
        v_plan_digest v, v_operation_set_digest v, v_remote_snapshot_digest v, v_audit_id v, v_audit_digest v,
        v_approval_id v, v_approval_digest v, v_github_subject_identity v, v_driver_identity v,
        v_remote_authority v] \<and>
     1 \<le> v_revision v \<and> [] \<notin> set (v_required_capabilities v) \<and>
     sorted (v_required_capabilities v) \<and> distinct (v_required_capabilities v)"

lemma bound_str_Inr: "bound_str d k = Inr s \<longleftrightarrow> dict_get d k = PStr s \<and> s \<noteq> []"
  by (auto simp: bound_str_def res_simps split: pyval.splits)

lemma bound_revision_Inr: "bound_revision d = Inr i \<longleftrightarrow> dict_get d ''revision'' = PInt i \<and> 1 \<le> i"
  by (auto simp: bound_revision_def res_simps split: pyval.splits)

lemma bound_capabilities_Inr:
  "bound_capabilities d = Inr cs \<longleftrightarrow>
     (\<exists>ss. as_collection (dict_get d ''required_capabilities'') = Some (map PStr ss) \<and>
        [] \<notin> set ss \<and> distinct ss \<and> cs = sort ss)"
proof -
  have "list_all nonempty_str xs \<and> distinct xs \<and> cs = sort (map str_of xs) \<longleftrightarrow>
     (\<exists>ss. xs = map PStr ss \<and> [] \<notin> set ss \<and> distinct ss \<and> cs = sort ss)" for xs
    by (auto simp: all_nonempty_str distinct_map comp_def inj_on_def)
  then have "list_all nonempty_str xs \<and> distinct xs \<and> cs = sort (map str_of xs) \<longleftrightarrow>
     (\<exists>ss. Some xs = Some (map PStr ss) \<and> [] \<notin> set ss \<and> distinct ss \<and> cs = sort ss)" for xs
    by simp
  then show ?thesis
    unfolding bound_capabilities_def
    by (cases "as_collection (dict_get d ''required_capabilities'')") (simp_all add: raise_if_Inr eq_commute [of _ cs])
qed

lemma logical_values_ok: "logical_values d = Inr v \<Longrightarrow> values_ok v"
  by (auto simp: logical_values_def res_simps bound_str_Inr bound_revision_Inr bound_capabilities_Inr values_ok_def)

lemma dict_get_obj [simp]: "dict_get (obj kvs) k = (case map_of kvs k of None \<Rightarrow> PNone | Some v \<Rightarrow> v)"
  by (simp add: dict_get_def)

lemma values_fields_keys: "map fst (values_fields v) = application_binding_fields"
  by (simp add: values_fields_def application_binding_fields_def)

lemma values_keys: "dict_keys (values_to_dict v) = PStr ` set application_binding_fields"
  using values_fields_keys [of v] by (metis dict_keys_obj list.set_map values_to_dict_def)

lemma values_to_dict_get:
  "dict_get (values_to_dict v) ''workspace_identity'' = PStr (v_workspace_identity v)"
  "dict_get (values_to_dict v) ''repository_identity'' = PStr (v_repository_identity v)"
  "dict_get (values_to_dict v) ''preview_id'' = PStr (v_preview_id v)"
  "dict_get (values_to_dict v) ''revision'' = PInt (v_revision v)"
  "dict_get (values_to_dict v) ''sealed_preview_digest'' = PStr (v_sealed_preview_digest v)"
  "dict_get (values_to_dict v) ''plan_digest'' = PStr (v_plan_digest v)"
  "dict_get (values_to_dict v) ''operation_set_digest'' = PStr (v_operation_set_digest v)"
  "dict_get (values_to_dict v) ''remote_snapshot_digest'' = PStr (v_remote_snapshot_digest v)"
  "dict_get (values_to_dict v) ''audit_id'' = PStr (v_audit_id v)"
  "dict_get (values_to_dict v) ''audit_digest'' = PStr (v_audit_digest v)"
  "dict_get (values_to_dict v) ''approval_id'' = PStr (v_approval_id v)"
  "dict_get (values_to_dict v) ''approval_digest'' = PStr (v_approval_digest v)"
  "dict_get (values_to_dict v) ''github_subject_identity'' = PStr (v_github_subject_identity v)"
  "dict_get (values_to_dict v) ''driver_identity'' = PStr (v_driver_identity v)"
  "dict_get (values_to_dict v) ''remote_authority'' = PStr (v_remote_authority v)"
  "dict_get (values_to_dict v) ''required_capabilities'' = strs (v_required_capabilities v)"
  by (simp_all add: values_to_dict_def values_fields_def)

lemma logical_values_to_dict: "values_ok v \<Longrightarrow> logical_values (values_to_dict v) = Inr v"
proof -
  assume ok: "values_ok v"
  have caps: "bound_capabilities (values_to_dict v) = Inr (v_required_capabilities v)"
    using ok unfolding bound_capabilities_Inr
    by (intro exI [of _ "v_required_capabilities v"]) (simp add: values_to_dict_get strs_def values_ok_def sorted_sort_id)
  have rev: "bound_revision (values_to_dict v) = Inr (v_revision v)"
    using ok by (simp add: bound_revision_Inr values_to_dict_get values_ok_def)
  have mapping: "is_mapping (values_to_dict v)" by (simp add: values_to_dict_def)
  show ?thesis
    using ok caps rev mapping values_keys [of v] unfolding logical_values_def values_ok_def
    by (simp add: bound_str_def values_to_dict_get)
qed

section \<open>What the application identifier binds\<close>

lemma literal_keys_values: "literal_keys (values_fields v)"
  by (simp add: literal_keys_def values_fields_def)

lemma normalizable_values [simp]: "normalizable P (values_to_dict v)"
  unfolding values_to_dict_def using literal_keys_values
  by (rule normalizable_obj) (simp add: values_fields_def)

lemma floats_ok_values [simp]: "floats_ok (values_to_dict v)"
  by (simp add: values_to_dict_def values_fields_def)

definition identity_fields :: "app_values \<Rightarrow> (string \<times> pyval) list" where
  "identity_fields v = [(''domain'', PStr application_id_domain), (''application'', values_to_dict v)]"

lemma identity_to_dict_fields: "identity_to_dict v = obj (identity_fields v)"
  by (simp add: identity_to_dict_def identity_fields_def)

lemma literal_keys_identity: "literal_keys (identity_fields v)"
  by (simp add: literal_keys_def identity_fields_def)

lemma normalizable_identity [simp]: "normalizable P (identity_to_dict v)"
  unfolding identity_to_dict_fields using literal_keys_identity
  by (rule normalizable_obj) (simp add: identity_fields_def)

lemma floats_ok_identity [simp]: "floats_ok (identity_to_dict v)"
  by (simp add: identity_to_dict_fields identity_fields_def)

lemma identity_of_values:
  "values_ok v \<Longrightarrow>
   LogicalApplicationIdentity P (values_to_dict v) =
     rbind (digest_hex P (identity_to_dict v)) (\<lambda>h. Inr \<lparr>id_values = v, id_application_id = ''application-'' @ h\<rparr>)"
  using values_keys [of v]
  by (simp add: LogicalApplicationIdentity_def has_exactly_def logical_values_to_dict)

lemma identity_from_authority_values:
  "identity_from_authority P a = Inr ident \<longleftrightarrow>
     (\<exists>v h. logical_values (authority_to_dict a) = Inr v \<and> digest_hex P (identity_to_dict v) = Inr h \<and>
        ident = \<lparr>id_values = v, id_application_id = ''application-'' @ h\<rparr>)"
proof -
  have "LogicalApplicationIdentity P (values_to_dict v) = Inr ident \<longleftrightarrow>
     (\<exists>h. digest_hex P (identity_to_dict v) = Inr h \<and> ident = \<lparr>id_values = v, id_application_id = ''application-'' @ h\<rparr>)"
    if "logical_values (authority_to_dict a) = Inr v" for v
    unfolding identity_of_values [OF logical_values_ok [OF that]] rbind_Inr by blast
  then show ?thesis unfolding identity_from_authority_def rbind_Inr by blast
qed

text \<open>An identity is consistent when its identifier is the digest of its values.\<close>

definition identity_ok :: "prims \<Rightarrow> logical_identity \<Rightarrow> bool" where
  "identity_ok P ident \<longleftrightarrow> values_ok (id_values ident) \<and>
     (\<exists>h. digest_hex P (identity_to_dict (id_values ident)) = Inr h \<and> id_application_id ident = ''application-'' @ h)"

lemma identity_from_authority_ok: "identity_from_authority P a = Inr ident \<Longrightarrow> identity_ok P ident"
  by (auto simp: identity_from_authority_values identity_ok_def dest: logical_values_ok)

lemma LogicalApplicationIdentity_ok: "LogicalApplicationIdentity P d = Inr ident \<Longrightarrow> identity_ok P ident"
  by (auto simp: LogicalApplicationIdentity_def res_simps identity_ok_def dest: logical_values_ok)

lemma identity_from_dict_ok: "identity_from_dict P d = Inr ident \<Longrightarrow> identity_ok P ident"
  by (auto simp: identity_from_dict_def res_simps dest: LogicalApplicationIdentity_ok)

text \<open>Serialising an identity and reading it back gives the same identity.\<close>

lemma identity_roundtrip:
  assumes "identity_ok P ident"
  shows "identity_from_dict P (identity_to_dict (id_values ident)) = Inr ident"
proof -
  have keys: "has_exactly (identity_to_dict (id_values ident)) [''domain'', ''application'']"
    by (simp add: identity_to_dict_def has_exactly_obj)
  have gets: "dict_get (identity_to_dict (id_values ident)) ''domain'' = PStr application_id_domain"
    "dict_get (identity_to_dict (id_values ident)) ''application'' = values_to_dict (id_values ident)"
    "is_mapping (identity_to_dict (id_values ident))"
    by (simp_all add: identity_to_dict_def)
  have "is_mapping (values_to_dict (id_values ident))" by (simp add: values_to_dict_def)
  moreover have "LogicalApplicationIdentity P (values_to_dict (id_values ident)) = Inr ident"
    using assms by (cases ident) (auto simp: identity_ok_def identity_of_values)
  ultimately show ?thesis
    by (simp add: identity_from_dict_def keys gets)
qed

text \<open>Text that normalisation leaves alone.\<close>

definition values_canonical :: "prims \<Rightarrow> app_values \<Rightarrow> bool" where
  "values_canonical P v \<longleftrightarrow> (\<forall>s \<in> {v_workspace_identity v, v_repository_identity v, v_preview_id v,
     v_sealed_preview_digest v, v_plan_digest v, v_operation_set_digest v, v_remote_snapshot_digest v,
     v_audit_id v, v_audit_digest v, v_approval_id v, v_approval_digest v, v_github_subject_identity v,
     v_driver_identity v, v_remote_authority v} \<union> set (v_required_capabilities v). text_norm P s = s)"

lemma values_normalize_inject:
  assumes "normalize P (values_to_dict v) = Inr j" "normalize P (values_to_dict w) = Inr j"
    and "values_canonical P v" "values_canonical P w"
  shows "v = w"
proof -
  have all: "map (\<lambda>kv. normalize P (snd kv)) (values_fields v) = map (\<lambda>kv. normalize P (snd kv)) (values_fields w)"
    using normalize_obj_fields [OF literal_keys_values] assms(1,2) values_fields_keys
    unfolding values_to_dict_def by metis
  then have fields: "map (\<lambda>s. JStr (text_norm P s)) (v_required_capabilities v) =
      map (\<lambda>s. JStr (text_norm P s)) (v_required_capabilities w)"
    unfolding values_fields_def by (auto simp: normalize_strs)
  have "map JStr (v_required_capabilities v) = map JStr (v_required_capabilities w)"
    using fields assms(3,4) by (simp add: values_canonical_def cong: map_cong)
  then have "v_required_capabilities v = v_required_capabilities w"
    by (metis inj_map_eq_map inj_def json.inject(4))
  then show ?thesis
    using all assms(3,4)
    by (cases v; cases w) (simp add: values_fields_def values_canonical_def)
qed

text \<open>
  C22: the application identifier binds every field of the approved application: two consistent
  identities over canonical text with the same identifier are the same identity, unless SHA-256
  collides on their two payloads.
\<close>

theorem application_id_binds:
  assumes "identity_ok P a" "identity_ok P b" "id_application_id a = id_application_id b"
    and "collision_free P (identity_to_dict (id_values a)) (identity_to_dict (id_values b))"
    and "values_canonical P (id_values a)" "values_canonical P (id_values b)"
  shows "a = b"
proof -
  let ?v = "id_values a" and ?w = "id_values b"
  obtain h where h: "digest_hex P (identity_to_dict ?v) = Inr h" "digest_hex P (identity_to_dict ?w) = Inr h"
    using assms(1-3) by (auto simp: identity_ok_def)
  have "normalize P (identity_to_dict ?v) = normalize P (identity_to_dict ?w)"
    using digest_hex_binds [OF h assms(4)] by simp
  moreover obtain j where "normalize P (identity_to_dict ?v) = Inr j"
    using normalizable_identity by (auto simp: normalizable_def)
  ultimately have "map (\<lambda>kv. normalize P (snd kv)) (identity_fields ?v) = map (\<lambda>kv. normalize P (snd kv)) (identity_fields ?w)"
    using normalize_obj_fields [OF literal_keys_identity, of ?v "identity_fields ?w" P j]
    by (simp add: identity_to_dict_fields identity_fields_def)
  then have "normalize P (values_to_dict ?v) = normalize P (values_to_dict ?w)"
    by (simp add: identity_fields_def)
  moreover obtain k where "normalize P (values_to_dict ?v) = Inr k"
    using normalizable_values by (auto simp: normalizable_def)
  ultimately have "?v = ?w" using values_normalize_inject assms(5,6) by metis
  then show ?thesis using assms(3) by (cases a; cases b) simp
qed

text \<open>The converse: bindings that differ only by what normalisation removes share an identifier.\<close>

lemma application_id_congruent:
  assumes "identity_ok P a" "identity_ok P b"
    and "normalize P (identity_to_dict (id_values a)) = normalize P (identity_to_dict (id_values b))"
  shows "id_application_id a = id_application_id b"
  using assms digest_cong [OF assms(3)] by (auto simp: identity_ok_def digest_hex_def)

section \<open>Issuance does not enter the identity\<close>

lemma authority_to_dict_get:
  "dict_get (authority_to_dict a) ''workspace_identity'' = PStr (au_workspace_identity a)"
  "dict_get (authority_to_dict a) ''repository_identity'' = PStr (au_repository_identity a)"
  "dict_get (authority_to_dict a) ''preview_id'' = PStr (au_preview_id a)"
  "dict_get (authority_to_dict a) ''revision'' = PInt (au_revision a)"
  "dict_get (authority_to_dict a) ''sealed_preview_digest'' = PStr (au_sealed_preview_digest a)"
  "dict_get (authority_to_dict a) ''plan_digest'' = PStr (au_plan_digest a)"
  "dict_get (authority_to_dict a) ''operation_set_digest'' = PStr (au_operation_set_digest a)"
  "dict_get (authority_to_dict a) ''remote_snapshot_digest'' = PStr (au_remote_snapshot_digest a)"
  "dict_get (authority_to_dict a) ''audit_id'' = PStr (au_audit_id a)"
  "dict_get (authority_to_dict a) ''audit_digest'' = PStr (au_audit_digest a)"
  "dict_get (authority_to_dict a) ''approval_id'' = PStr (au_approval_id a)"
  "dict_get (authority_to_dict a) ''approval_digest'' = PStr (au_approval_digest a)"
  "dict_get (authority_to_dict a) ''github_subject_identity'' = PStr (au_github_subject_identity a)"
  "dict_get (authority_to_dict a) ''driver_identity'' = PStr (au_driver_identity a)"
  "dict_get (authority_to_dict a) ''remote_authority'' = PStr (au_remote_authority a)"
  "dict_get (authority_to_dict a) ''required_capabilities'' = PTuple (map PStr (au_required_capabilities a))"
  by (simp_all add: authority_to_dict_def authority_fields_def)

lemma authority_keys: "PStr ` set application_binding_fields \<subseteq> dict_keys (authority_to_dict a)"
  unfolding authority_to_dict_def dict_keys_obj
  by (rule image_mono) (simp add: application_binding_fields_def authority_fields_def)

definition capabilities_ok :: "string list \<Rightarrow> bool" where
  "capabilities_ok cs \<longleftrightarrow> [] \<notin> set cs \<and> distinct cs"

lemma bound_capabilities_authority:
  "bound_capabilities (authority_to_dict a) =
     raise_if (\<not> capabilities_ok (au_required_capabilities a)) ''application_binding_invalid''
       (Inr (sort (au_required_capabilities a)))"
proof -
  have "(\<not> list_all nonempty_str (map PStr cs) \<or> \<not> distinct (map PStr cs)) = (\<not> capabilities_ok cs)" for cs
    by (auto simp: capabilities_ok_def list_all_iff distinct_map inj_on_def)
  moreover have "map str_of (map PStr cs) = cs" for cs by (simp add: map_idI)
  ultimately show ?thesis
    unfolding bound_capabilities_def authority_to_dict_get as_collection.simps option.case
    by (simp only:)
qed

definition same_binding :: "authority \<Rightarrow> authority \<Rightarrow> bool" where
  "same_binding a b \<longleftrightarrow>
     au_workspace_identity a = au_workspace_identity b \<and> au_repository_identity a = au_repository_identity b \<and>
     au_preview_id a = au_preview_id b \<and> au_revision a = au_revision b \<and>
     au_sealed_preview_digest a = au_sealed_preview_digest b \<and> au_plan_digest a = au_plan_digest b \<and>
     au_operation_set_digest a = au_operation_set_digest b \<and>
     au_remote_snapshot_digest a = au_remote_snapshot_digest b \<and> au_audit_id a = au_audit_id b \<and>
     au_audit_digest a = au_audit_digest b \<and> au_approval_id a = au_approval_id b \<and>
     au_approval_digest a = au_approval_digest b \<and>
     au_github_subject_identity a = au_github_subject_identity b \<and>
     au_driver_identity a = au_driver_identity b \<and> au_remote_authority a = au_remote_authority b \<and>
     mset (au_required_capabilities a) = mset (au_required_capabilities b)"

text \<open>
  Issuance does not enter the identity: authorities that agree on the binding fields (with the
  same capabilities in any order) have the same logical identity, whatever their authority id,
  credential instance, issuer, grants and times.
\<close>

theorem identity_ignores_issuance:
  assumes "same_binding a b"
  shows "identity_from_authority P a = identity_from_authority P b"
proof -
  have caps: "sort (au_required_capabilities a) = sort (au_required_capabilities b)"
      "capabilities_ok (au_required_capabilities a) = capabilities_ok (au_required_capabilities b)"
    using assms by (auto simp: same_binding_def capabilities_ok_def intro: sort_key_mset_cong
        dest: mset_eq_imp_distinct_iff mset_eq_setD)
  have "logical_values (authority_to_dict a) = logical_values (authority_to_dict b)"
    using assms authority_keys [of a] authority_keys [of b] caps
    unfolding logical_values_def bound_str_def bound_revision_def bound_capabilities_authority authority_to_dict_get
    by (simp add: same_binding_def authority_to_dict_def)
  then show ?thesis by (simp add: identity_from_authority_def)
qed

section \<open>Continuity anchors\<close>

definition anchor_ok :: "continuity_anchor \<Rightarrow> bool" where
  "anchor_ok a \<longleftrightarrow> [] \<notin> set (anchor_values a) \<and> length (anchor_values a) = anchor_arity (anchor_mode a)"

lemma CredentialContinuityAnchor_Inr:
  "CredentialContinuityAnchor mode values = Inr a \<longleftrightarrow>
     mode = PStr (anchor_mode_name (anchor_mode a)) \<and> values = map PStr (anchor_values a) \<and> anchor_ok a"
  (is "?l \<longleftrightarrow> ?r")
proof
  assume ?l
  then show ?r
    by (auto simp: CredentialContinuityAnchor_def res_simps all_nonempty_str comp_def anchor_ok_def
        split: if_splits option.splits)
next
  assume r: ?r
  then have "anchor_values a \<noteq> []" by (cases "anchor_mode a") (auto simp: anchor_ok_def)
  with r show ?l
    by (cases a; cases "anchor_mode a")
      (auto simp: CredentialContinuityAnchor_def anchor_ok_def all_nonempty_str comp_def)
qed

lemma anchor_roundtrip: "anchor_ok a \<Longrightarrow> anchor_from_dict (anchor_to_dict a) = Inr a"
proof -
  assume ok: "anchor_ok a"
  have "has_exactly (anchor_to_dict a) [''domain'', ''mode'', ''values'']"
    by (simp add: anchor_to_dict_def has_exactly_obj)
  moreover have "CredentialContinuityAnchor (PStr (anchor_mode_name (anchor_mode a))) (map PStr (anchor_values a)) = Inr a"
    using ok by (simp add: CredentialContinuityAnchor_Inr)
  ultimately show ?thesis
    by (simp add: anchor_from_dict_def) (simp add: anchor_to_dict_def strs_def)
qed

lemma anchor_from_dict_ok: "anchor_from_dict v = Inr a \<Longrightarrow> anchor_ok a"
  by (auto simp: anchor_from_dict_def res_simps CredentialContinuityAnchor_Inr split: option.splits)

lemma anchor_from_authority_Inr:
  "anchor_from_authority a = Inr c \<longleftrightarrow>
     (if au_credential_principal_identity a \<noteq> []
      then c = \<lparr>anchor_mode = PRINCIPAL, anchor_values = [au_credential_principal_identity a]\<rparr>
      else au_issuer_id a \<noteq> [] \<and> au_credential_instance_id a \<noteq> [] \<and>
           c = \<lparr>anchor_mode = LEGACY_INSTANCE, anchor_values = [au_issuer_id a, au_credential_instance_id a]\<rparr>)"
proof -
  have PRI: "''PRINCIPAL'' = anchor_mode_name m \<longleftrightarrow> m = PRINCIPAL"
    and LEG: "''LEGACY_INSTANCE'' = anchor_mode_name m \<longleftrightarrow> m = LEGACY_INSTANCE" for m
    by (cases m; simp)+
  show ?thesis
    by (cases c) (auto simp: anchor_from_authority_def CredentialContinuityAnchor_Inr PRI LEG anchor_ok_def
        Cons_eq_map_conv)
qed

section \<open>What operation identifiers bind\<close>

definition operation_payload_fields :: "string \<Rightarrow> int \<Rightarrow> write_op \<Rightarrow> (string \<times> pyval) list" where
  "operation_payload_fields app index op =
     [(''domain'', PStr ''delivery-system:operation:v1''), (''application_id'', PStr app),
      (''operation_index'', PInt index), (''operation'', operation_doc op)]"

definition operation_doc_fields :: "write_op \<Rightarrow> (string \<times> pyval) list" where
  "operation_doc_fields op = [(''operation_kind'', PStr (operation_kind op)),
     (''client_refs'', strs (client_refs op)), (''depends_on'', strs (depends_on op))]"

lemma literal_keys_operation:
  "literal_keys (operation_payload_fields app index op)" "literal_keys (operation_doc_fields op)"
  by (simp_all add: literal_keys_def operation_payload_fields_def operation_doc_fields_def)

lemma normalizable_operation_doc [simp]: "normalizable P (operation_doc op)"
  unfolding operation_doc_def
  by (rule normalizable_obj) (simp_all add: literal_keys_def)

lemma floats_ok_operation_doc [simp]: "floats_ok (operation_doc op)"
  by (simp add: operation_doc_def)

lemma normalizable_operation_payload [simp]: "normalizable P (operation_identity_payload app index op)"
  unfolding operation_identity_payload_def
  by (rule normalizable_obj) (simp_all add: literal_keys_def)

lemma floats_ok_operation_payload [simp]: "floats_ok (operation_identity_payload app index op)"
  by (simp add: operation_identity_payload_def)

lemma normalizable_request_payload [simp]: "normalizable P (request_identity_payload r)"
  unfolding request_identity_payload_def
  by (rule normalizable_obj) (simp_all add: literal_keys_def)

lemma normalize_write_operations_single:
  "wf_op op \<Longrightarrow> normalize_write_operations (PList [operation_doc op]) = Inr [op]"
  using normalize_write_operations_docs [of "[op]"] by simp

lemma operation_identity_doc:
  "wf_op op \<Longrightarrow> operation_identity P app index (operation_doc op) = Inr oid \<longleftrightarrow>
     0 \<le> index \<and> app \<noteq> [] \<and>
     (\<exists>h. digest_hex P (operation_identity_payload app index op) = Inr h \<and> oid = ''operation-'' @ h)"
  by (auto simp: operation_identity_def normalize_write_operations_single res_simps)

lemma operation_identity_exists:
  assumes "wf_op op" "0 \<le> index" "app \<noteq> []"
  shows "\<exists>oid. operation_identity P app index (operation_doc op) = Inr oid"
  using assms digest_hex_normalizable [OF normalizable_operation_payload, of P app index op]
  by (auto simp: operation_identity_doc)

definition op_canonical :: "prims \<Rightarrow> write_op \<Rightarrow> bool" where
  "op_canonical P op \<longleftrightarrow>
     (\<forall>s \<in> {operation_kind op} \<union> set (client_refs op) \<union> set (depends_on op). text_norm P s = s)"

lemma operation_doc_inject:
  assumes "normalize P (operation_doc a) = normalize P (operation_doc b)" "op_canonical P a" "op_canonical P b"
  shows "a = b"
proof -
  obtain j where "normalize P (operation_doc a) = Inr j" using normalizable_operation_doc by (auto simp: normalizable_def)
  then have "map (\<lambda>kv. normalize P (snd kv)) (operation_doc_fields a) = map (\<lambda>kv. normalize P (snd kv)) (operation_doc_fields b)"
    using normalize_obj_fields [OF literal_keys_operation(2), of a "operation_doc_fields b" P j] assms(1)
    by (simp add: operation_doc_def operation_doc_fields_def)
  then have "text_norm P (operation_kind a) = text_norm P (operation_kind b)"
      "map (\<lambda>s. JStr (text_norm P s)) (client_refs a) = map (\<lambda>s. JStr (text_norm P s)) (client_refs b)"
      "map (\<lambda>s. JStr (text_norm P s)) (depends_on a) = map (\<lambda>s. JStr (text_norm P s)) (depends_on b)"
    by (simp_all add: operation_doc_fields_def normalize_strs)
  then have "operation_kind a = operation_kind b" "map JStr (client_refs a) = map JStr (client_refs b)"
      "map JStr (depends_on a) = map JStr (depends_on b)"
    using assms(2,3) by (simp_all add: op_canonical_def cong: map_cong)
  moreover have "inj JStr" by (simp add: inj_def)
  ultimately show ?thesis by (cases a; cases b) (simp add: inj_map_eq_map)
qed

text \<open>
  C23: an operation identifier binds the application, the position and the whole operation: equal
  identifiers come from equal applications, indexes and operations, unless SHA-256 collides on
  their payloads.
\<close>

theorem operation_identity_binds:
  assumes "wf_op a" "wf_op b"
    and "operation_identity P app i (operation_doc a) = Inr oid" "operation_identity P app' k (operation_doc b) = Inr oid"
    and "collision_free P (operation_identity_payload app i a) (operation_identity_payload app' k b)"
    and "text_norm P app = app" "text_norm P app' = app'" "op_canonical P a" "op_canonical P b"
  shows "app = app' \<and> i = k \<and> a = b"
proof -
  obtain h where h: "digest_hex P (operation_identity_payload app i a) = Inr h"
      "digest_hex P (operation_identity_payload app' k b) = Inr h"
    using assms(1-4) by (auto simp: operation_identity_doc)
  have "normalize P (operation_identity_payload app i a) = normalize P (operation_identity_payload app' k b)"
    using digest_hex_binds [OF h assms(5)] by simp
  moreover obtain j where "normalize P (operation_identity_payload app i a) = Inr j"
    using normalizable_operation_payload [of P app i a] unfolding normalizable_def by blast
  ultimately have "map (\<lambda>kv. normalize P (snd kv)) (operation_payload_fields app i a) =
      map (\<lambda>kv. normalize P (snd kv)) (operation_payload_fields app' k b)"
    using normalize_obj_fields [OF literal_keys_operation(1), of app i a "operation_payload_fields app' k b" P j]
    by (simp add: operation_identity_payload_def operation_payload_fields_def)
  then have "text_norm P app = text_norm P app'" "i = k" "normalize P (operation_doc a) = normalize P (operation_doc b)"
    by (simp_all add: operation_payload_fields_def)
  then show ?thesis using assms(6-9) operation_doc_inject by metis
qed

section \<open>Examples\<close>

definition demo_values :: app_values where
  "demo_values = \<lparr>v_workspace_identity = ''ws'', v_repository_identity = ''o/r'', v_preview_id = ''p'', v_revision = 1,
     v_sealed_preview_digest = ''sd'', v_plan_digest = ''pd'', v_operation_set_digest = ''od'',
     v_remote_snapshot_digest = ''rd'', v_audit_id = ''a'', v_audit_digest = ''ad'', v_approval_id = ''ap'',
     v_approval_digest = ''apd'', v_github_subject_identity = ''gs'', v_driver_identity = ''dr'',
     v_remote_authority = ''ra'', v_required_capabilities = [''issues:write'']\<rparr>"

lemma demo_values_ok: "values_ok (demo_values\<lparr>v_revision := r\<rparr>) \<longleftrightarrow> 1 \<le> r"
  by (simp add: values_ok_def demo_values_def)

lemma demo_values_canonical: "values_canonical P (demo_values\<lparr>v_revision := r\<rparr>)"
  by (simp add: values_canonical_def demo_values_def text_norm_printable printable_def)

lemma identity_exists: "values_ok v \<Longrightarrow> \<exists>i. identity_ok P i \<and> id_values i = v"
proof -
  assume ok: "values_ok v"
  obtain h where "digest_hex P (identity_to_dict v) = Inr h"
    using digest_hex_normalizable [OF normalizable_identity] by blast
  then have "identity_ok P \<lparr>id_values = v, id_application_id = ''application-'' @ h\<rparr>"
    using ok by (simp add: identity_ok_def)
  then show ?thesis by force
qed

theorem application_id_binds_witness:
  "\<exists>a b. identity_ok plain_prims a \<and> identity_ok plain_prims b \<and> id_application_id a \<noteq> id_application_id b"
proof -
  obtain a b where *: "identity_ok plain_prims a" "id_values a = demo_values\<lparr>v_revision := 1\<rparr>"
      "identity_ok plain_prims b" "id_values b = demo_values\<lparr>v_revision := 2\<rparr>"
    using identity_exists [of "demo_values\<lparr>v_revision := 1\<rparr>" plain_prims]
      identity_exists [of "demo_values\<lparr>v_revision := 2\<rparr>" plain_prims] by (auto simp: demo_values_ok)
  then have "v_revision (id_values a) \<noteq> v_revision (id_values b)" by simp
  then have "a \<noteq> b" by auto
  then have "id_application_id a \<noteq> id_application_id b"
    using application_id_binds [of plain_prims a b] * demo_values_canonical by (metis plain_collision_free)
  then show ?thesis using * by blast
qed

definition demo_authority :: authority where
  "demo_authority = \<lparr>au_authority_id = ''application-authority-1'', au_workspace_identity = ''ws'',
     au_repository_identity = ''o/r'', au_preview_id = ''p'', au_revision = 1, au_sealed_preview_digest = ''sd'',
     au_plan_digest = ''pd'', au_operation_set_digest = ''od'', au_remote_snapshot_digest = ''rd'',
     au_audit_id = ''a'', au_audit_digest = ''ad'', au_approval_id = ''ap'', au_approval_digest = ''apd'',
     au_credential_binding_id = ''cb'', au_credential_instance_id = ''ci'', au_issuer_id = ''is'',
     au_credential_principal_identity = ''github-app-installation-1-2'', au_github_subject_identity = ''gs'', au_driver_identity = ''dr'',
     au_remote_authority = ''ra'', au_required_capabilities = [''issues:write'', ''issues:read''],
     au_granted_capabilities = [''issues:write'', ''issues:read''], au_issued_at = ''2026-01-01T00:00:00Z'',
     au_expires_at = ''2026-01-01T01:00:00Z''\<rparr>"

theorem identity_ignores_issuance_witness:
  "identity_from_authority plain_prims demo_authority =
   identity_from_authority plain_prims (demo_authority\<lparr>au_authority_id := ''application-authority-2'',
      au_credential_instance_id := ''ci2'', au_issued_at := ''2026-02-01T00:00:00Z'',
      au_required_capabilities := [''issues:read'', ''issues:write'']\<rparr>)"
  by (rule identity_ignores_issuance) (simp add: same_binding_def demo_authority_def)

theorem operation_identity_binds_witness:
  "\<exists>i k. operation_identity plain_prims ''app'' 0 (operation_doc (create_op ''A'')) = Inr i \<and>
     operation_identity plain_prims ''app'' 1 (operation_doc (create_op ''A'')) = Inr k \<and> i \<noteq> k"
proof -
  have wf: "wf_op (create_op ''A'')" by (simp add: wf_op_def create_op_def)
  have norm: "text_norm plain_prims ''app'' = ''app''" "op_canonical plain_prims (create_op ''A'')"
    by (simp_all add: text_norm_printable printable_def op_canonical_def create_op_def)
  obtain i k where *: "operation_identity plain_prims ''app'' 0 (operation_doc (create_op ''A'')) = Inr i"
      "operation_identity plain_prims ''app'' 1 (operation_doc (create_op ''A'')) = Inr k"
    using operation_identity_exists [OF wf] by (metis list.distinct(1) zero_le_one order_refl)
  have "i \<noteq> k"
    using operation_identity_binds [OF wf wf, of plain_prims "''app''" 0 i "''app''" 1] * norm by auto
  then show ?thesis using * by blast
qed

end
