(* ===== verification/Receipts.thy ===== *)
theory Receipts
  imports App_Identity
begin

text \<open>
  Model of \<open>delivery_system/receipts.py\<close>: the provenance of an authority, operation receipts and
  application receipts.  A constructor (\<open>OperationReceipt\<close>, \<open>ApplicationReceipt\<close>) is the dataclass
  with its \<open>__post_init__\<close>; it takes the arguments as dynamic values, because receipts are rebuilt
  from stored JSON documents.  \<open>decode_...\<close> is \<open>Class(**document)\<close>, \<open>..._doc\<close> the document that is
  stored.

  The lemmas show that the constructors establish the binding of a receipt to its operation, that
  stored documents are read back as the receipts they came from, and that a receipt digest fixes
  the payload.
\<close>

section \<open>Frozen copies\<close>

text \<open>\<open>_copy\<close> turns lists into tuples (and freezes mappings), \<open>_out\<close> turns tuples into lists.\<close>

fun copy_value :: "pyval \<Rightarrow> pyval" where
  "copy_value (PDict kvs) = PDict (map (\<lambda>kv. (fst kv, copy_value (snd kv))) kvs)"
| "copy_value (PList xs) = PTuple (map copy_value xs)"
| "copy_value (PTuple xs) = PTuple (map copy_value xs)"
| "copy_value v = v"

fun out_value :: "pyval \<Rightarrow> pyval" where
  "out_value (PDict kvs) = PDict (map (\<lambda>kv. (fst kv, out_value (snd kv))) kvs)"
| "out_value (PTuple xs) = PList (map out_value xs)"
| "out_value v = v"

lemma copy_out_copy: "copy_value (out_value (copy_value v)) = copy_value v"
  by (induction v rule: copy_value.induct) simp_all

lemma normalize_dict_cong:
  assumes "map fst kvs = map fst kvs'" "map (\<lambda>kv. normalize P (snd kv)) kvs = map (\<lambda>kv. normalize P (snd kv)) kvs'"
  shows "normalize P (PDict kvs) = normalize P (PDict kvs')"
  by (simp only: normalize.simps assms)

lemma normalize_copy: "normalize P (copy_value v) = normalize P v"
proof (induction v rule: copy_value.induct)
  case (1 kvs)
  then show ?case unfolding copy_value.simps
    by (intro normalize_dict_cong) (auto simp: comp_def)
qed (simp_all add: comp_def cong: map_cong)

text \<open>\<open>_out\<close> leaves sets alone, so it preserves the normal form of frozen values.\<close>

lemma normalize_out_copy: "normalize P (out_value (copy_value v)) = normalize P (copy_value v)"
  by (metis copy_out_copy normalize_copy)

section \<open>Keyword construction\<close>

text \<open>
  \<open>Class(**document)\<close> on a decoded JSON document: every required field is present and no key is
  unknown; otherwise Python raises \<open>TypeError\<close>.
\<close>

definition kwargs_ok :: "pyval \<Rightarrow> string list \<Rightarrow> string list \<Rightarrow> bool" where
  "kwargs_ok doc required optional \<longleftrightarrow>
     is_mapping doc \<and> PStr ` set required \<subseteq> dict_keys doc \<and>
     dict_keys doc \<subseteq> PStr ` (set required \<union> set optional)"

definition kwarg :: "pyval \<Rightarrow> string \<Rightarrow> pyval \<Rightarrow> pyval" where
  "kwarg doc k dflt = (case dict_lookup doc k of None \<Rightarrow> dflt | Some v \<Rightarrow> v)"

lemma kwargs_ok_obj:
  "kwargs_ok (obj kvs) required optional \<longleftrightarrow>
     set required \<subseteq> fst ` set kvs \<and> fst ` set kvs \<subseteq> set required \<union> set optional"
  by (simp add: kwargs_ok_def inj_image_subset_iff)

lemma kwarg_obj [simp]: "kwarg (obj kvs) k dflt = (case map_of kvs k of None \<Rightarrow> dflt | Some v \<Rightarrow> v)"
  by (simp add: kwarg_def)

section \<open>Authority provenance\<close>

record provenance =
  pv_authority_id :: string
  pv_credential_binding_id :: string
  pv_credential_instance_id :: string
  pv_issuer_id :: string
  pv_credential_principal_identity :: string
  pv_github_subject_identity :: string
  pv_issued_at :: string
  pv_expires_at :: string
  pv_driver_identity :: string
  pv_remote_authority :: string
  pv_application_id :: string

definition provenance_domain :: string where
  "provenance_domain = ''delivery-system:authority-provenance:v1''"

definition provenance_fields :: "string list" where
  "provenance_fields =
     [''authority_id'', ''credential_binding_id'', ''credential_instance_id'', ''issuer_id'',
      ''credential_principal_identity'', ''github_subject_identity'', ''issued_at'', ''expires_at'',
      ''driver_identity'', ''remote_authority'', ''application_id'']"

text \<open>One field: text, and non-empty unless it is the principal.\<close>

definition provenance_text :: "pyval \<Rightarrow> string \<Rightarrow> string res" where
  "provenance_text source field =
     (case dict_get source field of
        PStr s \<Rightarrow> raise_if (field \<noteq> ''credential_principal_identity'' \<and> s = []) ''authority_provenance_invalid'' (Inr s)
      | _ \<Rightarrow> Inl (ValueError ''authority_provenance_invalid''))"

definition provenance_from_source :: "pyval \<Rightarrow> provenance res" where
  "provenance_from_source source =
     raise_if (\<not> is_mapping source) ''authority_provenance_invalid''
     (raise_if (\<not> PStr ` set (butlast provenance_fields) \<subseteq> dict_keys source) ''authority_provenance_invalid''
     (rbind (dict_item source ''application_id'') (\<lambda>_.
      rbind (provenance_text source ''authority_id'') (\<lambda>a.
      rbind (provenance_text source ''credential_binding_id'') (\<lambda>b.
      rbind (provenance_text source ''credential_instance_id'') (\<lambda>i.
      rbind (provenance_text source ''issuer_id'') (\<lambda>issuer.
      rbind (provenance_text source ''credential_principal_identity'') (\<lambda>principal.
      rbind (provenance_text source ''github_subject_identity'') (\<lambda>subject.
      rbind (provenance_text source ''issued_at'') (\<lambda>issued.
      rbind (provenance_text source ''expires_at'') (\<lambda>expires.
      rbind (provenance_text source ''driver_identity'') (\<lambda>driver.
      rbind (provenance_text source ''remote_authority'') (\<lambda>remote.
      rbind (provenance_text source ''application_id'') (\<lambda>app.
        Inr \<lparr>pv_authority_id = a, pv_credential_binding_id = b, pv_credential_instance_id = i,
             pv_issuer_id = issuer, pv_credential_principal_identity = principal,
             pv_github_subject_identity = subject, pv_issued_at = issued, pv_expires_at = expires,
             pv_driver_identity = driver, pv_remote_authority = remote, pv_application_id = app\<rparr>))))))))))))))"

definition provenance_from_dict :: "pyval \<Rightarrow> provenance res" where
  "provenance_from_dict value =
     raise_if (\<not> is_mapping value \<or> \<not> has_exactly value (provenance_fields @ [''domain'']) \<or>
               dict_get value ''domain'' \<noteq> PStr provenance_domain) ''authority_provenance_invalid''
       (provenance_from_source value)"

text \<open>\<open>_from_live_authority\<close>; its callers pass the authority of the context itself.\<close>

definition provenance_from_live_authority :: "prims \<Rightarrow> authority \<Rightarrow> provenance res" where
  "provenance_from_live_authority P a =
     rbind (identity_from_authority P a) (\<lambda>ident.
       provenance_from_source (obj (authority_fields a @ [(''application_id'', PStr (id_application_id ident))])))"

definition provenance_kvs :: "provenance \<Rightarrow> (string \<times> pyval) list" where
  "provenance_kvs p =
     [(''domain'', PStr provenance_domain), (''authority_id'', PStr (pv_authority_id p)),
      (''credential_binding_id'', PStr (pv_credential_binding_id p)),
      (''credential_instance_id'', PStr (pv_credential_instance_id p)),
      (''issuer_id'', PStr (pv_issuer_id p)),
      (''credential_principal_identity'', PStr (pv_credential_principal_identity p)),
      (''github_subject_identity'', PStr (pv_github_subject_identity p)),
      (''issued_at'', PStr (pv_issued_at p)), (''expires_at'', PStr (pv_expires_at p)),
      (''driver_identity'', PStr (pv_driver_identity p)),
      (''remote_authority'', PStr (pv_remote_authority p)),
      (''application_id'', PStr (pv_application_id p))]"

definition provenance_to_dict :: "provenance \<Rightarrow> pyval" where
  "provenance_to_dict p = obj (provenance_kvs p)"

definition provenance_ok :: "provenance \<Rightarrow> bool" where
  "provenance_ok p \<longleftrightarrow>
     list_all (\<lambda>s. s \<noteq> []) [pv_authority_id p, pv_credential_binding_id p, pv_credential_instance_id p,
       pv_issuer_id p, pv_github_subject_identity p, pv_issued_at p, pv_expires_at p,
       pv_driver_identity p, pv_remote_authority p, pv_application_id p]"

lemma provenance_text_Inr:
  "provenance_text d k = Inr s \<longleftrightarrow> dict_get d k = PStr s \<and> (k \<noteq> ''credential_principal_identity'' \<longrightarrow> s \<noteq> [])"
  by (auto simp: provenance_text_def res_simps split: pyval.splits)

lemma provenance_from_source_ok: "provenance_from_source d = Inr p \<Longrightarrow> provenance_ok p"
  unfolding provenance_from_source_def by (auto simp: res_simps provenance_text_Inr provenance_ok_def)

lemma provenance_from_source_get:
  assumes "provenance_from_source d = Inr p"
  shows "dict_get d ''application_id'' = PStr (pv_application_id p)"
  using assms unfolding provenance_from_source_def by (auto simp: res_simps provenance_text_Inr)

lemma provenance_from_dict_ok: "provenance_from_dict d = Inr p \<Longrightarrow> provenance_ok p"
  by (auto simp: provenance_from_dict_def res_simps dest: provenance_from_source_ok)

lemma provenance_to_dict_get:
  "dict_get (provenance_to_dict p) ''domain'' = PStr provenance_domain"
  "dict_get (provenance_to_dict p) ''authority_id'' = PStr (pv_authority_id p)"
  "dict_get (provenance_to_dict p) ''credential_binding_id'' = PStr (pv_credential_binding_id p)"
  "dict_get (provenance_to_dict p) ''credential_instance_id'' = PStr (pv_credential_instance_id p)"
  "dict_get (provenance_to_dict p) ''issuer_id'' = PStr (pv_issuer_id p)"
  "dict_get (provenance_to_dict p) ''credential_principal_identity'' = PStr (pv_credential_principal_identity p)"
  "dict_get (provenance_to_dict p) ''github_subject_identity'' = PStr (pv_github_subject_identity p)"
  "dict_get (provenance_to_dict p) ''issued_at'' = PStr (pv_issued_at p)"
  "dict_get (provenance_to_dict p) ''expires_at'' = PStr (pv_expires_at p)"
  "dict_get (provenance_to_dict p) ''driver_identity'' = PStr (pv_driver_identity p)"
  "dict_get (provenance_to_dict p) ''remote_authority'' = PStr (pv_remote_authority p)"
  "dict_get (provenance_to_dict p) ''application_id'' = PStr (pv_application_id p)"
  by (simp_all add: provenance_to_dict_def provenance_kvs_def)

lemma provenance_keys: "dict_keys (provenance_to_dict p) = PStr ` set (provenance_fields @ [''domain''])"
proof -
  have "fst ` set (provenance_kvs p) = set (provenance_fields @ [''domain''])"
    by (simp add: provenance_kvs_def provenance_fields_def insert_commute)
  then show ?thesis by (simp only: provenance_to_dict_def dict_keys_obj)
qed

lemma provenance_roundtrip: "provenance_ok p \<Longrightarrow> provenance_from_dict (provenance_to_dict p) = Inr p"
proof -
  assume ok: "provenance_ok p"
  have keys: "PStr ` set (butlast provenance_fields) \<subseteq> dict_keys (provenance_to_dict p)"
    unfolding provenance_keys by (rule image_mono) (simp add: provenance_fields_def)
  have app: "dict_item (provenance_to_dict p) ''application_id'' = Inr (PStr (pv_application_id p))"
    by (simp add: dict_item_def provenance_to_dict_def provenance_kvs_def)
  have mapping: "is_mapping (provenance_to_dict p)" by (simp add: provenance_to_dict_def)
  have "provenance_from_source (provenance_to_dict p) = Inr p"
    unfolding provenance_from_source_def provenance_text_def provenance_to_dict_get app
    using ok keys mapping by (simp add: provenance_ok_def)
  then show ?thesis
    unfolding provenance_from_dict_def has_exactly_def provenance_keys provenance_to_dict_get
    using mapping by simp
qed

lemma literal_keys_provenance: "literal_keys (provenance_kvs p)"
  by (simp add: literal_keys_def provenance_kvs_def)

lemma normalizable_provenance [simp]: "normalizable P (provenance_to_dict p)"
  unfolding provenance_to_dict_def using literal_keys_provenance
  by (rule normalizable_obj) (simp add: provenance_kvs_def)

lemma floats_ok_provenance [simp]: "floats_ok (provenance_to_dict p)"
  by (simp add: provenance_to_dict_def provenance_kvs_def)

section \<open>Operation receipts\<close>

record remote_result =
  rr_kind :: string
  rr_identity :: string
  rr_digest :: string
  rr_payload :: pyval

definition remote_result_fields :: "string list" where
  "remote_result_fields = [''result_kind'', ''result_identity'', ''result_digest'', ''result_payload'']"

definition remote_result :: "prims \<Rightarrow> pyval \<Rightarrow> remote_result res" where
  "remote_result P value =
     raise_if (\<not> is_mapping value \<or> \<not> has_exactly value remote_result_fields) ''remote_result_invalid''
     (raise_if (\<not> list_all (\<lambda>f. nonempty_str (dict_get value f)) [''result_kind'', ''result_identity'', ''result_digest''])
        ''remote_result_invalid''
     (let payload = copy_value (dict_get value ''result_payload'') in
      raise_if (\<not> is_mapping payload) ''remote_result_invalid''
      (rbind (digest P payload) (\<lambda>d.
       raise_if (dict_get value ''result_digest'' \<noteq> PStr d) ''remote_result_invalid''
         (Inr \<lparr>rr_kind = str_of (dict_get value ''result_kind''),
               rr_identity = str_of (dict_get value ''result_identity''),
               rr_digest = str_of (dict_get value ''result_digest''), rr_payload = payload\<rparr>)))))"

definition remote_result_kvs :: "remote_result \<Rightarrow> (string \<times> pyval) list" where
  "remote_result_kvs r = [(''result_kind'', PStr (rr_kind r)), (''result_identity'', PStr (rr_identity r)),
     (''result_digest'', PStr (rr_digest r)), (''result_payload'', out_value (rr_payload r))]"

definition remote_result_doc :: "remote_result \<Rightarrow> pyval" where
  "remote_result_doc r = obj (remote_result_kvs r)"

definition remote_result_ok :: "prims \<Rightarrow> remote_result \<Rightarrow> bool" where
  "remote_result_ok P r \<longleftrightarrow> rr_kind r \<noteq> [] \<and> rr_identity r \<noteq> [] \<and> rr_digest r \<noteq> [] \<and>
     is_mapping (rr_payload r) \<and> (\<exists>v. rr_payload r = copy_value v) \<and> digest P (rr_payload r) = Inr (rr_digest r)"

lemma remote_result_Inr: "remote_result P v = Inr r \<Longrightarrow> remote_result_ok P r"
  by (auto simp: remote_result_def res_simps Let_def nonempty_str_iff remote_result_ok_def)

lemma is_mapping_out_copy [simp]: "is_mapping (out_value v) = is_mapping v" "is_mapping (copy_value v) = is_mapping v"
  by (cases v; simp)+

lemma remote_result_roundtrip: "remote_result_ok P r \<Longrightarrow> remote_result P (remote_result_doc r) = Inr r"
proof -
  assume ok: "remote_result_ok P r"
  then have "copy_value (out_value (rr_payload r)) = rr_payload r"
    by (auto simp: remote_result_ok_def copy_out_copy)
  moreover have "has_exactly (remote_result_doc r) remote_result_fields"
    by (simp add: remote_result_doc_def remote_result_kvs_def has_exactly_obj remote_result_fields_def)
  ultimately show ?thesis
    using ok by (simp add: remote_result_def remote_result_doc_def remote_result_kvs_def remote_result_ok_def)
qed

record operation_receipt =
  or_receipt_id :: string
  or_application_id :: string
  or_identity :: logical_identity
  or_operation_identity :: string
  or_index :: int
  or_operation :: write_op
  or_request_identity :: string
  or_provenance :: provenance
  or_result :: remote_result
  or_started_at :: string
  or_completed_at :: string
  or_digest :: pyval

definition receipt_id_payload :: "string \<Rightarrow> pyval" where
  "receipt_id_payload op_id =
     obj [(''domain'', PStr ''delivery-system:operation-receipt-id:v1''), (''operation_identity'', PStr op_id)]"

definition operation_receipt_id_of :: "prims \<Rightarrow> string \<Rightarrow> string res" where
  "operation_receipt_id_of P op_id =
     rbind (digest_hex P (receipt_id_payload op_id)) (\<lambda>h. Inr (''operation-receipt-'' @ h))"

text \<open>
  The first operation of a one-element sequence, \<open>normalize_write_operations([op])[0]\<close>, and
  \<open>operation_identity\<close> on an argument that need not be text.
\<close>

definition single_operation :: "pyval \<Rightarrow> write_op res" where
  "single_operation op = rbind (normalize_write_operations (PList [op])) (\<lambda>ops. Inr (hd ops))"

definition operation_identity_of :: "prims \<Rightarrow> pyval \<Rightarrow> int \<Rightarrow> write_op \<Rightarrow> string res" where
  "operation_identity_of P app index op =
     (case app of
        PStr a \<Rightarrow> operation_identity P a index (operation_doc op)
      | _ \<Rightarrow> Inl (ValueError ''operation_identity_invalid''))"

text \<open>
  \<open>OperationReceipt.__post_init__\<close>.  The identity and the provenance are given as the results of
  reading them, because each is either an object already or is read from its document here, in
  this order.
\<close>

definition OperationReceipt ::
  "prims \<Rightarrow> pyval \<Rightarrow> pyval \<Rightarrow> logical_identity res \<Rightarrow> pyval \<Rightarrow> pyval \<Rightarrow> pyval \<Rightarrow> pyval \<Rightarrow> provenance res \<Rightarrow>
   pyval \<Rightarrow> pyval \<Rightarrow> pyval \<Rightarrow> pyval \<Rightarrow> operation_receipt res" where
  "OperationReceipt P receipt_id app ident op_id index operation request prov result started completed dig =
     rbind ident (\<lambda>identity.
     rbind (single_operation (out_value operation)) (\<lambda>op.
     rbind prov (\<lambda>provenance.
     rbind (remote_result P result) (\<lambda>rr.
     (case index of
        PInt i \<Rightarrow>
          raise_if (i < 0) ''operation_receipt_invalid''
          (rbind (operation_identity_of P app i op) (\<lambda>expected_operation.
           raise_if (app \<noteq> PStr (id_application_id identity) \<or>
                     pv_application_id provenance \<noteq> id_application_id identity \<or>
                     op_id \<noteq> PStr expected_operation) ''operation_receipt_binding_invalid''
           (rbind (request_identity P expected_operation) (\<lambda>expected_request.
            raise_if (request \<noteq> PStr expected_request) ''operation_receipt_binding_invalid''
            (rbind (operation_receipt_id_of P expected_operation) (\<lambda>expected_receipt_id.
             raise_if (receipt_id \<noteq> PStr expected_receipt_id) ''operation_receipt_invalid''
             (raise_if (\<not> nonempty_str started \<or> \<not> nonempty_str completed) ''operation_receipt_invalid''
               (Inr \<lparr>or_receipt_id = expected_receipt_id, or_application_id = id_application_id identity,
                     or_identity = identity, or_operation_identity = expected_operation, or_index = i,
                     or_operation = op, or_request_identity = expected_request, or_provenance = provenance,
                     or_result = rr, or_started_at = str_of started, or_completed_at = str_of completed,
                     or_digest = dig\<rparr>))))))))
      | _ \<Rightarrow> Inl (ValueError ''operation_receipt_invalid''))))))"

definition operation_receipt_kvs :: "operation_receipt \<Rightarrow> (string \<times> pyval) list" where
  "operation_receipt_kvs r =
     [(''operation_receipt_id'', PStr (or_receipt_id r)), (''application_id'', PStr (or_application_id r)),
      (''identity'', identity_to_dict (id_values (or_identity r))),
      (''operation_identity'', PStr (or_operation_identity r)), (''operation_index'', PInt (or_index r)),
      (''canonical_operation'', operation_doc (or_operation r)),
      (''request_identity'', PStr (or_request_identity r)),
      (''authority_binding'', provenance_to_dict (or_provenance r)),
      (''remote_result'', remote_result_doc (or_result r)), (''started_at'', PStr (or_started_at r)),
      (''completed_at'', PStr (or_completed_at r))]"

definition operation_receipt_payload :: "operation_receipt \<Rightarrow> pyval" where
  "operation_receipt_payload r = obj (operation_receipt_kvs r)"

definition operation_receipt_doc :: "operation_receipt \<Rightarrow> pyval" where
  "operation_receipt_doc r = obj (operation_receipt_kvs r @ [(''receipt_digest'', or_digest r)])"

definition operation_receipt_with_digest :: "prims \<Rightarrow> operation_receipt \<Rightarrow> operation_receipt res" where
  "operation_receipt_with_digest P r =
     rbind (digest P (operation_receipt_payload r)) (\<lambda>d. Inr (r\<lparr>or_digest := PStr d\<rparr>))"

definition operation_receipt_verify :: "prims \<Rightarrow> operation_receipt \<Rightarrow> bool res" where
  "operation_receipt_verify P r =
     (if \<not> truthy (or_digest r) then Inr False
      else rbind (digest P (operation_receipt_payload r)) (\<lambda>d. Inr (or_digest r = PStr d)))"

definition operation_receipt_required :: "string list" where
  "operation_receipt_required =
     [''operation_receipt_id'', ''application_id'', ''identity'', ''operation_identity'', ''operation_index'',
      ''canonical_operation'', ''request_identity'', ''authority_binding'', ''remote_result'', ''started_at'',
      ''completed_at'']"

definition decode_operation_receipt :: "prims \<Rightarrow> pyval \<Rightarrow> operation_receipt res" where
  "decode_operation_receipt P doc =
     (if \<not> kwargs_ok doc operation_receipt_required [''receipt_digest'', ''_live_context''] then Inl TypeError
      else OperationReceipt P (dict_get doc ''operation_receipt_id'') (dict_get doc ''application_id'')
             (identity_from_dict P (dict_get doc ''identity'')) (dict_get doc ''operation_identity'')
             (dict_get doc ''operation_index'') (dict_get doc ''canonical_operation'')
             (dict_get doc ''request_identity'') (provenance_from_dict (dict_get doc ''authority_binding''))
             (dict_get doc ''remote_result'') (dict_get doc ''started_at'') (dict_get doc ''completed_at'')
             (kwarg doc ''receipt_digest'' (PStr [])))"

text \<open>What the constructor establishes.\<close>

definition operation_receipt_ok :: "prims \<Rightarrow> operation_receipt \<Rightarrow> bool" where
  "operation_receipt_ok P r \<longleftrightarrow>
     identity_ok P (or_identity r) \<and> or_application_id r = id_application_id (or_identity r) \<and>
     wf_op (or_operation r) \<and> 0 \<le> or_index r \<and>
     operation_identity P (or_application_id r) (or_index r) (operation_doc (or_operation r)) = Inr (or_operation_identity r) \<and>
     request_identity P (or_operation_identity r) = Inr (or_request_identity r) \<and>
     operation_receipt_id_of P (or_operation_identity r) = Inr (or_receipt_id r) \<and>
     provenance_ok (or_provenance r) \<and> pv_application_id (or_provenance r) = or_application_id r \<and>
     remote_result_ok P (or_result r) \<and> or_started_at r \<noteq> [] \<and> or_completed_at r \<noteq> []"

lemma single_operation_wf: "single_operation v = Inr op \<Longrightarrow> wf_op op"
proof -
  assume "single_operation v = Inr op"
  then obtain ops where ops: "normalize_write_operations (PList [v]) = Inr ops" "op = hd ops"
    by (auto simp: single_operation_def rbind_Inr)
  then have "list_all wf_op ops" by (simp add: normalize_write_operations_wf)
  moreover have "length ops = 1" using ops(1)
    by (auto simp: normalize_write_operations_def rbind_Inr)
  ultimately show ?thesis using ops(2) by (cases ops) auto
qed

lemma single_operation_doc: "wf_op op \<Longrightarrow> single_operation (operation_doc op) = Inr op"
  by (simp add: single_operation_def normalize_write_operations_single)

lemma operation_identity_of_Inr:
  "operation_identity_of P app i op = Inr oid \<longleftrightarrow>
     (\<exists>a. app = PStr a \<and> operation_identity P a i (operation_doc op) = Inr oid)"
  by (cases app) (auto simp: operation_identity_of_def)

lemma OperationReceipt_Inr:
  assumes "OperationReceipt P receipt_id app ident op_id index operation request prov result started completed dig = Inr r"
  shows "\<exists>op. single_operation (out_value operation) = Inr op \<and> or_operation r = op"
    "ident = Inr (or_identity r)" "prov = Inr (or_provenance r)"
    "remote_result P result = Inr (or_result r)" "index = PInt (or_index r)" "0 \<le> or_index r"
    "app = PStr (or_application_id r)" "or_application_id r = id_application_id (or_identity r)"
    "pv_application_id (or_provenance r) = or_application_id r"
    "operation_identity P (or_application_id r) (or_index r) (operation_doc (or_operation r)) = Inr (or_operation_identity r)"
    "request_identity P (or_operation_identity r) = Inr (or_request_identity r)"
    "operation_receipt_id_of P (or_operation_identity r) = Inr (or_receipt_id r)"
    "receipt_id = PStr (or_receipt_id r)" "op_id = PStr (or_operation_identity r)" "request = PStr (or_request_identity r)"
    "started = PStr (or_started_at r)" "or_started_at r \<noteq> []" "completed = PStr (or_completed_at r)"
    "or_completed_at r \<noteq> []" "or_digest r = dig"
  using assms unfolding OperationReceipt_def
  by (cases index; auto simp: res_simps operation_identity_of_Inr nonempty_str_iff)+

lemma OperationReceipt_ok:
  assumes "OperationReceipt P receipt_id app ident op_id index operation request prov result started completed dig = Inr r"
    and "\<And>i. ident = Inr i \<Longrightarrow> identity_ok P i" "\<And>p. prov = Inr p \<Longrightarrow> provenance_ok p"
  shows "operation_receipt_ok P r"
  using OperationReceipt_Inr [OF assms(1)] assms(2,3) unfolding operation_receipt_ok_def
  by (auto intro: single_operation_wf remote_result_Inr)

lemma decode_operation_receipt_ok: "decode_operation_receipt P doc = Inr r \<Longrightarrow> operation_receipt_ok P r"
  unfolding decode_operation_receipt_def
  by (rule OperationReceipt_ok) (auto split: if_splits intro: identity_from_dict_ok provenance_from_dict_ok)

lemma OperationReceipt_intro:
  assumes "operation_receipt_ok P r"
  shows "OperationReceipt P (PStr (or_receipt_id r)) (PStr (or_application_id r)) (Inr (or_identity r))
      (PStr (or_operation_identity r)) (PInt (or_index r)) (operation_doc (or_operation r))
      (PStr (or_request_identity r)) (Inr (or_provenance r)) (remote_result_doc (or_result r))
      (PStr (or_started_at r)) (PStr (or_completed_at r)) dig = Inr (r\<lparr>or_digest := dig\<rparr>)"
proof -
  have "out_value (operation_doc op) = operation_doc op" for op
    by (simp add: operation_doc_def obj_def strs_def)
  moreover have app: "id_application_id (or_identity r) = or_application_id r"
    using assms by (simp add: operation_receipt_ok_def)
  ultimately show ?thesis
    using assms unfolding OperationReceipt_def operation_receipt_ok_def app
    by (simp add: app single_operation_doc remote_result_roundtrip operation_identity_of_def)
qed

lemma operation_receipt_doc_kwargs:
  "kwargs_ok (operation_receipt_doc r) operation_receipt_required [''receipt_digest'', ''_live_context'']"
  unfolding operation_receipt_doc_def kwargs_ok_obj
  by (simp add: operation_receipt_kvs_def operation_receipt_required_def)

lemma operation_receipt_doc_get:
  "dict_get (operation_receipt_doc r) ''operation_receipt_id'' = PStr (or_receipt_id r)"
  "dict_get (operation_receipt_doc r) ''application_id'' = PStr (or_application_id r)"
  "dict_get (operation_receipt_doc r) ''identity'' = identity_to_dict (id_values (or_identity r))"
  "dict_get (operation_receipt_doc r) ''operation_identity'' = PStr (or_operation_identity r)"
  "dict_get (operation_receipt_doc r) ''operation_index'' = PInt (or_index r)"
  "dict_get (operation_receipt_doc r) ''canonical_operation'' = operation_doc (or_operation r)"
  "dict_get (operation_receipt_doc r) ''request_identity'' = PStr (or_request_identity r)"
  "dict_get (operation_receipt_doc r) ''authority_binding'' = provenance_to_dict (or_provenance r)"
  "dict_get (operation_receipt_doc r) ''remote_result'' = remote_result_doc (or_result r)"
  "dict_get (operation_receipt_doc r) ''started_at'' = PStr (or_started_at r)"
  "dict_get (operation_receipt_doc r) ''completed_at'' = PStr (or_completed_at r)"
  "kwarg (operation_receipt_doc r) ''receipt_digest'' v = or_digest r"
  by (simp_all add: operation_receipt_doc_def operation_receipt_kvs_def)

lemma operation_receipt_roundtrip:
  "operation_receipt_ok P r \<Longrightarrow> decode_operation_receipt P (operation_receipt_doc r) = Inr r"
proof -
  assume ok: "operation_receipt_ok P r"
  then have "identity_from_dict P (identity_to_dict (id_values (or_identity r))) = Inr (or_identity r)"
      "provenance_from_dict (provenance_to_dict (or_provenance r)) = Inr (or_provenance r)"
    by (simp_all add: operation_receipt_ok_def identity_roundtrip provenance_roundtrip)
  then show ?thesis
    unfolding decode_operation_receipt_def operation_receipt_doc_get
    using operation_receipt_doc_kwargs [of r] OperationReceipt_intro [OF ok] by simp
qed

text \<open>The digest of a receipt exists, and fixes the normal form of its payload.\<close>

lemma literal_keys_operation_receipt:
  "literal_keys (operation_receipt_kvs r)" "literal_keys (remote_result_kvs rr)"
  by (simp_all add: literal_keys_def operation_receipt_kvs_def remote_result_kvs_def)

lemma normalizable_out_copy: "digest P (copy_value v) = Inr d \<Longrightarrow> normalizable P (out_value (copy_value v))"
  by (auto simp: digest_Inr canonical_payload_def rbind_Inr normalizable_def normalize_out_copy)

lemma normalizable_remote_result: "remote_result_ok P rr \<Longrightarrow> normalizable P (remote_result_doc rr)"
  unfolding remote_result_doc_def using literal_keys_operation_receipt(2)
  by (rule normalizable_obj) (auto simp: remote_result_kvs_def remote_result_ok_def normalizable_out_copy)

lemma normalizable_operation_receipt:
  "operation_receipt_ok P r \<Longrightarrow> normalizable P (operation_receipt_payload r)"
  unfolding operation_receipt_payload_def using literal_keys_operation_receipt(1)
  by (rule normalizable_obj)
    (simp_all add: operation_receipt_kvs_def operation_receipt_ok_def normalizable_remote_result)

lemma operation_receipt_payload_digest [simp]:
  "operation_receipt_payload (r\<lparr>or_digest := d\<rparr>) = operation_receipt_payload r"
  by (simp add: operation_receipt_payload_def operation_receipt_kvs_def)

lemma operation_receipt_ok_digest [simp]: "operation_receipt_ok P (r\<lparr>or_digest := d\<rparr>) = operation_receipt_ok P r"
  by (simp add: operation_receipt_ok_def)

lemma operation_receipt_with_digest_Inr:
  "operation_receipt_with_digest P r = Inr r' \<longleftrightarrow>
     (\<exists>d. digest P (operation_receipt_payload r) = Inr d \<and> r' = r\<lparr>or_digest := PStr d\<rparr>)"
  by (auto simp: operation_receipt_with_digest_def rbind_Inr)

lemma operation_receipt_with_digest_exists:
  "operation_receipt_ok P r \<Longrightarrow> \<exists>r'. operation_receipt_with_digest P r = Inr r'"
  using digest_normalizable [OF normalizable_operation_receipt]
  by (auto simp: operation_receipt_with_digest_Inr)

lemma digest_nonempty: "digest P v = Inr d \<Longrightarrow> d \<noteq> []"
  by (auto simp: digest_Inr)

lemma operation_receipt_verify_True:
  "operation_receipt_verify P r = Inr True \<longleftrightarrow>
     (\<exists>d. or_digest r = PStr d \<and> digest P (operation_receipt_payload r) = Inr d)"
  by (auto simp: operation_receipt_verify_def rbind_Inr dest: digest_nonempty)

lemma operation_receipt_with_digest_verify:
  "operation_receipt_with_digest P r = Inr r' \<Longrightarrow> operation_receipt_verify P r' = Inr True"
  by (auto simp: operation_receipt_with_digest_Inr operation_receipt_verify_True)

lemma operation_receipt_digest_binds:
  assumes "operation_receipt_verify P a = Inr True" "operation_receipt_verify P b = Inr True"
    and "or_digest a = or_digest b"
    and "collision_free P (operation_receipt_payload a) (operation_receipt_payload b)"
    and "floats_ok (operation_receipt_payload a)" "floats_ok (operation_receipt_payload b)"
  shows "normalize P (operation_receipt_payload a) = normalize P (operation_receipt_payload b)"
proof -
  obtain d where "digest P (operation_receipt_payload a) = Inr d" "digest P (operation_receipt_payload b) = Inr d"
    using assms(1-3) by (auto simp: operation_receipt_verify_True)
  then show ?thesis using digest_binds assms(4-6) by blast
qed

section \<open>Application receipts\<close>

record application_receipt =
  ar_receipt_id :: string
  ar_application_id :: string
  ar_identity :: logical_identity
  ar_operation_set_digest :: string
  ar_refs :: "(string \<times> string) list"
  ar_started_at :: pyval
  ar_completed_at :: pyval
  ar_digest :: pyval

definition application_receipt_id_payload :: "string \<Rightarrow> pyval" where
  "application_receipt_id_payload app =
     obj [(''domain'', PStr ''delivery-system:application-receipt-id:v1''), (''application_id'', PStr app)]"

definition application_receipt_id_of :: "prims \<Rightarrow> string \<Rightarrow> string res" where
  "application_receipt_id_of P app =
     rbind (digest_hex P (application_receipt_id_payload app)) (\<lambda>h. Inr (''application-receipt-'' @ h))"

text \<open>The elements a \<open>for\<close> loop visits, and the two entries read from one of them.\<close>

fun iterate :: "pyval \<Rightarrow> pyval list option" where
  "iterate (PList xs) = Some xs"
| "iterate (PTuple xs) = Some xs"
| "iterate (PSet xs) = Some xs"
| "iterate (PDict kvs) = Some (map fst kvs)"
| "iterate (PStr s) = Some (map (\<lambda>c. PStr [c]) s)"
| "iterate _ = None"

definition receipt_ref :: "pyval \<Rightarrow> (pyval \<times> pyval) res" where
  "receipt_ref ref =
     (case (dict_lookup ref ''operation_receipt_id'', dict_lookup ref ''operation_receipt_digest'') of
        (Some i, Some d) \<Rightarrow> Inr (i, d)
      | _ \<Rightarrow> Inl (ValueError ''application_receipt_invalid''))"

definition receipt_refs :: "pyval \<Rightarrow> (pyval \<times> pyval) list res" where
  "receipt_refs refs =
     (case iterate refs of
        None \<Rightarrow> Inl (ValueError ''application_receipt_invalid'')
      | Some xs \<Rightarrow> sequence (map receipt_ref xs))"

text \<open>\<open>ApplicationReceipt.__post_init__\<close>; the status of a receipt is always \<open>Applied\<close>.\<close>

definition ApplicationReceipt ::
  "prims \<Rightarrow> pyval \<Rightarrow> pyval \<Rightarrow> logical_identity res \<Rightarrow> pyval \<Rightarrow> pyval \<Rightarrow> pyval \<Rightarrow> pyval \<Rightarrow> pyval \<Rightarrow> pyval \<Rightarrow>
   application_receipt res" where
  "ApplicationReceipt P receipt_id app ident operation_set refs status started completed dig =
     rbind ident (\<lambda>identity.
     rbind (receipt_refs refs) (\<lambda>refs.
     raise_if (app \<noteq> PStr (id_application_id identity) \<or> \<not> nonempty_str operation_set)
       ''application_receipt_binding_invalid''
     (rbind (application_receipt_id_of P (id_application_id identity)) (\<lambda>expected_id.
      raise_if (receipt_id \<noteq> PStr expected_id \<or> status \<noteq> PStr ''Applied'' \<or> refs = []) ''application_receipt_invalid''
      (if \<not> list_all (\<lambda>(i, d). hashable i \<and> hashable d) refs then Inl TypeError
       else raise_if (\<not> distinct refs) ''application_receipt_invalid''
         (raise_if (\<not> list_all (\<lambda>(i, d). nonempty_str i \<and> nonempty_str d) refs) ''application_receipt_invalid''
            (Inr \<lparr>ar_receipt_id = expected_id, ar_application_id = id_application_id identity,
                  ar_identity = identity, ar_operation_set_digest = str_of operation_set,
                  ar_refs = map (\<lambda>(i, d). (str_of i, str_of d)) refs, ar_started_at = started,
                  ar_completed_at = completed, ar_digest = dig\<rparr>)))))))"

definition receipt_ref_doc :: "string \<times> string \<Rightarrow> pyval" where
  "receipt_ref_doc ref = obj [(''operation_receipt_id'', PStr (fst ref)), (''operation_receipt_digest'', PStr (snd ref))]"

definition application_receipt_kvs :: "application_receipt \<Rightarrow> (string \<times> pyval) list" where
  "application_receipt_kvs r =
     [(''application_receipt_id'', PStr (ar_receipt_id r)), (''application_id'', PStr (ar_application_id r)),
      (''identity'', identity_to_dict (id_values (ar_identity r))),
      (''operation_set_digest'', PStr (ar_operation_set_digest r)),
      (''operation_receipt_refs'', PList (map receipt_ref_doc (ar_refs r))), (''status'', PStr ''Applied''),
      (''started_at'', ar_started_at r), (''completed_at'', ar_completed_at r)]"

definition application_receipt_payload :: "application_receipt \<Rightarrow> pyval" where
  "application_receipt_payload r = obj (application_receipt_kvs r)"

definition application_receipt_doc :: "application_receipt \<Rightarrow> pyval" where
  "application_receipt_doc r = obj (application_receipt_kvs r @ [(''receipt_digest'', ar_digest r)])"

definition application_receipt_with_digest :: "prims \<Rightarrow> application_receipt \<Rightarrow> application_receipt res" where
  "application_receipt_with_digest P r =
     rbind (digest P (application_receipt_payload r)) (\<lambda>d. Inr (r\<lparr>ar_digest := PStr d\<rparr>))"

definition application_receipt_verify :: "prims \<Rightarrow> application_receipt \<Rightarrow> bool res" where
  "application_receipt_verify P r =
     (if \<not> truthy (ar_digest r) then Inr False
      else rbind (digest P (application_receipt_payload r)) (\<lambda>d. Inr (ar_digest r = PStr d)))"

definition application_receipt_required :: "string list" where
  "application_receipt_required =
     [''application_receipt_id'', ''application_id'', ''identity'', ''operation_set_digest'',
      ''operation_receipt_refs'', ''status'', ''started_at'', ''completed_at'']"

definition decode_application_receipt :: "prims \<Rightarrow> pyval \<Rightarrow> application_receipt res" where
  "decode_application_receipt P doc =
     (if \<not> kwargs_ok doc application_receipt_required [''receipt_digest'', ''_live_context''] then Inl TypeError
      else ApplicationReceipt P (dict_get doc ''application_receipt_id'') (dict_get doc ''application_id'')
             (identity_from_dict P (dict_get doc ''identity'')) (dict_get doc ''operation_set_digest'')
             (dict_get doc ''operation_receipt_refs'') (dict_get doc ''status'')
             (dict_get doc ''started_at'') (dict_get doc ''completed_at'') (kwarg doc ''receipt_digest'' (PStr [])))"

text \<open>
  \<open>validate_against\<close>: every exception the checks can raise makes the answer \<open>False\<close>, so the
  conjunction of the per-operation checks is the whole answer.
\<close>

definition receipt_matches ::
  "prims \<Rightarrow> application_receipt \<Rightarrow> int \<Rightarrow> write_op \<Rightarrow> operation_receipt \<Rightarrow> string \<times> string \<Rightarrow> bool" where
  "receipt_matches P r index op receipt ref \<longleftrightarrow>
     operation_receipt_verify P receipt = Inr True \<and> or_application_id receipt = ar_application_id r \<and>
     or_index receipt = index \<and>
     operation_identity P (ar_application_id r) index (operation_doc op) = Inr (or_operation_identity receipt) \<and>
     or_operation receipt = op \<and> or_receipt_id receipt = fst ref \<and> or_digest receipt = PStr (snd ref)"

fun receipts_match ::
  "prims \<Rightarrow> application_receipt \<Rightarrow> int \<Rightarrow> write_op list \<Rightarrow> operation_receipt list \<Rightarrow> (string \<times> string) list \<Rightarrow> bool" where
  "receipts_match P r i (op # ops) (receipt # receipts) (ref # refs) \<longleftrightarrow>
     receipt_matches P r i op receipt ref \<and> receipts_match P r (i + 1) ops receipts refs"
| "receipts_match P r i _ _ _ \<longleftrightarrow> True"

definition validate_against :: "prims \<Rightarrow> application_receipt \<Rightarrow> pyval list \<Rightarrow> operation_receipt list \<Rightarrow> bool" where
  "validate_against P r expected receipts =
     (case normalize_write_operations (PList expected) of
        Inl _ \<Rightarrow> False
      | Inr ops \<Rightarrow>
          ar_operation_set_digest r = v_operation_set_digest (id_values (ar_identity r)) \<and>
          length ops = length receipts \<and> length receipts = length (ar_refs r) \<and>
          receipts_match P r 0 ops receipts (ar_refs r))"

definition application_receipt_ok :: "prims \<Rightarrow> application_receipt \<Rightarrow> bool" where
  "application_receipt_ok P r \<longleftrightarrow>
     identity_ok P (ar_identity r) \<and> ar_application_id r = id_application_id (ar_identity r) \<and>
     ar_operation_set_digest r \<noteq> [] \<and> application_receipt_id_of P (ar_application_id r) = Inr (ar_receipt_id r) \<and>
     ar_refs r \<noteq> [] \<and> distinct (ar_refs r) \<and> list_all (\<lambda>(i, d). i \<noteq> [] \<and> d \<noteq> []) (ar_refs r)"

lemma receipt_ref_Inr:
  "receipt_ref v = Inr (i, d) \<longleftrightarrow>
     dict_lookup v ''operation_receipt_id'' = Some i \<and> dict_lookup v ''operation_receipt_digest'' = Some d"
  by (auto simp: receipt_ref_def split: option.splits)

lemma receipt_ref_doc_Inr [simp]: "receipt_ref (receipt_ref_doc (i, d)) = Inr (PStr i, PStr d)"
  by (simp add: receipt_ref_Inr receipt_ref_doc_def)

definition str_pair :: "pyval \<times> pyval \<Rightarrow> string \<times> string" where
  "str_pair p = (str_of (fst p), str_of (snd p))"

lemma str_pairs:
  assumes "list_all (\<lambda>(i, d). nonempty_str i \<and> nonempty_str d) ps"
  shows "ps = map (\<lambda>p. (PStr (fst p), PStr (snd p))) (map str_pair ps)"
    and "list_all (\<lambda>(i, d). i \<noteq> [] \<and> d \<noteq> []) (map str_pair ps)" and "distinct ps = distinct (map str_pair ps)"
proof -
  show eq: "ps = map (\<lambda>p. (PStr (fst p), PStr (snd p))) (map str_pair ps)"
    using assms by (induction ps) (auto simp: nonempty_str_iff str_pair_def)
  show "list_all (\<lambda>(i, d). i \<noteq> [] \<and> d \<noteq> []) (map str_pair ps)"
    using assms by (induction ps) (auto simp: nonempty_str_iff str_pair_def)
  have "inj (\<lambda>p. (PStr (fst p), PStr (snd p)))" by (auto simp: inj_def)
  then show "distinct ps = distinct (map str_pair ps)"
    using eq by (metis distinct_map inj_on_subset subset_UNIV)
qed

lemma ApplicationReceipt_Inr:
  assumes "ApplicationReceipt P receipt_id app ident operation_set refs status started completed dig = Inr r"
  shows "ident = Inr (ar_identity r)" "app = PStr (ar_application_id r)"
    "ar_application_id r = id_application_id (ar_identity r)"
    "operation_set = PStr (ar_operation_set_digest r)" "ar_operation_set_digest r \<noteq> []"
    "application_receipt_id_of P (ar_application_id r) = Inr (ar_receipt_id r)" "receipt_id = PStr (ar_receipt_id r)"
    "status = PStr ''Applied''" "ar_started_at r = started" "ar_completed_at r = completed" "ar_digest r = dig"
    "ar_refs r \<noteq> []" "distinct (ar_refs r)" "list_all (\<lambda>(i, d). i \<noteq> [] \<and> d \<noteq> []) (ar_refs r)"
proof -
  obtain identity ps expected where *: "ident = Inr identity" "receipt_refs refs = Inr ps"
    "app = PStr (id_application_id identity)" "nonempty_str operation_set"
    "application_receipt_id_of P (id_application_id identity) = Inr expected" "receipt_id = PStr expected"
    "status = PStr ''Applied''" "ps \<noteq> []" "distinct ps" "list_all (\<lambda>(i, d). nonempty_str i \<and> nonempty_str d) ps"
    "r = \<lparr>ar_receipt_id = expected, ar_application_id = id_application_id identity,
          ar_identity = identity, ar_operation_set_digest = str_of operation_set,
          ar_refs = map str_pair ps, ar_started_at = started, ar_completed_at = completed, ar_digest = dig\<rparr>"
    using assms unfolding ApplicationReceipt_def str_pair_def
    by (auto simp: rbind_Inr raise_if_Inr case_prod_unfold split: if_splits)
  then show "ident = Inr (ar_identity r)" "app = PStr (ar_application_id r)"
    "ar_application_id r = id_application_id (ar_identity r)"
    "operation_set = PStr (ar_operation_set_digest r)" "ar_operation_set_digest r \<noteq> []"
    "application_receipt_id_of P (ar_application_id r) = Inr (ar_receipt_id r)" "receipt_id = PStr (ar_receipt_id r)"
    "status = PStr ''Applied''" "ar_started_at r = started" "ar_completed_at r = completed" "ar_digest r = dig"
    "ar_refs r \<noteq> []"
    by (auto simp: nonempty_str_iff)
  show "distinct (ar_refs r)" "list_all (\<lambda>(i, d). i \<noteq> [] \<and> d \<noteq> []) (ar_refs r)"
    using * str_pairs [OF *(10)] by simp_all
qed

lemma ApplicationReceipt_ok:
  assumes "ApplicationReceipt P receipt_id app ident operation_set refs status started completed dig = Inr r"
    and "\<And>i. ident = Inr i \<Longrightarrow> identity_ok P i"
  shows "application_receipt_ok P r"
  using ApplicationReceipt_Inr [OF assms(1)] assms(2) unfolding application_receipt_ok_def by auto

lemma decode_application_receipt_ok: "decode_application_receipt P doc = Inr r \<Longrightarrow> application_receipt_ok P r"
  unfolding decode_application_receipt_def
  by (rule ApplicationReceipt_ok) (auto split: if_splits intro: identity_from_dict_ok)

lemma receipt_refs_docs: "receipt_refs (PList (map receipt_ref_doc refs)) = Inr (map (\<lambda>p. (PStr (fst p), PStr (snd p))) refs)"
proof -
  have "map receipt_ref (map receipt_ref_doc refs) = map (\<lambda>p. Inr (PStr (fst p), PStr (snd p))) refs"
    by (auto simp: receipt_ref_Inr receipt_ref_doc_def)
  then show ?thesis by (simp only: receipt_refs_def iterate.simps option.case sequence_map_Inr)
qed

lemma ApplicationReceipt_intro:
  assumes "application_receipt_ok P r"
  shows "ApplicationReceipt P (PStr (ar_receipt_id r)) (PStr (ar_application_id r)) (Inr (ar_identity r))
      (PStr (ar_operation_set_digest r)) (PList (map receipt_ref_doc (ar_refs r))) (PStr ''Applied'')
      (ar_started_at r) (ar_completed_at r) dig = Inr (r\<lparr>ar_digest := dig\<rparr>)"
proof -
  let ?ps = "map (\<lambda>p. (PStr (fst p), PStr (snd p))) (ar_refs r)"
  have hash: "list_all (\<lambda>(i, d). hashable i \<and> hashable d) ?ps"
    by (simp add: list_all_iff)
  have str: "list_all (\<lambda>(i, d). nonempty_str i \<and> nonempty_str d) ?ps"
    using assms by (auto simp: application_receipt_ok_def list_all_iff)
  have strs: "map (\<lambda>(i, d). (str_of i, str_of d)) ?ps = ar_refs r" by (simp add: map_idI)
  have dist: "distinct ?ps"
    using assms str_pairs(3) [OF str] by (simp add: application_receipt_ok_def str_pair_def comp_def)
  have "?ps \<noteq> []" "PStr (id_application_id (ar_identity r)) = PStr (ar_application_id r)"
    using assms by (simp_all add: application_receipt_ok_def)
  then show ?thesis
    using assms unfolding ApplicationReceipt_def receipt_refs_docs application_receipt_ok_def
    using hash str dist strs by (cases r) (simp only: rbind_simps raise_if_simps, simp)
qed

lemma application_receipt_doc_kwargs:
  "kwargs_ok (application_receipt_doc r) application_receipt_required [''receipt_digest'', ''_live_context'']"
  unfolding application_receipt_doc_def kwargs_ok_obj
  by (simp add: application_receipt_kvs_def application_receipt_required_def)

lemma application_receipt_doc_get:
  "dict_get (application_receipt_doc r) ''application_receipt_id'' = PStr (ar_receipt_id r)"
  "dict_get (application_receipt_doc r) ''application_id'' = PStr (ar_application_id r)"
  "dict_get (application_receipt_doc r) ''identity'' = identity_to_dict (id_values (ar_identity r))"
  "dict_get (application_receipt_doc r) ''operation_set_digest'' = PStr (ar_operation_set_digest r)"
  "dict_get (application_receipt_doc r) ''operation_receipt_refs'' = PList (map receipt_ref_doc (ar_refs r))"
  "dict_get (application_receipt_doc r) ''status'' = PStr ''Applied''"
  "dict_get (application_receipt_doc r) ''started_at'' = ar_started_at r"
  "dict_get (application_receipt_doc r) ''completed_at'' = ar_completed_at r"
  "kwarg (application_receipt_doc r) ''receipt_digest'' v = ar_digest r"
  by (simp_all add: application_receipt_doc_def application_receipt_kvs_def)

lemma application_receipt_roundtrip:
  "application_receipt_ok P r \<Longrightarrow> decode_application_receipt P (application_receipt_doc r) = Inr r"
proof -
  assume ok: "application_receipt_ok P r"
  then have "identity_from_dict P (identity_to_dict (id_values (ar_identity r))) = Inr (ar_identity r)"
    by (simp add: application_receipt_ok_def identity_roundtrip)
  then show ?thesis
    unfolding decode_application_receipt_def application_receipt_doc_get
    using application_receipt_doc_kwargs [of r] ApplicationReceipt_intro [OF ok] by simp
qed

lemma application_receipt_payload_digest [simp]:
  "application_receipt_payload (r\<lparr>ar_digest := d\<rparr>) = application_receipt_payload r"
  by (simp add: application_receipt_payload_def application_receipt_kvs_def)

lemma application_receipt_ok_digest [simp]: "application_receipt_ok P (r\<lparr>ar_digest := d\<rparr>) = application_receipt_ok P r"
  by (simp add: application_receipt_ok_def)

lemma application_receipt_with_digest_Inr:
  "application_receipt_with_digest P r = Inr r' \<longleftrightarrow>
     (\<exists>d. digest P (application_receipt_payload r) = Inr d \<and> r' = r\<lparr>ar_digest := PStr d\<rparr>)"
  by (auto simp: application_receipt_with_digest_def rbind_Inr)

lemma application_receipt_verify_True:
  "application_receipt_verify P r = Inr True \<longleftrightarrow>
     (\<exists>d. ar_digest r = PStr d \<and> digest P (application_receipt_payload r) = Inr d)"
  by (auto simp: application_receipt_verify_def rbind_Inr dest: digest_nonempty)

lemma application_receipt_with_digest_verify:
  "application_receipt_with_digest P r = Inr r' \<Longrightarrow> application_receipt_verify P r' = Inr True"
  by (auto simp: application_receipt_with_digest_Inr application_receipt_verify_True)

lemma receipts_match_nth:
  "length ops = length receipts \<Longrightarrow> length receipts = length refs \<Longrightarrow>
   receipts_match P r i ops receipts refs \<longleftrightarrow>
     (\<forall>k < length ops. receipt_matches P r (i + int k) (ops ! k) (receipts ! k) (refs ! k))"
proof (induction P r i ops receipts refs rule: receipts_match.induct)
  case (1 P r i op ops receipt receipts ref refs)
  then show ?case by (auto simp: All_less_Suc2 algebra_simps)
qed auto

text \<open>
  A receipt validated against an operation set lists, in order, one verified receipt per
  operation, each bound to its operation and index.
\<close>

lemma validate_against_iff:
  "validate_against P r expected receipts \<longleftrightarrow>
     (\<exists>ops. normalize_write_operations (PList expected) = Inr ops \<and>
        ar_operation_set_digest r = v_operation_set_digest (id_values (ar_identity r)) \<and>
        length ops = length receipts \<and> length receipts = length (ar_refs r) \<and>
        (\<forall>k < length ops. receipt_matches P r (int k) (ops ! k) (receipts ! k) (ar_refs r ! k)))"
  by (auto simp: validate_against_def receipts_match_nth split: sum.splits)

section \<open>Properties\<close>

text \<open>A receipt to evaluate the properties on exists for every index.\<close>

lemma demo_operation_receipt:
  "\<exists>r. operation_receipt_ok plain_prims r \<and> or_index r = int n \<and> floats_ok (operation_receipt_payload r) \<and>
     or_operation r = create_op ''A'' \<and> rr_kind (or_result r) = ''k''"
proof -
  have wf: "wf_op (create_op ''A'')" by (simp add: wf_op_def create_op_def)
  obtain ident where ident: "identity_ok plain_prims ident"
    using identity_exists [of "demo_values\<lparr>v_revision := 1\<rparr>"] demo_values_ok [of 1] by auto
  then have app: "id_application_id ident \<noteq> []" by (auto simp: identity_ok_def)
  obtain oid where oid: "operation_identity plain_prims (id_application_id ident) (int n) (operation_doc (create_op ''A'')) = Inr oid"
    using operation_identity_exists [OF wf _ app] by force
  then have "oid \<noteq> []" using wf by (auto simp: operation_identity_doc)
  then obtain req where req: "request_identity plain_prims oid = Inr req"
    using digest_hex_normalizable [OF normalizable_request_payload, of plain_prims oid]
    by (auto simp: request_identity_def)
  have "normalizable plain_prims (receipt_id_payload oid)"
    unfolding receipt_id_payload_def by (rule normalizable_obj) (simp_all add: literal_keys_def)
  then obtain rid where rid: "operation_receipt_id_of plain_prims oid = Inr rid"
    using digest_hex_normalizable [of plain_prims "receipt_id_payload oid"]
    by (auto simp: operation_receipt_id_of_def)
  obtain d where d: "digest plain_prims (PDict []) = Inr d" "d \<noteq> []"
    using digest_nonempty by (auto simp: digest_def canonical_payload_def)
  let ?rr = "\<lparr>rr_kind = ''k'', rr_identity = ''i'', rr_digest = d, rr_payload = PDict []\<rparr>"
  let ?pv = "\<lparr>pv_authority_id = ''a'', pv_credential_binding_id = ''b'', pv_credential_instance_id = ''c'',
     pv_issuer_id = ''d'', pv_credential_principal_identity = ''e'', pv_github_subject_identity = ''f'',
     pv_issued_at = ''g'', pv_expires_at = ''h'', pv_driver_identity = ''i'', pv_remote_authority = ''j'',
     pv_application_id = id_application_id ident\<rparr>"
  let ?r = "\<lparr>or_receipt_id = rid, or_application_id = id_application_id ident, or_identity = ident,
     or_operation_identity = oid, or_index = int n, or_operation = create_op ''A'', or_request_identity = req,
     or_provenance = ?pv, or_result = ?rr, or_started_at = ''s'', or_completed_at = ''t'', or_digest = PStr []\<rparr>"
  have "remote_result_ok plain_prims ?rr"
    using d by (auto simp: remote_result_ok_def intro: exI [of _ "PDict []"])
  moreover have "provenance_ok ?pv" using app by (simp add: provenance_ok_def)
  ultimately have "operation_receipt_ok plain_prims ?r"
    using ident wf oid req rid by (simp add: operation_receipt_ok_def)
  moreover have "floats_ok (operation_receipt_payload ?r)"
    by (simp add: operation_receipt_payload_def operation_receipt_kvs_def remote_result_doc_def remote_result_kvs_def)
  ultimately show ?thesis by force
qed

text \<open>
  C24: an operation receipt survives storage: sealing a receipt with its digest and writing it as a
  document, the document is read back as the same receipt, and the receipt verifies.
\<close>

theorem operation_receipt_storage:
  assumes "operation_receipt_ok P r" "operation_receipt_with_digest P r = Inr r'"
  shows "decode_operation_receipt P (operation_receipt_doc r') = Inr r' \<and> operation_receipt_verify P r' = Inr True"
  using assms operation_receipt_roundtrip operation_receipt_with_digest_verify
  by (auto simp: operation_receipt_with_digest_Inr)

theorem operation_receipt_storage_witness:
  "\<exists>r. decode_operation_receipt plain_prims (operation_receipt_doc r) = Inr r \<and> or_index r = 3"
proof -
  obtain r where r: "operation_receipt_ok plain_prims r" "or_index r = int 3" using demo_operation_receipt by blast
  then obtain r' where r': "operation_receipt_with_digest plain_prims r = Inr r'"
    using operation_receipt_with_digest_exists by blast
  then have "or_index r' = 3" using r by (auto simp: operation_receipt_with_digest_Inr)
  then show ?thesis using operation_receipt_storage [OF r(1) r'] by blast
qed

text \<open>Verified receipts with one digest agree in what they are evidence of.\<close>

lemma operation_receipt_agree:
  assumes "operation_receipt_ok P a" "operation_receipt_verify P a = Inr True" "operation_receipt_verify P b = Inr True"
    and "or_digest a = or_digest b"
    and "collision_free P (operation_receipt_payload a) (operation_receipt_payload b)"
    and "floats_ok (operation_receipt_payload a)" "floats_ok (operation_receipt_payload b)"
  shows "or_index a = or_index b" "normalize P (operation_doc (or_operation a)) = normalize P (operation_doc (or_operation b))"
    "normalize P (remote_result_doc (or_result a)) = normalize P (remote_result_doc (or_result b))"
proof -
  have "normalize P (operation_receipt_payload a) = normalize P (operation_receipt_payload b)"
    using operation_receipt_digest_binds assms(2-7) by blast
  moreover obtain j where "normalize P (operation_receipt_payload a) = Inr j"
    using normalizable_operation_receipt [OF assms(1)] unfolding normalizable_def by blast
  ultimately have "map (\<lambda>kv. normalize P (snd kv)) (operation_receipt_kvs a) = map (\<lambda>kv. normalize P (snd kv)) (operation_receipt_kvs b)"
    using normalize_obj_fields [OF literal_keys_operation_receipt(1), of a "operation_receipt_kvs b" P j]
    by (simp add: operation_receipt_payload_def operation_receipt_kvs_def)
  then show "or_index a = or_index b" "normalize P (operation_doc (or_operation a)) = normalize P (operation_doc (or_operation b))"
    "normalize P (remote_result_doc (or_result a)) = normalize P (remote_result_doc (or_result b))"
    by (simp_all add: operation_receipt_kvs_def)
qed

lemma remote_result_kinds:
  assumes "remote_result_ok P a" "normalize P (remote_result_doc a) = normalize P (remote_result_doc b)"
    and "printable (rr_kind a)" "printable (rr_kind b)"
  shows "rr_kind a = rr_kind b"
proof -
  obtain j where "normalize P (remote_result_doc a) = Inr j"
    using normalizable_remote_result [OF assms(1)] unfolding normalizable_def by blast
  then have "map (\<lambda>kv. normalize P (snd kv)) (remote_result_kvs a) = map (\<lambda>kv. normalize P (snd kv)) (remote_result_kvs b)"
    using normalize_obj_fields [OF literal_keys_operation_receipt(2), of a "remote_result_kvs b" P j] assms(2)
    by (simp add: remote_result_doc_def remote_result_kvs_def)
  then have "text_norm P (rr_kind a) = text_norm P (rr_kind b)" by (simp add: remote_result_kvs_def)
  then show ?thesis using assms(3,4) by (simp add: text_norm_printable)
qed

lemma demo_sealed_receipt:
  obtains r where "operation_receipt_ok plain_prims r" "operation_receipt_verify plain_prims r = Inr True" "or_index r = int n"
    "floats_ok (operation_receipt_payload r)" "or_operation r = create_op ''A''" "rr_kind (or_result r) = ''k''"
proof -
  obtain r where r: "operation_receipt_ok plain_prims r" "or_index r = int n" "floats_ok (operation_receipt_payload r)"
      "or_operation r = create_op ''A''" "rr_kind (or_result r) = ''k''"
    using demo_operation_receipt by blast
  then obtain r' where "operation_receipt_with_digest plain_prims r = Inr r'"
    using operation_receipt_with_digest_exists by blast
  then show ?thesis using r operation_receipt_with_digest_verify
    by (intro that [of r']) (auto simp: operation_receipt_with_digest_Inr)
qed

text \<open>
  C25: a receipt digest is evidence: two receipts that verify and carry the same digest agree on
  the position, on the operation and on the whole remote result (up to text normalisation), unless
  SHA-256 collides on their payloads.
\<close>

theorem operation_receipt_evidence:
  assumes "operation_receipt_ok P a" "operation_receipt_verify P a = Inr True" "operation_receipt_verify P b = Inr True"
    and "or_digest a = or_digest b"
    and "collision_free P (operation_receipt_payload a) (operation_receipt_payload b)"
    and "floats_ok (operation_receipt_payload a)" "floats_ok (operation_receipt_payload b)"
  shows "or_index a = or_index b \<and> normalize P (operation_doc (or_operation a)) = normalize P (operation_doc (or_operation b)) \<and>
     normalize P (remote_result_doc (or_result a)) = normalize P (remote_result_doc (or_result b))"
  using operation_receipt_agree [OF assms] by simp

theorem operation_receipt_evidence_witness:
  "\<exists>a b. operation_receipt_verify plain_prims a = Inr True \<and> operation_receipt_verify plain_prims b = Inr True \<and>
     or_digest a \<noteq> or_digest b"
proof -
  have "\<exists>r. operation_receipt_ok plain_prims r \<and> operation_receipt_verify plain_prims r = Inr True \<and> or_index r = int n \<and>
      floats_ok (operation_receipt_payload r)" for n
    by (rule demo_sealed_receipt [of n]) blast
  then obtain a b where ab: "operation_receipt_ok plain_prims a" "operation_receipt_verify plain_prims a = Inr True"
      "or_index a = int 0" "floats_ok (operation_receipt_payload a)"
      "operation_receipt_verify plain_prims b = Inr True" "or_index b = int 1" "floats_ok (operation_receipt_payload b)"
    by metis
  have "or_index a \<noteq> or_index b" using ab(3,6) by simp
  then have "or_digest a \<noteq> or_digest b"
    using operation_receipt_evidence [OF ab(1,2,5) _ plain_collision_free ab(4,7)] by blast
  then show ?thesis using ab by blast
qed

text \<open>
  C26: an application receipt pins the evidence of its application.  If it validates against a set
  of operations with their receipts and against another one, the two sets have the same number of
  operations, and at each place the receipts have the same identifier and agree on the operation
  and on the whole remote result (up to text normalisation), unless SHA-256 collides on their
  payloads.
\<close>

theorem application_receipt_pins:
  assumes "validate_against P r expected receipts" and "validate_against P r expected' receipts'"
    and "list_all (operation_receipt_ok P) receipts"
    and "list_all2 (\<lambda>a b. collision_free P (operation_receipt_payload a) (operation_receipt_payload b)) receipts receipts'"
    and "list_all (\<lambda>a. floats_ok (operation_receipt_payload a)) (receipts @ receipts')"
  shows "\<exists>ops ops'. normalize_write_operations (PList expected) = Inr ops \<and> normalize_write_operations (PList expected') = Inr ops' \<and>
    length ops = length ops' \<and>
    list_all2 (\<lambda>op op'. normalize P (operation_doc op) = normalize P (operation_doc op')) ops ops' \<and>
    list_all2 (\<lambda>a b. or_receipt_id a = or_receipt_id b \<and>
      normalize P (remote_result_doc (or_result a)) = normalize P (remote_result_doc (or_result b))) receipts receipts'"
proof -
  obtain ops where o: "normalize_write_operations (PList expected) = Inr ops" "length ops = length receipts"
      "length receipts = length (ar_refs r)" "\<forall>k < length ops. receipt_matches P r (int k) (ops ! k) (receipts ! k) (ar_refs r ! k)"
    using assms(1) unfolding validate_against_iff by blast
  obtain ops' where o': "normalize_write_operations (PList expected') = Inr ops'" "length ops' = length receipts'"
      "length receipts' = length (ar_refs r)" "\<forall>k < length ops'. receipt_matches P r (int k) (ops' ! k) (receipts' ! k) (ar_refs r ! k)"
    using assms(2) unfolding validate_against_iff by blast
  have same: "or_receipt_id (receipts ! k) = or_receipt_id (receipts' ! k) \<and>
      normalize P (operation_doc (ops ! k)) = normalize P (operation_doc (ops' ! k)) \<and>
      normalize P (remote_result_doc (or_result (receipts ! k))) = normalize P (remote_result_doc (or_result (receipts' ! k)))"
    if k: "k < length receipts" for k
  proof -
    have m: "receipt_matches P r (int k) (ops ! k) (receipts ! k) (ar_refs r ! k)"
        "receipt_matches P r (int k) (ops' ! k) (receipts' ! k) (ar_refs r ! k)"
      using o o' k by simp_all
    have "operation_receipt_ok P (receipts ! k)" using assms(3) k by (simp add: list_all_length)
    moreover have "collision_free P (operation_receipt_payload (receipts ! k)) (operation_receipt_payload (receipts' ! k))"
      using assms(4) k by (rule list_all2_nthD)
    moreover have "floats_ok (operation_receipt_payload (receipts ! k))" "floats_ok (operation_receipt_payload (receipts' ! k))"
      using assms(5) k o(3) o'(3) by (auto simp: list_all_iff)
    ultimately show ?thesis
      using operation_receipt_agree [of P "receipts ! k" "receipts' ! k"] m unfolding receipt_matches_def by simp
  qed
  show ?thesis
    by (intro exI [of _ ops] exI [of _ ops'] conjI o(1) o'(1) list_all2_all_nthI) (use o o' same in simp_all)
qed

text \<open>The witness: one result validates, and no receipt of the same operation with another result does.\<close>

theorem application_receipt_pins_witness:
  "\<exists>r a b. validate_against plain_prims r [operation_doc (create_op ''A'')] [a] \<and>
     or_operation b = or_operation a \<and> operation_receipt_verify plain_prims b = Inr True \<and>
     \<not> validate_against plain_prims r [operation_doc (create_op ''A'')] [b]"
proof (rule demo_sealed_receipt [of 0])
  fix a assume a: "operation_receipt_ok plain_prims a" "operation_receipt_verify plain_prims a = Inr True" "or_index a = int 0"
    "floats_ok (operation_receipt_payload a)" "or_operation a = create_op ''A''" "rr_kind (or_result a) = ''k''"
  define r where "r = \<lparr>ar_receipt_id = [], ar_application_id = or_application_id a, ar_identity = or_identity a,
    ar_operation_set_digest = v_operation_set_digest (id_values (or_identity a)),
    ar_refs = [(or_receipt_id a, str_of (or_digest a))], ar_started_at = PNone, ar_completed_at = PNone, ar_digest = PNone\<rparr>"
  have ops: "normalize_write_operations (PList [operation_doc (create_op ''A'')]) = Inr [create_op ''A'']"
    using normalize_write_operations_docs [of "[create_op ''A'']"] by (simp add: wf_op_def create_op_def)
  have v: "validate_against plain_prims r [operation_doc (create_op ''A'')] [a]"
    using a unfolding validate_against_def ops
    by (auto simp: r_def receipt_matches_def operation_receipt_ok_def operation_receipt_verify_True)
  let ?b = "a\<lparr>or_result := (or_result a)\<lparr>rr_kind := ''l''\<rparr>\<rparr>"
  have b: "operation_receipt_ok plain_prims ?b" "floats_ok (operation_receipt_payload ?b)"
    using a(1,4) by (auto simp: operation_receipt_ok_def remote_result_ok_def operation_receipt_payload_def
        operation_receipt_kvs_def remote_result_doc_def remote_result_kvs_def)
  then obtain d where d: "operation_receipt_with_digest plain_prims ?b = Inr (?b\<lparr>or_digest := d\<rparr>)"
    using operation_receipt_with_digest_exists by (metis operation_receipt_with_digest_Inr)
  let ?c = "?b\<lparr>or_digest := d\<rparr>"
  have "\<not> validate_against plain_prims r [operation_doc (create_op ''A'')] [?c]"
  proof
    assume "validate_against plain_prims r [operation_doc (create_op ''A'')] [?c]"
    from application_receipt_pins [OF v this]
    have same: "normalize plain_prims (remote_result_doc (or_result a)) = normalize plain_prims (remote_result_doc (or_result ?c))"
      using a(1,4) b(2) by (auto simp: operation_receipt_payload_digest)
    have "remote_result_ok plain_prims (or_result a)" using a(1) by (simp add: operation_receipt_ok_def)
    moreover have "printable ''k''" "printable ''l''" by code_simp+
    ultimately show False using remote_result_kinds [OF _ same] a(6) by simp
  qed
  then show ?thesis using v operation_receipt_with_digest_verify [OF d] by (intro exI [of _ r] exI [of _ a] exI [of _ ?c]) simp
qed

end
