(* ===== verification/Execution_State.thy ===== *)
theory Execution_State
  imports Receipts
begin

text \<open>
  Model of \<open>delivery_system/execution_state.py\<close>: the durable coordination records of an
  application and of an operation attempt, and the two transition tables.  As in \<open>Receipts\<close>, a
  constructor is the dataclass with its \<open>__post_init__\<close>; fields whose type the source does not
  check (owner, attempt, recovery code, times) keep dynamic values.

  The lemmas give the invariant a constructor establishes, the round trip through the stored
  document, what the state digest fixes, and what an accepted transition implies.
\<close>

section \<open>States and transitions\<close>

datatype status = Pending | Applying | PartiallyApplied | Failed | Blocked | OutcomeUnknown | Applied

fun status_name :: "status \<Rightarrow> string" where
  "status_name Pending = ''Pending''"
| "status_name Applying = ''Applying''"
| "status_name PartiallyApplied = ''PartiallyApplied''"
| "status_name Failed = ''Failed''"
| "status_name Blocked = ''Blocked''"
| "status_name OutcomeUnknown = ''OutcomeUnknown''"
| "status_name Applied = ''Applied''"

definition application_states :: "status list" where
  "application_states = [Pending, Applying, PartiallyApplied, Failed, Blocked, OutcomeUnknown, Applied]"

definition attempt_states :: "status list" where
  "attempt_states = [Pending, Applying, Failed, Blocked, OutcomeUnknown, Applied]"

definition applier_orchestration_policy :: string where
  "applier_orchestration_policy = ''delivery-system:applier-orchestration-v1''"

fun attempt_transitions :: "status \<Rightarrow> status list" where
  "attempt_transitions Pending = [Applying, Failed, Blocked]"
| "attempt_transitions Applying = [Applied, Failed, Blocked, OutcomeUnknown]"
| "attempt_transitions _ = []"

fun application_transitions :: "status \<Rightarrow> status list" where
  "application_transitions Pending = [Applying, Failed, Blocked]"
| "application_transitions Applying = [PartiallyApplied, Failed, Blocked, OutcomeUnknown]"
| "application_transitions PartiallyApplied = [Applying, Failed, Blocked]"
| "application_transitions _ = []"

text \<open>\<open>state not in STATES\<close>: hashing the value may raise first.\<close>

definition read_status :: "status list \<Rightarrow> string \<Rightarrow> pyval \<Rightarrow> status res" where
  "read_status states code v =
     (if \<not> hashable v then Inl TypeError
      else of_option (ValueError code) (find (\<lambda>s. v = PStr (status_name s)) states))"

lemma status_name_inject [simp]: "status_name a = status_name b \<longleftrightarrow> a = b"
  by (cases a; cases b) simp_all

lemma read_status_Inr:
  "read_status states code v = Inr s \<longleftrightarrow> v = PStr (status_name s) \<and> s \<in> set states"
proof -
  have "find (\<lambda>s. v = PStr (status_name s)) states = Some s \<longleftrightarrow> v = PStr (status_name s) \<and> s \<in> set states"
    by (induction states) auto
  then show ?thesis by (auto simp: read_status_def of_option_Inr)
qed

section \<open>Application execution state\<close>

record exec_state =
  es_application_id :: string
  es_identity :: logical_identity
  es_state :: status
  es_next :: nat
  es_owner :: pyval
  es_attempt :: pyval
  es_recovery :: pyval
  es_refs :: "string list"
  es_started_at :: pyval
  es_updated_at :: pyval
  es_completed_at :: pyval
  es_anchor :: continuity_anchor
  es_managed :: bool \<comment> \<open>\<open>orchestration_policy\<close> is the applier's policy (otherwise it is \<open>None\<close>)\<close>
  es_digest :: pyval

text \<open>\<open>type(refs) in (tuple, list)\<close> of distinct non-empty strings.\<close>

definition read_refs :: "pyval \<Rightarrow> string list res" where
  "read_refs refs =
     (case as_sequence refs of
        None \<Rightarrow> Inl (ValueError ''application_state_invalid'')
      | Some xs \<Rightarrow> raise_if (\<not> list_all nonempty_str xs \<or> \<not> distinct xs) ''application_state_invalid''
                    (Inr (map str_of xs)))"

definition read_index :: "string \<Rightarrow> pyval \<Rightarrow> nat res" where
  "read_index code v = (case v of PInt i \<Rightarrow> raise_if (i < 0) code (Inr (nat i)) | _ \<Rightarrow> Inl (ValueError code))"

definition read_policy :: "pyval \<Rightarrow> bool res" where
  "read_policy v =
     (if v = PNone then Inr False
      else if v = PStr applier_orchestration_policy then Inr True
      else Inl (ValueError ''application_orchestration_policy_invalid''))"

definition ApplicationExecutionState ::
  "prims \<Rightarrow> pyval \<Rightarrow> logical_identity res \<Rightarrow> pyval \<Rightarrow> pyval \<Rightarrow> pyval \<Rightarrow> pyval \<Rightarrow> pyval \<Rightarrow> pyval \<Rightarrow>
   pyval \<Rightarrow> pyval \<Rightarrow> pyval \<Rightarrow> continuity_anchor res \<Rightarrow> pyval \<Rightarrow> pyval \<Rightarrow> exec_state res" where
  "ApplicationExecutionState P app ident state next owner attempt recovery refs started updated completed anchor policy dig =
     rbind ident (\<lambda>identity.
     rbind anchor (\<lambda>anchor.
     raise_if (app \<noteq> PStr (id_application_id identity)) ''application_state_invalid''
     (rbind (read_status application_states ''application_state_invalid'' state) (\<lambda>st.
      rbind (read_index ''application_state_invalid'' next) (\<lambda>n.
      rbind (read_policy policy) (\<lambda>managed.
      rbind (read_refs refs) (\<lambda>rs.
      raise_if (\<not> truthy started \<or> \<not> truthy updated) ''application_state_invalid''
      (raise_if (st \<in> {Pending, PartiallyApplied} \<and> (owner \<noteq> PNone \<or> attempt \<noteq> PNone)) ''application_coordination_invalid''
        (Inr \<lparr>es_application_id = id_application_id identity, es_identity = identity, es_state = st, es_next = n,
              es_owner = owner, es_attempt = attempt, es_recovery = recovery, es_refs = rs,
              es_started_at = started, es_updated_at = updated, es_completed_at = completed,
              es_anchor = anchor, es_managed = managed, es_digest = dig\<rparr>)))))))))"

definition exec_state_kvs :: "exec_state \<Rightarrow> (string \<times> pyval) list" where
  "exec_state_kvs s =
     [(''application_id'', PStr (es_application_id s)), (''identity'', identity_to_dict (id_values (es_identity s))),
      (''state'', PStr (status_name (es_state s))), (''next_operation_index'', PInt (int (es_next s))),
      (''owner_id'', es_owner s), (''current_attempt_id'', es_attempt s), (''recovery_code'', es_recovery s),
      (''operation_receipt_refs'', strs (es_refs s)), (''started_at'', es_started_at s),
      (''updated_at'', es_updated_at s), (''completed_at'', es_completed_at s),
      (''continuity_anchor'', anchor_to_dict (es_anchor s))] @
     (if es_managed s then [(''orchestration_policy'', PStr applier_orchestration_policy)] else [])"

definition exec_state_payload :: "exec_state \<Rightarrow> pyval" where
  "exec_state_payload s = obj (exec_state_kvs s)"

definition exec_state_doc :: "exec_state \<Rightarrow> pyval" where
  "exec_state_doc s = obj (exec_state_kvs s @ [(''state_digest'', es_digest s)])"

definition exec_state_with_digest :: "prims \<Rightarrow> exec_state \<Rightarrow> exec_state res" where
  "exec_state_with_digest P s =
     rbind (digest P (exec_state_payload s)) (\<lambda>d. Inr (s\<lparr>es_digest := PStr d\<rparr>))"

definition exec_state_verify :: "prims \<Rightarrow> exec_state \<Rightarrow> bool res" where
  "exec_state_verify P s =
     (if \<not> truthy (es_digest s) then Inr False
      else rbind (digest P (exec_state_payload s)) (\<lambda>d. Inr (es_digest s = PStr d)))"

definition exec_state_required :: "string list" where
  "exec_state_required =
     [''application_id'', ''identity'', ''state'', ''next_operation_index'', ''owner_id'', ''current_attempt_id'',
      ''recovery_code'']"

definition exec_state_optional :: "string list" where
  "exec_state_optional =
     [''operation_receipt_refs'', ''started_at'', ''updated_at'', ''completed_at'', ''continuity_anchor'',
      ''orchestration_policy'', ''state_digest'', ''_live_context'']"

definition decode_exec_state :: "prims \<Rightarrow> pyval \<Rightarrow> exec_state res" where
  "decode_exec_state P doc =
     (if \<not> kwargs_ok doc exec_state_required exec_state_optional then Inl TypeError
      else ApplicationExecutionState P (dict_get doc ''application_id'') (identity_from_dict P (dict_get doc ''identity''))
             (dict_get doc ''state'') (dict_get doc ''next_operation_index'') (dict_get doc ''owner_id'')
             (dict_get doc ''current_attempt_id'') (dict_get doc ''recovery_code'')
             (kwarg doc ''operation_receipt_refs'' (PTuple [])) (kwarg doc ''started_at'' (PStr []))
             (kwarg doc ''updated_at'' (PStr [])) (kwarg doc ''completed_at'' PNone)
             (anchor_from_dict (kwarg doc ''continuity_anchor'' PNone)) (kwarg doc ''orchestration_policy'' PNone)
             (kwarg doc ''state_digest'' (PStr [])))"

text \<open>\<open>validate_application_transition\<close>\<close>

definition validate_application_transition :: "exec_state \<Rightarrow> exec_state \<Rightarrow> unit res" where
  "validate_application_transition previous candidate =
     raise_if (es_state candidate \<notin> set (application_transitions (es_state previous))) ''application_state_transition_invalid''
     (raise_if (es_application_id previous \<noteq> es_application_id candidate \<or>
                id_values (es_identity previous) \<noteq> id_values (es_identity candidate) \<or>
                es_anchor previous \<noteq> es_anchor candidate \<or> es_started_at previous \<noteq> es_started_at candidate)
        ''application_binding_conflict''
     (raise_if (es_managed previous \<noteq> es_managed candidate) ''application_orchestration_policy_invalid''
     (raise_if (es_completed_at previous \<noteq> PNone \<and> es_completed_at candidate \<noteq> es_completed_at previous)
        ''application_coordination_invalid''
     (raise_if (es_next previous \<noteq> length (es_refs previous) \<or> es_next candidate \<noteq> length (es_refs candidate))
        ''application_progress_invalid''
     (let delta = int (es_next candidate) - int (es_next previous) in
      raise_if (delta \<notin> {0, 1}) ''application_progress_invalid''
      (raise_if ((es_state previous \<noteq> Applying \<or> es_state candidate \<noteq> PartiallyApplied) \<and>
                 (delta \<noteq> 0 \<or> es_refs candidate \<noteq> es_refs previous)) ''application_progress_invalid''
      (raise_if (delta = 0 \<and> es_refs candidate \<noteq> es_refs previous) ''application_progress_invalid''
      (raise_if (delta = 1 \<and> butlast (es_refs candidate) \<noteq> es_refs previous) ''application_progress_invalid''
      (if es_state previous \<in> {Pending, PartiallyApplied} then
         raise_if (es_owner previous \<noteq> PNone \<or> es_attempt previous \<noteq> PNone) ''application_coordination_invalid''
         (raise_if (es_state candidate = Applying \<and> (\<not> truthy (es_owner candidate) \<or> \<not> truthy (es_attempt candidate)))
            ''application_coordination_invalid''
         (raise_if (es_state candidate \<in> {Failed, Blocked} \<and> (es_owner candidate \<noteq> PNone \<or> es_attempt candidate \<noteq> PNone))
            ''application_coordination_invalid'' (Inr ())))
       else if es_state previous = Applying then
         (if es_state candidate = PartiallyApplied then
            raise_if (delta \<noteq> 1 \<or> es_owner candidate \<noteq> PNone \<or> es_attempt candidate \<noteq> PNone)
              ''application_coordination_invalid'' (Inr ())
          else if es_state candidate \<in> {Failed, Blocked, OutcomeUnknown} then
            raise_if (delta \<noteq> 0 \<or> es_refs candidate \<noteq> es_refs previous \<or> es_attempt candidate \<noteq> es_attempt previous)
              ''application_coordination_invalid''
            (if \<not> hashable (es_owner previous) \<or> \<not> hashable (es_owner candidate) then Inl TypeError
             else raise_if (es_owner candidate \<notin> {PNone, es_owner previous}) ''application_coordination_invalid'' (Inr ()))
          else Inr ())
       else Inr ())))))))))"

section \<open>Operation attempts\<close>

text \<open>
  \<open>driver_identity\<close> and \<open>remote_authority\<close> of an attempt equal those of its provenance (the
  constructor checks it), so the record keeps them there only.
\<close>

record attempt =
  at_application_id :: string
  at_operation_identity :: string
  at_index :: nat
  at_operation :: write_op
  at_provenance :: provenance
  at_request_identity :: string
  at_state :: status
  at_started_at :: pyval
  at_updated_at :: pyval
  at_identity :: logical_identity
  at_failure_code :: pyval
  at_digest :: pyval

definition OperationAttemptState ::
  "prims \<Rightarrow> pyval \<Rightarrow> pyval \<Rightarrow> pyval \<Rightarrow> pyval \<Rightarrow> provenance res \<Rightarrow> pyval \<Rightarrow> pyval \<Rightarrow> pyval \<Rightarrow> pyval \<Rightarrow> pyval \<Rightarrow>
   pyval \<Rightarrow> logical_identity res \<Rightarrow> pyval \<Rightarrow> pyval \<Rightarrow> attempt res" where
  "OperationAttemptState P app op_id index operation prov driver remote request state started updated ident failure dig =
     rbind ident (\<lambda>identity.
     rbind (single_operation (out_value operation)) (\<lambda>op.
     rbind prov (\<lambda>provenance.
     raise_if (app \<noteq> PStr (id_application_id identity)) ''operation_attempt_binding_invalid''
     (rbind (read_index ''operation_attempt_binding_invalid'' index) (\<lambda>i.
      rbind (operation_identity P (id_application_id identity) (int i) (operation_doc op)) (\<lambda>expected_operation.
      raise_if (op_id \<noteq> PStr expected_operation) ''operation_attempt_binding_invalid''
      (rbind (request_identity P expected_operation) (\<lambda>expected_request.
       raise_if (request \<noteq> PStr expected_request) ''operation_attempt_binding_invalid''
       (raise_if (driver \<noteq> PStr (pv_driver_identity provenance) \<or> remote \<noteq> PStr (pv_remote_authority provenance))
          ''operation_attempt_binding_invalid''
       (rbind (read_status attempt_states ''operation_attempt_invalid'' state) (\<lambda>st.
        raise_if (\<not> truthy started \<or> \<not> truthy updated) ''operation_attempt_invalid''
          (Inr \<lparr>at_application_id = id_application_id identity, at_operation_identity = expected_operation,
                at_index = i, at_operation = op, at_provenance = provenance, at_request_identity = expected_request,
                at_state = st, at_started_at = started, at_updated_at = updated, at_identity = identity,
                at_failure_code = failure, at_digest = dig\<rparr>))))))))))))"

definition attempt_kvs :: "attempt \<Rightarrow> (string \<times> pyval) list" where
  "attempt_kvs a =
     [(''application_id'', PStr (at_application_id a)), (''operation_identity'', PStr (at_operation_identity a)),
      (''operation_index'', PInt (int (at_index a))), (''operation'', operation_doc (at_operation a)),
      (''authority_binding'', provenance_to_dict (at_provenance a)),
      (''driver_identity'', PStr (pv_driver_identity (at_provenance a))),
      (''remote_authority'', PStr (pv_remote_authority (at_provenance a))),
      (''request_identity'', PStr (at_request_identity a)), (''state'', PStr (status_name (at_state a))),
      (''started_at'', at_started_at a), (''updated_at'', at_updated_at a),
      (''identity'', identity_to_dict (id_values (at_identity a))), (''failure_code'', at_failure_code a)]"

definition attempt_payload :: "attempt \<Rightarrow> pyval" where
  "attempt_payload a = obj (attempt_kvs a)"

definition attempt_doc :: "attempt \<Rightarrow> pyval" where
  "attempt_doc a = obj (attempt_kvs a @ [(''attempt_digest'', at_digest a)])"

definition attempt_with_digest :: "prims \<Rightarrow> attempt \<Rightarrow> attempt res" where
  "attempt_with_digest P a = rbind (digest P (attempt_payload a)) (\<lambda>d. Inr (a\<lparr>at_digest := PStr d\<rparr>))"

definition attempt_verify :: "prims \<Rightarrow> attempt \<Rightarrow> bool res" where
  "attempt_verify P a =
     (if \<not> truthy (at_digest a) then Inr False
      else rbind (digest P (attempt_payload a)) (\<lambda>d. Inr (at_digest a = PStr d)))"

definition attempt_required :: "string list" where
  "attempt_required =
     [''application_id'', ''operation_identity'', ''operation_index'', ''operation'', ''authority_binding'',
      ''driver_identity'', ''remote_authority'', ''request_identity'', ''state'', ''started_at'', ''updated_at'',
      ''identity'']"

definition decode_attempt :: "prims \<Rightarrow> pyval \<Rightarrow> attempt res" where
  "decode_attempt P doc =
     (if \<not> kwargs_ok doc attempt_required [''failure_code'', ''attempt_digest'', ''_live_context''] then Inl TypeError
      else OperationAttemptState P (dict_get doc ''application_id'') (dict_get doc ''operation_identity'')
             (dict_get doc ''operation_index'') (dict_get doc ''operation'')
             (provenance_from_dict (dict_get doc ''authority_binding'')) (dict_get doc ''driver_identity'')
             (dict_get doc ''remote_authority'') (dict_get doc ''request_identity'') (dict_get doc ''state'')
             (dict_get doc ''started_at'') (dict_get doc ''updated_at'')
             (identity_from_dict P (dict_get doc ''identity'')) (kwarg doc ''failure_code'' PNone)
             (kwarg doc ''attempt_digest'' (PStr [])))"

definition validate_attempt_transition :: "attempt \<Rightarrow> attempt \<Rightarrow> unit res" where
  "validate_attempt_transition previous candidate =
     raise_if (at_state candidate \<notin> set (attempt_transitions (at_state previous))) ''attempt_state_transition_invalid'' (Inr ())"

section \<open>What the constructors establish\<close>

definition exec_state_ok :: "prims \<Rightarrow> exec_state \<Rightarrow> bool" where
  "exec_state_ok P s \<longleftrightarrow>
     identity_ok P (es_identity s) \<and> es_application_id s = id_application_id (es_identity s) \<and>
     anchor_ok (es_anchor s) \<and> [] \<notin> set (es_refs s) \<and> distinct (es_refs s) \<and>
     truthy (es_started_at s) \<and> truthy (es_updated_at s) \<and>
     (es_state s \<in> {Pending, PartiallyApplied} \<longrightarrow> es_owner s = PNone \<and> es_attempt s = PNone)"

definition attempt_ok :: "prims \<Rightarrow> attempt \<Rightarrow> bool" where
  "attempt_ok P a \<longleftrightarrow>
     identity_ok P (at_identity a) \<and> at_application_id a = id_application_id (at_identity a) \<and>
     wf_op (at_operation a) \<and>
     operation_identity P (at_application_id a) (int (at_index a)) (operation_doc (at_operation a)) = Inr (at_operation_identity a) \<and>
     request_identity P (at_operation_identity a) = Inr (at_request_identity a) \<and>
     provenance_ok (at_provenance a) \<and> at_state a \<in> set attempt_states \<and>
     truthy (at_started_at a) \<and> truthy (at_updated_at a)"

lemma read_index_Inr: "read_index code v = Inr n \<longleftrightarrow> v = PInt (int n)"
  by (cases v) (auto simp: read_index_def raise_if_Inr)

lemma read_policy_Inr:
  "read_policy v = Inr b \<longleftrightarrow> v = (if b then PStr applier_orchestration_policy else PNone)"
  by (auto simp: read_policy_def)

lemma as_sequence_Some: "as_sequence v = Some xs \<longleftrightarrow> v = PList xs \<or> v = PTuple xs"
  by (cases v) auto

lemma read_refs_Inr:
  "read_refs v = Inr rs \<longleftrightarrow> v \<in> {PList (map PStr rs), PTuple (map PStr rs)} \<and> [] \<notin> set rs \<and> distinct rs"
proof -
  have "map str_of (map PStr ss) = ss" for ss by (simp add: map_idI)
  then show ?thesis
    by (auto simp: read_refs_def raise_if_Inr all_nonempty_str as_sequence_Some distinct_map inj_on_def
        split: option.splits)
qed

lemma ApplicationExecutionState_Inr:
  assumes "ApplicationExecutionState P app ident state next owner attempt recovery refs started updated completed anchor policy dig = Inr s"
  shows "ident = Inr (es_identity s)" "anchor = Inr (es_anchor s)" "app = PStr (es_application_id s)"
    "es_application_id s = id_application_id (es_identity s)" "state = PStr (status_name (es_state s))"
    "next = PInt (int (es_next s))" "policy = (if es_managed s then PStr applier_orchestration_policy else PNone)"
    "refs \<in> {PList (map PStr (es_refs s)), PTuple (map PStr (es_refs s))}" "[] \<notin> set (es_refs s)" "distinct (es_refs s)"
    "es_owner s = owner" "es_attempt s = attempt" "es_recovery s = recovery" "es_started_at s = started"
    "es_updated_at s = updated" "es_completed_at s = completed" "es_digest s = dig" "truthy started" "truthy updated"
    "es_state s \<in> {Pending, PartiallyApplied} \<Longrightarrow> owner = PNone \<and> attempt = PNone"
  using assms unfolding ApplicationExecutionState_def
  by (auto simp: rbind_Inr raise_if_Inr read_status_Inr read_index_Inr read_policy_Inr read_refs_Inr)

lemma application_states_all [simp]: "s \<in> set application_states"
  by (cases s) (simp_all add: application_states_def)

lemma ApplicationExecutionState_ok:
  assumes "ApplicationExecutionState P app ident state next owner attempt recovery refs started updated completed anchor policy dig = Inr s"
    and "\<And>i. ident = Inr i \<Longrightarrow> identity_ok P i" "\<And>a. anchor = Inr a \<Longrightarrow> anchor_ok a"
  shows "exec_state_ok P s"
  using ApplicationExecutionState_Inr [OF assms(1)] assms(2,3) unfolding exec_state_ok_def by auto

lemma decode_exec_state_ok: "decode_exec_state P doc = Inr s \<Longrightarrow> exec_state_ok P s"
  unfolding decode_exec_state_def
  by (rule ApplicationExecutionState_ok) (auto split: if_splits intro: identity_from_dict_ok anchor_from_dict_ok)

lemma read_refs_intro: "[] \<notin> set rs \<Longrightarrow> distinct rs \<Longrightarrow> read_refs (strs rs) = Inr rs"
  by (simp add: read_refs_Inr strs_def)

lemma read_status_intro: "s \<in> set states \<Longrightarrow> read_status states code (PStr (status_name s)) = Inr s"
  by (simp add: read_status_Inr)

lemma read_index_intro [simp]: "read_index code (PInt (int n)) = Inr n"
  by (simp add: read_index_Inr)

lemma ApplicationExecutionState_intro:
  assumes "exec_state_ok P s"
  shows "ApplicationExecutionState P (PStr (es_application_id s)) (Inr (es_identity s)) (PStr (status_name (es_state s)))
      (PInt (int (es_next s))) (es_owner s) (es_attempt s) (es_recovery s) (strs (es_refs s)) (es_started_at s)
      (es_updated_at s) (es_completed_at s) (Inr (es_anchor s))
      (if es_managed s then PStr applier_orchestration_policy else PNone) dig = Inr (s\<lparr>es_digest := dig\<rparr>)"
proof -
  have policy: "read_policy (if es_managed s then PStr applier_orchestration_policy else PNone) = Inr (es_managed s)"
    by (simp add: read_policy_Inr)
  have refs: "read_refs (strs (es_refs s)) = Inr (es_refs s)"
    using assms by (intro read_refs_intro) (simp_all add: exec_state_ok_def)
  have app: "id_application_id (es_identity s) = es_application_id s"
    using assms by (simp add: exec_state_ok_def)
  show ?thesis
    using assms unfolding ApplicationExecutionState_def exec_state_ok_def
    by (auto simp: policy refs read_status_intro app raise_if_def)
qed

lemma exec_state_doc_kwargs: "kwargs_ok (exec_state_doc s) exec_state_required exec_state_optional"
  unfolding exec_state_doc_def kwargs_ok_obj
  by (auto simp: exec_state_kvs_def exec_state_required_def exec_state_optional_def)

lemma exec_state_doc_get:
  "dict_get (exec_state_doc s) ''application_id'' = PStr (es_application_id s)"
  "dict_get (exec_state_doc s) ''identity'' = identity_to_dict (id_values (es_identity s))"
  "dict_get (exec_state_doc s) ''state'' = PStr (status_name (es_state s))"
  "dict_get (exec_state_doc s) ''next_operation_index'' = PInt (int (es_next s))"
  "dict_get (exec_state_doc s) ''owner_id'' = es_owner s"
  "dict_get (exec_state_doc s) ''current_attempt_id'' = es_attempt s"
  "dict_get (exec_state_doc s) ''recovery_code'' = es_recovery s"
  "kwarg (exec_state_doc s) ''operation_receipt_refs'' v = strs (es_refs s)"
  "kwarg (exec_state_doc s) ''started_at'' v = es_started_at s"
  "kwarg (exec_state_doc s) ''updated_at'' v = es_updated_at s"
  "kwarg (exec_state_doc s) ''completed_at'' v = es_completed_at s"
  "kwarg (exec_state_doc s) ''continuity_anchor'' v = anchor_to_dict (es_anchor s)"
  "kwarg (exec_state_doc s) ''orchestration_policy'' PNone =
     (if es_managed s then PStr applier_orchestration_policy else PNone)"
  "kwarg (exec_state_doc s) ''state_digest'' v = es_digest s"
  by (simp_all add: exec_state_doc_def exec_state_kvs_def)

lemma exec_state_roundtrip: "exec_state_ok P s \<Longrightarrow> decode_exec_state P (exec_state_doc s) = Inr s"
proof -
  assume ok: "exec_state_ok P s"
  then have "identity_from_dict P (identity_to_dict (id_values (es_identity s))) = Inr (es_identity s)"
      "anchor_from_dict (anchor_to_dict (es_anchor s)) = Inr (es_anchor s)"
    by (simp_all add: exec_state_ok_def identity_roundtrip anchor_roundtrip)
  then show ?thesis
    unfolding decode_exec_state_def exec_state_doc_get
    using exec_state_doc_kwargs [of s] ApplicationExecutionState_intro [OF ok] by simp
qed

lemma OperationAttemptState_Inr:
  assumes "OperationAttemptState P app op_id index operation prov driver remote request state started updated ident failure dig = Inr a"
  shows "ident = Inr (at_identity a)" "prov = Inr (at_provenance a)" "single_operation (out_value operation) = Inr (at_operation a)"
    "app = PStr (at_application_id a)" "at_application_id a = id_application_id (at_identity a)"
    "index = PInt (int (at_index a))" "op_id = PStr (at_operation_identity a)"
    "operation_identity P (at_application_id a) (int (at_index a)) (operation_doc (at_operation a)) = Inr (at_operation_identity a)"
    "request_identity P (at_operation_identity a) = Inr (at_request_identity a)" "request = PStr (at_request_identity a)"
    "driver = PStr (pv_driver_identity (at_provenance a))" "remote = PStr (pv_remote_authority (at_provenance a))"
    "state = PStr (status_name (at_state a))" "at_state a \<in> set attempt_states"
    "at_started_at a = started" "at_updated_at a = updated" "at_failure_code a = failure" "at_digest a = dig"
    "truthy started" "truthy updated"
  using assms unfolding OperationAttemptState_def
  by (auto simp: rbind_Inr raise_if_Inr read_status_Inr read_index_Inr)

lemma OperationAttemptState_ok:
  assumes "OperationAttemptState P app op_id index operation prov driver remote request state started updated ident failure dig = Inr a"
    and "\<And>i. ident = Inr i \<Longrightarrow> identity_ok P i" "\<And>p. prov = Inr p \<Longrightarrow> provenance_ok p"
  shows "attempt_ok P a"
  using OperationAttemptState_Inr [OF assms(1)] assms(2,3) unfolding attempt_ok_def
  by (auto intro: single_operation_wf)

lemma decode_attempt_ok: "decode_attempt P doc = Inr a \<Longrightarrow> attempt_ok P a"
  unfolding decode_attempt_def
  by (rule OperationAttemptState_ok) (auto split: if_splits intro: identity_from_dict_ok provenance_from_dict_ok)

lemma out_operation_doc [simp]: "out_value (operation_doc op) = operation_doc op"
  by (simp add: operation_doc_def obj_def strs_def)

lemma OperationAttemptState_intro:
  assumes "attempt_ok P a"
  shows "OperationAttemptState P (PStr (at_application_id a)) (PStr (at_operation_identity a)) (PInt (int (at_index a)))
      (operation_doc (at_operation a)) (Inr (at_provenance a)) (PStr (pv_driver_identity (at_provenance a)))
      (PStr (pv_remote_authority (at_provenance a))) (PStr (at_request_identity a)) (PStr (status_name (at_state a)))
      (at_started_at a) (at_updated_at a) (Inr (at_identity a)) (at_failure_code a) dig = Inr (a\<lparr>at_digest := dig\<rparr>)"
proof -
  have app: "id_application_id (at_identity a) = at_application_id a"
    using assms by (simp add: attempt_ok_def)
  show ?thesis
    using assms unfolding OperationAttemptState_def attempt_ok_def
    by (simp add: app single_operation_doc read_status_intro)
qed

lemma attempt_doc_kwargs: "kwargs_ok (attempt_doc a) attempt_required [''failure_code'', ''attempt_digest'', ''_live_context'']"
  unfolding attempt_doc_def kwargs_ok_obj by (simp add: attempt_kvs_def attempt_required_def)

lemma attempt_doc_get:
  "dict_get (attempt_doc a) ''application_id'' = PStr (at_application_id a)"
  "dict_get (attempt_doc a) ''operation_identity'' = PStr (at_operation_identity a)"
  "dict_get (attempt_doc a) ''operation_index'' = PInt (int (at_index a))"
  "dict_get (attempt_doc a) ''operation'' = operation_doc (at_operation a)"
  "dict_get (attempt_doc a) ''authority_binding'' = provenance_to_dict (at_provenance a)"
  "dict_get (attempt_doc a) ''driver_identity'' = PStr (pv_driver_identity (at_provenance a))"
  "dict_get (attempt_doc a) ''remote_authority'' = PStr (pv_remote_authority (at_provenance a))"
  "dict_get (attempt_doc a) ''request_identity'' = PStr (at_request_identity a)"
  "dict_get (attempt_doc a) ''state'' = PStr (status_name (at_state a))"
  "dict_get (attempt_doc a) ''started_at'' = at_started_at a"
  "dict_get (attempt_doc a) ''updated_at'' = at_updated_at a"
  "dict_get (attempt_doc a) ''identity'' = identity_to_dict (id_values (at_identity a))"
  "kwarg (attempt_doc a) ''failure_code'' v = at_failure_code a"
  "kwarg (attempt_doc a) ''attempt_digest'' v = at_digest a"
  by (simp_all add: attempt_doc_def attempt_kvs_def)

lemma attempt_roundtrip: "attempt_ok P a \<Longrightarrow> decode_attempt P (attempt_doc a) = Inr a"
proof -
  assume ok: "attempt_ok P a"
  then have "identity_from_dict P (identity_to_dict (id_values (at_identity a))) = Inr (at_identity a)"
      "provenance_from_dict (provenance_to_dict (at_provenance a)) = Inr (at_provenance a)"
    by (simp_all add: attempt_ok_def identity_roundtrip provenance_roundtrip)
  then show ?thesis
    unfolding decode_attempt_def attempt_doc_get
    using attempt_doc_kwargs [of a] OperationAttemptState_intro [OF ok] by simp
qed

section \<open>Digests of states and attempts\<close>

lemma exec_state_payload_digest [simp]: "exec_state_payload (s\<lparr>es_digest := d\<rparr>) = exec_state_payload s"
  by (simp add: exec_state_payload_def exec_state_kvs_def)

lemma attempt_payload_digest [simp]: "attempt_payload (a\<lparr>at_digest := d\<rparr>) = attempt_payload a"
  by (simp add: attempt_payload_def attempt_kvs_def)

lemma exec_state_ok_digest [simp]: "exec_state_ok P (s\<lparr>es_digest := d\<rparr>) = exec_state_ok P s"
  by (simp add: exec_state_ok_def)

lemma attempt_ok_digest [simp]: "attempt_ok P (a\<lparr>at_digest := d\<rparr>) = attempt_ok P a"
  by (simp add: attempt_ok_def)

lemma exec_state_with_digest_Inr:
  "exec_state_with_digest P s = Inr s' \<longleftrightarrow> (\<exists>d. digest P (exec_state_payload s) = Inr d \<and> s' = s\<lparr>es_digest := PStr d\<rparr>)"
  by (auto simp: exec_state_with_digest_def rbind_Inr)

lemma attempt_with_digest_Inr:
  "attempt_with_digest P a = Inr a' \<longleftrightarrow> (\<exists>d. digest P (attempt_payload a) = Inr d \<and> a' = a\<lparr>at_digest := PStr d\<rparr>)"
  by (auto simp: attempt_with_digest_def rbind_Inr)

lemma exec_state_verify_True:
  "exec_state_verify P s = Inr True \<longleftrightarrow> (\<exists>d. es_digest s = PStr d \<and> digest P (exec_state_payload s) = Inr d)"
  by (auto simp: exec_state_verify_def rbind_Inr dest: digest_nonempty)

lemma attempt_verify_True:
  "attempt_verify P a = Inr True \<longleftrightarrow> (\<exists>d. at_digest a = PStr d \<and> digest P (attempt_payload a) = Inr d)"
  by (auto simp: attempt_verify_def rbind_Inr dest: digest_nonempty)

lemma exec_state_with_digest_verify: "exec_state_with_digest P s = Inr s' \<Longrightarrow> exec_state_verify P s' = Inr True"
  by (auto simp: exec_state_with_digest_Inr exec_state_verify_True)

lemma attempt_with_digest_verify: "attempt_with_digest P a = Inr a' \<Longrightarrow> attempt_verify P a' = Inr True"
  by (auto simp: attempt_with_digest_Inr attempt_verify_True)

text \<open>The state digest fixes the normal form of the whole coordination record.\<close>

lemma exec_state_digest_binds:
  assumes "exec_state_verify P s = Inr True" "exec_state_verify P t = Inr True" "es_digest s = es_digest t"
    and "collision_free P (exec_state_payload s) (exec_state_payload t)"
    and "floats_ok (exec_state_payload s)" "floats_ok (exec_state_payload t)"
  shows "normalize P (exec_state_payload s) = normalize P (exec_state_payload t)"
proof -
  obtain d where "digest P (exec_state_payload s) = Inr d" "digest P (exec_state_payload t) = Inr d"
    using assms(1-3) by (auto simp: exec_state_verify_True)
  then show ?thesis using digest_binds assms(4-6) by blast
qed

section \<open>Accepted transitions\<close>

lemma validate_attempt_transition_Inr:
  "validate_attempt_transition p c = Inr u \<longleftrightarrow> at_state c \<in> set (attempt_transitions (at_state p))"
  by (simp add: validate_attempt_transition_def raise_if_def)

definition terminal :: "status \<Rightarrow> bool" where
  "terminal s \<longleftrightarrow> s \<in> {Failed, Blocked, OutcomeUnknown, Applied}"

lemma application_transitions_terminal: "application_transitions s = [] \<longleftrightarrow> terminal s"
  by (cases s) (simp_all add: terminal_def)

text \<open>
  An accepted transition keeps the binding, leaves a non-terminal state, and grows the receipt
  list by one receipt exactly if it completes the claimed operation.
\<close>

lemma validate_application_transition_Inr:
  assumes "validate_application_transition p c = Inr u"
  shows "es_state c \<in> set (application_transitions (es_state p))"
    "es_application_id c = es_application_id p" "id_values (es_identity c) = id_values (es_identity p)"
    "es_anchor c = es_anchor p" "es_started_at c = es_started_at p" "es_managed c = es_managed p"
    "es_next p = length (es_refs p)" "es_next c = length (es_refs c)"
    "es_state p = Applying \<and> es_state c = PartiallyApplied \<and>
       (\<exists>r. es_refs c = es_refs p @ [r]) \<and> es_owner c = PNone \<and> es_attempt c = PNone \<or>
     (es_state p \<noteq> Applying \<or> es_state c \<noteq> PartiallyApplied) \<and> es_refs c = es_refs p"
proof -
  note v = assms [unfolded validate_application_transition_def Let_def raise_if_Inr]
  show "es_state c \<in> set (application_transitions (es_state p))"
    "es_application_id c = es_application_id p" "id_values (es_identity c) = id_values (es_identity p)"
    "es_anchor c = es_anchor p" "es_started_at c = es_started_at p" "es_managed c = es_managed p"
    and len: "es_next p = length (es_refs p)" "es_next c = length (es_refs c)"
    using v by auto
  show "es_state p = Applying \<and> es_state c = PartiallyApplied \<and>
       (\<exists>r. es_refs c = es_refs p @ [r]) \<and> es_owner c = PNone \<and> es_attempt c = PNone \<or>
     (es_state p \<noteq> Applying \<or> es_state c \<noteq> PartiallyApplied) \<and> es_refs c = es_refs p"
  proof (cases "es_state p = Applying \<and> es_state c = PartiallyApplied")
    case True
    then have delta: "int (es_next c) - int (es_next p) = 1" and coord: "es_owner c = PNone" "es_attempt c = PNone"
      and pre: "butlast (es_refs c) = es_refs p"
      using v by (auto simp: raise_if_Inr)
    then have "length (es_refs c) = Suc (length (es_refs p))" using len by simp
    then have "es_refs c = es_refs p @ [last (es_refs c)]"
      using pre by (metis append_butlast_last_id length_0_conv nat.distinct(1))
    then show ?thesis using True coord by blast
  next
    case False
    then show ?thesis using v by blast
  qed
qed

section \<open>Properties\<close>

text \<open>A claimed application state over a given identity, and its completion of the first operation.\<close>

definition demo_state :: "logical_identity \<Rightarrow> exec_state" where
  "demo_state ident = \<lparr>es_application_id = id_application_id ident, es_identity = ident, es_state = Applying,
     es_next = 0, es_owner = PStr ''o'', es_attempt = PStr ''t'', es_recovery = PNone, es_refs = [],
     es_started_at = PStr ''s'', es_updated_at = PStr ''u'', es_completed_at = PNone,
     es_anchor = \<lparr>anchor_mode = PRINCIPAL, anchor_values = [''cp'']\<rparr>, es_managed = True, es_digest = PStr []\<rparr>"

lemma demo_state_ok: "identity_ok P ident \<Longrightarrow> exec_state_ok P (demo_state ident)"
  by (simp add: exec_state_ok_def demo_state_def anchor_ok_def)

lemma normalizable_anchor [simp]: "normalizable P (anchor_to_dict a)"
  unfolding anchor_to_dict_def by (rule normalizable_obj) (simp_all add: literal_keys_def)

lemma literal_keys_exec_state: "literal_keys (exec_state_kvs s)"
  by (simp add: literal_keys_def exec_state_kvs_def)

lemma normalizable_exec_state:
  assumes "normalizable P (es_owner s)" "normalizable P (es_attempt s)" "normalizable P (es_recovery s)"
    "normalizable P (es_started_at s)" "normalizable P (es_updated_at s)" "normalizable P (es_completed_at s)"
  shows "normalizable P (exec_state_payload s)"
  unfolding exec_state_payload_def using literal_keys_exec_state
  by (rule normalizable_obj) (use assms in \<open>auto simp: exec_state_kvs_def\<close>)

lemma demo_state_digest: "\<exists>s. exec_state_with_digest P (demo_state ident) = Inr s"
proof -
  have "normalizable P (exec_state_payload (demo_state ident))"
    by (rule normalizable_exec_state) (simp_all add: demo_state_def)
  then show ?thesis
    using digest_normalizable [of P "exec_state_payload (demo_state ident)"] by (auto simp: exec_state_with_digest_Inr)
qed

text \<open>
  C28: a coordination record survives storage: sealed with its digest and written as a document, it
  is read back as the same record, and the record verifies.
\<close>

theorem execution_state_storage:
  assumes "exec_state_ok P s" "exec_state_with_digest P s = Inr s'"
  shows "decode_exec_state P (exec_state_doc s') = Inr s' \<and> exec_state_verify P s' = Inr True"
  using assms exec_state_roundtrip exec_state_with_digest_verify
  by (auto simp: exec_state_with_digest_Inr)

theorem execution_state_storage_witness:
  "\<exists>s. decode_exec_state plain_prims (exec_state_doc s) = Inr s \<and> es_state s = Applying"
proof -
  obtain ident where ident: "identity_ok plain_prims ident"
    using identity_exists [of "demo_values\<lparr>v_revision := 1\<rparr>"] demo_values_ok [of 1] by auto
  obtain s where s: "exec_state_with_digest plain_prims (demo_state ident) = Inr s" using demo_state_digest by blast
  then have "es_state s = Applying" by (auto simp: exec_state_with_digest_Inr demo_state_def)
  then show ?thesis using execution_state_storage [OF demo_state_ok [OF ident] s] by blast
qed

text \<open>
  C29: an accepted application transition leaves a state that is not terminal, keeps the
  application, its identity, anchor, start and policy, and grows the receipt list, by exactly one,
  only when it completes a claimed operation, which also gives up the claim.
\<close>

theorem application_transition_sound:
  assumes "validate_application_transition p c = Inr ()"
  shows "\<not> terminal (es_state p) \<and> es_state c \<in> set (application_transitions (es_state p)) \<and>
     es_application_id c = es_application_id p \<and> id_values (es_identity c) = id_values (es_identity p) \<and>
     es_anchor c = es_anchor p \<and> es_started_at c = es_started_at p \<and> es_managed c = es_managed p \<and>
     es_next p = length (es_refs p) \<and> es_next c = length (es_refs c) \<and>
     (es_refs c = es_refs p \<or>
      es_state p = Applying \<and> es_state c = PartiallyApplied \<and> (\<exists>r. es_refs c = es_refs p @ [r]) \<and>
      es_owner c = PNone \<and> es_attempt c = PNone)"
proof -
  have "application_transitions (es_state p) \<noteq> []"
    using validate_application_transition_Inr(1) [OF assms] by auto
  then show ?thesis
    using validate_application_transition_Inr [OF assms] application_transitions_terminal by blast
qed

theorem application_transition_sound_witness:
  "\<exists>p c. validate_application_transition p c = Inr () \<and> es_refs c = [''r''] \<and> es_next c = 1"
proof -
  let ?p = "demo_state undefined"
  let ?c = "?p\<lparr>es_state := PartiallyApplied, es_next := 1, es_refs := [''r''], es_owner := PNone, es_attempt := PNone\<rparr>"
  have "validate_application_transition ?p ?c = Inr ()"
    by (simp add: validate_application_transition_def demo_state_def)
  moreover from this have "es_next ?c = length (es_refs ?c)"
    using application_transition_sound [of ?p ?c] by blast
  ultimately show ?thesis by (intro exI [of _ ?p] exI [of _ ?c]) simp
qed

end
