(* ===== verification/Execution_Clock.thy ===== *)
theory Execution_Clock
  imports DS_Prelude
begin

text \<open>
  Model of the timestamp contract of \<open>delivery_system/execution_store.py\<close>
  (\<open>_execution_timestamp\<close> and \<open>_require_clock_not_before\<close>).

  A timestamp is accepted exactly if it is the normalised UTC text of a calendar date and time:
  the source parses the text with \<open>datetime.fromisoformat\<close> and compares the text with the
  normalised \<open>isoformat\<close> of the result, so whatever else \<open>fromisoformat\<close> reads is rejected by the
  comparison.  The model reads the fields at their fixed places and makes the same comparison.
\<close>

record timestamp =
  ts_year :: nat
  ts_month :: nat
  ts_day :: nat
  ts_hour :: nat
  ts_minute :: nat
  ts_second :: nat
  ts_micro :: nat

definition leap_year :: "nat \<Rightarrow> bool" where
  "leap_year y \<longleftrightarrow> y mod 4 = 0 \<and> (y mod 100 \<noteq> 0 \<or> y mod 400 = 0)"

definition days_in_month :: "nat \<Rightarrow> nat \<Rightarrow> nat" where
  "days_in_month y m = (if m = 2 then (if leap_year y then 29 else 28) else if m \<in> {4, 6, 9, 11} then 30 else 31)"

definition valid_timestamp :: "timestamp \<Rightarrow> bool" where
  "valid_timestamp t \<longleftrightarrow>
     1 \<le> ts_year t \<and> ts_year t \<le> 9999 \<and> 1 \<le> ts_month t \<and> ts_month t \<le> 12 \<and>
     1 \<le> ts_day t \<and> ts_day t \<le> days_in_month (ts_year t) (ts_month t) \<and>
     ts_hour t < 24 \<and> ts_minute t < 60 \<and> ts_second t < 60 \<and> ts_micro t < 1000000"

fun pad :: "nat \<Rightarrow> nat \<Rightarrow> string" where
  "pad 0 n = []"
| "pad (Suc w) n = pad w (n div 10) @ [digit_char (n mod 10)]"

text \<open>\<open>datetime.isoformat()\<close> with the UTC offset written \<open>Z\<close>; zero microseconds are omitted.\<close>

definition utc_text :: "timestamp \<Rightarrow> string" where
  "utc_text t = pad 4 (ts_year t) @ ''-'' @ pad 2 (ts_month t) @ ''-'' @ pad 2 (ts_day t) @ ''T'' @
     pad 2 (ts_hour t) @ '':'' @ pad 2 (ts_minute t) @ '':'' @ pad 2 (ts_second t) @
     (if ts_micro t = 0 then ''Z'' else ''.'' @ pad 6 (ts_micro t) @ ''Z'')"

definition digits_value :: "string \<Rightarrow> nat" where
  "digits_value s = foldl (\<lambda>n c. 10 * n + (of_char c - 48)) 0 s"

definition field_at :: "string \<Rightarrow> nat \<Rightarrow> nat \<Rightarrow> nat" where
  "field_at s i w = digits_value (take w (drop i s))"

definition read_timestamp :: "string \<Rightarrow> timestamp" where
  "read_timestamp s = \<lparr>ts_year = field_at s 0 4, ts_month = field_at s 5 2, ts_day = field_at s 8 2,
     ts_hour = field_at s 11 2, ts_minute = field_at s 14 2, ts_second = field_at s 17 2,
     ts_micro = (if length s \<le> 20 then 0 else field_at s 20 6)\<rparr>"

definition execution_timestamp :: "pyval \<Rightarrow> timestamp res" where
  "execution_timestamp value =
     (case value of
        PStr s \<Rightarrow>
          (let t = read_timestamp s in
           raise_if (\<not> (valid_timestamp t \<and> utc_text t = s)) ''execution_clock_invalid'' (Inr t))
      | _ \<Rightarrow> Inl (ValueError ''execution_clock_invalid''))"

text \<open>The instant of a timestamp, as the list of its fields from the largest unit down.\<close>

definition instant :: "timestamp \<Rightarrow> nat list" where
  "instant t = [ts_year t, ts_month t, ts_day t, ts_hour t, ts_minute t, ts_second t, ts_micro t]"

fun clock_not_before :: "timestamp \<Rightarrow> pyval list \<Rightarrow> unit res" where
  "clock_not_before c [] = Inr ()"
| "clock_not_before c (v # vs) =
     rbind (execution_timestamp v) (\<lambda>t.
       raise_if (instant c < instant t) ''execution_clock_invalid'' (clock_not_before c vs))"

definition require_clock_not_before :: "pyval \<Rightarrow> pyval list \<Rightarrow> unit res" where
  "require_clock_not_before candidate prior =
     rbind (execution_timestamp candidate) (\<lambda>c. clock_not_before c prior)"

section \<open>The text of a timestamp determines it\<close>

lemma length_pad [simp]: "length (pad w n) = w"
  by (induction w arbitrary: n) auto

lemma digits_value_snoc: "digits_value (s @ [c]) = 10 * digits_value s + (of_char c - 48)"
  by (simp add: digits_value_def)

lemma of_digit_char: "n < 10 \<Longrightarrow> (of_char (digit_char n) :: nat) - 48 = n"
  by (simp add: digit_char_def of_char_of)

lemma digits_value_pad: "n < 10 ^ w \<Longrightarrow> digits_value (pad w n) = n"
proof (induction w arbitrary: n)
  case 0
  then show ?case by (simp add: digits_value_def)
next
  case (Suc w)
  then have "n div 10 < 10 ^ w" by (simp add: less_mult_imp_div_less)
  then have "digits_value (pad w (n div 10)) = n div 10" by (rule Suc.IH)
  then show ?case by (simp add: digits_value_snoc of_digit_char)
qed

lemma days_in_month_le: "days_in_month y m \<le> 31"
  by (simp add: days_in_month_def)

lemma valid_timestamp_widths:
  assumes "valid_timestamp t"
  shows "ts_year t < 10 ^ 4" "ts_month t < 10 ^ 2" "ts_day t < 10 ^ 2" "ts_hour t < 10 ^ 2"
    "ts_minute t < 10 ^ 2" "ts_second t < 10 ^ 2" "ts_micro t < 10 ^ 6"
  using assms days_in_month_le [of "ts_year t" "ts_month t"] by (simp_all add: valid_timestamp_def)

lemma read_utc_text: "valid_timestamp t \<Longrightarrow> read_timestamp (utc_text t) = t"
proof -
  assume "valid_timestamp t"
  note vals = valid_timestamp_widths [OF this, THEN digits_value_pad]
  let ?tail = "if ts_micro t = 0 then ''Z'' else ''.'' @ pad 6 (ts_micro t) @ ''Z''"
  have "field_at (utc_text t) 0 4 = ts_year t"
    unfolding utc_text_def using vals(1) by (simp add: field_at_def)
  moreover have "field_at (utc_text t) 5 2 = ts_month t"
    unfolding utc_text_def using vals(2) by (simp add: field_at_def)
  moreover have "field_at (utc_text t) 8 2 = ts_day t"
    unfolding utc_text_def using vals(3) by (simp add: field_at_def)
  moreover have "field_at (utc_text t) 11 2 = ts_hour t"
    unfolding utc_text_def using vals(4) by (simp add: field_at_def)
  moreover have "field_at (utc_text t) 14 2 = ts_minute t"
    unfolding utc_text_def using vals(5) by (simp add: field_at_def)
  moreover have "field_at (utc_text t) 17 2 = ts_second t"
    unfolding utc_text_def using vals(6) by (simp add: field_at_def)
  moreover have "length (utc_text t) \<le> 20 \<longleftrightarrow> ts_micro t = 0"
    by (simp add: utc_text_def)
  moreover have "ts_micro t \<noteq> 0 \<Longrightarrow> field_at (utc_text t) 20 6 = ts_micro t"
    unfolding utc_text_def using vals(7) by (simp add: field_at_def)
  ultimately show ?thesis by (simp add: read_timestamp_def)
qed

lemma execution_timestamp_Inr:
  "execution_timestamp v = Inr t \<longleftrightarrow> valid_timestamp t \<and> v = PStr (utc_text t)"
  by (cases v) (auto simp: execution_timestamp_def Let_def raise_if_Inr read_utc_text)

lemma clock_not_before_Inr:
  "clock_not_before c vs = Inr () \<longleftrightarrow>
     (\<forall>v \<in> set vs. \<exists>t. execution_timestamp v = Inr t \<and> instant t \<le> instant c)"
  by (induction vs) (auto simp: rbind_Inr raise_if_Inr not_less)

lemma require_clock_not_before_Inr:
  "require_clock_not_before v vs = Inr () \<longleftrightarrow>
     (\<exists>c. execution_timestamp v = Inr c \<and>
        (\<forall>p \<in> set vs. \<exists>t. execution_timestamp p = Inr t \<and> instant t \<le> instant c))"
  by (auto simp: require_clock_not_before_def rbind_Inr clock_not_before_Inr)

text \<open>The only way the clock checks fail is the clock error.\<close>

lemma execution_timestamp_Inl:
  "execution_timestamp v = Inl e \<Longrightarrow> e = ValueError ''execution_clock_invalid''"
  by (auto simp: execution_timestamp_def Let_def raise_if_def split: pyval.splits if_splits)

lemma require_clock_not_before_Inl:
  "require_clock_not_before v vs = Inl e \<Longrightarrow> e = ValueError ''execution_clock_invalid''"
proof -
  have "clock_not_before c vs = Inl e \<Longrightarrow> e = ValueError ''execution_clock_invalid''" for c
    by (induction vs) (auto simp: rbind_Inl raise_if_def dest: execution_timestamp_Inl split: if_splits)
  then show "require_clock_not_before v vs = Inl e \<Longrightarrow> e = ValueError ''execution_clock_invalid''"
    by (auto simp: require_clock_not_before_def rbind_Inl dest: execution_timestamp_Inl)
qed

section \<open>Properties\<close>

text \<open>
  C27: the clock accepts exactly the normalised UTC texts of calendar times, each read as that
  time, and a reading is accepted after earlier ones exactly if no earlier instant is later.
\<close>

theorem clock_contract:
  "(execution_timestamp v = Inr t \<longleftrightarrow> valid_timestamp t \<and> v = PStr (utc_text t)) \<and>
   (require_clock_not_before v vs = Inr () \<longleftrightarrow>
      (\<exists>c. valid_timestamp c \<and> v = PStr (utc_text c) \<and>
         set vs \<subseteq> {PStr (utc_text p) | p. valid_timestamp p \<and> instant p \<le> instant c}))"
proof -
  have "(\<forall>p \<in> set vs. \<exists>t. execution_timestamp p = Inr t \<and> instant t \<le> instant c) \<longleftrightarrow>
      set vs \<subseteq> {PStr (utc_text p) | p. valid_timestamp p \<and> instant p \<le> instant c}" for c
    by (auto simp: execution_timestamp_Inr)
  then show ?thesis
    unfolding require_clock_not_before_Inr by (simp only: execution_timestamp_Inr conj_assoc simp_thms)
qed

end
