(* ===== verification/Credentials.thy ===== *)
theory Credentials
  imports App_Identity Execution_Clock "HOL-Library.AList"
begin

text \<open>
  Model of the credential evidence a write is dispatched under: the host's credential lease
  (\<open>delivery_system/github_app_credential.py\<close>), the installation evidence and its verification
  digest (\<open>attestation_github_app.py\<close>), the registered binding (\<open>attestation_runtime.py\<close>) and the
  provenance of an authority restored after a restart (\<open>runtime.py\<close>).

  \<open>live_credential_checks\<close> and \<open>restart_credential_checks\<close> are the two branches of
  \<open>_validate_live_credential_dispatch\<close> up to the reading of the clock; \<open>credential_unexpired\<close> and
  \<open>source_verified\<close> follow it.  The lemmas at the end say what a passed check establishes; both
  branches establish the same facts about the authority.
\<close>

section \<open>Installation evidence\<close>

record installation_evidence =
  gi_app_id :: int
  gi_installation_id :: int
  gi_installation_account_identity :: string
  gi_repository_id :: int
  gi_repository_identity :: string
  gi_repository_scope :: "string list"
  gi_effective_permissions :: "(string \<times> string) list"
  gi_expires_at :: string
  gi_observed_at :: string
  gi_credential_instance_id :: string

definition github_app_installation_principal :: "int \<Rightarrow> int \<Rightarrow> string" where
  "github_app_installation_principal app installation =
     ''github-app-installation-'' @ int_repr app @ ''-'' @ int_repr installation"

text \<open>\<open>dict(pairs)\<close>: a repeated key keeps its place and takes the last value.\<close>

definition dict_of_pairs :: "(string \<times> string) list \<Rightarrow> (string \<times> string) list" where
  "dict_of_pairs pairs = foldl (\<lambda>d kv. AList.update (fst kv) (snd kv) d) [] pairs"

definition permission :: "installation_evidence \<Rightarrow> string \<Rightarrow> string option" where
  "permission evidence name = map_of (dict_of_pairs (gi_effective_permissions evidence)) name"

record verification_request =
  vr_repository_identity :: string
  vr_required_capabilities :: "string list"
  vr_github_subject_identity :: string
  vr_driver_identity :: string
  vr_remote_authority :: string
  vr_preview_id :: string
  vr_revision :: int
  vr_operation_set_digest :: string
  vr_remote_snapshot_digest :: string
  vr_evidence_digest :: string
  vr_challenge_digest :: string

definition source_verification_domain :: string where
  "source_verification_domain = ''delivery-system:github-app-installation-capability-evidence:v1''"

definition evidence_dict :: "installation_evidence \<Rightarrow> pyval" where
  "evidence_dict e =
     obj [(''app_id'', PInt (gi_app_id e)), (''installation_id'', PInt (gi_installation_id e)),
          (''installation_account_identity'', PStr (gi_installation_account_identity e)),
          (''repository_id'', PInt (gi_repository_id e)), (''repository_identity'', PStr (gi_repository_identity e)),
          (''repository_scope'', strs (gi_repository_scope e)),
          (''effective_permissions'', obj (map (\<lambda>(k, v). (k, PStr v)) (dict_of_pairs (gi_effective_permissions e)))),
          (''observed_at'', PStr (gi_observed_at e)), (''expires_at'', PStr (gi_expires_at e)),
          (''credential_instance_id'', PStr (gi_credential_instance_id e))]"

definition request_binding :: "verification_request \<Rightarrow> pyval" where
  "request_binding r =
     obj [(''repository_identity'', PStr (vr_repository_identity r)),
          (''required_capabilities'', PTuple (map PStr (vr_required_capabilities r))),
          (''github_subject_identity'', PStr (vr_github_subject_identity r)),
          (''driver_identity'', PStr (vr_driver_identity r)), (''remote_authority'', PStr (vr_remote_authority r)),
          (''preview_id'', PStr (vr_preview_id r)), (''revision'', PInt (vr_revision r)),
          (''operation_set_digest'', PStr (vr_operation_set_digest r)),
          (''remote_snapshot_digest'', PStr (vr_remote_snapshot_digest r)),
          (''evidence_digest'', PStr (vr_evidence_digest r)), (''challenge_digest'', PStr (vr_challenge_digest r))]"

definition source_verification_digest :: "prims \<Rightarrow> installation_evidence \<Rightarrow> verification_request \<Rightarrow> string res" where
  "source_verification_digest P evidence request =
     digest P (obj [(''domain'', PStr source_verification_domain), (''evidence'', evidence_dict evidence),
                    (''request_binding'', request_binding request)])"

section \<open>The host's lease\<close>

definition valid_token :: "string \<Rightarrow> bool" where
  "valid_token token \<longleftrightarrow>
     1 \<le> length token \<and> length token \<le> 4096 \<and> token = strip token \<and>
     list_all (\<lambda>c. (33 :: nat) \<le> of_char c \<and> of_char c \<le> (126 :: nat)) token"

text \<open>\<open>ls_object\<close> is the identity of the evidence object, \<open>ls_integrity\<close> the tuple of its fields.\<close>

record credential_lease =
  ls_token :: string
  ls_object :: nat
  ls_evidence :: installation_evidence
  ls_integrity :: "string \<times> installation_evidence"

definition lease_intact :: "credential_lease \<Rightarrow> bool" where
  "lease_intact l \<longleftrightarrow>
     (let e = ls_evidence l in
      valid_token (ls_token l) \<and> ls_integrity l = (ls_token l, e) \<and>
      gi_repository_scope e = [gi_repository_identity e] \<and> gi_credential_instance_id e \<noteq> [] \<and>
      permission e ''issues'' = Some ''write'')"

definition validate_lease :: "credential_lease \<Rightarrow> unit res" where
  "validate_lease l = raise_if (\<not> lease_intact l) ''host_credential_capability_invalid'' (Inr ())"

definition installation_credential_class :: string where
  "installation_credential_class = ''github-app-installation-token''"

definition lease_credential_class :: "credential_lease \<Rightarrow> string res" where
  "lease_credential_class l = rbind (validate_lease l) (\<lambda>_. Inr installation_credential_class)"

definition lease_snapshot :: "credential_lease \<Rightarrow> (nat \<times> installation_evidence) res" where
  "lease_snapshot l = rbind (validate_lease l) (\<lambda>_. Inr (ls_object l, ls_evidence l))"

section \<open>Registered bindings and restart provenance\<close>

text \<open>The attributes of a \<open>RuntimeCredentialCapabilityBinding\<close> that the runtime reads.\<close>

record credential_binding =
  cb_workspace_identity :: string
  cb_credential_instance_id :: string
  cb_issuer_id :: string
  cb_credential_class :: string
  cb_credential_principal_identity :: string
  cb_challenge_digest :: string
  cb_repository_identity :: string
  cb_github_subject_identity :: string
  cb_required_capabilities :: "string list"
  cb_granted_capabilities :: "string list"
  cb_driver_identity :: string
  cb_remote_authority :: string
  cb_preview_id :: string
  cb_revision :: int
  cb_plan_digest :: string
  cb_sealed_preview_digest :: string
  cb_operation_set_digest :: string
  cb_remote_snapshot_digest :: string
  cb_evidence_digest :: string
  cb_audit_id :: string
  cb_audit_digest :: string
  cb_source_verification_digest :: string
  cb_expires_at :: string

text \<open>The signed claims \<open>from_authority\<close> copies from.\<close>

record credential_claims =
  cl_credential_instance_id :: string
  cl_credential_class :: string
  cl_credential_principal_identity :: string
  cl_github_subject_identity :: string
  cl_repository_identity :: string
  cl_driver_identity :: string
  cl_remote_authority :: string
  cl_evidence_digest :: string
  cl_challenge_digest :: string
  cl_source_verification_digest :: string

record restart_provenance =
  rp_authority_id :: string
  rp_authority_issuance_id :: string
  rp_credential_binding_id :: string
  rp_credential_instance_id :: string
  rp_credential_class :: string
  rp_credential_principal_identity :: string
  rp_github_subject_identity :: string
  rp_repository_identity :: string
  rp_driver_identity :: string
  rp_remote_authority :: string
  rp_evidence_digest :: string
  rp_challenge_digest :: string
  rp_source_verification_digest :: string
  rp_workspace_identity :: string
  rp_application_id :: string
  rp_preview_id :: string
  rp_revision :: int
  rp_required_capabilities :: "string list"
  rp_granted_capabilities :: "string list"
  rp_expires_at :: string
  rp_authority_semantics_digest :: string

definition provenance_from_authority ::
  "prims \<Rightarrow> authority \<Rightarrow> string \<Rightarrow> credential_claims \<Rightarrow> restart_provenance res" where
  "provenance_from_authority P a issuance claims =
     rbind (identity_from_authority P a) (\<lambda>identity.
     rbind (digest P (authority_to_dict a)) (\<lambda>semantics.
     Inr \<lparr>rp_authority_id = au_authority_id a, rp_authority_issuance_id = issuance,
          rp_credential_binding_id = au_credential_binding_id a,
          rp_credential_instance_id = cl_credential_instance_id claims,
          rp_credential_class = cl_credential_class claims,
          rp_credential_principal_identity = cl_credential_principal_identity claims,
          rp_github_subject_identity = cl_github_subject_identity claims,
          rp_repository_identity = cl_repository_identity claims, rp_driver_identity = cl_driver_identity claims,
          rp_remote_authority = cl_remote_authority claims, rp_evidence_digest = cl_evidence_digest claims,
          rp_challenge_digest = cl_challenge_digest claims,
          rp_source_verification_digest = cl_source_verification_digest claims,
          rp_workspace_identity = au_workspace_identity a, rp_application_id = id_application_id identity,
          rp_preview_id = au_preview_id a, rp_revision = au_revision a,
          rp_required_capabilities = au_required_capabilities a,
          rp_granted_capabilities = au_granted_capabilities a, rp_expires_at = au_expires_at a,
          rp_authority_semantics_digest = semantics\<rparr>))"

definition matches_authority :: "prims \<Rightarrow> restart_provenance \<Rightarrow> authority \<Rightarrow> string \<Rightarrow> bool" where
  "matches_authority P p a issuance \<longleftrightarrow>
     rp_authority_id p = au_authority_id a \<and> rp_authority_issuance_id p = issuance \<and>
     rp_credential_binding_id p = au_credential_binding_id a \<and>
     rp_credential_instance_id p = au_credential_instance_id a \<and>
     rp_credential_principal_identity p = au_credential_principal_identity a \<and>
     rp_github_subject_identity p = au_github_subject_identity a \<and>
     rp_repository_identity p = au_repository_identity a \<and> rp_driver_identity p = au_driver_identity a \<and>
     rp_remote_authority p = au_remote_authority a \<and> rp_workspace_identity p = au_workspace_identity a \<and>
     map_sum id id_application_id (identity_from_authority P a) = Inr (rp_application_id p) \<and>
     rp_preview_id p = au_preview_id a \<and> rp_revision p = au_revision a \<and>
     rp_required_capabilities p = au_required_capabilities a \<and>
     rp_granted_capabilities p = au_granted_capabilities a \<and> rp_expires_at p = au_expires_at a \<and>
     digest P (authority_to_dict a) = Inr (rp_authority_semantics_digest p)"

section \<open>The checks before a dispatch\<close>

definition credential_error :: "string \<Rightarrow> 'a res" where
  "credential_error code = Inl (ValueError code)"

text \<open>What evidence and its holder must agree on, in the order of the source.\<close>

definition evidence_agrees ::
  "installation_evidence \<Rightarrow> string \<Rightarrow> string \<Rightarrow> string \<Rightarrow> string \<Rightarrow> bool \<Rightarrow> unit res" where
  "evidence_agrees e instance_id holder repository expires capable =
     raise_if (gi_credential_instance_id e \<noteq> instance_id) ''credential_instance_mismatch''
     (raise_if (github_app_installation_principal (gi_app_id e) (gi_installation_id e) \<noteq> holder) ''credential_principal_mismatch''
     (raise_if (gi_repository_identity e \<noteq> repository) ''credential_repository_mismatch''
     (raise_if (gi_repository_scope e \<noteq> [repository]) ''credential_scope_mismatch''
     (raise_if (permission e ''issues'' \<noteq> Some ''write'') ''credential_capability_mismatch''
     (raise_if (gi_expires_at e \<noteq> expires) ''credential_currentness_mismatch''
     (raise_if (\<not> capable) ''credential_capability_mismatch'' (Inr ())))))))"

definition restart_credential_checks ::
  "prims \<Rightarrow> authority \<Rightarrow> string option \<Rightarrow> restart_provenance \<Rightarrow> credential_lease \<Rightarrow> nat \<Rightarrow> installation_evidence res" where
  "restart_credential_checks P a issuance p lease snapshot =
     raise_if (\<not> (case issuance of None \<Rightarrow> False | Some i \<Rightarrow> matches_authority P p a i)) ''credential_currentness_mismatch''
     (rbind (validate_lease lease) (\<lambda>_.
      rbind (lease_snapshot lease) (\<lambda>(object, e).
      raise_if (object \<noteq> snapshot) ''credential_currentness_mismatch''
      (rbind (lease_credential_class lease) (\<lambda>cls.
       raise_if (cls \<noteq> rp_credential_class p) ''credential_instance_mismatch''
       (rbind (evidence_agrees e (rp_credential_instance_id p) (rp_credential_principal_identity p)
                 (rp_repository_identity p) (rp_expires_at p)
                 (''issues:write'' \<in> set (rp_required_capabilities p))) (\<lambda>_.
        Inr e)))))))"

definition live_credential_checks ::
  "authority \<Rightarrow> credential_binding \<Rightarrow> credential_lease \<Rightarrow> nat \<Rightarrow> installation_evidence res" where
  "live_credential_checks a b lease snapshot =
     rbind (catch (validate_lease lease) (\<lambda>_. credential_error ''credential_capability_unregistered'')) (\<lambda>_.
     rbind (lease_snapshot lease) (\<lambda>(object, e).
     raise_if (object \<noteq> snapshot) ''credential_currentness_mismatch''
     (rbind (lease_credential_class lease) (\<lambda>cls.
      raise_if (cb_credential_class b \<noteq> cls) ''credential_instance_mismatch''
      (raise_if (au_credential_instance_id a \<noteq> cb_credential_instance_id b \<or>
                 au_credential_principal_identity a \<noteq> cb_credential_principal_identity b \<or>
                 au_repository_identity a \<noteq> cb_repository_identity b \<or>
                 au_required_capabilities a \<noteq> cb_required_capabilities b \<or>
                 au_granted_capabilities a \<noteq> cb_granted_capabilities b \<or>
                 au_expires_at a \<noteq> cb_expires_at b) ''credential_currentness_mismatch''
       (rbind (evidence_agrees e (cb_credential_instance_id b) (cb_credential_principal_identity b)
                 (cb_repository_identity b) (cb_expires_at b)
                 (''issues:write'' \<in> set (cb_required_capabilities b) \<and>
                  ''issues:write'' \<in> set (cb_granted_capabilities b))) (\<lambda>_.
        Inr e)))))))"

text \<open>
  \<open>datetime.fromisoformat(text.replace("Z", "+00:00"))\<close> on the expiry of a lease, which is minted
  only for evidence whose timestamps are in the normalised form.  \<open>invalid\<close> is the error of
  a text that does not parse.
\<close>

definition read_expiry :: "exn \<Rightarrow> string \<Rightarrow> timestamp res" where
  "read_expiry invalid s =
     (let t = read_timestamp s in if valid_timestamp t \<and> utc_text t = s then Inr t else Inl invalid)"

definition credential_unexpired :: "exn \<Rightarrow> installation_evidence \<Rightarrow> timestamp \<Rightarrow> unit res" where
  "credential_unexpired invalid e now =
     rbind (read_expiry invalid (gi_expires_at e)) (\<lambda>expires.
     raise_if (instant expires \<le> instant now) ''credential_expired'' (Inr ()))"

definition restart_request :: "authority \<Rightarrow> restart_provenance \<Rightarrow> verification_request" where
  "restart_request a p = \<lparr>vr_repository_identity = rp_repository_identity p,
     vr_required_capabilities = rp_required_capabilities p,
     vr_github_subject_identity = rp_github_subject_identity p, vr_driver_identity = rp_driver_identity p,
     vr_remote_authority = rp_remote_authority p, vr_preview_id = au_preview_id a, vr_revision = au_revision a,
     vr_operation_set_digest = au_operation_set_digest a, vr_remote_snapshot_digest = au_remote_snapshot_digest a,
     vr_evidence_digest = rp_evidence_digest p, vr_challenge_digest = rp_challenge_digest p\<rparr>"

definition live_request :: "credential_binding \<Rightarrow> verification_request" where
  "live_request b = \<lparr>vr_repository_identity = cb_repository_identity b,
     vr_required_capabilities = cb_required_capabilities b,
     vr_github_subject_identity = cb_github_subject_identity b, vr_driver_identity = cb_driver_identity b,
     vr_remote_authority = cb_remote_authority b, vr_preview_id = cb_preview_id b, vr_revision = cb_revision b,
     vr_operation_set_digest = cb_operation_set_digest b, vr_remote_snapshot_digest = cb_remote_snapshot_digest b,
     vr_evidence_digest = cb_evidence_digest b, vr_challenge_digest = cb_challenge_digest b\<rparr>"

definition source_verified :: "prims \<Rightarrow> installation_evidence \<Rightarrow> verification_request \<Rightarrow> string \<Rightarrow> unit res" where
  "source_verified P e request expected =
     rbind (source_verification_digest P e request) (\<lambda>d.
     raise_if (d \<noteq> expected) ''credential_currentness_mismatch'' (Inr ()))"

section \<open>What a passed check establishes\<close>

text \<open>The evidence \<open>e\<close> of lease \<open>l\<close> authorises writes for the authority \<open>a\<close>.\<close>

definition entitles :: "credential_lease \<Rightarrow> installation_evidence \<Rightarrow> authority \<Rightarrow> bool" where
  "entitles l e a \<longleftrightarrow>
     lease_intact l \<and> e = ls_evidence l \<and>
     gi_repository_scope e = [au_repository_identity a] \<and> permission e ''issues'' = Some ''write'' \<and>
     ''issues:write'' \<in> set (au_required_capabilities a) \<and>
     github_app_installation_principal (gi_app_id e) (gi_installation_id e) = au_credential_principal_identity a \<and>
     gi_credential_instance_id e = au_credential_instance_id a \<and> gi_expires_at e = au_expires_at a"

lemma validate_lease_Inr: "validate_lease l = Inr () \<longleftrightarrow> lease_intact l"
  by (simp add: validate_lease_def raise_if_def)

lemma lease_parts_Inr:
  "lease_snapshot l = Inr s \<longleftrightarrow> lease_intact l \<and> s = (ls_object l, ls_evidence l)"
  "lease_credential_class l = Inr c \<longleftrightarrow> lease_intact l \<and> c = installation_credential_class"
  by (auto simp: lease_snapshot_def lease_credential_class_def rbind_Inr validate_lease_def raise_if_Inr)

lemma evidence_agrees_Inr:
  "evidence_agrees e i holder repo expires capable = Inr u \<longleftrightarrow>
     gi_credential_instance_id e = i \<and>
     github_app_installation_principal (gi_app_id e) (gi_installation_id e) = holder \<and>
     gi_repository_identity e = repo \<and> gi_repository_scope e = [repo] \<and>
     permission e ''issues'' = Some ''write'' \<and> gi_expires_at e = expires \<and> capable"
  by (auto simp: evidence_agrees_def raise_if_Inr)

lemma restart_credential_checks_entitle:
  assumes "restart_credential_checks P a i p l snapshot = Inr e"
  shows "entitles l e a" "ls_object l = snapshot" "rp_credential_class p = installation_credential_class"
  using assms
  by (auto simp: restart_credential_checks_def rbind_Inr raise_if_Inr lease_parts_Inr evidence_agrees_Inr
      entitles_def matches_authority_def split: option.splits)

lemma live_credential_checks_entitle:
  assumes "live_credential_checks a b l snapshot = Inr e"
  shows "entitles l e a" "ls_object l = snapshot" "cb_credential_class b = installation_credential_class"
  using assms
  by (auto simp: live_credential_checks_def rbind_Inr raise_if_Inr lease_parts_Inr evidence_agrees_Inr entitles_def)

lemma credential_unexpired_Inr:
  "credential_unexpired invalid e now = Inr u \<longleftrightarrow>
     (\<exists>t. valid_timestamp t \<and> utc_text t = gi_expires_at e \<and> t = read_timestamp (gi_expires_at e) \<and> instant now < instant t)"
  by (auto simp: credential_unexpired_def read_expiry_def Let_def rbind_Inr raise_if_Inr split: if_splits)

lemma source_verified_Inr:
  "source_verified P e request expected = Inr u \<longleftrightarrow> source_verification_digest P e request = Inr expected"
  by (auto simp: source_verified_def rbind_Inr raise_if_Inr)

text \<open>A provenance recorded for an authority from claims that agree with it matches the authority.\<close>

lemma recorded_provenance_matches:
  assumes "provenance_from_authority P a issuance claims = Inr p"
  shows "matches_authority P p a issuance \<longleftrightarrow>
     cl_credential_instance_id claims = au_credential_instance_id a \<and>
     cl_credential_principal_identity claims = au_credential_principal_identity a \<and>
     cl_github_subject_identity claims = au_github_subject_identity a \<and>
     cl_repository_identity claims = au_repository_identity a \<and>
     cl_driver_identity claims = au_driver_identity a \<and> cl_remote_authority claims = au_remote_authority a"
  using assms by (auto simp: provenance_from_authority_def rbind_Inr matches_authority_def)

end
