(* ===== verification/Write_Contract.thy ===== *)
theory Write_Contract
  imports Canonical
begin

text \<open>
  Model of \<open>delivery_system/drivers/write_contract.py\<close> and of \<open>normalize_repository_identity\<close> of
  \<open>delivery_system/drivers/contract.py\<close>: the commands the applier sends to the write executor and
  the observations it gets back.  Constructors take dynamic values, as the dataclasses do.

  The lemmas give what a constructed command guarantees: a canonical repository, non-blank text,
  and two different issues of that repository in a relationship.
\<close>

definition write_executor_identity :: string where
  "write_executor_identity = ''delivery-system:github-rest-write-v1''"

section \<open>Repository identities\<close>

fun split_on :: "char \<Rightarrow> string \<Rightarrow> string list" where
  "split_on d [] = [[]]"
| "split_on d (c # s) =
     (if c = d then [] # split_on d s
      else (case split_on d s of [] \<Rightarrow> [[c]] | l # ls \<Rightarrow> (c # l) # ls))"

definition normalize_repository_identity :: "prims \<Rightarrow> pyval \<Rightarrow> string res" where
  "normalize_repository_identity P repository =
     (case repository of
        PStr s \<Rightarrow>
          (let parts = map strip (split_on (CHR 0x2F) s) in
           raise_if (length parts \<noteq> 2 \<or> [] \<in> set parts) ''repository_identity_invalid''
             (Inr (join_with ''/'' (map (lower P) parts))))
      | _ \<Rightarrow> Inl (ValueError ''repository_identity_invalid''))"

text \<open>\<open>type(value) is str and value.strip()\<close>\<close>

fun nonblank :: "pyval \<Rightarrow> bool" where
  "nonblank (PStr s) = (strip s \<noteq> [])"
| "nonblank _ = False"

section \<open>Commands\<close>

record issue_reference =
  ir_repository_identity :: string
  ir_issue_number :: int
  ir_numeric_issue_id :: string
  ir_node_id :: string

definition RemoteIssueReference :: "prims \<Rightarrow> pyval \<Rightarrow> pyval \<Rightarrow> pyval \<Rightarrow> pyval \<Rightarrow> issue_reference res" where
  "RemoteIssueReference P repository number numeric node =
     rbind (normalize_repository_identity P repository) (\<lambda>repo.
       (case number of
          PInt n \<Rightarrow>
            raise_if (n < 1) ''write_reference_invalid''
            (raise_if (\<not> nonblank numeric \<or> \<not> nonblank node) ''write_reference_invalid''
              (Inr \<lparr>ir_repository_identity = repo, ir_issue_number = n, ir_numeric_issue_id = str_of numeric,
                    ir_node_id = str_of node\<rparr>))
        | _ \<Rightarrow> Inl (ValueError ''write_reference_invalid'')))"

datatype command =
    CreateIssue (command_repository: string) (command_ref: string) (command_title: string) (command_body: string)
      (command_request: string)
  | Relationship (command_repository: string) (command_first: issue_reference) (command_second: issue_reference)

definition CreateIssueCommand :: "prims \<Rightarrow> pyval \<Rightarrow> pyval \<Rightarrow> pyval \<Rightarrow> pyval \<Rightarrow> pyval \<Rightarrow> command res" where
  "CreateIssueCommand P repository client_ref title body request =
     rbind (normalize_repository_identity P repository) (\<lambda>repo.
       raise_if (\<not> list_all nonblank [client_ref, title, body, request]) ''write_command_invalid''
         (Inr (CreateIssue repo (str_of client_ref) (str_of title) (str_of body) (str_of request))))"

definition RelationshipCommand :: "prims \<Rightarrow> pyval \<Rightarrow> issue_reference \<Rightarrow> issue_reference \<Rightarrow> command res" where
  "RelationshipCommand P repository a b =
     rbind (normalize_repository_identity P repository) (\<lambda>repo.
       raise_if (ir_repository_identity a \<noteq> repo \<or> ir_repository_identity b \<noteq> repo \<or> a = b) ''write_command_invalid''
         (Inr (Relationship repo a b)))"

definition correlation_marker :: "pyval \<Rightarrow> string res" where
  "correlation_marker request =
     raise_if (\<not> nonempty_str request) ''write_correlation_invalid''
       (Inr (''<!-- delivery-system-request:'' @ str_of request @ '' -->''))"

section \<open>Observations\<close>

datatype observation_kind = DefinitiveSuccess | DefinitiveRejected | Ambiguous

record observation =
  ob_kind :: observation_kind
  ob_result_identity :: pyval
  ob_result_payload :: pyval \<comment> \<open>\<open>None\<close> or a mapping\<close>
  ob_code :: pyval

fun freeze_value :: "pyval \<Rightarrow> pyval" where
  "freeze_value (PDict kvs) = PDict (map (\<lambda>kv. (fst kv, freeze_value (snd kv))) kvs)"
| "freeze_value (PList xs) = PTuple (map freeze_value xs)"
| "freeze_value (PTuple xs) = PTuple (map freeze_value xs)"
| "freeze_value (PSet xs) = PSet (map freeze_value xs)"
| "freeze_value v = v"

fun is_str :: "pyval \<Rightarrow> bool" where
  "is_str (PStr _) = True"
| "is_str _ = False"

definition WriteObservation :: "observation_kind \<Rightarrow> pyval \<Rightarrow> pyval \<Rightarrow> pyval \<Rightarrow> observation res" where
  "WriteObservation kind identity payload code =
     raise_if (truthy identity \<and> \<not> is_str identity) ''write_observation_invalid''
     (raise_if (truthy code \<and> \<not> is_str code) ''write_observation_invalid''
     (raise_if (payload \<noteq> PNone \<and> \<not> is_mapping payload) ''write_observation_invalid''
       (Inr \<lparr>ob_kind = kind, ob_result_identity = identity, ob_result_payload = freeze_value payload, ob_code = code\<rparr>)))"

section \<open>What constructed commands guarantee\<close>

lemma split_on_pieces: "p \<in> set (split_on d s) \<Longrightarrow> d \<notin> set p"
  by (induction s arbitrary: p) (auto split: if_splits list.splits)

lemma split_on_nonempty [simp]: "split_on d s \<noteq> []"
  by (induction s) (auto split: list.splits)

lemma split_on_append: "d \<notin> set p \<Longrightarrow> split_on d (p @ d # s) = p # split_on d s"
  by (induction p) auto

lemma split_on_single: "d \<notin> set p \<Longrightarrow> split_on d p = [p]"
  by (induction p) auto

lemma normalize_repository_identity_Inr:
  "normalize_repository_identity P v = Inr r \<longleftrightarrow>
     (\<exists>s a b. v = PStr s \<and> map strip (split_on (CHR 0x2F) s) = [a, b] \<and> a \<noteq> [] \<and> b \<noteq> [] \<and>
        r = lower P a @ ''/'' @ lower P b)"
proof -
  have two: "length ps = 2 \<longleftrightarrow> (\<exists>a b. ps = [a, b])" for ps :: "string list"
    by (auto simp: length_Suc_conv numeral_2_eq_2)
  show ?thesis
    by (cases v) (auto simp: normalize_repository_identity_def Let_def raise_if_Inr two simp del: length_map)
qed

lemma RelationshipCommand_Inr:
  "RelationshipCommand P v a b = Inr c \<longleftrightarrow>
     (\<exists>repo. normalize_repository_identity P v = Inr repo \<and> c = Relationship repo a b \<and> a \<noteq> b \<and>
        ir_repository_identity a = repo \<and> ir_repository_identity b = repo)"
  by (auto simp: RelationshipCommand_def rbind_Inr raise_if_Inr)

lemma RemoteIssueReference_Inr:
  "RemoteIssueReference P repo number numeric node = Inr r \<longleftrightarrow>
     normalize_repository_identity P repo = Inr (ir_repository_identity r) \<and> number = PInt (ir_issue_number r) \<and>
     1 \<le> ir_issue_number r \<and> numeric = PStr (ir_numeric_issue_id r) \<and> node = PStr (ir_node_id r) \<and>
     nonblank numeric \<and> nonblank node"
proof -
  have "nonblank v \<Longrightarrow> v = PStr (str_of v)" for v by (cases v) auto
  then show ?thesis
    by (cases r; cases number)
      (auto simp: RemoteIssueReference_def rbind_Inr raise_if_Inr simp del: nonblank.simps)
qed

end
