(* ===== verification/Execution_Context.thy ===== *)
theory Execution_Context
  imports Program Database Execution_State Credentials Write_Contract
begin

text \<open>
  Model of the execution boundary of \<open>delivery_system/runtime.py\<close>: the registry of live execution
  contexts (\<open>create_execution_context\<close>, \<open>validate_execution_context\<close>, \<open>validate_live_artifact\<close>) and
  the class \<open>RuntimeApplicationExecutionContext\<close>, the only maker of new execution evidence.

  The state of a process is a \<open>world\<close>: the shared database, the two registries of the runtime
  service, the supply of object identities and the commands handed to the write driver.  What the
  process cannot decide itself (the wall clock, random owner ids, whether the authority is still
  valid, the answers of the driver and of the endpoint verifier, the writes of other processes) is
  an \<open>env\<close>, a family of answers indexed by the moment they are asked for (\<open>w_tick\<close>).  Python object
  identity is a number: \<open>a is b\<close> compares \<open>lv_object\<close> or \<open>cx_id\<close>.
\<close>

section \<open>Environment and world\<close>

text \<open>What \<open>self._authorities.get(id)\<close> and \<open>validate_application_authority\<close> say of a context's authority.\<close>

datatype authority_lookup = AuthorityRejected | AuthorityReplaced | AuthorityCurrent

text \<open>
  What the service holds of credentials at a moment: the host's lease and the identity of the
  evidence snapshot taken at construction, \<open>_restart_authority_provenance\<close> and
  \<open>_authority_issuance_ids\<close> by authority, and \<open>resolve_registered_binding\<close>.
\<close>

record credential_state =
  cs_lease :: "credential_lease option"
  cs_snapshot :: "nat option"
  cs_restart :: "string \<Rightarrow> restart_provenance option"
  cs_issuance :: "string \<Rightarrow> string option"
  cs_binding :: "string \<Rightarrow> credential_binding res"

text \<open>
  \<open>env_clock\<close> is \<open>service.clock()\<close> as an instant in UTC, \<open>env_owner\<close> is \<open>uuid.uuid4().hex\<close>,
  \<open>env_endpoint\<close> the endpoint revalidator if one is configured and \<open>env_driver\<close> the write executor.
\<close>

record env =
  env_clock :: "nat \<Rightarrow> timestamp"
  env_owner :: "nat \<Rightarrow> string"
  env_authority :: "nat \<Rightarrow> authority_lookup"
  env_resolve :: "nat \<Rightarrow> string \<Rightarrow> (authority \<times> pyval) res"
  env_endpoint :: "(nat \<Rightarrow> string \<Rightarrow> string option \<Rightarrow> issue_reference list option \<Rightarrow> pyval res) option"
  env_credentials :: "nat \<Rightarrow> credential_state"
  env_driver :: "nat \<Rightarrow> string \<Rightarrow> command \<Rightarrow> observation res"
  env_others :: "nat \<Rightarrow> database \<Rightarrow> database"

record exec_context =
  cx_id :: nat
  cx_service :: nat
  cx_authority :: authority
  cx_identity :: logical_identity
  cx_anchor :: continuity_anchor
  cx_operations :: "write_op list"
  cx_operation_set_digest :: string
  cx_items :: "pyval list"
  cx_version :: pyval
  cx_bindings :: "pyval list"
  cx_snapshot :: pyval
  cx_provenance :: provenance

record world =
  w_db :: database
  w_contexts :: "nat \<Rightarrow> exec_context option"
  w_artifacts :: "nat \<Rightarrow> (string \<times> nat \<times> pyval) option"
  w_next :: nat
  w_tick :: nat
  w_sent :: "((string \<times> string) \<times> string \<times> command) list" \<comment> \<open>application and operation, kind and command of each dispatch\<close>
  w_commits :: "(database \<times> database) list" \<comment> \<open>what each transaction the process committed found and left\<close>

type_synonym 'a io = "(world, 'a) program"

text \<open>Asking the environment takes a moment.\<close>

definition ask :: "(nat \<Rightarrow> 'a) \<Rightarrow> 'a io" where
  "ask f = (\<lambda>w. (Inr (f (w_tick w)), w\<lparr>w_tick := Suc (w_tick w)\<rparr>))"

definition fresh_object :: "nat io" where
  "fresh_object = (\<lambda>w. (Inr (w_next w), w\<lparr>w_next := Suc (w_next w)\<rparr>))"

text \<open>
  A transaction, \<open>BEGIN IMMEDIATE\<close> to commit: it starts after the writes other processes committed
  in the meantime, sees no interference while it runs, and an exception rolls its writes back.
  A single \<open>SELECT\<close> outside a transaction is a read of the same kind.  A commit is recorded in
  \<open>w_commits\<close>, a history variable that nothing reads: with it the transactions of several processes
  on one database can be put in their common order.
\<close>

definition settle_others :: "env \<Rightarrow> unit io" where
  "settle_others E = (\<lambda>w. (Inr (), w\<lparr>w_db := env_others E (w_tick w) (w_db w), w_tick := Suc (w_tick w)\<rparr>))"

definition commit :: "database \<Rightarrow> world \<Rightarrow> world" where
  "commit d w = w\<lparr>w_commits := w_commits w @ [(d, w_db w)]\<rparr>"

definition atomic :: "'a io \<Rightarrow> 'a io" where
  "atomic m = (\<lambda>w. case m w of (Inl e, w') \<Rightarrow> (Inl e, w'\<lparr>w_db := w_db w\<rparr>) | (Inr x, w') \<Rightarrow> (Inr x, commit (w_db w) w'))"

definition transaction :: "env \<Rightarrow> 'a io \<Rightarrow> 'a io" where
  "transaction E m = bnd (settle_others E) (\<lambda>_. atomic m)"

text \<open>A live object: the evidence, its identity and the context that made it.\<close>

record 'a live =
  lv_body :: 'a
  lv_object :: nat
  lv_context :: "nat option"

section \<open>Live contexts and artifacts\<close>

definition validate_execution_context :: "prims \<Rightarrow> env \<Rightarrow> nat \<Rightarrow> exec_context \<Rightarrow> unit io" where
  "validate_execution_context P E service ctx =
     bnd (view (\<lambda>w. w_contexts w (cx_id ctx))) (\<lambda>entry.
     bnd (refuse (entry = None \<or> cx_service ctx \<noteq> service) ''runtime_context_owner_mismatch'') (\<lambda>_.
     bnd (ask (env_authority E)) (\<lambda>current.
     bnd (refuse (current = AuthorityRejected) ''runtime_authority_invalid'') (\<lambda>_.
     bnd (refuse (current = AuthorityReplaced) ''runtime_context_owner_mismatch'') (\<lambda>_.
     bnd (refuse (entry \<noteq> Some ctx) ''runtime_context_owner_mismatch'') (\<lambda>_.
     bnd (lift (identity_from_authority P (cx_authority ctx))) (\<lambda>identity.
     bnd (refuse (id_values identity \<noteq> id_values (cx_identity ctx)) ''runtime_context_owner_mismatch'') (\<lambda>_.
     bnd (lift (anchor_from_authority (cx_authority ctx))) (\<lambda>anchor.
     bnd (refuse (anchor \<noteq> cx_anchor ctx) ''runtime_context_owner_mismatch'') (\<lambda>_.
     bnd (lift (normalize_write_operations (PTuple (map operation_doc (cx_operations ctx))))) (\<lambda>operations.
     refuse (operations \<noteq> cx_operations ctx \<or>
             cx_operation_set_digest ctx \<noteq> v_operation_set_digest (id_values (cx_identity ctx)))
       ''runtime_context_owner_mismatch'')))))))))))"

definition validate_live_artifact ::
  "prims \<Rightarrow> env \<Rightarrow> nat \<Rightarrow> 'a live \<Rightarrow> ('a \<Rightarrow> pyval) \<Rightarrow> exec_context \<Rightarrow> string \<Rightarrow> unit io" where
  "validate_live_artifact P E service artifact payload ctx kind =
     bnd (validate_execution_context P E service ctx) (\<lambda>_.
     bnd (view (\<lambda>w. w_artifacts w (lv_object artifact))) (\<lambda>entry.
     refuse (entry \<noteq> Some (kind, cx_id ctx, payload (lv_body artifact)) \<or> lv_context artifact \<noteq> Some (cx_id ctx))
       ''runtime_authority_required''))"

definition register :: "exec_context \<Rightarrow> string \<Rightarrow> ('a \<Rightarrow> pyval) \<Rightarrow> 'a \<Rightarrow> 'a live io" where
  "register ctx kind payload body =
     bnd fresh_object (\<lambda>i.
     bnd (change (\<lambda>w. w\<lparr>w_artifacts := (w_artifacts w)(i \<mapsto> (kind, cx_id ctx, payload body))\<rparr>)) (\<lambda>_.
     ret \<lparr>lv_body = body, lv_object = i, lv_context = Some (cx_id ctx)\<rparr>))"

text \<open>\<open>expected_operations\<close> and \<open>canonical_items\<close>\<close>

definition expected_operations :: "exec_context \<Rightarrow> pyval list" where
  "expected_operations ctx = map operation_doc (cx_operations ctx)"

fun thaw_value :: "pyval \<Rightarrow> pyval" where
  "thaw_value (PDict kvs) = PDict (map (\<lambda>kv. (fst kv, thaw_value (snd kv))) kvs)"
| "thaw_value (PTuple xs) = PList (map thaw_value xs)"
| "thaw_value (PSet xs) = PSet (map thaw_value xs)"
| "thaw_value v = v"

definition canonical_items :: "exec_context \<Rightarrow> pyval list" where
  "canonical_items ctx = map thaw_value (cx_items ctx)"

section \<open>Creating a context\<close>

text \<open>\<open>value.get(key, default)\<close>\<close>

definition get_or :: "pyval \<Rightarrow> string \<Rightarrow> pyval \<Rightarrow> pyval" where
  "get_or d k dflt = (case dict_lookup d k of None \<Rightarrow> dflt | Some v \<Rightarrow> v)"

definition sealed_items :: "pyval \<Rightarrow> pyval list res" where
  "sealed_items canonical_preview =
     (let semantic = dict_get canonical_preview ''semantic_payload'';
          items = (if is_mapping semantic then get_or semantic ''work_items'' (PList []) else PList [])
      in case items of
           PList xs \<Rightarrow>
             raise_if (\<not> list_all is_mapping xs) ''sealed_item_projection_invalid''
             (let refs = map (\<lambda>item. dict_get item ''client_ref'') xs in
              raise_if (\<not> list_all nonempty_str refs \<or> \<not> distinct refs) ''sealed_item_projection_invalid''
              (case get_or canonical_preview ''items'' (PList []) of
                 PList sealed \<Rightarrow>
                   (if \<not> list_all is_mapping sealed then Inl AttributeError
                    else raise_if (map (\<lambda>entry. dict_get entry ''client_ref'') sealed \<noteq> refs \<or>
                           \<not> list_all (\<lambda>entry. nonempty_str (dict_get entry ''item_id'')) sealed)
                           ''sealed_item_projection_invalid'' (Inr (map freeze_value xs)))
               | _ \<Rightarrow> Inl (ValueError ''sealed_item_projection_invalid'')))
         | _ \<Rightarrow> Inl (ValueError ''sealed_item_projection_invalid''))"

definition create_execution_context :: "prims \<Rightarrow> env \<Rightarrow> nat \<Rightarrow> string \<Rightarrow> exec_context io" where
  "create_execution_context P E service authority_id =
     bnd (ask (env_resolve E)) (\<lambda>resolve.
     bnd (lift (resolve authority_id)) (\<lambda>(authority, preview).
     bnd (refuse (\<not> is_mapping preview) ''operation_set_mismatch'') (\<lambda>_.
     bnd (lift (execution_operations preview)) (\<lambda>operations.
     bnd (lift (identity_from_authority P authority)) (\<lambda>identity.
     bnd (refuse (dict_get preview ''operation_set_digest'' \<noteq> PStr (v_operation_set_digest (id_values identity)))
            ''operation_set_mismatch'') (\<lambda>_.
     bnd (lift (anchor_from_authority authority)) (\<lambda>anchor.
     bnd (lift (of_option TypeError (iterate (get_or preview ''existing_endpoint_bindings'' (PList []))))) (\<lambda>bindings.
     bnd (lift (sealed_items preview)) (\<lambda>items.
     bnd fresh_object (\<lambda>i.
     bnd (lift (provenance_from_live_authority P authority)) (\<lambda>provenance.
     let ctx = \<lparr>cx_id = i, cx_service = service, cx_authority = authority, cx_identity = identity, cx_anchor = anchor,
                cx_operations = operations, cx_operation_set_digest = v_operation_set_digest (id_values identity),
                cx_items = items, cx_version = dict_get preview ''canonical_version'', cx_bindings = bindings,
                cx_snapshot = dict_get preview ''remote_snapshot'', cx_provenance = provenance\<rparr> in
     bnd (change (\<lambda>w. w\<lparr>w_contexts := (w_contexts w)(i \<mapsto> ctx)\<rparr>)) (\<lambda>_. ret ctx))))))))))))"

section \<open>Making new evidence\<close>

type_synonym kwargs = "(string \<times> pyval) list"

definition changed :: "kwargs \<Rightarrow> string \<Rightarrow> pyval \<Rightarrow> pyval" where
  "changed changes k old = (case map_of changes k of None \<Rightarrow> old | Some v \<Rightarrow> v)"

definition new_execution_state :: "prims \<Rightarrow> env \<Rightarrow> exec_context \<Rightarrow> kwargs \<Rightarrow> exec_state live io" where
  "new_execution_state P E ctx values =
     bnd (validate_execution_context P E (cx_service ctx) ctx) (\<lambda>_.
     let v = obj values in
     bnd (lift (ApplicationExecutionState P (kwarg v ''application_id'' (PStr (id_application_id (cx_identity ctx))))
                  (Inr (cx_identity ctx)) (dict_get v ''state'') (dict_get v ''next_operation_index'') (dict_get v ''owner_id'')
                  (dict_get v ''current_attempt_id'') (dict_get v ''recovery_code'')
                  (kwarg v ''operation_receipt_refs'' (PTuple [])) (kwarg v ''started_at'' (PStr []))
                  (kwarg v ''updated_at'' (PStr [])) (kwarg v ''completed_at'' PNone) (Inr (cx_anchor ctx))
                  (kwarg v ''orchestration_policy'' PNone) (PStr []))) (\<lambda>state.
     register ctx ''execution'' exec_state_payload state))"

definition continue_execution_state :: "prims \<Rightarrow> env \<Rightarrow> exec_context \<Rightarrow> exec_state \<Rightarrow> kwargs \<Rightarrow> exec_state live io" where
  "continue_execution_state P E ctx historical changes =
     bnd (validate_execution_context P E (cx_service ctx) ctx) (\<lambda>_.
     bnd (lift (exec_state_verify P historical)) (\<lambda>intact.
     bnd (refuse (\<not> intact) ''historical_execution_invalid'') (\<lambda>_.
     bnd (refuse (id_values (es_identity historical) \<noteq> id_values (cx_identity ctx) \<or>
                  es_application_id historical \<noteq> id_application_id (cx_identity ctx) \<or>
                  es_anchor historical \<noteq> cx_anchor ctx) ''credential_continuity_mismatch'') (\<lambda>_.
     bnd (refuse (\<not> fst ` set changes \<subseteq> {''state'', ''next_operation_index'', ''owner_id'', ''current_attempt_id'',
                    ''recovery_code'', ''operation_receipt_refs'', ''updated_at'', ''completed_at''})
            ''application_binding_conflict'') (\<lambda>_.
     bnd (lift (ApplicationExecutionState P (PStr (es_application_id historical)) (Inr (cx_identity ctx))
                  (changed changes ''state'' (PStr (status_name (es_state historical))))
                  (changed changes ''next_operation_index'' (PInt (int (es_next historical))))
                  (changed changes ''owner_id'' (es_owner historical))
                  (changed changes ''current_attempt_id'' (es_attempt historical))
                  (changed changes ''recovery_code'' (es_recovery historical))
                  (changed changes ''operation_receipt_refs'' (PTuple (map PStr (es_refs historical))))
                  (es_started_at historical) (changed changes ''updated_at'' (es_updated_at historical))
                  (changed changes ''completed_at'' (es_completed_at historical)) (Inr (cx_anchor ctx))
                  (if es_managed historical then PStr applier_orchestration_policy else PNone) (PStr []))) (\<lambda>state.
     register ctx ''execution'' exec_state_payload state))))))"

definition new_attempt :: "prims \<Rightarrow> env \<Rightarrow> exec_context \<Rightarrow> nat \<Rightarrow> kwargs \<Rightarrow> attempt live io" where
  "new_attempt P E ctx index values =
     bnd (validate_execution_context P E (cx_service ctx) ctx) (\<lambda>_.
     if length (cx_operations ctx) \<le> index then fail IndexError
     else
       let operation = cx_operations ctx ! index; v = obj values; app = id_application_id (cx_identity ctx) in
       bnd (lift (operation_identity P app (int index) (operation_doc operation))) (\<lambda>op_id.
       bnd (lift (request_identity P op_id)) (\<lambda>request.
       bnd (lift (OperationAttemptState P (PStr app) (PStr op_id) (PInt (int index)) (operation_doc operation)
                    (Inr (cx_provenance ctx)) (PStr (au_driver_identity (cx_authority ctx)))
                    (PStr (au_remote_authority (cx_authority ctx))) (PStr request) (dict_get v ''state'')
                    (dict_get v ''started_at'') (dict_get v ''updated_at'') (Inr (cx_identity ctx))
                    (kwarg v ''failure_code'' PNone) (PStr []))) (\<lambda>attempt.
       register ctx ''attempt'' attempt_payload attempt))))"

definition continue_attempt :: "prims \<Rightarrow> env \<Rightarrow> exec_context \<Rightarrow> attempt \<Rightarrow> kwargs \<Rightarrow> attempt live io" where
  "continue_attempt P E ctx historical changes =
     bnd (validate_execution_context P E (cx_service ctx) ctx) (\<lambda>_.
     bnd (lift (attempt_verify P historical)) (\<lambda>intact.
     bnd (refuse (\<not> intact) ''historical_attempt_invalid'') (\<lambda>_.
     bnd (refuse (id_values (at_identity historical) \<noteq> id_values (cx_identity ctx) \<or>
                  at_application_id historical \<noteq> id_application_id (cx_identity ctx) \<or>
                  length (cx_operations ctx) \<le> at_index historical \<or>
                  at_operation historical \<noteq> cx_operations ctx ! at_index historical)
            ''operation_attempt_binding_invalid'') (\<lambda>_.
     bnd (lift (operation_identity P (id_application_id (cx_identity ctx)) (int (at_index historical))
                  (operation_doc (cx_operations ctx ! at_index historical)))) (\<lambda>op_id.
     bnd (refuse (at_operation_identity historical \<noteq> op_id) ''operation_attempt_binding_invalid'') (\<lambda>_.
     bnd (lift (request_identity P (at_operation_identity historical))) (\<lambda>request.
     bnd (refuse (at_request_identity historical \<noteq> request) ''operation_attempt_binding_invalid'') (\<lambda>_.
     let old = at_provenance historical in
     bnd (lift (if pv_credential_principal_identity old \<noteq> []
                then CredentialContinuityAnchor (PStr ''PRINCIPAL'') [PStr (pv_credential_principal_identity old)]
                else CredentialContinuityAnchor (PStr ''LEGACY_INSTANCE'')
                       [PStr (pv_issuer_id old), PStr (pv_credential_instance_id old)])) (\<lambda>old_anchor.
     bnd (refuse (old_anchor \<noteq> cx_anchor ctx \<or>
                  pv_driver_identity old \<noteq> au_driver_identity (cx_authority ctx) \<or>
                  pv_remote_authority old \<noteq> au_remote_authority (cx_authority ctx))
            ''credential_continuity_mismatch'') (\<lambda>_.
     bnd (refuse (\<not> fst ` set changes \<subseteq> {''state'', ''updated_at'', ''failure_code''})
            ''operation_attempt_binding_invalid'') (\<lambda>_.
     bnd (lift (OperationAttemptState P (PStr (at_application_id historical)) (PStr (at_operation_identity historical))
                  (PInt (int (at_index historical))) (operation_doc (at_operation historical)) (Inr old)
                  (PStr (pv_driver_identity old)) (PStr (pv_remote_authority old)) (PStr (at_request_identity historical))
                  (changed changes ''state'' (PStr (status_name (at_state historical))))
                  (at_started_at historical) (changed changes ''updated_at'' (at_updated_at historical))
                  (Inr (cx_identity ctx)) (changed changes ''failure_code'' (at_failure_code historical)) (PStr []))) (\<lambda>attempt.
     register ctx ''attempt'' attempt_payload attempt))))))))))))"

text \<open>\<open>OperationReceipt.create\<close> checks the context once more than \<open>new_receipt\<close>.\<close>

definition create_operation_receipt ::
  "prims \<Rightarrow> env \<Rightarrow> exec_context \<Rightarrow> nat \<Rightarrow> pyval \<Rightarrow> pyval \<Rightarrow> pyval \<Rightarrow> pyval \<Rightarrow> operation_receipt io" where
  "create_operation_receipt P E ctx index operation remote started completed =
     bnd (validate_execution_context P E (cx_service ctx) ctx) (\<lambda>_.
     bnd (lift (single_operation operation)) (\<lambda>canonical.
     bnd (refuse (length (cx_operations ctx) \<le> index \<or> canonical \<noteq> cx_operations ctx ! index)
            ''operation_receipt_binding_invalid'') (\<lambda>_.
     let app = id_application_id (cx_identity ctx) in
     bnd (lift (operation_identity P app (int index) (operation_doc canonical))) (\<lambda>op_id.
     bnd (lift (operation_receipt_id_of P op_id)) (\<lambda>receipt_id.
     bnd (lift (request_identity P op_id)) (\<lambda>request.
     bnd (lift (OperationReceipt P (PStr receipt_id) (PStr app) (Inr (cx_identity ctx)) (PStr op_id) (PInt (int index))
                  (operation_doc canonical) (PStr request) (provenance_from_live_authority P (cx_authority ctx))
                  remote started completed (PStr []))) (\<lambda>receipt.
     lift (operation_receipt_with_digest P receipt))))))))"

definition new_receipt :: "prims \<Rightarrow> env \<Rightarrow> exec_context \<Rightarrow> nat \<Rightarrow> pyval \<Rightarrow> pyval \<Rightarrow> pyval \<Rightarrow> operation_receipt live io" where
  "new_receipt P E ctx index remote started completed =
     bnd (validate_execution_context P E (cx_service ctx) ctx) (\<lambda>_.
     if length (cx_operations ctx) \<le> index then fail IndexError
     else
       bnd (create_operation_receipt P E ctx index (operation_doc (cx_operations ctx ! index)) remote started completed) (\<lambda>receipt.
       register ctx ''operation_receipt'' operation_receipt_payload receipt))"

text \<open>\<open>ApplicationReceipt.create\<close> over live operation receipts.\<close>

fun receipt_ref_list :: "prims \<Rightarrow> string \<Rightarrow> nat \<Rightarrow> write_op list \<Rightarrow> operation_receipt list \<Rightarrow> (string \<times> pyval) list res" where
  "receipt_ref_list P app i (op # ops) (receipt # receipts) =
     rbind (operation_receipt_verify P receipt) (\<lambda>intact.
     raise_if (\<not> intact \<or> or_application_id receipt \<noteq> app \<or> or_index receipt \<noteq> int i) ''application_receipt_incomplete''
     (rbind (operation_identity P app (int i) (operation_doc op)) (\<lambda>op_id.
      raise_if (or_operation_identity receipt \<noteq> op_id) ''application_receipt_incomplete''
      (rbind (receipt_ref_list P app (Suc i) ops receipts) (\<lambda>refs.
       Inr ((or_receipt_id receipt, or_digest receipt) # refs))))))"
| "receipt_ref_list P app i _ _ = Inr []"

definition refs_value :: "(string \<times> pyval) list \<Rightarrow> pyval" where
  "refs_value refs = PTuple (map (\<lambda>(i, d). obj [(''operation_receipt_id'', PStr i), (''operation_receipt_digest'', d)]) refs)"

definition seal_application_receipt ::
  "prims \<Rightarrow> logical_identity \<Rightarrow> string \<Rightarrow> (string \<times> pyval) list \<Rightarrow> pyval \<Rightarrow> pyval \<Rightarrow> application_receipt res" where
  "seal_application_receipt P identity operation_set refs started completed =
     rbind (application_receipt_id_of P (id_application_id identity)) (\<lambda>receipt_id.
     rbind (ApplicationReceipt P (PStr receipt_id) (PStr (id_application_id identity)) (Inr identity)
              (PStr operation_set) (refs_value refs) (PStr ''Applied'') started completed (PStr [])) (\<lambda>receipt.
     application_receipt_with_digest P receipt))"

definition create_application_receipt ::
  "prims \<Rightarrow> exec_context \<Rightarrow> pyval list \<Rightarrow> operation_receipt live list \<Rightarrow> pyval \<Rightarrow> pyval \<Rightarrow> application_receipt io" where
  "create_application_receipt P ctx expected receipts started completed =
     (case receipts of
        [] \<Rightarrow> fail (ValueError ''application_finalization_invalid'')
      | first # _ \<Rightarrow>
          bnd (refuse (lv_context first = None \<or> \<not> list_all (\<lambda>r. lv_context r = lv_context first) receipts)
                 ''runtime_authority_required'') (\<lambda>_.
          bnd (view (\<lambda>w. w_contexts w (the (lv_context first)))) (\<lambda>live.
          bnd (lift (normalize_write_operations (PList expected))) (\<lambda>operations.
          bnd (refuse (map_option cx_operations live \<noteq> Some operations) ''application_finalization_invalid'') (\<lambda>_.
          bnd (refuse (cx_operation_set_digest ctx \<noteq> v_operation_set_digest (id_values (cx_identity ctx)))
                 ''application_receipt_binding_invalid'') (\<lambda>_.
          bnd (refuse (length operations \<noteq> length receipts) ''application_receipt_incomplete'') (\<lambda>_.
          bnd (lift (receipt_ref_list P (id_application_id (cx_identity ctx)) 0 operations (map lv_body receipts))) (\<lambda>refs.
          lift (seal_application_receipt P (cx_identity ctx) (cx_operation_set_digest ctx) refs started completed)))))))))"

definition finalize_application_receipt ::
  "prims \<Rightarrow> env \<Rightarrow> exec_context \<Rightarrow> operation_receipt live list \<Rightarrow> pyval \<Rightarrow> pyval \<Rightarrow> application_receipt live io" where
  "finalize_application_receipt P E ctx receipts started completed =
     bnd (validate_execution_context P E (cx_service ctx) ctx) (\<lambda>_.
     bnd (create_application_receipt P ctx (expected_operations ctx) receipts started completed) (\<lambda>receipt.
     register ctx ''application_receipt'' application_receipt_payload receipt))"

definition new_application_receipt_from_refs ::
  "prims \<Rightarrow> env \<Rightarrow> exec_context \<Rightarrow> (string \<times> pyval) list \<Rightarrow> pyval \<Rightarrow> pyval \<Rightarrow> application_receipt live io" where
  "new_application_receipt_from_refs P E ctx refs started completed =
     bnd (validate_execution_context P E (cx_service ctx) ctx) (\<lambda>_.
     bnd (lift (seal_application_receipt P (cx_identity ctx) (cx_operation_set_digest ctx) refs started completed)) (\<lambda>receipt.
     register ctx ''application_receipt'' application_receipt_payload receipt))"

text \<open>\<open>_with_live_digest\<close> on a state and on an attempt.\<close>

definition with_live_digest_state :: "prims \<Rightarrow> exec_context \<Rightarrow> exec_state live \<Rightarrow> exec_state live io" where
  "with_live_digest_state P ctx artifact =
     bnd (lift (exec_state_with_digest P (lv_body artifact))) (\<lambda>candidate.
     register ctx ''execution'' exec_state_payload candidate)"

definition with_live_digest_attempt :: "prims \<Rightarrow> exec_context \<Rightarrow> attempt live \<Rightarrow> attempt live io" where
  "with_live_digest_attempt P ctx artifact =
     bnd (lift (attempt_with_digest P (lv_body artifact))) (\<lambda>candidate.
     register ctx ''attempt'' attempt_payload candidate)"

section \<open>What the context operations leave alone\<close>

text \<open>
  The operations of a context never write the database or reach the driver, and the registry of
  contexts only grows when a context is created.
\<close>

definition quiet :: "world \<Rightarrow> world \<Rightarrow> bool" where
  "quiet w w' \<longleftrightarrow> w_db w' = w_db w \<and> w_sent w' = w_sent w \<and> w_commits w' = w_commits w \<and> w_contexts w' = w_contexts w \<and>
     w_tick w \<le> w_tick w'"

interpretation quiet: frame quiet
  by unfold_locales (simp_all add: quiet_def)

lemma quiet_ask: "moves quiet (ask f)"
  by (simp add: moves_def ask_def quiet_def)

lemma quiet_fresh: "moves quiet fresh_object"
  by (simp add: moves_def fresh_object_def quiet_def)

lemma quiet_validate: "moves quiet (validate_execution_context P E sv ctx)"
  unfolding validate_execution_context_def by (intro quiet.moves_rules quiet_ask)

lemma quiet_validate_live: "moves quiet (validate_live_artifact P E sv a payload ctx kind)"
  unfolding validate_live_artifact_def by (intro quiet.moves_rules quiet_validate)

lemma quiet_register: "moves quiet (register ctx kind payload body)"
  unfolding register_def
  by (intro quiet.moves_rules quiet_fresh quiet.moves_change) (simp add: quiet_def)

lemma quiet_new_execution_state: "moves quiet (new_execution_state P E ctx values)"
  unfolding new_execution_state_def Let_def by (intro quiet.moves_rules quiet_validate quiet_register)

lemma quiet_continue_execution_state: "moves quiet (continue_execution_state P E ctx h changes)"
  unfolding continue_execution_state_def by (intro quiet.moves_rules quiet_validate quiet_register)

lemma quiet_new_attempt: "moves quiet (new_attempt P E ctx i values)"
  unfolding new_attempt_def Let_def by (intro quiet.moves_rules quiet_validate quiet_register)

lemma quiet_continue_attempt: "moves quiet (continue_attempt P E ctx h changes)"
  unfolding continue_attempt_def Let_def by (intro quiet.moves_rules quiet_validate quiet_register)

lemma quiet_create_operation_receipt: "moves quiet (create_operation_receipt P E ctx i op remote s c)"
  unfolding create_operation_receipt_def Let_def by (intro quiet.moves_rules quiet_validate)

lemma quiet_new_receipt: "moves quiet (new_receipt P E ctx i remote s c)"
  unfolding new_receipt_def
  by (intro quiet.moves_rules quiet_validate quiet_register quiet_create_operation_receipt)

lemma quiet_new_application_receipt: "moves quiet (new_application_receipt_from_refs P E ctx refs s c)"
  unfolding new_application_receipt_from_refs_def by (intro quiet.moves_rules quiet_validate quiet_register)

lemma quiet_create_application_receipt: "moves quiet (create_application_receipt P ctx expected receipts s c)"
  unfolding create_application_receipt_def by (cases receipts) (auto intro!: quiet.moves_rules)

lemma quiet_finalize_application_receipt: "moves quiet (finalize_application_receipt P E ctx receipts s c)"
  unfolding finalize_application_receipt_def
  by (intro quiet.moves_rules quiet_validate quiet_register quiet_create_application_receipt)

lemma quiet_with_live_digest: "moves quiet (with_live_digest_state P ctx s)" "moves quiet (with_live_digest_attempt P ctx a)"
  unfolding with_live_digest_state_def with_live_digest_attempt_def by (intro quiet.moves_rules quiet_register)+

lemmas quiet_rules = quiet_ask quiet_fresh quiet_validate quiet_validate_live quiet_register quiet_new_execution_state
  quiet_continue_execution_state quiet_new_attempt quiet_continue_attempt quiet_new_receipt quiet_new_application_receipt
  quiet_with_live_digest

section \<open>Successful runs\<close>

lemma commit_simps [simp]:
  "w_db (commit d w) = w_db w" "w_sent (commit d w) = w_sent w" "w_contexts (commit d w) = w_contexts w"
  "w_artifacts (commit d w) = w_artifacts w" "w_tick (commit d w) = w_tick w" "w_next (commit d w) = w_next w"
  "w_commits (commit d w) = w_commits w @ [(d, w_db w)]"
  by (simp_all add: commit_def)

lemma ask_run [run_simps]: "ask f w = (Inr x, w') \<longleftrightarrow> x = f (w_tick w) \<and> w' = w\<lparr>w_tick := Suc (w_tick w)\<rparr>"
  by (auto simp: ask_def)

lemma register_run [run_simps]:
  "register ctx kind payload body w = (Inr l, w') \<longleftrightarrow>
     l = \<lparr>lv_body = body, lv_object = w_next w, lv_context = Some (cx_id ctx)\<rparr> \<and>
     w' = w\<lparr>w_next := Suc (w_next w), w_artifacts := (w_artifacts w)(w_next w \<mapsto> (kind, cx_id ctx, payload body))\<rparr>"
  by (auto simp: register_def fresh_object_def bnd_def ret_def change_def)

definition context_ok :: "prims \<Rightarrow> exec_context \<Rightarrow> bool" where
  "context_ok P ctx \<longleftrightarrow>
     identity_from_authority P (cx_authority ctx) = Inr (cx_identity ctx) \<and>
     anchor_from_authority (cx_authority ctx) = Inr (cx_anchor ctx) \<and> list_all wf_op (cx_operations ctx) \<and>
     provenance_from_live_authority P (cx_authority ctx) = Inr (cx_provenance ctx) \<and>
     cx_operation_set_digest ctx = v_operation_set_digest (id_values (cx_identity ctx))"

lemma context_ok_identity: "context_ok P ctx \<Longrightarrow> identity_ok P (cx_identity ctx)"
  by (auto simp: context_ok_def dest: identity_from_authority_ok)

lemma context_ok_anchor: "context_ok P ctx \<Longrightarrow> anchor_ok (cx_anchor ctx)"
  by (auto simp: context_ok_def anchor_from_authority_Inr anchor_ok_def split: if_splits)

lemma context_ok_provenance: "context_ok P ctx \<Longrightarrow> provenance_ok (cx_provenance ctx)"
  by (auto simp: context_ok_def provenance_from_live_authority_def rbind_Inr dest: provenance_from_source_ok)

lemma validate_execution_context_run:
  assumes "validate_execution_context P E sv ctx w = (Inr u, w')"
  shows "w_contexts w (cx_id ctx) = Some ctx" "cx_service ctx = sv" "env_authority E (w_tick w) = AuthorityCurrent"
    "w' = w\<lparr>w_tick := Suc (w_tick w)\<rparr>"
  using assms unfolding validate_execution_context_def
  by (cases "env_authority E (w_tick w)"; auto simp: run_simps)+

text \<open>
  A registered, consistent context passes the check exactly while its authority is current: the
  recomputations of the check cannot fail for it.
\<close>

lemma validate_execution_context_current:
  assumes "context_ok P ctx" "w_contexts w (cx_id ctx) = Some ctx"
  shows "validate_execution_context P E (cx_service ctx) ctx w =
    (case env_authority E (w_tick w) of
       AuthorityCurrent \<Rightarrow> Inr ()
     | AuthorityRejected \<Rightarrow> Inl (ValueError ''runtime_authority_invalid'')
     | AuthorityReplaced \<Rightarrow> Inl (ValueError ''runtime_context_owner_mismatch''), w\<lparr>w_tick := Suc (w_tick w)\<rparr>)"
proof -
  have "normalize_write_operations (PTuple (map operation_doc (cx_operations ctx))) = Inr (cx_operations ctx)"
    using assms(1) normalize_write_operations_docs [of "cx_operations ctx"]
    by (simp add: context_ok_def normalize_write_operations_def)
  then show ?thesis
    using assms unfolding validate_execution_context_def context_ok_def
    by (simp add: ask_def bnd_exec [of "\<lambda>w. _ w"] split: authority_lookup.split)
qed

lemma validate_live_artifact_run:
  assumes "validate_live_artifact P E sv a payload ctx kind w = (Inr u, w')"
  shows "w_artifacts w (lv_object a) = Some (kind, cx_id ctx, payload (lv_body a))"
    "lv_context a = Some (cx_id ctx)" "w_contexts w (cx_id ctx) = Some ctx"
    "env_authority E (w_tick w) = AuthorityCurrent"
proof -
  obtain w1 where v: "validate_execution_context P E sv ctx w = (Inr (), w1)"
    and r: "w_artifacts w1 (lv_object a) = Some (kind, cx_id ctx, payload (lv_body a))" "lv_context a = Some (cx_id ctx)"
    using assms unfolding validate_live_artifact_def bnd_run view_run refuse_run by auto
  note * = validate_execution_context_run [OF v]
  show "w_artifacts w (lv_object a) = Some (kind, cx_id ctx, payload (lv_body a))"
    "lv_context a = Some (cx_id ctx)" "w_contexts w (cx_id ctx) = Some ctx"
    "env_authority E (w_tick w) = AuthorityCurrent"
    using * r by simp_all
qed

lemma new_execution_state_run:
  assumes "new_execution_state P E ctx values w = (Inr l, w')" and "''application_id'' \<notin> fst ` set values"
  shows "quiet w w'" "lv_context l = Some (cx_id ctx)" "es_identity (lv_body l) = cx_identity ctx"
    "es_anchor (lv_body l) = cx_anchor ctx" "es_application_id (lv_body l) = id_application_id (cx_identity ctx)"
    "PStr (status_name (es_state (lv_body l))) = dict_get (obj values) ''state''"
    "PInt (int (es_next (lv_body l))) = dict_get (obj values) ''next_operation_index''"
    "es_owner (lv_body l) = dict_get (obj values) ''owner_id''"
    "es_attempt (lv_body l) = dict_get (obj values) ''current_attempt_id''"
    "es_recovery (lv_body l) = dict_get (obj values) ''recovery_code''"
    "kwarg (obj values) ''orchestration_policy'' PNone =
       (if es_managed (lv_body l) then PStr applier_orchestration_policy else PNone)"
    "kwarg (obj values) ''operation_receipt_refs'' (PTuple []) \<in>
       {PList (map PStr (es_refs (lv_body l))), PTuple (map PStr (es_refs (lv_body l)))}"
    "es_completed_at (lv_body l) = kwarg (obj values) ''completed_at'' PNone"
    "es_started_at (lv_body l) = kwarg (obj values) ''started_at'' (PStr [])"
    "es_updated_at (lv_body l) = kwarg (obj values) ''updated_at'' (PStr [])"
proof -
  show "quiet w w'" using quiet_new_execution_state assms(1) moves_run by metis
  have "map_of values ''application_id'' = None"
    using assms(2) by (simp add: map_of_eq_None_iff)
  then have app: "kwarg (obj values) ''application_id'' d = d" for d by simp
  obtain w1 st where st: "ApplicationExecutionState P (PStr (id_application_id (cx_identity ctx)))
       (Inr (cx_identity ctx)) (dict_get (obj values) ''state'') (dict_get (obj values) ''next_operation_index'')
       (dict_get (obj values) ''owner_id'') (dict_get (obj values) ''current_attempt_id'')
       (dict_get (obj values) ''recovery_code'') (kwarg (obj values) ''operation_receipt_refs'' (PTuple []))
       (kwarg (obj values) ''started_at'' (PStr [])) (kwarg (obj values) ''updated_at'' (PStr []))
       (kwarg (obj values) ''completed_at'' PNone) (Inr (cx_anchor ctx))
       (kwarg (obj values) ''orchestration_policy'' PNone) (PStr []) = Inr st"
    "register ctx ''execution'' exec_state_payload st w1 = (Inr l, w')"
    using assms(1) unfolding new_execution_state_def Let_def bnd_run lift_run app by blast
  then have l: "lv_body l = st" "lv_context l = Some (cx_id ctx)" by (simp_all add: register_run)
  note * = ApplicationExecutionState_Inr [OF st(1)]
  show "lv_context l = Some (cx_id ctx)" by (rule l)
  show "es_identity (lv_body l) = cx_identity ctx" "es_anchor (lv_body l) = cx_anchor ctx"
    "es_application_id (lv_body l) = id_application_id (cx_identity ctx)"
    using *(1,2,3) l by simp_all
  show "PStr (status_name (es_state (lv_body l))) = dict_get (obj values) ''state''"
    "PInt (int (es_next (lv_body l))) = dict_get (obj values) ''next_operation_index''"
    "es_owner (lv_body l) = dict_get (obj values) ''owner_id''"
    "es_attempt (lv_body l) = dict_get (obj values) ''current_attempt_id''"
    "es_recovery (lv_body l) = dict_get (obj values) ''recovery_code''"
    "kwarg (obj values) ''orchestration_policy'' PNone =
       (if es_managed (lv_body l) then PStr applier_orchestration_policy else PNone)"
    "es_completed_at (lv_body l) = kwarg (obj values) ''completed_at'' PNone"
    "es_started_at (lv_body l) = kwarg (obj values) ''started_at'' (PStr [])"
    "es_updated_at (lv_body l) = kwarg (obj values) ''updated_at'' (PStr [])"
    "kwarg (obj values) ''operation_receipt_refs'' (PTuple []) \<in>
       {PList (map PStr (es_refs (lv_body l))), PTuple (map PStr (es_refs (lv_body l)))}"
    using *(5-8,11-16) l by (simp_all del: dict_get_obj kwarg_obj)
qed

lemma continue_execution_state_run:
  assumes "continue_execution_state P E ctx h changes w = (Inr l, w')"
  shows "quiet w w'" "lv_context l = Some (cx_id ctx)" "w_contexts w (cx_id ctx) = Some ctx"
    "exec_state_verify P h = Inr True" "id_values (es_identity h) = id_values (cx_identity ctx)"
    "es_application_id h = id_application_id (cx_identity ctx)" "es_anchor h = cx_anchor ctx"
    "es_identity (lv_body l) = cx_identity ctx" "es_anchor (lv_body l) = cx_anchor ctx"
    "es_application_id (lv_body l) = id_application_id (cx_identity ctx)" "es_managed (lv_body l) = es_managed h"
    "es_started_at (lv_body l) = es_started_at h" "es_digest (lv_body l) = PStr []"
    "PStr (status_name (es_state (lv_body l))) = changed changes ''state'' (PStr (status_name (es_state h)))"
    "PInt (int (es_next (lv_body l))) = changed changes ''next_operation_index'' (PInt (int (es_next h)))"
    "es_owner (lv_body l) = changed changes ''owner_id'' (es_owner h)"
    "es_attempt (lv_body l) = changed changes ''current_attempt_id'' (es_attempt h)"
    "es_recovery (lv_body l) = changed changes ''recovery_code'' (es_recovery h)"
    "changed changes ''operation_receipt_refs'' (PTuple (map PStr (es_refs h))) \<in>
       {PList (map PStr (es_refs (lv_body l))), PTuple (map PStr (es_refs (lv_body l)))}"
    "es_updated_at (lv_body l) = changed changes ''updated_at'' (es_updated_at h)"
    "es_completed_at (lv_body l) = changed changes ''completed_at'' (es_completed_at h)"
    "context_ok P ctx \<Longrightarrow> exec_state_ok P (lv_body l)"
proof -
  show "quiet w w'" using quiet_continue_execution_state assms(1) moves_run by metis
  obtain w1 w2 st where run: "validate_execution_context P E (cx_service ctx) ctx w = (Inr (), w1)"
    "exec_state_verify P h = Inr True" "id_values (es_identity h) = id_values (cx_identity ctx)"
    "es_application_id h = id_application_id (cx_identity ctx)" "es_anchor h = cx_anchor ctx"
    and st: "ApplicationExecutionState P (PStr (es_application_id h)) (Inr (cx_identity ctx))
        (changed changes ''state'' (PStr (status_name (es_state h))))
        (changed changes ''next_operation_index'' (PInt (int (es_next h))))
        (changed changes ''owner_id'' (es_owner h)) (changed changes ''current_attempt_id'' (es_attempt h))
        (changed changes ''recovery_code'' (es_recovery h))
        (changed changes ''operation_receipt_refs'' (PTuple (map PStr (es_refs h))))
        (es_started_at h) (changed changes ''updated_at'' (es_updated_at h))
        (changed changes ''completed_at'' (es_completed_at h)) (Inr (cx_anchor ctx))
        (if es_managed h then PStr applier_orchestration_policy else PNone) (PStr []) = Inr st"
    and reg: "register ctx ''execution'' exec_state_payload st w2 = (Inr l, w')"
    using assms unfolding continue_execution_state_def bnd_run lift_run refuse_run by auto
  then have l: "lv_body l = st" "lv_context l = Some (cx_id ctx)" by (simp_all add: register_run)
  note * = ApplicationExecutionState_Inr [OF st]
  show "lv_context l = Some (cx_id ctx)" by (rule l)
  show "w_contexts w (cx_id ctx) = Some ctx" using validate_execution_context_run [OF run(1)] by blast
  show "exec_state_verify P h = Inr True" "id_values (es_identity h) = id_values (cx_identity ctx)"
    "es_application_id h = id_application_id (cx_identity ctx)" "es_anchor h = cx_anchor ctx"
    by (rule run)+
  show "es_identity (lv_body l) = cx_identity ctx" "es_anchor (lv_body l) = cx_anchor ctx"
    "es_application_id (lv_body l) = id_application_id (cx_identity ctx)"
    "es_started_at (lv_body l) = es_started_at h" "es_digest (lv_body l) = PStr []"
    using * l run(4) by simp_all
  show "es_managed (lv_body l) = es_managed h" using *(7) l by (simp split: if_splits)
  show "PStr (status_name (es_state (lv_body l))) = changed changes ''state'' (PStr (status_name (es_state h)))"
    "PInt (int (es_next (lv_body l))) = changed changes ''next_operation_index'' (PInt (int (es_next h)))"
    "es_owner (lv_body l) = changed changes ''owner_id'' (es_owner h)"
    "es_attempt (lv_body l) = changed changes ''current_attempt_id'' (es_attempt h)"
    "es_recovery (lv_body l) = changed changes ''recovery_code'' (es_recovery h)"
    "changed changes ''operation_receipt_refs'' (PTuple (map PStr (es_refs h))) \<in>
       {PList (map PStr (es_refs (lv_body l))), PTuple (map PStr (es_refs (lv_body l)))}"
    "es_updated_at (lv_body l) = changed changes ''updated_at'' (es_updated_at h)"
    "es_completed_at (lv_body l) = changed changes ''completed_at'' (es_completed_at h)"
    using * l by simp_all
  show "context_ok P ctx \<Longrightarrow> exec_state_ok P (lv_body l)"
    using ApplicationExecutionState_ok [OF st] l context_ok_identity context_ok_anchor by blast
qed

lemma new_attempt_run:
  assumes "new_attempt P E ctx i values w = (Inr l, w')"
  shows "quiet w w'" "lv_context l = Some (cx_id ctx)" "w_contexts w (cx_id ctx) = Some ctx"
    "i < length (cx_operations ctx)" "at_index (lv_body l) = i" "at_identity (lv_body l) = cx_identity ctx"
    "at_application_id (lv_body l) = id_application_id (cx_identity ctx)"
    "operation_identity P (id_application_id (cx_identity ctx)) (int i) (operation_doc (cx_operations ctx ! i)) =
       Inr (at_operation_identity (lv_body l))"
    "at_provenance (lv_body l) = cx_provenance ctx"
    "PStr (status_name (at_state (lv_body l))) = dict_get (obj values) ''state''"
    "at_started_at (lv_body l) = dict_get (obj values) ''started_at''"
    "at_updated_at (lv_body l) = dict_get (obj values) ''updated_at''"
    "at_failure_code (lv_body l) = kwarg (obj values) ''failure_code'' PNone" "at_digest (lv_body l) = PStr []"
    "context_ok P ctx \<Longrightarrow> attempt_ok P (lv_body l) \<and> at_operation (lv_body l) = cx_operations ctx ! i"
proof -
  show "quiet w w'" using quiet_new_attempt assms(1) moves_run by metis
  have i: "i < length (cx_operations ctx)"
    using assms unfolding new_attempt_def bnd_run by (auto simp: run_simps split: if_splits)
  then obtain w1 w2 op_id request a where run: "validate_execution_context P E (cx_service ctx) ctx w = (Inr (), w1)"
    "operation_identity P (id_application_id (cx_identity ctx)) (int i) (operation_doc (cx_operations ctx ! i)) = Inr op_id"
    and a: "OperationAttemptState P (PStr (id_application_id (cx_identity ctx))) (PStr op_id) (PInt (int i))
        (operation_doc (cx_operations ctx ! i)) (Inr (cx_provenance ctx)) (PStr (au_driver_identity (cx_authority ctx)))
        (PStr (au_remote_authority (cx_authority ctx))) (PStr request) (dict_get (obj values) ''state'')
        (dict_get (obj values) ''started_at'') (dict_get (obj values) ''updated_at'') (Inr (cx_identity ctx))
        (kwarg (obj values) ''failure_code'' PNone) (PStr []) = Inr a"
    and reg: "register ctx ''attempt'' attempt_payload a w2 = (Inr l, w')"
    using assms unfolding new_attempt_def Let_def bnd_run
    by (auto simp: bnd_run lift_run simp del: dict_get_obj kwarg_obj)
  then have l: "lv_body l = a" "lv_context l = Some (cx_id ctx)" by (simp_all add: register_run)
  note * = OperationAttemptState_Inr [OF a]
  show "lv_context l = Some (cx_id ctx)" by (rule l)
  show "i < length (cx_operations ctx)" by (rule i)
  show "w_contexts w (cx_id ctx) = Some ctx" using validate_execution_context_run [OF run(1)] by blast
  show "at_index (lv_body l) = i" "at_identity (lv_body l) = cx_identity ctx"
    "at_application_id (lv_body l) = id_application_id (cx_identity ctx)"
    "operation_identity P (id_application_id (cx_identity ctx)) (int i) (operation_doc (cx_operations ctx ! i)) =
       Inr (at_operation_identity (lv_body l))"
    "at_provenance (lv_body l) = cx_provenance ctx"
    "PStr (status_name (at_state (lv_body l))) = dict_get (obj values) ''state''"
    "at_started_at (lv_body l) = dict_get (obj values) ''started_at''"
    "at_updated_at (lv_body l) = dict_get (obj values) ''updated_at''"
    "at_failure_code (lv_body l) = kwarg (obj values) ''failure_code'' PNone" "at_digest (lv_body l) = PStr []"
    using * l run(2) by (simp_all del: dict_get_obj kwarg_obj)
  assume ok: "context_ok P ctx"
  then have "wf_op (cx_operations ctx ! i)" using i by (simp add: context_ok_def list_all_length)
  then have "at_operation a = cx_operations ctx ! i" using *(3) by (simp add: single_operation_doc)
  then show "attempt_ok P (lv_body l) \<and> at_operation (lv_body l) = cx_operations ctx ! i"
    using OperationAttemptState_ok [OF a] ok l context_ok_identity context_ok_provenance by auto
qed

lemma continue_attempt_run:
  assumes "continue_attempt P E ctx h changes w = (Inr l, w')"
  shows "quiet w w'" "lv_context l = Some (cx_id ctx)" "w_contexts w (cx_id ctx) = Some ctx"
    "attempt_verify P h = Inr True" "at_application_id h = id_application_id (cx_identity ctx)"
    "at_index h < length (cx_operations ctx)" "at_operation h = cx_operations ctx ! at_index h"
    "at_application_id (lv_body l) = at_application_id h" "at_operation_identity (lv_body l) = at_operation_identity h"
    "at_index (lv_body l) = at_index h" "at_provenance (lv_body l) = at_provenance h"
    "at_identity (lv_body l) = cx_identity ctx" "at_started_at (lv_body l) = at_started_at h"
    "PStr (status_name (at_state (lv_body l))) = changed changes ''state'' (PStr (status_name (at_state h)))"
    "at_updated_at (lv_body l) = changed changes ''updated_at'' (at_updated_at h)"
    "at_failure_code (lv_body l) = changed changes ''failure_code'' (at_failure_code h)"
    "attempt_ok P h \<Longrightarrow> context_ok P ctx \<Longrightarrow> attempt_ok P (lv_body l) \<and> at_operation (lv_body l) = at_operation h"
proof -
  show "quiet w w'" using quiet_continue_attempt assms(1) moves_run by metis
  obtain w1 w2 a where run: "validate_execution_context P E (cx_service ctx) ctx w = (Inr (), w1)"
    "attempt_verify P h = Inr True" "at_application_id h = id_application_id (cx_identity ctx)"
    "at_index h < length (cx_operations ctx)" "at_operation h = cx_operations ctx ! at_index h"
    and a: "OperationAttemptState P (PStr (at_application_id h)) (PStr (at_operation_identity h))
        (PInt (int (at_index h))) (operation_doc (at_operation h)) (Inr (at_provenance h))
        (PStr (pv_driver_identity (at_provenance h))) (PStr (pv_remote_authority (at_provenance h)))
        (PStr (at_request_identity h)) (changed changes ''state'' (PStr (status_name (at_state h))))
        (at_started_at h) (changed changes ''updated_at'' (at_updated_at h)) (Inr (cx_identity ctx))
        (changed changes ''failure_code'' (at_failure_code h)) (PStr []) = Inr a"
    and reg: "register ctx ''attempt'' attempt_payload a w2 = (Inr l, w')"
    using assms unfolding continue_attempt_def Let_def bnd_run lift_run refuse_run by auto
  then have l: "lv_body l = a" "lv_context l = Some (cx_id ctx)" by (simp_all add: register_run)
  note * = OperationAttemptState_Inr [OF a]
  show "lv_context l = Some (cx_id ctx)" by (rule l)
  show "w_contexts w (cx_id ctx) = Some ctx" using validate_execution_context_run [OF run(1)] by blast
  show "attempt_verify P h = Inr True" "at_application_id h = id_application_id (cx_identity ctx)"
    "at_index h < length (cx_operations ctx)" "at_operation h = cx_operations ctx ! at_index h"
    by (rule run)+
  show "at_application_id (lv_body l) = at_application_id h" "at_operation_identity (lv_body l) = at_operation_identity h"
    "at_index (lv_body l) = at_index h" "at_provenance (lv_body l) = at_provenance h"
    "at_identity (lv_body l) = cx_identity ctx" "at_started_at (lv_body l) = at_started_at h"
    "PStr (status_name (at_state (lv_body l))) = changed changes ''state'' (PStr (status_name (at_state h)))"
    "at_updated_at (lv_body l) = changed changes ''updated_at'' (at_updated_at h)"
    "at_failure_code (lv_body l) = changed changes ''failure_code'' (at_failure_code h)"
    using * l by simp_all
  assume ok: "attempt_ok P h" "context_ok P ctx"
  then have "at_operation a = at_operation h" using *(3) by (simp add: single_operation_doc attempt_ok_def)
  then show "attempt_ok P (lv_body l) \<and> at_operation (lv_body l) = at_operation h"
    using OperationAttemptState_ok [OF a] ok l context_ok_identity by (auto simp: attempt_ok_def)
qed

lemma provenance_from_live_authority_ok: "provenance_from_live_authority P a = Inr p \<Longrightarrow> provenance_ok p"
  by (auto simp: provenance_from_live_authority_def rbind_Inr dest: provenance_from_source_ok)

lemma create_operation_receipt_run:
  assumes "create_operation_receipt P E ctx i op remote s c w = (Inr r, w')"
  shows "or_index r = int i" "or_application_id r = id_application_id (cx_identity ctx)" "i < length (cx_operations ctx)"
    "or_identity r = cx_identity ctx" "operation_receipt_verify P r = Inr True"
    "PStr (or_started_at r) = s" "PStr (or_completed_at r) = c" "remote_result P remote = Inr (or_result r)"
    "context_ok P ctx \<Longrightarrow> operation_receipt_ok P r \<and> or_operation r = cx_operations ctx ! i"
proof -
  obtain canonical op_id receipt_id request r0 where i: "i < length (cx_operations ctx)" "canonical = cx_operations ctx ! i"
    "single_operation op = Inr canonical"
    and r0: "OperationReceipt P (PStr receipt_id) (PStr (id_application_id (cx_identity ctx))) (Inr (cx_identity ctx))
        (PStr op_id) (PInt (int i)) (operation_doc canonical) (PStr request)
        (provenance_from_live_authority P (cx_authority ctx)) remote s c (PStr []) = Inr r0"
    and r: "operation_receipt_with_digest P r0 = Inr r"
    using assms unfolding create_operation_receipt_def Let_def bnd_run lift_run refuse_run by auto
  note * = OperationReceipt_Inr [OF r0]
  obtain d where d: "r = r0\<lparr>or_digest := PStr d\<rparr>" using r by (auto simp: operation_receipt_with_digest_Inr)
  show "or_index r = int i" "or_application_id r = id_application_id (cx_identity ctx)"
    "or_identity r = cx_identity ctx" "PStr (or_started_at r) = s" "PStr (or_completed_at r) = c"
    "remote_result P remote = Inr (or_result r)"
    using * d by simp_all
  show "i < length (cx_operations ctx)" by (rule i)
  show "operation_receipt_verify P r = Inr True" using r by (rule operation_receipt_with_digest_verify)
  assume ok: "context_ok P ctx"
  have "operation_receipt_ok P r0"
    using OperationReceipt_ok [OF r0] ok context_ok_identity provenance_from_live_authority_ok by blast
  moreover have "or_operation r0 = canonical"
    using *(1) single_operation_wf [OF i(3)] by (auto simp: single_operation_doc)
  ultimately show "operation_receipt_ok P r \<and> or_operation r = cx_operations ctx ! i"
    using d i(2) by simp
qed

lemma new_receipt_run:
  assumes "new_receipt P E ctx i remote s c w = (Inr l, w')"
  shows "quiet w w'" "lv_context l = Some (cx_id ctx)" "or_index (lv_body l) = int i"
    "or_application_id (lv_body l) = id_application_id (cx_identity ctx)" "i < length (cx_operations ctx)"
    "or_identity (lv_body l) = cx_identity ctx" "operation_receipt_verify P (lv_body l) = Inr True"
    "PStr (or_started_at (lv_body l)) = s" "PStr (or_completed_at (lv_body l)) = c"
    "remote_result P remote = Inr (or_result (lv_body l))"
    "context_ok P ctx \<Longrightarrow> operation_receipt_ok P (lv_body l) \<and> or_operation (lv_body l) = cx_operations ctx ! i"
proof -
  show "quiet w w'" using quiet_new_receipt assms(1) moves_run by metis
  obtain w1 w2 r where r: "create_operation_receipt P E ctx i (operation_doc (cx_operations ctx ! i)) remote s c w1 = (Inr r, w2)"
    and "register ctx ''operation_receipt'' operation_receipt_payload r w2 = (Inr l, w')"
    using assms unfolding new_receipt_def bnd_run by (auto simp: bnd_run fail_run split: if_splits)
  then have l: "lv_body l = r" "lv_context l = Some (cx_id ctx)" by (simp_all add: register_run)
  show "lv_context l = Some (cx_id ctx)" by (rule l)
  show "or_index (lv_body l) = int i"
    "or_application_id (lv_body l) = id_application_id (cx_identity ctx)" "i < length (cx_operations ctx)"
    "or_identity (lv_body l) = cx_identity ctx" "operation_receipt_verify P (lv_body l) = Inr True"
    "PStr (or_started_at (lv_body l)) = s" "PStr (or_completed_at (lv_body l)) = c"
    "remote_result P remote = Inr (or_result (lv_body l))"
    "context_ok P ctx \<Longrightarrow> operation_receipt_ok P (lv_body l) \<and> or_operation (lv_body l) = cx_operations ctx ! i"
    unfolding l(1) by (rule create_operation_receipt_run [OF r]; assumption?)+
qed

lemma seal_application_receipt_run:
  assumes "seal_application_receipt P ident opset refs s c = Inr r" and "identity_ok P ident"
  shows "application_receipt_ok P r" "application_receipt_verify P r = Inr True"
    "ar_application_id r = id_application_id ident" "ar_identity r = ident" "ar_operation_set_digest r = opset"
    "map (\<lambda>(i, d). (i, PStr d)) (ar_refs r) = refs"
proof -
  obtain receipt_id r0 where r0: "ApplicationReceipt P (PStr receipt_id) (PStr (id_application_id ident)) (Inr ident)
      (PStr opset) (refs_value refs) (PStr ''Applied'') s c (PStr []) = Inr r0"
    and r: "application_receipt_with_digest P r0 = Inr r"
    using assms(1) by (auto simp: seal_application_receipt_def rbind_Inr)
  note * = ApplicationReceipt_Inr [OF r0]
  obtain d where d: "r = r0\<lparr>ar_digest := PStr d\<rparr>" using r by (auto simp: application_receipt_with_digest_Inr)
  have "application_receipt_ok P r0" using ApplicationReceipt_ok [OF r0] assms(2) by blast
  then show "application_receipt_ok P r" using d by simp
  show "application_receipt_verify P r = Inr True" using r by (rule application_receipt_with_digest_verify)
  show "ar_application_id r = id_application_id ident" "ar_identity r = ident" "ar_operation_set_digest r = opset"
    using * d by auto
  have "receipt_refs (refs_value refs) = Inr (map (\<lambda>(i, d). (PStr i, d)) refs)"
  proof -
    have "map receipt_ref (map (\<lambda>(i, d). obj [(''operation_receipt_id'', PStr i), (''operation_receipt_digest'', d)]) refs) =
        map (\<lambda>p. Inr (PStr (fst p), snd p)) refs"
      by (auto simp: receipt_ref_Inr)
    then show ?thesis by (simp only: receipt_refs_def refs_value_def iterate.simps option.case sequence_map_Inr)
        (simp add: case_prod_unfold)
  qed
  then have "list_all (\<lambda>(i, d). nonempty_str i \<and> nonempty_str d) (map (\<lambda>(i, d). (PStr i, d)) refs)"
      "ar_refs r0 = map (\<lambda>(i, d). (str_of i, str_of d)) (map (\<lambda>(i, d). (PStr i, d)) refs)"
    using r0 unfolding ApplicationReceipt_def
    by (auto simp: rbind_Inr raise_if_Inr split: if_splits)
  moreover have "map (\<lambda>(i, d). (i, PStr d)) (map (\<lambda>(i, d). (str_of i, str_of d)) (map (\<lambda>(i, d). (PStr i, d)) refs)) = refs"
    if "list_all (\<lambda>(i, d). nonempty_str i \<and> nonempty_str d) (map (\<lambda>(i, d). (PStr i, d)) refs)"
    using that by (induction refs) (auto simp: nonempty_str_iff)
  ultimately show "map (\<lambda>(i, d). (i, PStr d)) (ar_refs r) = refs" using d by simp
qed

end
