(* ===== verification/Execution_Store.thy ===== *)
theory Execution_Store
  imports Execution_Context
begin

text \<open>
  Model of \<open>delivery_system/execution_store.py\<close>, class \<open>SQLiteExecutionStore\<close>: the managed
  operations of the applier (\<open>create_execution_if_absent\<close>, \<open>claim_next_operation\<close>,
  \<open>validate_claim\<close>, \<open>complete_operation_success\<close>, \<open>settle_operation\<close>, \<open>finalize_application\<close>), the
  generic operations (\<open>save_...\<close>, \<open>transition_...\<close>, \<open>record_...\<close>), and the validated reads.

  A row is the JSON document of its payload; it is decoded and verified at each use, as in the
  source.  Whatever is inside \<open>transaction\<close> is what the source does between \<open>BEGIN IMMEDIATE\<close> and
  the commit.
\<close>

section \<open>The store object\<close>

record exec_store =
  st_object :: nat
  st_workspace :: string
  st_service :: "(nat \<times> bool) option" \<comment> \<open>the runtime service and its \<open>_write_orchestration_enabled\<close>\<close>

text \<open>\<open>_ApplierCapability\<close>; \<open>None\<close> stands for any object that is not one.\<close>

record capability =
  cap_service :: nat
  cap_store :: nat

definition service_of :: "exec_store \<Rightarrow> nat" where
  "service_of st = fst (the (st_service st))"

definition capability_valid :: "exec_store \<Rightarrow> capability option \<Rightarrow> bool" where
  "capability_valid st cap \<longleftrightarrow>
     (case (st_service st, cap) of
        (Some (service, enabled), Some c) \<Rightarrow> enabled \<and> cap_service c = service \<and> cap_store c = st_object st
      | _ \<Rightarrow> False)"

definition require_orchestration_capability :: "exec_store \<Rightarrow> capability option \<Rightarrow> unit io" where
  "require_orchestration_capability st cap = refuse (\<not> capability_valid st cap) ''applier_orchestration_required''"

definition orchestrated :: "exec_store \<Rightarrow> bool" where
  "orchestrated st \<longleftrightarrow> (case st_service st of None \<Rightarrow> False | Some (_, enabled) \<Rightarrow> enabled)"

definition reject_generic_when_orchestrated :: "exec_store \<Rightarrow> unit io" where
  "reject_generic_when_orchestrated st = refuse (orchestrated st) ''applier_orchestration_required''"

section \<open>Statements\<close>

definition select_execution :: "exec_store \<Rightarrow> string \<Rightarrow> pyval option io" where
  "select_execution st app = view (\<lambda>w. select_row (st_workspace st, app) (db_executions (w_db w)))"

definition select_attempt :: "exec_store \<Rightarrow> string \<Rightarrow> string \<Rightarrow> pyval option io" where
  "select_attempt st app op = view (\<lambda>w. select_row (st_workspace st, app, op) (db_attempts (w_db w)))"

definition select_operation_receipt :: "exec_store \<Rightarrow> string \<Rightarrow> string \<Rightarrow> pyval option io" where
  "select_operation_receipt st app op = view (\<lambda>w. select_row (st_workspace st, app, op) (db_operation_receipts (w_db w)))"

definition select_application_receipt :: "exec_store \<Rightarrow> string \<Rightarrow> pyval option io" where
  "select_application_receipt st app = view (\<lambda>w. select_row (st_workspace st, app) (db_application_receipts (w_db w)))"

definition modify_db :: "(database \<Rightarrow> database) \<Rightarrow> unit io" where
  "modify_db f = change (\<lambda>w. w\<lparr>w_db := f (w_db w)\<rparr>)"

definition modify_db_res :: "(database \<Rightarrow> database res) \<Rightarrow> unit io" where
  "modify_db_res f = (\<lambda>w. case f (w_db w) of Inl e \<Rightarrow> (Inl e, w) | Inr d \<Rightarrow> (Inr (), w\<lparr>w_db := d\<rparr>))"

definition insert_execution :: "exec_store \<Rightarrow> string \<Rightarrow> pyval \<Rightarrow> unit io" where
  "insert_execution st app doc = modify_db_res (\<lambda>d.
     rbind (insert_row (st_workspace st, app) doc (db_executions d)) (\<lambda>t. Inr (d\<lparr>db_executions := t\<rparr>)))"

definition insert_attempt :: "exec_store \<Rightarrow> string \<Rightarrow> string \<Rightarrow> pyval \<Rightarrow> unit io" where
  "insert_attempt st app op doc = modify_db_res (\<lambda>d.
     rbind (insert_row (st_workspace st, app, op) doc (db_attempts d)) (\<lambda>t. Inr (d\<lparr>db_attempts := t\<rparr>)))"

definition insert_operation_receipt :: "exec_store \<Rightarrow> string \<Rightarrow> string \<Rightarrow> pyval \<Rightarrow> unit io" where
  "insert_operation_receipt st app op doc = modify_db_res (\<lambda>d.
     rbind (insert_row (st_workspace st, app, op) doc (db_operation_receipts d)) (\<lambda>t. Inr (d\<lparr>db_operation_receipts := t\<rparr>)))"

definition insert_application_receipt :: "exec_store \<Rightarrow> string \<Rightarrow> pyval \<Rightarrow> unit io" where
  "insert_application_receipt st app doc = modify_db_res (\<lambda>d.
     rbind (insert_row (st_workspace st, app) doc (db_application_receipts d)) (\<lambda>t. Inr (d\<lparr>db_application_receipts := t\<rparr>)))"

definition update_execution :: "exec_store \<Rightarrow> string \<Rightarrow> pyval \<Rightarrow> unit io" where
  "update_execution st app doc =
     modify_db (\<lambda>d. d\<lparr>db_executions := update_row (st_workspace st, app) doc (db_executions d)\<rparr>)"

definition update_attempt :: "exec_store \<Rightarrow> string \<Rightarrow> string \<Rightarrow> pyval \<Rightarrow> unit io" where
  "update_attempt st app op doc =
     modify_db (\<lambda>d. d\<lparr>db_attempts := update_row (st_workspace st, app, op) doc (db_attempts d)\<rparr>)"

text \<open>A row that must be there, and the encoding of a payload.\<close>

definition present :: "string \<Rightarrow> pyval option \<Rightarrow> pyval io" where
  "present code row = lift (of_option (ValueError code) row)"

definition dump :: "pyval \<Rightarrow> pyval io" where
  "dump doc = lift (rbind (json_text doc) (\<lambda>_. Inr doc))"

text \<open>\<open>except (TypeError, ValueError): raise ValueError(code) from None\<close>\<close>

definition integrity :: "string \<Rightarrow> 'a res \<Rightarrow> 'a res" where
  "integrity code r = catch r (\<lambda>e. case e of
     TypeError \<Rightarrow> Inl (ValueError code) | ValueError _ \<Rightarrow> Inl (ValueError code) | _ \<Rightarrow> Inl e)"

definition now_not_before :: "string \<Rightarrow> pyval list \<Rightarrow> unit io" where
  "now_not_before now prior = lift (require_clock_not_before (PStr now) prior)"

text \<open>A single \<open>SELECT\<close> outside a transaction.\<close>

definition read_db :: "env \<Rightarrow> 'a io \<Rightarrow> 'a io" where
  "read_db E m = bnd (settle_others E) (\<lambda>_. m)"

section \<open>Validated reads\<close>

definition identity_workspace :: "logical_identity \<Rightarrow> string" where
  "identity_workspace ident = v_workspace_identity (id_values ident)"

definition load_execution_state :: "prims \<Rightarrow> env \<Rightarrow> exec_store \<Rightarrow> string \<Rightarrow> exec_state io" where
  "load_execution_state P E st app =
     bnd (read_db E (select_execution st app)) (\<lambda>row.
     bnd (present ''application_not_found'' row) (\<lambda>doc.
     bnd (lift (integrity ''state_integrity_invalid'' (decode_exec_state P doc))) (\<lambda>state.
     bnd (refuse (es_application_id state \<noteq> app \<or> identity_workspace (es_identity state) \<noteq> st_workspace st)
            ''application_binding_conflict'') (\<lambda>_.
     bnd (lift (exec_state_verify P state)) (\<lambda>intact.
     bnd (refuse (\<not> intact) ''state_integrity_invalid'') (\<lambda>_. ret state))))))"

definition get_execution_bootstrap :: "prims \<Rightarrow> env \<Rightarrow> exec_store \<Rightarrow> string \<Rightarrow> logical_identity io" where
  "get_execution_bootstrap P E st app = bnd (load_execution_state P E st app) (\<lambda>state. ret (es_identity state))"

definition get_attempt :: "prims \<Rightarrow> env \<Rightarrow> exec_store \<Rightarrow> string \<Rightarrow> string \<Rightarrow> attempt io" where
  "get_attempt P E st app op =
     bnd (read_db E (select_attempt st app op)) (\<lambda>row.
     bnd (present ''operation_attempt_not_found'' row) (\<lambda>doc.
     bnd (lift (integrity ''attempt_integrity_invalid'' (decode_attempt P doc))) (\<lambda>a.
     bnd (refuse (at_application_id a \<noteq> app \<or> at_operation_identity a \<noteq> op) ''operation_attempt_binding_conflict'') (\<lambda>_.
     bnd (refuse (identity_workspace (at_identity a) \<noteq> st_workspace st) ''operation_attempt_binding_conflict'') (\<lambda>_.
     bnd (lift (attempt_verify P a)) (\<lambda>intact.
     bnd (refuse (\<not> intact) ''attempt_integrity_invalid'') (\<lambda>_. ret a)))))))"

definition get_operation_receipt :: "prims \<Rightarrow> env \<Rightarrow> exec_store \<Rightarrow> string \<Rightarrow> string \<Rightarrow> operation_receipt io" where
  "get_operation_receipt P E st app op =
     bnd (read_db E (select_operation_receipt st app op)) (\<lambda>row.
     bnd (present ''operation_receipt_not_found'' row) (\<lambda>doc.
     bnd (lift (integrity ''receipt_integrity_invalid'' (decode_operation_receipt P doc))) (\<lambda>r.
     bnd (refuse (or_application_id r \<noteq> app \<or> or_operation_identity r \<noteq> op) ''receipt_binding_conflict'') (\<lambda>_.
     bnd (refuse (identity_workspace (or_identity r) \<noteq> st_workspace st) ''workspace_mismatch'') (\<lambda>_.
     bnd (lift (operation_receipt_verify P r)) (\<lambda>intact.
     bnd (refuse (\<not> intact) ''receipt_integrity_invalid'') (\<lambda>_. ret r)))))))"

definition get_application_receipt :: "prims \<Rightarrow> env \<Rightarrow> exec_store \<Rightarrow> string \<Rightarrow> application_receipt io" where
  "get_application_receipt P E st app =
     bnd (read_db E (select_application_receipt st app)) (\<lambda>row.
     bnd (present ''application_receipt_not_found'' row) (\<lambda>doc.
     bnd (lift (integrity ''application_receipt_integrity_invalid'' (decode_application_receipt P doc))) (\<lambda>r.
     bnd (refuse (ar_application_id r \<noteq> app) ''application_binding_conflict'') (\<lambda>_.
     bnd (refuse (identity_workspace (ar_identity r) \<noteq> st_workspace st) ''workspace_mismatch'') (\<lambda>_.
     bnd (lift (application_receipt_verify P r)) (\<lambda>intact.
     bnd (refuse (\<not> intact) ''application_receipt_integrity_invalid'') (\<lambda>_. ret r)))))))"

text \<open>The receipts of an applied execution, read one by one in operation order.\<close>

fun load_receipts ::
  "prims \<Rightarrow> env \<Rightarrow> exec_store \<Rightarrow> string \<Rightarrow> nat \<Rightarrow> pyval list \<Rightarrow> (string \<times> string) list \<Rightarrow> operation_receipt list io" where
  "load_receipts P E st app i (expected # es) (ref # refs) =
     bnd (lift (operation_identity P app (int i) expected)) (\<lambda>op.
     bnd (handle (get_operation_receipt P E st app op) (\<lambda>e. case e of
            ValueError code \<Rightarrow> if code = ''operation_receipt_not_found'' then fail e
                               else fail (ValueError ''receipt_integrity_invalid'')
          | _ \<Rightarrow> fail e)) (\<lambda>r.
     bnd (lift (operation_receipt_verify P r)) (\<lambda>intact.
     bnd (refuse (or_digest r \<noteq> PStr (snd ref) \<or> \<not> intact) ''application_receipt_integrity_invalid'') (\<lambda>_.
     bnd (load_receipts P E st app (Suc i) es refs) (\<lambda>rs. ret (r # rs))))))"
| "load_receipts P E st app i _ _ = ret []"

definition get_execution :: "prims \<Rightarrow> env \<Rightarrow> exec_store \<Rightarrow> string \<Rightarrow> pyval list option \<Rightarrow> exec_state io" where
  "get_execution P E st app expected =
     bnd (load_execution_state P E st app) (\<lambda>state.
     if es_state state \<noteq> Applied then ret state
     else case expected of
       None \<Rightarrow> fail (ValueError ''application_replay_validation_required'')
     | Some operations \<Rightarrow>
         bnd (get_application_receipt P E st app) (\<lambda>receipt.
         bnd (lift (application_receipt_verify P receipt)) (\<lambda>intact.
         bnd (refuse (\<not> intact \<or> ar_application_id receipt \<noteq> es_application_id state \<or>
                      id_values (ar_identity receipt) \<noteq> id_values (es_identity state)) ''application_receipt_integrity_invalid'') (\<lambda>_.
         bnd (refuse (map fst (ar_refs receipt) \<noteq> es_refs state) ''application_receipt_integrity_invalid'') (\<lambda>_.
         bnd (refuse (length operations \<noteq> length (ar_refs receipt)) ''application_receipt_integrity_invalid'') (\<lambda>_.
         bnd (load_receipts P E st app 0 operations (ar_refs receipt)) (\<lambda>receipts.
         bnd (refuse (map or_index receipts \<noteq> map int [0..<length receipts]) ''application_receipt_integrity_invalid'') (\<lambda>_.
         bnd (refuse (\<not> validate_against P receipt operations receipts) ''application_replay_binding_invalid'') (\<lambda>_.
         ret state)))))))))"

text \<open>\<open>resolve_application_id_by_approved_context\<close> validates every row of the workspace.\<close>

definition resolve_row ::
  "prims \<Rightarrow> exec_store \<Rightarrow> pyval \<times> pyval \<times> pyval \<times> pyval \<Rightarrow> string \<times> pyval \<Rightarrow> string list res" where
  "resolve_row P st wanted row =
     rbind (integrity ''state_integrity_invalid'' (decode_exec_state P (snd row))) (\<lambda>state.
     raise_if (es_application_id state \<noteq> fst row) ''application_binding_conflict''
     (raise_if (identity_workspace (es_identity state) \<noteq> st_workspace st) ''application_binding_conflict''
     (rbind (exec_state_verify P state) (\<lambda>intact.
      raise_if (\<not> intact) ''state_integrity_invalid''
       (let v = id_values (es_identity state) in
        Inr (if wanted = (PStr (v_preview_id v), PInt (v_revision v), PStr (v_approval_id v), PStr (v_approval_digest v))
             then [es_application_id state] else []))))))"

definition resolve_application_id_by_approved_context ::
  "prims \<Rightarrow> env \<Rightarrow> exec_store \<Rightarrow> pyval \<Rightarrow> pyval \<Rightarrow> pyval \<Rightarrow> pyval \<Rightarrow> string io" where
  "resolve_application_id_by_approved_context P E st preview_id revision approval_id approval_digest =
     bnd (read_db E (view (\<lambda>w. map (\<lambda>r. (snd (fst r), snd r))
            (filter (\<lambda>r. fst (fst r) = st_workspace st) (db_executions (w_db w)))))) (\<lambda>rows.
     bnd (lift (sequence (map (resolve_row P st (preview_id, revision, approval_id, approval_digest)) rows))) (\<lambda>found.
     case concat found of
       [] \<Rightarrow> fail (ValueError ''application_not_found'')
     | [app] \<Rightarrow> ret app
     | _ \<Rightarrow> fail (ValueError ''application_binding_conflict'')))"

section \<open>Managed operations\<close>

definition create_execution_if_absent ::
  "prims \<Rightarrow> env \<Rightarrow> exec_store \<Rightarrow> capability option \<Rightarrow> exec_state live \<Rightarrow> exec_state io" where
  "create_execution_if_absent P E st cap artifact =
     bnd (require_orchestration_capability st cap) (\<lambda>_.
     let state = lv_body artifact; app = es_application_id state in
     bnd (refuse (es_state state \<noteq> Pending \<or> es_next state \<noteq> 0 \<or> es_owner state \<noteq> PNone \<or> es_attempt state \<noteq> PNone \<or>
                  es_recovery state \<noteq> PNone \<or> es_refs state \<noteq> [] \<or> es_completed_at state \<noteq> PNone)
            ''application_initial_state_invalid'') (\<lambda>_.
     bnd (view (\<lambda>w. Option.bind (lv_context artifact) (w_contexts w))) (\<lambda>live.
     case live of
       None \<Rightarrow> fail (ValueError ''runtime_authority_required'')
     | Some ctx \<Rightarrow>
         bnd (refuse (cx_service ctx \<noteq> service_of st) ''runtime_authority_required'') (\<lambda>_.
         bnd (validate_live_artifact P E (service_of st) artifact exec_state_payload ctx ''execution'') (\<lambda>_.
         bnd (lift (exec_state_with_digest P state)) (\<lambda>candidate.
         bnd (dump (exec_state_doc candidate)) (\<lambda>payload.
         transaction E (
           bnd (select_execution st app) (\<lambda>row.
           case row of
             Some doc \<Rightarrow>
               bnd (lift (decode_exec_state P doc)) (\<lambda>existing.
               bnd (lift (exec_state_verify P existing)) (\<lambda>intact.
               bnd (refuse (\<not> intact \<or> id_values (es_identity existing) \<noteq> id_values (es_identity candidate) \<or>
                            es_anchor existing \<noteq> es_anchor candidate) ''application_binding_conflict'') (\<lambda>_.
               bnd (refuse (\<not> es_managed existing) ''application_orchestration_policy_mismatch'') (\<lambda>_.
               ret existing))))
           | None \<Rightarrow> bnd (insert_execution st app payload) (\<lambda>_. ret candidate))))))))))"

text \<open>\<open>owner_id.startswith("execution-owner-") and len(owner_id) == 48\<close>\<close>

definition owner_valid :: "string \<Rightarrow> bool" where
  "owner_valid owner \<longleftrightarrow> prefix ''execution-owner-'' owner \<and> length owner = 48"

definition claim_next_operation ::
  "prims \<Rightarrow> env \<Rightarrow> exec_store \<Rightarrow> capability option \<Rightarrow> string \<Rightarrow> pyval \<Rightarrow> exec_context \<Rightarrow> string \<Rightarrow> string \<Rightarrow>
   (exec_state \<times> attempt) io" where
  "claim_next_operation P E st cap app expected_digest ctx owner now =
     bnd (require_orchestration_capability st cap) (\<lambda>_.
     bnd (refuse (\<not> owner_valid owner) ''application_coordination_invalid'') (\<lambda>_.
     bnd (validate_execution_context P E (service_of st) ctx) (\<lambda>_.
     bnd (refuse (app \<noteq> id_application_id (cx_identity ctx)) ''application_binding_conflict'') (\<lambda>_.
     transaction E (
       bnd (select_execution st app) (\<lambda>row.
       bnd (present ''application_not_found'' row) (\<lambda>doc.
       bnd (lift (decode_exec_state P doc)) (\<lambda>previous.
       bnd (refuse (\<not> es_managed previous) ''application_orchestration_policy_mismatch'') (\<lambda>_.
       bnd (lift (exec_state_verify P previous)) (\<lambda>intact.
       bnd (refuse (\<not> intact \<or> es_digest previous \<noteq> expected_digest) ''application_state_stale'') (\<lambda>_.
       bnd (refuse (es_state previous \<notin> {Pending, PartiallyApplied} \<or> es_owner previous \<noteq> PNone \<or> es_attempt previous \<noteq> PNone)
              ''application_claim_unavailable'') (\<lambda>_.
       bnd (refuse (length (cx_operations ctx) \<le> es_next previous) ''application_already_complete'') (\<lambda>_.
       bnd (now_not_before now [es_started_at previous, es_updated_at previous]) (\<lambda>_.
       bnd (new_attempt P E ctx (es_next previous)
              [(''state'', PStr ''Applying''), (''started_at'', PStr now), (''updated_at'', PStr now)]) (\<lambda>attempt.
       bnd (lift (require_clock_not_before (at_updated_at (lv_body attempt)) [at_started_at (lv_body attempt)])) (\<lambda>_.
       bnd (continue_execution_state P E ctx previous
              [(''state'', PStr ''Applying''), (''owner_id'', PStr owner),
               (''current_attempt_id'', PStr (at_operation_identity (lv_body attempt))), (''updated_at'', PStr now)]) (\<lambda>candidate.
       bnd (validate_live_artifact P E (service_of st) attempt attempt_payload ctx ''attempt'') (\<lambda>_.
       bnd (validate_live_artifact P E (service_of st) candidate exec_state_payload ctx ''execution'') (\<lambda>_.
       bnd (lift (attempt_with_digest P (lv_body attempt))) (\<lambda>stored_attempt.
       bnd (lift (exec_state_with_digest P (lv_body candidate))) (\<lambda>stored_state.
       bnd (dump (attempt_doc stored_attempt)) (\<lambda>attempt_row.
       bnd (dump (exec_state_doc stored_state)) (\<lambda>state_row.
       bnd (insert_attempt st (at_application_id stored_attempt) (at_operation_identity stored_attempt) attempt_row) (\<lambda>_.
       bnd (update_execution st app state_row) (\<lambda>_.
       ret (stored_state, stored_attempt))))))))))))))))))))))))))"

definition validate_claim ::
  "prims \<Rightarrow> env \<Rightarrow> exec_store \<Rightarrow> capability option \<Rightarrow> string \<Rightarrow> pyval \<Rightarrow> string \<Rightarrow> pyval \<Rightarrow> string \<Rightarrow> exec_context \<Rightarrow>
   (exec_state \<times> attempt) io" where
  "validate_claim P E st cap app state_digest attempt_id attempt_digest owner ctx =
     bnd (require_orchestration_capability st cap) (\<lambda>_.
     bnd (validate_execution_context P E (service_of st) ctx) (\<lambda>_.
     bnd (get_execution P E st app None) (\<lambda>state.
     bnd (get_attempt P E st app attempt_id) (\<lambda>attempt.
     bnd (refuse (\<not> es_managed state) ''application_orchestration_policy_mismatch'') (\<lambda>_.
     bnd (refuse (es_state state \<noteq> Applying \<or> es_digest state \<noteq> state_digest \<or> es_owner state \<noteq> PStr owner \<or>
                  es_attempt state \<noteq> PStr attempt_id \<or> at_state attempt \<noteq> Applying \<or> at_digest attempt \<noteq> attempt_digest)
            ''application_claim_stale'') (\<lambda>_.
     ret (state, attempt)))))))"

text \<open>The two rows of a claim, checked against what the claimant knows of it.\<close>

definition claimed_rows ::
  "prims \<Rightarrow> exec_store \<Rightarrow> string \<Rightarrow> pyval \<Rightarrow> string \<Rightarrow> pyval \<Rightarrow> string \<Rightarrow> (exec_state \<times> attempt) io" where
  "claimed_rows P st app state_digest attempt_id attempt_digest owner =
     bnd (select_execution st app) (\<lambda>app_row.
     bnd (select_attempt st app attempt_id) (\<lambda>attempt_row.
     bnd (refuse (app_row = None \<or> attempt_row = None) ''application_claim_stale'') (\<lambda>_.
     bnd (lift (decode_exec_state P (the app_row))) (\<lambda>previous.
     bnd (lift (decode_attempt P (the attempt_row))) (\<lambda>attempt.
     bnd (refuse (\<not> es_managed previous) ''application_orchestration_policy_mismatch'') (\<lambda>_.
     bnd (lift (exec_state_verify P previous)) (\<lambda>intact.
     bnd (refuse (\<not> intact \<or> es_digest previous \<noteq> state_digest \<or> es_state previous \<noteq> Applying \<or>
                  es_owner previous \<noteq> PStr owner \<or> es_attempt previous \<noteq> PStr attempt_id) ''application_claim_stale'') (\<lambda>_.
     bnd (lift (attempt_verify P attempt)) (\<lambda>intact.
     bnd (refuse (\<not> intact \<or> at_digest attempt \<noteq> attempt_digest \<or> at_state attempt \<noteq> Applying) ''application_claim_stale'') (\<lambda>_.
     ret (previous, attempt)))))))))))"

definition complete_operation_success ::
  "prims \<Rightarrow> env \<Rightarrow> exec_store \<Rightarrow> capability option \<Rightarrow> string \<Rightarrow> pyval \<Rightarrow> string \<Rightarrow> pyval \<Rightarrow> string \<Rightarrow> exec_context \<Rightarrow>
   operation_receipt live \<Rightarrow> string \<Rightarrow> exec_state io" where
  "complete_operation_success P E st cap app state_digest attempt_id attempt_digest owner ctx receipt now =
     bnd (require_orchestration_capability st cap) (\<lambda>_.
     bnd (validate_execution_context P E (service_of st) ctx) (\<lambda>_.
     transaction E (
       bnd (claimed_rows P st app state_digest attempt_id attempt_digest owner) (\<lambda>(previous, attempt).
       let r = lv_body receipt in
       bnd (refuse (lv_context receipt \<noteq> Some (cx_id ctx) \<or> or_application_id r \<noteq> app \<or> or_index r \<noteq> int (at_index attempt) \<or>
                    or_operation_identity r \<noteq> at_operation_identity attempt) ''receipt_binding_conflict'') (\<lambda>_.
       bnd (now_not_before now [es_started_at previous, es_updated_at previous, at_started_at attempt, at_updated_at attempt]) (\<lambda>_.
       bnd (now_not_before now [PStr (or_started_at r), PStr (or_completed_at r)]) (\<lambda>_.
       bnd (validate_live_artifact P E (service_of st) receipt operation_receipt_payload ctx ''operation_receipt'') (\<lambda>_.
       bnd (lift (operation_receipt_with_digest P r)) (\<lambda>stored_receipt.
       bnd (continue_attempt P E ctx attempt [(''state'', PStr ''Applied''), (''updated_at'', PStr now)]) (\<lambda>attempt0.
       bnd (with_live_digest_attempt P ctx attempt0) (\<lambda>next_attempt.
       bnd (continue_execution_state P E ctx previous
              [(''state'', PStr ''PartiallyApplied''), (''next_operation_index'', PInt (int (es_next previous) + 1)),
               (''operation_receipt_refs'', PTuple (map PStr (es_refs previous @ [or_receipt_id stored_receipt]))),
               (''owner_id'', PNone), (''current_attempt_id'', PNone), (''updated_at'', PStr now)]) (\<lambda>state0.
       bnd (with_live_digest_state P ctx state0) (\<lambda>next_state.
       bnd (validate_live_artifact P E (service_of st) next_attempt attempt_payload ctx ''attempt'') (\<lambda>_.
       bnd (validate_live_artifact P E (service_of st) next_state exec_state_payload ctx ''execution'') (\<lambda>_.
       bnd (dump (operation_receipt_doc stored_receipt)) (\<lambda>receipt_row.
       bnd (insert_operation_receipt st app (or_operation_identity stored_receipt) receipt_row) (\<lambda>_.
       bnd (dump (attempt_doc (lv_body next_attempt))) (\<lambda>attempt_row.
       bnd (dump (exec_state_doc (lv_body next_state))) (\<lambda>state_row.
       bnd (update_attempt st app attempt_id attempt_row) (\<lambda>_.
       bnd (update_execution st app state_row) (\<lambda>_.
       ret (lv_body next_state))))))))))))))))))))))"

definition settle_operation ::
  "prims \<Rightarrow> env \<Rightarrow> exec_store \<Rightarrow> capability option \<Rightarrow> string \<Rightarrow> pyval \<Rightarrow> string \<Rightarrow> pyval \<Rightarrow> string \<Rightarrow> exec_context \<Rightarrow>
   status \<Rightarrow> pyval \<Rightarrow> string \<Rightarrow> exec_state io" where
  "settle_operation P E st cap app state_digest attempt_id attempt_digest owner ctx target code now =
     bnd (require_orchestration_capability st cap) (\<lambda>_.
     bnd (refuse (target \<notin> {Failed, Blocked, OutcomeUnknown}) ''application_state_transition_invalid'') (\<lambda>_.
     bnd (validate_execution_context P E (service_of st) ctx) (\<lambda>_.
     transaction E (
       bnd (claimed_rows P st app state_digest attempt_id attempt_digest owner) (\<lambda>(previous, attempt).
       bnd (continue_attempt P E ctx attempt [(''state'', PStr (status_name target)), (''updated_at'', PStr now), (''failure_code'', code)]) (\<lambda>attempt0.
       bnd (with_live_digest_attempt P ctx attempt0) (\<lambda>next_attempt.
       bnd (continue_execution_state P E ctx previous
              [(''state'', PStr (status_name target)), (''owner_id'', PNone), (''recovery_code'', code), (''updated_at'', PStr now)]) (\<lambda>state0.
       bnd (with_live_digest_state P ctx state0) (\<lambda>next_state.
       bnd (validate_live_artifact P E (service_of st) next_attempt attempt_payload ctx ''attempt'') (\<lambda>_.
       bnd (validate_live_artifact P E (service_of st) next_state exec_state_payload ctx ''execution'') (\<lambda>_.
       bnd (dump (attempt_doc (lv_body next_attempt))) (\<lambda>attempt_row.
       bnd (update_attempt st app attempt_id attempt_row) (\<lambda>_.
       bnd (dump (exec_state_doc (lv_body next_state))) (\<lambda>state_row.
       bnd (update_execution st app state_row) (\<lambda>_.
       ret (lv_body next_state))))))))))))))))"

text \<open>The durable receipts of all operations, each checked and not newer than the clock.\<close>

fun finalization_refs ::
  "prims \<Rightarrow> exec_store \<Rightarrow> string \<Rightarrow> string \<Rightarrow> nat \<Rightarrow> write_op list \<Rightarrow> (string \<times> pyval) list io" where
  "finalization_refs P st app now i [] = ret []"
| "finalization_refs P st app now i (op # ops) =
     bnd (lift (operation_identity P app (int i) (operation_doc op))) (\<lambda>op_id.
     bnd (select_operation_receipt st app op_id) (\<lambda>row.
     bnd (present ''application_receipt_incomplete'' row) (\<lambda>doc.
     bnd (lift (decode_operation_receipt P doc)) (\<lambda>receipt.
     bnd (lift (operation_receipt_verify P receipt)) (\<lambda>intact.
     bnd (refuse (\<not> intact \<or> or_index receipt \<noteq> int i) ''application_receipt_integrity_invalid'') (\<lambda>_.
     bnd (lift (execution_timestamp (PStr (or_started_at receipt)))) (\<lambda>_.
     bnd (now_not_before now [PStr (or_completed_at receipt)]) (\<lambda>_.
     bnd (finalization_refs P st app now (Suc i) ops) (\<lambda>refs.
     ret ((or_receipt_id receipt, or_digest receipt) # refs))))))))))"

definition finalize_application ::
  "prims \<Rightarrow> env \<Rightarrow> exec_store \<Rightarrow> capability option \<Rightarrow> string \<Rightarrow> pyval \<Rightarrow> exec_context \<Rightarrow> string \<Rightarrow> exec_state io" where
  "finalize_application P E st cap app state_digest ctx now =
     bnd (require_orchestration_capability st cap) (\<lambda>_.
     bnd (validate_execution_context P E (service_of st) ctx) (\<lambda>_.
     transaction E (
       bnd (select_execution st app) (\<lambda>row.
       bnd (present ''application_not_found'' row) (\<lambda>doc.
       bnd (lift (decode_exec_state P doc)) (\<lambda>previous.
       bnd (refuse (\<not> es_managed previous) ''application_orchestration_policy_mismatch'') (\<lambda>_.
       bnd (lift (exec_state_verify P previous)) (\<lambda>intact.
       bnd (refuse (\<not> intact \<or> es_digest previous \<noteq> state_digest \<or> es_state previous \<noteq> PartiallyApplied \<or>
                    es_next previous \<noteq> length (cx_operations ctx) \<or> es_owner previous \<noteq> PNone \<or> es_attempt previous \<noteq> PNone)
              ''application_finalization_invalid'') (\<lambda>_.
       bnd (lift (execution_timestamp (es_started_at previous))) (\<lambda>_.
       bnd (lift (execution_timestamp (es_updated_at previous))) (\<lambda>_.
       bnd (finalization_refs P st app now 0 (cx_operations ctx)) (\<lambda>refs.
       bnd (now_not_before now [es_started_at previous, es_updated_at previous]) (\<lambda>_.
       bnd (new_application_receipt_from_refs P E ctx refs (PStr now) (PStr now)) (\<lambda>app_receipt.
       bnd (validate_live_artifact P E (service_of st) app_receipt application_receipt_payload ctx ''application_receipt'') (\<lambda>_.
       bnd (continue_execution_state P E ctx previous
              [(''state'', PStr ''Applied''), (''completed_at'', PStr now), (''updated_at'', PStr now)]) (\<lambda>state0.
       bnd (with_live_digest_state P ctx state0) (\<lambda>next_state.
       bnd (validate_live_artifact P E (service_of st) next_state exec_state_payload ctx ''execution'') (\<lambda>_.
       bnd (dump (application_receipt_doc (lv_body app_receipt))) (\<lambda>receipt_row.
       bnd (insert_application_receipt st app receipt_row) (\<lambda>_.
       bnd (dump (exec_state_doc (lv_body next_state))) (\<lambda>state_row.
       bnd (update_execution st app state_row) (\<lambda>_.
       ret (lv_body next_state)))))))))))))))))))))))"

section \<open>Generic operations\<close>

definition durable_application_policy :: "prims \<Rightarrow> exec_store \<Rightarrow> string \<Rightarrow> bool io" where
  "durable_application_policy P st app =
     bnd (select_execution st app) (\<lambda>row.
     case row of
       None \<Rightarrow> ret False
     | Some doc \<Rightarrow>
         bnd (lift (integrity ''state_integrity_invalid'' (decode_exec_state P doc))) (\<lambda>state.
         bnd (lift (exec_state_verify P state)) (\<lambda>intact.
         bnd (refuse (\<not> intact) ''state_integrity_invalid'') (\<lambda>_. ret (es_managed state)))))"

definition reject_durable_managed :: "prims \<Rightarrow> exec_store \<Rightarrow> string \<Rightarrow> unit io" where
  "reject_durable_managed P st app =
     bnd (durable_application_policy P st app) (\<lambda>managed. refuse managed ''applier_orchestration_required'')"

text \<open>
  \<open>if artifact._live_context is None or self.runtime_service is None: raise ...\<close>, then
  \<open>validate_live_artifact\<close> with the artifact's own context.
\<close>

definition live_evidence ::
  "prims \<Rightarrow> env \<Rightarrow> exec_store \<Rightarrow> 'a live \<Rightarrow> ('a \<Rightarrow> pyval) \<Rightarrow> string \<Rightarrow> exec_context io" where
  "live_evidence P E st artifact payload kind =
     bnd (refuse (lv_context artifact = None \<or> st_service st = None) ''runtime_authority_required'') (\<lambda>_.
     bnd (view (\<lambda>w. w_contexts w (the (lv_context artifact)))) (\<lambda>live.
     bnd (lift (of_option (ValueError ''runtime_context_owner_mismatch'') live)) (\<lambda>ctx.
     bnd (validate_live_artifact P E (service_of st) artifact payload ctx kind) (\<lambda>_. ret ctx))))"

definition save_execution :: "prims \<Rightarrow> env \<Rightarrow> exec_store \<Rightarrow> exec_state live \<Rightarrow> exec_state io" where
  "save_execution P E st artifact =
     bnd (reject_generic_when_orchestrated st) (\<lambda>_.
     let state = lv_body artifact; app = es_application_id state in
     bnd (lift (exec_state_with_digest P state)) (\<lambda>candidate.
     bnd (refuse (es_managed candidate) ''applier_orchestration_required'') (\<lambda>_.
     bnd (refuse (identity_workspace (es_identity state) \<noteq> st_workspace st) ''application_binding_conflict'') (\<lambda>_.
     bnd (dump (exec_state_doc candidate)) (\<lambda>payload.
     transaction E (
       bnd (select_execution st app) (\<lambda>existing.
       bnd (reject_durable_managed P st app) (\<lambda>_.
       if \<exists>doc. existing = Some doc \<and> same_text doc payload then ret candidate
       else
         bnd (case existing of
                None \<Rightarrow> ret ()
              | Some doc \<Rightarrow>
                  bnd (lift (decode_exec_state P doc)) (\<lambda>old.
                  refuse (id_values (es_identity old) \<noteq> id_values (es_identity state) \<or>
                          es_application_id old \<noteq> es_application_id state \<or> es_anchor old \<noteq> es_anchor state)
                    ''application_binding_conflict'')) (\<lambda>_.
         bnd (live_evidence P E st artifact exec_state_payload ''execution'') (\<lambda>_.
         bnd (modify_db (\<lambda>d. d\<lparr>db_executions := upsert_row (st_workspace st, app) payload (db_executions d)\<rparr>)) (\<lambda>_.
         ret candidate)))))))))))"

text \<open>The fields of an attempt that never change.\<close>

definition attempt_binding :: "attempt \<Rightarrow> app_values \<times> nat \<times> write_op \<times> string \<times> provenance" where
  "attempt_binding a = (id_values (at_identity a), at_index a, at_operation a, at_request_identity a, at_provenance a)"

definition save_attempt :: "prims \<Rightarrow> env \<Rightarrow> exec_store \<Rightarrow> attempt live \<Rightarrow> attempt io" where
  "save_attempt P E st artifact =
     bnd (reject_generic_when_orchestrated st) (\<lambda>_.
     let attempt = lv_body artifact; app = at_application_id attempt; op = at_operation_identity attempt in
     bnd (lift (attempt_with_digest P attempt)) (\<lambda>candidate.
     bnd (refuse (identity_workspace (at_identity attempt) \<noteq> st_workspace st) ''operation_attempt_binding_conflict'') (\<lambda>_.
     bnd (dump (attempt_doc candidate)) (\<lambda>payload.
     transaction E (
       bnd (reject_durable_managed P st app) (\<lambda>_.
       bnd (select_attempt st app op) (\<lambda>existing.
       if \<exists>doc. existing = Some doc \<and> same_text doc payload then ret candidate
       else
         bnd (case existing of
                None \<Rightarrow> ret ()
              | Some doc \<Rightarrow>
                  bnd (lift (decode_attempt P doc)) (\<lambda>old.
                  refuse (attempt_binding old \<noteq> attempt_binding attempt) ''operation_attempt_binding_conflict'')) (\<lambda>_.
         bnd (live_evidence P E st artifact attempt_payload ''attempt'') (\<lambda>_.
         bnd (modify_db (\<lambda>d. d\<lparr>db_attempts := upsert_row (st_workspace st, app, op) payload (db_attempts d)\<rparr>)) (\<lambda>_.
         ret candidate))))))))))"

definition create_attempt_if_absent :: "prims \<Rightarrow> env \<Rightarrow> exec_store \<Rightarrow> attempt live \<Rightarrow> attempt io" where
  "create_attempt_if_absent P E st artifact =
     bnd (reject_generic_when_orchestrated st) (\<lambda>_.
     let attempt = lv_body artifact; app = at_application_id attempt; op = at_operation_identity attempt in
     bnd (lift (attempt_with_digest P attempt)) (\<lambda>candidate.
     bnd (refuse (identity_workspace (at_identity attempt) \<noteq> st_workspace st) ''operation_attempt_binding_conflict'') (\<lambda>_.
     bnd (refuse (at_state attempt \<noteq> Applying \<or> at_failure_code attempt \<noteq> PNone) ''operation_attempt_claim_state_invalid'') (\<lambda>_.
     bnd (dump (attempt_doc candidate)) (\<lambda>payload.
     transaction E (
       bnd (reject_durable_managed P st app) (\<lambda>_.
       bnd (select_attempt st app op) (\<lambda>existing.
       bnd (refuse (existing \<noteq> None) ''operation_attempt_already_exists'') (\<lambda>_.
       bnd (live_evidence P E st artifact attempt_payload ''attempt'') (\<lambda>_.
       bnd (insert_attempt st app op payload) (\<lambda>_. ret candidate)))))))))))"

definition transition_attempt :: "prims \<Rightarrow> env \<Rightarrow> exec_store \<Rightarrow> pyval \<Rightarrow> attempt live \<Rightarrow> attempt io" where
  "transition_attempt P E st expected_digest artifact =
     bnd (reject_generic_when_orchestrated st) (\<lambda>_.
     let candidate = lv_body artifact; app = at_application_id candidate; op = at_operation_identity candidate in
     bnd (lift (attempt_with_digest P candidate)) (\<lambda>stored.
     bnd (refuse (identity_workspace (at_identity candidate) \<noteq> st_workspace st) ''operation_attempt_binding_conflict'') (\<lambda>_.
     transaction E (
       bnd (reject_durable_managed P st app) (\<lambda>_.
       bnd (select_attempt st app op) (\<lambda>row.
       bnd (present ''operation_attempt_not_found'' row) (\<lambda>doc.
       bnd (lift (decode_attempt P doc)) (\<lambda>previous.
       bnd (lift (attempt_verify P previous)) (\<lambda>intact.
       bnd (refuse (\<not> intact \<or> at_digest previous \<noteq> expected_digest) ''attempt_state_stale'') (\<lambda>_.
       bnd (lift (validate_attempt_transition previous candidate)) (\<lambda>_.
       bnd (live_evidence P E st artifact attempt_payload ''attempt'') (\<lambda>_.
       bnd (refuse ((attempt_binding previous, at_started_at previous) \<noteq> (attempt_binding candidate, at_started_at candidate))
              ''operation_attempt_binding_conflict'') (\<lambda>_.
       bnd (dump (attempt_doc stored)) (\<lambda>payload.
       bnd (update_attempt st app op payload) (\<lambda>_. ret stored)))))))))))))))"

text \<open>The first durable receipt with a given receipt identifier.\<close>

fun find_receipt :: "prims \<Rightarrow> string \<Rightarrow> pyval list \<Rightarrow> operation_receipt option res" where
  "find_receipt P receipt_id [] = Inr None"
| "find_receipt P receipt_id (doc # docs) =
     rbind (decode_operation_receipt P doc) (\<lambda>r.
       if or_receipt_id r = receipt_id then Inr (Some r) else find_receipt P receipt_id docs)"

definition appended_receipt ::
  "prims \<Rightarrow> exec_store \<Rightarrow> exec_context \<Rightarrow> exec_state \<Rightarrow> exec_state \<Rightarrow> unit io" where
  "appended_receipt P st ctx previous candidate =
     bnd (view (\<lambda>w. map snd (filter (\<lambda>r. fst (fst r) = st_workspace st \<and> fst (snd (fst r)) = es_application_id candidate)
            (db_operation_receipts (w_db w))))) (\<lambda>docs.
     bnd (lift (find_receipt P (last (es_refs candidate)) docs)) (\<lambda>found.
     bnd (lift (of_option (ValueError ''application_progress_invalid'') found)) (\<lambda>appended.
     bnd (lift (operation_receipt_verify P appended)) (\<lambda>intact.
     bnd (refuse (\<not> intact \<or> id_values (or_identity appended) \<noteq> id_values (es_identity candidate) \<or>
                  or_index appended \<noteq> int (es_next previous)) ''application_progress_invalid'') (\<lambda>_.
     bnd (refuse (length (cx_operations ctx) \<le> es_next previous) ''application_progress_invalid'') (\<lambda>_.
     bnd (lift (operation_identity P (es_application_id candidate) (int (es_next previous))
                  (operation_doc (cx_operations ctx ! es_next previous)))) (\<lambda>op_id.
     refuse (or_operation_identity appended \<noteq> op_id) ''application_progress_invalid'')))))))"

definition transition_execution :: "prims \<Rightarrow> env \<Rightarrow> exec_store \<Rightarrow> pyval \<Rightarrow> exec_state live \<Rightarrow> exec_state io" where
  "transition_execution P E st expected_digest artifact =
     bnd (reject_generic_when_orchestrated st) (\<lambda>_.
     let candidate = lv_body artifact; app = es_application_id candidate in
     bnd (lift (exec_state_with_digest P candidate)) (\<lambda>stored.
     bnd (refuse (identity_workspace (es_identity candidate) \<noteq> st_workspace st) ''application_binding_conflict'') (\<lambda>_.
     transaction E (
       bnd (reject_durable_managed P st app) (\<lambda>_.
       bnd (select_execution st app) (\<lambda>row.
       bnd (present ''application_not_found'' row) (\<lambda>doc.
       bnd (lift (decode_exec_state P doc)) (\<lambda>previous.
       bnd (lift (exec_state_verify P previous)) (\<lambda>intact.
       bnd (refuse (\<not> intact \<or> es_digest previous \<noteq> expected_digest) ''application_state_stale'') (\<lambda>_.
       bnd (refuse (es_state candidate = Applied) ''application_finalization_required'') (\<lambda>_.
       bnd (lift (validate_application_transition previous candidate)) (\<lambda>_.
       bnd (live_evidence P E st artifact exec_state_payload ''execution'') (\<lambda>ctx.
       bnd (if es_next candidate = Suc (es_next previous) then appended_receipt P st ctx previous candidate else ret ()) (\<lambda>_.
       bnd (dump (exec_state_doc stored)) (\<lambda>payload.
       bnd (update_execution st app payload) (\<lambda>_. ret stored))))))))))))))))"

definition record_operation_receipt :: "prims \<Rightarrow> env \<Rightarrow> exec_store \<Rightarrow> operation_receipt live \<Rightarrow> operation_receipt io" where
  "record_operation_receipt P E st artifact =
     bnd (reject_generic_when_orchestrated st) (\<lambda>_.
     let receipt = lv_body artifact; app = or_application_id receipt; op = or_operation_identity receipt in
     bnd (refuse (identity_workspace (or_identity receipt) \<noteq> st_workspace st) ''workspace_mismatch'') (\<lambda>_.
     bnd (lift (operation_receipt_with_digest P receipt)) (\<lambda>candidate.
     bnd (dump (operation_receipt_doc candidate)) (\<lambda>payload.
     transaction E (
       bnd (reject_durable_managed P st app) (\<lambda>_.
       bnd (select_operation_receipt st app op) (\<lambda>existing.
       bnd (case existing of
              None \<Rightarrow> bnd (live_evidence P E st artifact operation_receipt_payload ''operation_receipt'') (\<lambda>_. ret ())
            | Some doc \<Rightarrow> refuse (\<not> same_text doc payload) ''receipt_binding_conflict'') (\<lambda>_.
       bnd (modify_db (\<lambda>d. d\<lparr>db_operation_receipts :=
              ignore_row (st_workspace st, app, op) payload (db_operation_receipts d)\<rparr>)) (\<lambda>_.
       ret candidate)))))))))"

definition record_application_receipt :: "prims \<Rightarrow> env \<Rightarrow> exec_store \<Rightarrow> application_receipt live \<Rightarrow> application_receipt io" where
  "record_application_receipt P E st artifact =
     bnd (reject_generic_when_orchestrated st) (\<lambda>_.
     let receipt = lv_body artifact; app = ar_application_id receipt in
     bnd (refuse (identity_workspace (ar_identity receipt) \<noteq> st_workspace st) ''workspace_mismatch'') (\<lambda>_.
     bnd (lift (application_receipt_with_digest P receipt)) (\<lambda>candidate.
     bnd (dump (application_receipt_doc candidate)) (\<lambda>payload.
     transaction E (
       bnd (reject_durable_managed P st app) (\<lambda>_.
       bnd (select_application_receipt st app) (\<lambda>existing.
       bnd (case existing of
              None \<Rightarrow> bnd (live_evidence P E st artifact application_receipt_payload ''application_receipt'') (\<lambda>_. ret ())
            | Some doc \<Rightarrow> refuse (\<not> same_text doc payload) ''receipt_binding_conflict'') (\<lambda>_.
       bnd (modify_db (\<lambda>d. d\<lparr>db_application_receipts :=
              ignore_row (st_workspace st, app) payload (db_application_receipts d)\<rparr>)) (\<lambda>_.
       ret candidate)))))))))"

section \<open>Runs of the statements\<close>

definition after_others :: "env \<Rightarrow> world \<Rightarrow> world" where
  "after_others E w = w\<lparr>w_db := env_others E (w_tick w) (w_db w), w_tick := Suc (w_tick w)\<rparr>"

lemma settle_others_run [run_simps]: "settle_others E w = (Inr u, w') \<longleftrightarrow> w' = after_others E w"
  by (auto simp: settle_others_def after_others_def)

lemma atomic_run [run_simps]:
  "atomic m w = (Inr x, w') \<longleftrightarrow> (\<exists>v. m w = (Inr x, v) \<and> w' = commit (w_db w) v)"
  by (auto simp: atomic_def split: prod.splits sum.splits)

lemma transaction_run [run_simps]:
  "transaction E m w = (Inr x, w') \<longleftrightarrow> (\<exists>v. m (after_others E w) = (Inr x, v) \<and> w' = commit (w_db (after_others E w)) v)"
  by (simp add: transaction_def run_simps)

lemma transaction_fails: "transaction E m w = (Inl e, w') \<Longrightarrow> w_db w' = env_others E (w_tick w) (w_db w)"
  by (auto simp: transaction_def bnd_def settle_others_def atomic_def split: prod.splits sum.splits)

lemma modify_db_res_run:
  "modify_db_res f w = (Inr u, w') \<longleftrightarrow> (\<exists>d. f (w_db w) = Inr d \<and> w' = w\<lparr>w_db := d\<rparr>)"
  by (auto simp: modify_db_res_def split: sum.splits)

lemma insert_run [run_simps]:
  "insert_execution st app doc w = (Inr u, w') \<longleftrightarrow>
     (\<exists>t. insert_row (st_workspace st, app) doc (db_executions (w_db w)) = Inr t \<and>
        w' = w\<lparr>w_db := (w_db w)\<lparr>db_executions := t\<rparr>\<rparr>)"
  "insert_attempt st app op doc w = (Inr u, w') \<longleftrightarrow>
     (\<exists>t. insert_row (st_workspace st, app, op) doc (db_attempts (w_db w)) = Inr t \<and>
        w' = w\<lparr>w_db := (w_db w)\<lparr>db_attempts := t\<rparr>\<rparr>)"
  "insert_operation_receipt st app op doc w = (Inr u, w') \<longleftrightarrow>
     (\<exists>t. insert_row (st_workspace st, app, op) doc (db_operation_receipts (w_db w)) = Inr t \<and>
        w' = w\<lparr>w_db := (w_db w)\<lparr>db_operation_receipts := t\<rparr>\<rparr>)"
  "insert_application_receipt st app doc w = (Inr u, w') \<longleftrightarrow>
     (\<exists>t. insert_row (st_workspace st, app) doc (db_application_receipts (w_db w)) = Inr t \<and>
        w' = w\<lparr>w_db := (w_db w)\<lparr>db_application_receipts := t\<rparr>\<rparr>)"
  by (auto simp: insert_execution_def insert_attempt_def insert_operation_receipt_def insert_application_receipt_def
      modify_db_res_run rbind_Inr)

lemma update_run [run_simps]:
  "update_execution st app doc w = (Inr u, w') \<longleftrightarrow>
     w' = w\<lparr>w_db := (w_db w)\<lparr>db_executions := update_row (st_workspace st, app) doc (db_executions (w_db w))\<rparr>\<rparr>"
  "update_attempt st app op doc w = (Inr u, w') \<longleftrightarrow>
     w' = w\<lparr>w_db := (w_db w)\<lparr>db_attempts := update_row (st_workspace st, app, op) doc (db_attempts (w_db w))\<rparr>\<rparr>"
  by (auto simp: update_execution_def update_attempt_def modify_db_def)

lemma select_run [run_simps]:
  "select_execution st app w = (Inr row, w') \<longleftrightarrow>
     row = select_row (st_workspace st, app) (db_executions (w_db w)) \<and> w' = w"
  "select_attempt st app op w = (Inr row, w') \<longleftrightarrow>
     row = select_row (st_workspace st, app, op) (db_attempts (w_db w)) \<and> w' = w"
  "select_operation_receipt st app op w = (Inr row, w') \<longleftrightarrow>
     row = select_row (st_workspace st, app, op) (db_operation_receipts (w_db w)) \<and> w' = w"
  "select_application_receipt st app w = (Inr row, w') \<longleftrightarrow>
     row = select_row (st_workspace st, app) (db_application_receipts (w_db w)) \<and> w' = w"
  by (auto simp: select_execution_def select_attempt_def select_operation_receipt_def select_application_receipt_def)

lemma present_run [run_simps]: "present code row w = (Inr doc, w') \<longleftrightarrow> row = Some doc \<and> w' = w"
  by (auto simp: present_def of_option_def split: option.splits)

lemma dump_run [run_simps]: "dump doc w = (Inr v, w') \<longleftrightarrow> (\<exists>t. json_text doc = Inr t) \<and> v = doc \<and> w' = w"
  by (auto simp: dump_def rbind_Inr)

lemma now_not_before_run [run_simps]:
  "now_not_before now prior w = (Inr u, w') \<longleftrightarrow> require_clock_not_before (PStr now) prior = Inr () \<and> w' = w"
  by (auto simp: now_not_before_def)

lemma require_capability_run [run_simps]:
  "require_orchestration_capability st cap w = (Inr u, w') \<longleftrightarrow> capability_valid st cap \<and> w' = w"
  by (auto simp: require_orchestration_capability_def refuse_run)

lemma digest_run:
  "with_live_digest_state P ctx l w = (Inr l', w') \<Longrightarrow>
     exec_state_with_digest P (lv_body l) = Inr (lv_body l') \<and> quiet w w'"
  "with_live_digest_attempt P ctx m w = (Inr m', w') \<Longrightarrow>
     attempt_with_digest P (lv_body m) = Inr (lv_body m') \<and> quiet w w'"
  by (auto simp: with_live_digest_state_def with_live_digest_attempt_def run_simps quiet_def)

lemma quiet_after: "quiet w w' \<Longrightarrow> w_db w' = w_db w"
  by (simp add: quiet_def)

end
