(* ===== verification/Store_Runs.thy ===== *)
theory Store_Runs
  imports Execution_Store
begin

text \<open>
  What a successful managed operation of the execution store has checked and written: the rows it
  found after the writes of other processes, and the rows it left.  One elimination rule per
  operation; the abstract view of them is in \<open>Store_Refinement\<close>.
\<close>

lemma status_name_literal [simp]:
  "status_name s = ''Pending'' \<longleftrightarrow> s = Pending" "status_name s = ''Applying'' \<longleftrightarrow> s = Applying"
  "status_name s = ''PartiallyApplied'' \<longleftrightarrow> s = PartiallyApplied" "status_name s = ''Failed'' \<longleftrightarrow> s = Failed"
  "status_name s = ''Blocked'' \<longleftrightarrow> s = Blocked" "status_name s = ''OutcomeUnknown'' \<longleftrightarrow> s = OutcomeUnknown"
  "status_name s = ''Applied'' \<longleftrightarrow> s = Applied"
  by (cases s; simp)+

lemma integrity_Inr: "integrity code r = Inr x \<longleftrightarrow> r = Inr x"
  by (cases r) (auto simp: integrity_def split: exn.split)

section \<open>What successful managed operations do\<close>

definition operation_ids :: "prims \<Rightarrow> string \<Rightarrow> write_op list \<Rightarrow> string list res" where
  "operation_ids P app ops =
     sequence (map (\<lambda>i. operation_identity P app (int i) (operation_doc (ops ! i))) [0..<length ops])"

lemma operation_ids_Inr:
  assumes "operation_ids P app ops = Inr ids"
  shows "length ids = length ops"
    "i < length ops \<Longrightarrow> operation_identity P app (int i) (operation_doc (ops ! i)) = Inr (ids ! i)"
proof -
  have *: "map (\<lambda>i. operation_identity P app (int i) (operation_doc (ops ! i))) [0..<length ops] = map Inr ids"
    using assms by (simp add: operation_ids_def sequence_Inr)
  then show len: "length ids = length ops" using map_eq_imp_length_eq [OF *] by simp
  show "operation_identity P app (int i) (operation_doc (ops ! i)) = Inr (ids ! i)" if "i < length ops"
    using arg_cong [OF *, of "\<lambda>xs. xs ! i"] that len by simp
qed

text \<open>
  The rows of one application after a claim: \<open>prev\<close> is the state before, \<open>s\<close> and \<open>a\<close> the claim.
\<close>

lemma claim_next_operation_run:
  assumes run: "claim_next_operation P E st cap app dig ctx owner now w = (Inr (s, a), w')" and ok: "context_ok P ctx"
  obtains t doc prev rows where
    "capability_valid st cap" "w_contexts w (cx_id ctx) = Some ctx" "app = id_application_id (cx_identity ctx)"
    "select_row (st_workspace st, app) (db_executions (env_others E t (w_db w))) = Some doc"
    "decode_exec_state P doc = Inr prev" "es_managed prev" "exec_state_verify P prev = Inr True" "es_digest prev = dig"
    "es_state prev \<in> {Pending, PartiallyApplied}" "es_owner prev = PNone" "es_attempt prev = PNone"
    "es_next prev < length (cx_operations ctx)"
    "exec_state_ok P s" "exec_state_verify P s = Inr True" "es_state s = Applying" "es_owner s = PStr owner"
    "es_attempt s = PStr (at_operation_identity a)" "es_next s = es_next prev" "es_refs s = es_refs prev" "es_managed s"
    "es_application_id s = app" "es_identity s = cx_identity ctx" "es_started_at s = es_started_at prev" "es_updated_at s = PStr now"
    "attempt_ok P a" "attempt_verify P a = Inr True" "at_state a = Applying" "at_index a = es_next prev"
    "at_application_id a = app" "at_identity a = cx_identity ctx"
    "operation_identity P app (int (es_next prev)) (operation_doc (cx_operations ctx ! es_next prev)) = Inr (at_operation_identity a)"
    "insert_row (st_workspace st, app, at_operation_identity a) (attempt_doc a) (db_attempts (env_others E t (w_db w))) = Inr rows"
    "w_db w' = (env_others E t (w_db w))\<lparr>db_attempts := rows,
       db_executions := update_row (st_workspace st, app) (exec_state_doc s) (db_executions (env_others E t (w_db w)))\<rparr>"
    "w_sent w' = w_sent w" "w_commits w' = w_commits w @ [(env_others E t (w_db w), w_db w')]"
proof -
  obtain w1 doc prev w2 la w3 ls w4 w5 rows where cap: "capability_valid st cap"
    and v: "validate_execution_context P E (service_of st) ctx w = (Inr (), w1)"
    and app: "app = id_application_id (cx_identity ctx)"
    and row: "select_row (st_workspace st, app) (db_executions (w_db (after_others E w1))) = Some doc"
    and prev: "decode_exec_state P doc = Inr prev" "es_managed prev" "exec_state_verify P prev = Inr True" "es_digest prev = dig"
    "es_state prev \<in> {Pending, PartiallyApplied}" "es_owner prev = PNone" "es_attempt prev = PNone"
    "es_next prev < length (cx_operations ctx)"
    and na: "new_attempt P E ctx (es_next prev)
              [(''state'', PStr ''Applying''), (''started_at'', PStr now), (''updated_at'', PStr now)] (after_others E w1) = (Inr la, w2)"
    and cs: "continue_execution_state P E ctx prev
              [(''state'', PStr ''Applying''), (''owner_id'', PStr owner),
               (''current_attempt_id'', PStr (at_operation_identity (lv_body la))), (''updated_at'', PStr now)] w2 = (Inr ls, w3)"
    and v1: "validate_live_artifact P E (service_of st) la attempt_payload ctx ''attempt'' w3 = (Inr (), w4)"
    and v2: "validate_live_artifact P E (service_of st) ls exec_state_payload ctx ''execution'' w4 = (Inr (), w5)"
    and sd: "attempt_with_digest P (lv_body la) = Inr a" "exec_state_with_digest P (lv_body ls) = Inr s"
    and ins: "insert_row (st_workspace st, at_application_id a, at_operation_identity a) (attempt_doc a) (db_attempts (w_db w5)) = Inr rows"
    and w': "w' = commit (w_db (after_others E w1)) (w5\<lparr>w_db := (w_db w5)\<lparr>db_attempts := rows,
       db_executions := update_row (st_workspace st, app) (exec_state_doc s) (db_executions (w_db w5))\<rparr>\<rparr>)"
    using run unfolding claim_next_operation_def
    by (auto simp: run_simps)
  note v' = validate_execution_context_run [OF v]
  note a' = new_attempt_run [OF na]
  note s' = continue_execution_state_run [OF cs]
  have q: "quiet w3 w4" "quiet w4 w5"
    by (rule moves_run [OF quiet_validate_live v1], rule moves_run [OF quiet_validate_live v2])
  then have db: "w_db w5 = env_others E (w_tick w1) (w_db w)" "w_sent w5 = w_sent w" "w_commits w5 = w_commits w"
    using v'(4) a'(1) s'(1) by (simp_all add: quiet_def after_others_def)
  obtain d e where a: "a = (lv_body la)\<lparr>at_digest := d\<rparr>" and s: "s = (lv_body ls)\<lparr>es_digest := e\<rparr>"
    using sd by (auto simp: attempt_with_digest_Inr exec_state_with_digest_Inr)
  have fields: "at_state a = Applying" "at_index a = es_next prev" "at_application_id a = app" "at_identity a = cx_identity ctx"
      "at_operation_identity a = at_operation_identity (lv_body la)" "attempt_ok P a"
    using a'(5-7,8,10) a'(15) [OF ok] app by (simp_all add: a)
  have sfields: "es_state s = Applying" "es_owner s = PStr owner"
    "es_attempt s = PStr (at_operation_identity a)" "es_next s = es_next prev" "es_refs s = es_refs prev" "es_managed s"
    "es_application_id s = app" "es_identity s = cx_identity ctx" "es_started_at s = es_started_at prev" "es_updated_at s = PStr now"
    "exec_state_ok P s"
    using s'(8,10-12,14-17,19,20) s'(22) [OF ok] app prev(2) fields(5) by (auto simp: s changed_def)
  show ?thesis
    by (rule that [of "w_tick w1" doc prev rows]; (fact cap app prev fields sfields)?)
      (use row ins w' db v' a'(8) sd fields app in
        \<open>simp_all add: after_others_def attempt_with_digest_verify exec_state_with_digest_verify\<close>)
qed

lemma create_execution_if_absent_run:
  assumes run: "create_execution_if_absent P E st cap artifact w = (Inr s, w')"
    and ok: "exec_state_ok P (lv_body artifact)"
  obtains (existing) t doc where
    "capability_valid st cap"
    "select_row (st_workspace st, es_application_id (lv_body artifact)) (db_executions (env_others E t (w_db w))) = Some doc"
    "decode_exec_state P doc = Inr s" "es_managed s" "exec_state_verify P s = Inr True"
    "id_values (es_identity s) = id_values (es_identity (lv_body artifact))"
    "w_db w' = env_others E t (w_db w)" "w_sent w' = w_sent w"
  | (created) t rows where
    "capability_valid st cap" "exec_state_ok P s" "exec_state_verify P s = Inr True" "es_managed s = es_managed (lv_body artifact)"
    "es_state s = Pending" "es_next s = 0" "es_owner s = PNone" "es_attempt s = PNone" "es_refs s = []"
    "es_application_id s = es_application_id (lv_body artifact)" "es_identity s = es_identity (lv_body artifact)"
    "insert_row (st_workspace st, es_application_id (lv_body artifact)) (exec_state_doc s) (db_executions (env_others E t (w_db w))) = Inr rows"
    "w_db w' = (env_others E t (w_db w))\<lparr>db_executions := rows\<rparr>" "w_sent w' = w_sent w"
    "s = (lv_body artifact)\<lparr>es_digest := es_digest s\<rparr>"
proof -
  let ?st = "lv_body artifact"
  obtain ctx w1 candidate where cap: "capability_valid st cap"
    and init: "es_state ?st = Pending" "es_next ?st = 0" "es_owner ?st = PNone" "es_attempt ?st = PNone" "es_refs ?st = []"
    and v: "validate_live_artifact P E (service_of st) artifact exec_state_payload ctx ''execution'' w = (Inr (), w1)"
    and c: "exec_state_with_digest P ?st = Inr candidate"
    and tr: "(case select_row (st_workspace st, es_application_id ?st) (db_executions (w_db (after_others E w1))) of
         None \<Rightarrow> \<exists>rows. insert_row (st_workspace st, es_application_id ?st) (exec_state_doc candidate)
                   (db_executions (w_db (after_others E w1))) = Inr rows \<and> s = candidate \<and>
                 w' = commit (w_db (after_others E w1)) ((after_others E w1)\<lparr>w_db := (w_db (after_others E w1))\<lparr>db_executions := rows\<rparr>\<rparr>)
       | Some doc \<Rightarrow> decode_exec_state P doc = Inr s \<and> es_managed s \<and> exec_state_verify P s = Inr True \<and>
           id_values (es_identity s) = id_values (es_identity candidate) \<and>
           w' = commit (w_db (after_others E w1)) (after_others E w1))"
    using run unfolding create_execution_if_absent_def Let_def
    by (auto simp: run_simps split: option.splits)
  have q: "quiet w w1" by (rule moves_run [OF quiet_validate_live v])
  then have db: "w_db (after_others E w1) = env_others E (w_tick w1) (w_db w)" "w_sent (after_others E w1) = w_sent w"
    by (simp_all add: quiet_def after_others_def)
  obtain d where cand: "candidate = ?st\<lparr>es_digest := d\<rparr>" using c by (auto simp: exec_state_with_digest_Inr)
  show ?thesis
  proof (cases "select_row (st_workspace st, es_application_id ?st) (db_executions (w_db (after_others E w1)))")
    case None
    then obtain rows where r: "insert_row (st_workspace st, es_application_id ?st) (exec_state_doc candidate)
        (db_executions (w_db (after_others E w1))) = Inr rows" "s = candidate"
        "w' = commit (w_db (after_others E w1)) ((after_others E w1)\<lparr>w_db := (w_db (after_others E w1))\<lparr>db_executions := rows\<rparr>\<rparr>)"
      using tr by auto
    have "exec_state_ok P s" "exec_state_verify P s = Inr True"
      using ok c r(2) cand exec_state_with_digest_verify by auto
    then show ?thesis
      using r db cap init cand by (intro created [of "w_tick w1" rows]) simp_all
  next
    case (Some doc)
    then show ?thesis
      using tr db cap cand by (intro existing [of "w_tick w1" doc]) simp_all
  qed
qed

lemma claimed_rows_run:
  assumes "claimed_rows P st app sd aid ad owner w = (Inr (prev, attempt), w')"
  obtains doc row where "w' = w"
    "select_row (st_workspace st, app) (db_executions (w_db w)) = Some doc" "decode_exec_state P doc = Inr prev"
    "select_row (st_workspace st, app, aid) (db_attempts (w_db w)) = Some row" "decode_attempt P row = Inr attempt"
    "es_managed prev" "exec_state_verify P prev = Inr True" "es_digest prev = sd" "es_state prev = Applying"
    "es_owner prev = PStr owner" "es_attempt prev = PStr aid"
    "attempt_verify P attempt = Inr True" "at_digest attempt = ad" "at_state attempt = Applying"
  using assms unfolding claimed_rows_def by (auto simp: run_simps)

lemma complete_operation_success_run:
  assumes run: "complete_operation_success P E st cap app sd aid ad owner ctx receipt now w = (Inr s, w')"
    and ok: "context_ok P ctx" and rok: "operation_receipt_ok P (lv_body receipt)"
  obtains t doc row prev attempt a r rows where
    "capability_valid st cap" "w_contexts w (cx_id ctx) = Some ctx" "es_application_id prev = id_application_id (cx_identity ctx)"
    "select_row (st_workspace st, app) (db_executions (env_others E t (w_db w))) = Some doc" "decode_exec_state P doc = Inr prev"
    "select_row (st_workspace st, app, aid) (db_attempts (env_others E t (w_db w))) = Some row" "decode_attempt P row = Inr attempt"
    "es_managed prev" "exec_state_verify P prev = Inr True" "es_digest prev = sd" "es_state prev = Applying"
    "es_owner prev = PStr owner" "es_attempt prev = PStr aid"
    "attempt_verify P attempt = Inr True" "at_digest attempt = ad" "at_state attempt = Applying"
    "at_index attempt < length (cx_operations ctx)"
    "operation_identity P (es_application_id prev) (int (at_index attempt)) (operation_doc (cx_operations ctx ! at_index attempt)) =
       Inr (at_operation_identity attempt)"
    "operation_receipt_ok P r" "operation_receipt_verify P r = Inr True" "or_application_id r = app"
    "or_index r = int (at_index attempt)" "or_operation_identity r = at_operation_identity attempt"
    "exec_state_ok P s" "exec_state_verify P s = Inr True" "es_state s = PartiallyApplied" "es_owner s = PNone"
    "es_attempt s = PNone" "es_next s = Suc (es_next prev)" "es_refs s = es_refs prev @ [or_receipt_id r]" "es_managed s"
    "es_application_id s = es_application_id prev" "es_identity s = cx_identity ctx"
    "attempt_ok P a" "attempt_verify P a = Inr True" "at_state a = Applied" "at_index a = at_index attempt"
    "at_operation_identity a = at_operation_identity attempt" "at_application_id a = at_application_id attempt" "at_application_id attempt = es_application_id prev"
    "insert_row (st_workspace st, app, at_operation_identity attempt) (operation_receipt_doc r)
       (db_operation_receipts (env_others E t (w_db w))) = Inr rows"
    "w_db w' = (env_others E t (w_db w))\<lparr>db_operation_receipts := rows,
       db_attempts := update_row (st_workspace st, app, aid) (attempt_doc a) (db_attempts (env_others E t (w_db w))),
       db_executions := update_row (st_workspace st, app) (exec_state_doc s) (db_executions (env_others E t (w_db w)))\<rparr>"
    "w_sent w' = w_sent w"
proof -
  let ?r = "lv_body receipt"
  obtain w1 prev attempt w2 r la w4 la' w5 ls w6 ls' w7 w8 w9 w3 rows where
    cap: "capability_valid st cap"
    and v: "validate_execution_context P E (service_of st) ctx w = (Inr (), w1)"
    and rows: "claimed_rows P st app sd aid ad owner (after_others E w1) = (Inr (prev, attempt), w2)"
    and bind: "or_application_id ?r = app" "or_index ?r = int (at_index attempt)" "or_operation_identity ?r = at_operation_identity attempt"
    and vr: "validate_live_artifact P E (service_of st) receipt operation_receipt_payload ctx ''operation_receipt'' w2 = (Inr (), w3)"
    and r: "operation_receipt_with_digest P ?r = Inr r"
    and ca: "continue_attempt P E ctx attempt [(''state'', PStr ''Applied''), (''updated_at'', PStr now)] w3 = (Inr la, w4)"
    and la: "with_live_digest_attempt P ctx la w4 = (Inr la', w5)"
    and cs: "continue_execution_state P E ctx prev
              [(''state'', PStr ''PartiallyApplied''), (''next_operation_index'', PInt (int (es_next prev) + 1)),
               (''operation_receipt_refs'', PTuple (map PStr (es_refs prev @ [or_receipt_id r]))),
               (''owner_id'', PNone), (''current_attempt_id'', PNone), (''updated_at'', PStr now)] w5 = (Inr ls, w6)"
    and ls: "with_live_digest_state P ctx ls w6 = (Inr ls', w7)"
    and va: "validate_live_artifact P E (service_of st) la' attempt_payload ctx ''attempt'' w7 = (Inr (), w8)"
    and vs: "validate_live_artifact P E (service_of st) ls' exec_state_payload ctx ''execution'' w8 = (Inr (), w9)"
    and ins: "insert_row (st_workspace st, app, or_operation_identity r) (operation_receipt_doc r)
                (db_operation_receipts (w_db w9)) = Inr rows"
    and w': "w' = commit (w_db (after_others E w1)) (w9\<lparr>w_db := (w_db w9)\<lparr>db_operation_receipts := rows,
       db_attempts := update_row (st_workspace st, app, aid) (attempt_doc (lv_body la')) (db_attempts (w_db w9)),
       db_executions := update_row (st_workspace st, app) (exec_state_doc (lv_body ls')) (db_executions (w_db w9))\<rparr>\<rparr>)"
    and s: "s = lv_body ls'"
    using run unfolding complete_operation_success_def Let_def by (auto simp: run_simps)
  obtain doc row where c: "w2 = after_others E w1"
    "select_row (st_workspace st, app) (db_executions (w_db (after_others E w1))) = Some doc" "decode_exec_state P doc = Inr prev"
    "select_row (st_workspace st, app, aid) (db_attempts (w_db (after_others E w1))) = Some row" "decode_attempt P row = Inr attempt"
    "es_managed prev" "exec_state_verify P prev = Inr True" "es_digest prev = sd" "es_state prev = Applying"
    "es_owner prev = PStr owner" "es_attempt prev = PStr aid"
    "attempt_verify P attempt = Inr True" "at_digest attempt = ad" "at_state attempt = Applying" using claimed_rows_run [OF rows] by blast
  note v' = validate_execution_context_run [OF v]
  note a' = continue_attempt_run [OF ca]
  note s' = continue_execution_state_run [OF cs]
  note da = digest_run(2) [OF la] and ds = digest_run(1) [OF ls]
  have "quiet w2 w3" "quiet w7 w8" "quiet w8 w9"
    by (rule moves_run [OF quiet_validate_live vr] moves_run [OF quiet_validate_live va] moves_run [OF quiet_validate_live vs])+
  then have db: "w_db w9 = env_others E (w_tick w1) (w_db w)" "w_sent w9 = w_sent w"
    using v'(4) a'(1) s'(1) da ds c(1) by (simp_all add: quiet_def after_others_def)
  have db1: "w_db (after_others E w1) = env_others E (w_tick w1) (w_db w)"
    using v'(4) by (simp add: after_others_def)
  obtain d e f where la': "lv_body la' = (lv_body la)\<lparr>at_digest := d\<rparr>" and ls': "lv_body ls' = (lv_body ls)\<lparr>es_digest := e\<rparr>"
      and r': "r = ?r\<lparr>or_digest := f\<rparr>"
    using da ds r by (auto simp: attempt_with_digest_Inr exec_state_with_digest_Inr operation_receipt_with_digest_Inr)
  have af: "at_state (lv_body la') = Applied" "at_index (lv_body la') = at_index attempt"
      "at_operation_identity (lv_body la') = at_operation_identity attempt" "at_application_id (lv_body la') = at_application_id attempt"
      "attempt_ok P (lv_body la')" "attempt_verify P (lv_body la') = Inr True"
    using a'(8-10,14) a'(17) [OF decode_attempt_ok [OF c(5)] ok] da attempt_with_digest_verify by (auto simp: la' changed_def)
  have "map PStr (es_refs (lv_body ls)) = map PStr (es_refs prev @ [or_receipt_id r])"
    using s'(19) by (auto simp: changed_def simp del: map_PStr_inject)
  then have refs: "es_refs (lv_body ls) = es_refs prev @ [or_receipt_id r]"
    by (simp only: map_PStr_inject)
  have sf: "es_state s = PartiallyApplied" "es_owner s = PNone" "es_attempt s = PNone" "es_next s = Suc (es_next prev)"
      "es_refs s = es_refs prev @ [or_receipt_id r]" "es_managed s" "es_application_id s = es_application_id prev"
      "es_identity s = cx_identity ctx" "exec_state_ok P s" "exec_state_verify P s = Inr True"
    using refs s'(6,8,10,11,14-17) s'(22) [OF ok] ds c(6) exec_state_with_digest_verify by (auto simp: s ls' changed_def)
  have rf: "operation_receipt_ok P r" "operation_receipt_verify P r = Inr True" "or_application_id r = app"
      "or_index r = int (at_index attempt)" "or_operation_identity r = at_operation_identity attempt"
    using rok bind r r' operation_receipt_with_digest_verify by auto
  have rest: "at_application_id attempt = es_application_id prev" "at_index attempt < length (cx_operations ctx)"
    "operation_identity P (es_application_id prev) (int (at_index attempt)) (operation_doc (cx_operations ctx ! at_index attempt)) =
       Inr (at_operation_identity attempt)" "es_application_id prev = id_application_id (cx_identity ctx)"
    using a'(5,6,7) s'(6) decode_attempt_ok [OF c(5)] by (auto simp: attempt_ok_def)
  show ?thesis
    by (rule that [of prev "w_tick w1" doc row attempt r "lv_body la'" rows];
        (fact cap c(3,5-14) rf af sf rest v'(1))?)
      (use c(2,4) db db1 ins w' rf in \<open>simp_all add: s\<close>)
qed

lemma settle_operation_run:
  assumes run: "settle_operation P E st cap app sd aid ad owner ctx target code now w = (Inr s, w')"
    and ok: "context_ok P ctx"
  obtains t doc row prev attempt a where
    "capability_valid st cap" "w_contexts w (cx_id ctx) = Some ctx" "es_application_id prev = id_application_id (cx_identity ctx)"
    "target \<in> {Failed, Blocked, OutcomeUnknown}"
    "select_row (st_workspace st, app) (db_executions (env_others E t (w_db w))) = Some doc" "decode_exec_state P doc = Inr prev"
    "select_row (st_workspace st, app, aid) (db_attempts (env_others E t (w_db w))) = Some row" "decode_attempt P row = Inr attempt"
    "es_managed prev" "exec_state_verify P prev = Inr True" "es_digest prev = sd" "es_state prev = Applying"
    "es_owner prev = PStr owner" "es_attempt prev = PStr aid"
    "attempt_verify P attempt = Inr True" "at_digest attempt = ad" "at_state attempt = Applying"
    "exec_state_ok P s" "exec_state_verify P s = Inr True" "es_state s = target" "es_owner s = PNone"
    "es_attempt s = PStr aid" "es_recovery s = code" "es_next s = es_next prev" "es_refs s = es_refs prev" "es_managed s"
    "es_application_id s = es_application_id prev" "es_identity s = cx_identity ctx"
    "attempt_ok P a" "attempt_verify P a = Inr True" "at_state a = target" "at_index a = at_index attempt"
    "at_operation_identity a = at_operation_identity attempt" "at_application_id a = at_application_id attempt"
    "at_application_id attempt = es_application_id prev"
    "w_db w' = (env_others E t (w_db w))\<lparr>
       db_attempts := update_row (st_workspace st, app, aid) (attempt_doc a) (db_attempts (env_others E t (w_db w))),
       db_executions := update_row (st_workspace st, app) (exec_state_doc s) (db_executions (env_others E t (w_db w)))\<rparr>"
    "w_sent w' = w_sent w"
proof -
  obtain w1 prev attempt w2 la w4 la' w5 ls w6 ls' w7 w8 w9 where
    cap: "capability_valid st cap" and target: "target \<in> {Failed, Blocked, OutcomeUnknown}"
    and v: "validate_execution_context P E (service_of st) ctx w = (Inr (), w1)"
    and rows: "claimed_rows P st app sd aid ad owner (after_others E w1) = (Inr (prev, attempt), w2)"
    and ca: "continue_attempt P E ctx attempt
              [(''state'', PStr (status_name target)), (''updated_at'', PStr now), (''failure_code'', code)] w2 = (Inr la, w4)"
    and la: "with_live_digest_attempt P ctx la w4 = (Inr la', w5)"
    and cs: "continue_execution_state P E ctx prev
              [(''state'', PStr (status_name target)), (''owner_id'', PNone), (''recovery_code'', code), (''updated_at'', PStr now)]
              w5 = (Inr ls, w6)"
    and ls: "with_live_digest_state P ctx ls w6 = (Inr ls', w7)"
    and va: "validate_live_artifact P E (service_of st) la' attempt_payload ctx ''attempt'' w7 = (Inr (), w8)"
    and vs: "validate_live_artifact P E (service_of st) ls' exec_state_payload ctx ''execution'' w8 = (Inr (), w9)"
    and w': "w' = commit (w_db (after_others E w1)) (w9\<lparr>w_db := (w_db w9)\<lparr>
       db_attempts := update_row (st_workspace st, app, aid) (attempt_doc (lv_body la')) (db_attempts (w_db w9)),
       db_executions := update_row (st_workspace st, app) (exec_state_doc (lv_body ls')) (db_executions (w_db w9))\<rparr>\<rparr>)"
    and s: "s = lv_body ls'"
    using run unfolding settle_operation_def Let_def by (auto simp: run_simps)
  obtain doc row where c: "w2 = after_others E w1"
    "select_row (st_workspace st, app) (db_executions (w_db (after_others E w1))) = Some doc" "decode_exec_state P doc = Inr prev"
    "select_row (st_workspace st, app, aid) (db_attempts (w_db (after_others E w1))) = Some row" "decode_attempt P row = Inr attempt"
    "es_managed prev" "exec_state_verify P prev = Inr True" "es_digest prev = sd" "es_state prev = Applying"
    "es_owner prev = PStr owner" "es_attempt prev = PStr aid"
    "attempt_verify P attempt = Inr True" "at_digest attempt = ad" "at_state attempt = Applying" 
    using claimed_rows_run [OF rows] by blast
  note v' = validate_execution_context_run [OF v]
  note a' = continue_attempt_run [OF ca]
  note s' = continue_execution_state_run [OF cs]
  note da = digest_run(2) [OF la] and ds = digest_run(1) [OF ls]
  have "quiet w7 w8" "quiet w8 w9"
    by (rule moves_run [OF quiet_validate_live va] moves_run [OF quiet_validate_live vs])+
  then have db: "w_db w9 = env_others E (w_tick w1) (w_db w)" "w_sent w9 = w_sent w"
    using v'(4) a'(1) s'(1) da ds c(1) by (simp_all add: quiet_def after_others_def)
  have db1: "w_db (after_others E w1) = env_others E (w_tick w1) (w_db w)"
    using v'(4) by (simp add: after_others_def)
  obtain d e where la': "lv_body la' = (lv_body la)\<lparr>at_digest := d\<rparr>" and ls': "lv_body ls' = (lv_body ls)\<lparr>es_digest := e\<rparr>"
    using da ds by (auto simp: attempt_with_digest_Inr exec_state_with_digest_Inr)
  have af: "at_state (lv_body la') = target" "at_index (lv_body la') = at_index attempt"
      "at_operation_identity (lv_body la') = at_operation_identity attempt" "at_application_id (lv_body la') = at_application_id attempt"
      "attempt_ok P (lv_body la')" "attempt_verify P (lv_body la') = Inr True"
    using a'(8-10,14) a'(17) [OF decode_attempt_ok [OF c(5)] ok] da attempt_with_digest_verify by (auto simp: la' changed_def)
  have sf: "es_state s = target" "es_owner s = PNone" "es_attempt s = PStr aid" "es_recovery s = code" "es_next s = es_next prev"
      "es_refs s = es_refs prev" "es_managed s" "es_application_id s = es_application_id prev"
      "es_identity s = cx_identity ctx" "exec_state_ok P s" "exec_state_verify P s = Inr True"
    using s'(6,8,10,11,14-19) s'(22) [OF ok] ds c(6,11) exec_state_with_digest_verify by (auto simp: s ls' changed_def)
  have rest: "at_application_id attempt = es_application_id prev" "es_application_id prev = id_application_id (cx_identity ctx)"
    using a'(5) s'(6) by simp_all
  show ?thesis
    by (rule that [of prev "w_tick w1" doc row attempt "lv_body la'"];
        (fact cap target c(3,5-14) af sf rest v'(1))?)
      (use c(2,4) db db1 w' in \<open>simp_all add: s\<close>)
qed

text \<open>The verified receipt of the operation at an index is in the database, and \<open>ref\<close> refers to it.\<close>

definition receipted :: "prims \<Rightarrow> string \<Rightarrow> string \<Rightarrow> database \<Rightarrow> nat \<Rightarrow> write_op \<Rightarrow> string \<times> pyval \<Rightarrow> bool" where
  "receipted P ws app d i op ref \<longleftrightarrow> (\<exists>op_id doc r.
     operation_identity P app (int i) (operation_doc op) = Inr op_id \<and>
     select_row (ws, app, op_id) (db_operation_receipts d) = Some doc \<and>
     decode_operation_receipt P doc = Inr r \<and> operation_receipt_verify P r = Inr True \<and> or_index r = int i \<and>
     ref = (or_receipt_id r, or_digest r))"

lemma finalization_refs_run:
  assumes "finalization_refs P st app now i ops w = (Inr refs, w')"
  shows "w' = w \<and> length refs = length ops \<and>
    (\<forall>j < length ops. receipted P (st_workspace st) app (w_db w) (i + j) (ops ! j) (refs ! j))"
  using assms
proof (induction ops arbitrary: i refs)
  case Nil
  then show ?case by (simp add: run_simps)
next
  case (Cons op ops)
  then obtain op_id doc r rs where "operation_identity P app (int i) (operation_doc op) = Inr op_id"
      "select_row (st_workspace st, app, op_id) (db_operation_receipts (w_db w)) = Some doc"
      "decode_operation_receipt P doc = Inr r" "operation_receipt_verify P r = Inr True" "or_index r = int i"
      and 1: "refs = (or_receipt_id r, or_digest r) # rs"
      and 2: "finalization_refs P st app now (Suc i) ops w = (Inr rs, w')"
    by (auto simp: run_simps)
  then have "receipted P (st_workspace st) app (w_db w) i op (or_receipt_id r, or_digest r)"
    unfolding receipted_def by blast
  have "receipted P (st_workspace st) app (w_db w) (i + j) ((op # ops) ! j) (refs ! j)" if "j < length (op # ops)" for j
    using Cons.IH [OF 2] 1 that \<open>receipted _ _ _ _ _ _ _\<close> by (cases j) auto
  then show ?case using Cons.IH [OF 2] 1 by simp
qed

lemma finalize_application_run:
  assumes run: "finalize_application P E st cap app sd ctx now w = (Inr s, w')" and ok: "context_ok P ctx"
  obtains t doc prev refs r rows where
    "capability_valid st cap" "w_contexts w (cx_id ctx) = Some ctx" "es_application_id prev = id_application_id (cx_identity ctx)"
    "select_row (st_workspace st, app) (db_executions (env_others E t (w_db w))) = Some doc" "decode_exec_state P doc = Inr prev"
    "es_managed prev" "exec_state_verify P prev = Inr True" "es_digest prev = sd" "es_state prev = PartiallyApplied"
    "es_owner prev = PNone" "es_attempt prev = PNone" "es_next prev = length (cx_operations ctx)"
    "length refs = length (cx_operations ctx)"
    "\<And>j. j < length (cx_operations ctx) \<Longrightarrow>
       receipted P (st_workspace st) app (env_others E t (w_db w)) j (cx_operations ctx ! j) (refs ! j)"
    "application_receipt_ok P r" "application_receipt_verify P r = Inr True" "ar_application_id r = es_application_id prev"
    "map (\<lambda>(i, d). (i, PStr d)) (ar_refs r) = refs" "ar_identity r = cx_identity ctx"
    "exec_state_ok P s" "exec_state_verify P s = Inr True" "es_state s = Applied" "es_owner s = PNone"
    "es_attempt s = PNone" "es_next s = es_next prev" "es_refs s = es_refs prev" "es_managed s"
    "es_application_id s = es_application_id prev" "es_identity s = cx_identity ctx"
    "insert_row (st_workspace st, app) (application_receipt_doc r) (db_application_receipts (env_others E t (w_db w))) = Inr rows"
    "w_db w' = (env_others E t (w_db w))\<lparr>db_application_receipts := rows,
       db_executions := update_row (st_workspace st, app) (exec_state_doc s) (db_executions (env_others E t (w_db w)))\<rparr>"
    "w_sent w' = w_sent w"
proof -
  obtain w1 doc prev refs w2 lr w3 w4 ls w5 ls' w6 w7 rows where
    cap: "capability_valid st cap"
    and v: "validate_execution_context P E (service_of st) ctx w = (Inr (), w1)"
    and row: "select_row (st_workspace st, app) (db_executions (w_db (after_others E w1))) = Some doc"
    and prev: "decode_exec_state P doc = Inr prev" "es_managed prev" "exec_state_verify P prev = Inr True" "es_digest prev = sd"
      "es_state prev = PartiallyApplied" "es_next prev = length (cx_operations ctx)" "es_owner prev = PNone" "es_attempt prev = PNone"
    and fr: "finalization_refs P st app now 0 (cx_operations ctx) (after_others E w1) = (Inr refs, w2)"
    and nr: "new_application_receipt_from_refs P E ctx refs (PStr now) (PStr now) w2 = (Inr lr, w3)"
    and vr: "validate_live_artifact P E (service_of st) lr application_receipt_payload ctx ''application_receipt'' w3 = (Inr (), w4)"
    and cs: "continue_execution_state P E ctx prev
              [(''state'', PStr ''Applied''), (''completed_at'', PStr now), (''updated_at'', PStr now)] w4 = (Inr ls, w5)"
    and ls: "with_live_digest_state P ctx ls w5 = (Inr ls', w6)"
    and vs: "validate_live_artifact P E (service_of st) ls' exec_state_payload ctx ''execution'' w6 = (Inr (), w7)"
    and ins: "insert_row (st_workspace st, app) (application_receipt_doc (lv_body lr)) (db_application_receipts (w_db w7)) = Inr rows"
    and w': "w' = commit (w_db (after_others E w1)) (w7\<lparr>w_db := (w_db w7)\<lparr>db_application_receipts := rows,
       db_executions := update_row (st_workspace st, app) (exec_state_doc (lv_body ls')) (db_executions (w_db w7))\<rparr>\<rparr>)"
    and s: "s = lv_body ls'"
    using run unfolding finalize_application_def Let_def by (auto simp: run_simps)
  note v' = validate_execution_context_run [OF v]
  have f': "w2 = after_others E w1" "length refs = length (cx_operations ctx)"
    "\<And>j. j < length (cx_operations ctx) \<Longrightarrow>
       receipted P (st_workspace st) app (w_db (after_others E w1)) j (cx_operations ctx ! j) (refs ! j)"
    using finalization_refs_run [OF fr] by simp_all
  note s' = continue_execution_state_run [OF cs]
  note ds = digest_run(1) [OF ls]
  obtain w2' where r: "seal_application_receipt P (cx_identity ctx) (cx_operation_set_digest ctx) refs (PStr now) (PStr now) = Inr (lv_body lr)"
    using nr unfolding new_application_receipt_from_refs_def by (auto simp: run_simps)
  note r' = seal_application_receipt_run [OF r context_ok_identity [OF ok]]
  have "quiet w2 w3" "quiet w3 w4" "quiet w6 w7"
    by (rule moves_run [OF quiet_new_application_receipt nr] moves_run [OF quiet_validate_live vr]
        moves_run [OF quiet_validate_live vs])+
  then have db: "w_db w7 = env_others E (w_tick w1) (w_db w)" "w_sent w7 = w_sent w"
    using v'(4) f'(1) s'(1) ds by (simp_all add: quiet_def after_others_def)
  have db1: "w_db (after_others E w1) = env_others E (w_tick w1) (w_db w)"
    using v'(4) by (simp add: after_others_def)
  obtain e where ls': "lv_body ls' = (lv_body ls)\<lparr>es_digest := e\<rparr>"
    using ds by (auto simp: exec_state_with_digest_Inr)
  have sf: "es_state s = Applied" "es_owner s = PNone" "es_attempt s = PNone" "es_next s = es_next prev"
      "es_refs s = es_refs prev" "es_managed s" "es_application_id s = es_application_id prev"
      "es_identity s = cx_identity ctx" "exec_state_ok P s" "exec_state_verify P s = Inr True"
    using s'(6,8,10,11,14-19) s'(22) [OF ok] ds prev(2,7,8) exec_state_with_digest_verify by (auto simp: s ls' changed_def)
  have rest: "es_application_id prev = id_application_id (cx_identity ctx)"
    using s'(6) by simp
  show ?thesis
    by (rule that [of prev "w_tick w1" doc refs "lv_body lr" rows]; (fact cap prev r' f'(2) sf rest v'(1))?)
      (use row db db1 ins w' r' rest f'(3) in \<open>simp_all add: s\<close>)
qed

end
