(* ===== verification/Store_Effects.thy ===== *)
theory Store_Effects
  imports Store_Runs
begin

text \<open>
  What the calls of the execution store may do to the database, whatever their arguments and
  whether they return or raise.  The public operations are the constructors of \<open>store_call\<close>, and
  \<open>perform\<close> runs one.  The lemmas bound its effect by three relations, each an instance of the
  \<open>frame\<close> calculus of \<open>Program\<close>: \<open>awaits\<close> (only other processes wrote), \<open>history\<close> (no row is
  lost and no receipt changes) and \<open>settled\<close> (a failed call wrote nothing).
\<close>

section \<open>Calls\<close>

datatype store_call =
    CreateExecution "exec_state live"
  | ClaimNext string pyval exec_context string string
  | CompleteSuccess string pyval string pyval string exec_context "operation_receipt live" string
  | Settle string pyval string pyval string exec_context status pyval string
  | Finalize string pyval exec_context string
  | SaveExecution "exec_state live"
  | SaveAttempt "attempt live"
  | CreateAttempt "attempt live"
  | TransitionAttempt pyval "attempt live"
  | TransitionExecution pyval "exec_state live"
  | RecordOperationReceipt "operation_receipt live"
  | RecordApplicationReceipt "application_receipt live"

definition void :: "'a io \<Rightarrow> unit io" where
  "void m = bnd m (\<lambda>_. ret ())"

fun perform :: "prims \<Rightarrow> env \<Rightarrow> exec_store \<Rightarrow> capability option \<Rightarrow> store_call \<Rightarrow> unit io" where
  "perform P E st cap (CreateExecution s) = void (create_execution_if_absent P E st cap s)"
| "perform P E st cap (ClaimNext app dig ctx owner now) = void (claim_next_operation P E st cap app dig ctx owner now)"
| "perform P E st cap (CompleteSuccess app sd aid ad owner ctx receipt now) =
     void (complete_operation_success P E st cap app sd aid ad owner ctx receipt now)"
| "perform P E st cap (Settle app sd aid ad owner ctx target code now) =
     void (settle_operation P E st cap app sd aid ad owner ctx target code now)"
| "perform P E st cap (Finalize app sd ctx now) = void (finalize_application P E st cap app sd ctx now)"
| "perform P E st cap (SaveExecution s) = void (save_execution P E st s)"
| "perform P E st cap (SaveAttempt a) = void (save_attempt P E st a)"
| "perform P E st cap (CreateAttempt a) = void (create_attempt_if_absent P E st a)"
| "perform P E st cap (TransitionAttempt dig a) = void (transition_attempt P E st dig a)"
| "perform P E st cap (TransitionExecution dig s) = void (transition_execution P E st dig s)"
| "perform P E st cap (RecordOperationReceipt r) = void (record_operation_receipt P E st r)"
| "perform P E st cap (RecordApplicationReceipt r) = void (record_application_receipt P E st r)"

fun managed_call :: "store_call \<Rightarrow> bool" where
  "managed_call (CreateExecution _) = True"
| "managed_call (ClaimNext _ _ _ _ _) = True"
| "managed_call (CompleteSuccess _ _ _ _ _ _ _ _) = True"
| "managed_call (Settle _ _ _ _ _ _ _ _ _) = True"
| "managed_call (Finalize _ _ _ _) = True"
| "managed_call _ = False"

text \<open>The application a generic call names.\<close>

fun generic_application :: "store_call \<Rightarrow> string option" where
  "generic_application (SaveExecution s) = Some (es_application_id (lv_body s))"
| "generic_application (SaveAttempt a) = Some (at_application_id (lv_body a))"
| "generic_application (CreateAttempt a) = Some (at_application_id (lv_body a))"
| "generic_application (TransitionAttempt _ a) = Some (at_application_id (lv_body a))"
| "generic_application (TransitionExecution _ s) = Some (es_application_id (lv_body s))"
| "generic_application (RecordOperationReceipt r) = Some (or_application_id (lv_body r))"
| "generic_application (RecordApplicationReceipt r) = Some (ar_application_id (lv_body r))"
| "generic_application _ = None"

lemma void_run: "void m w = (Inr u, w') \<longleftrightarrow> (\<exists>x. m w = (Inr x, w'))"
  by (auto simp: void_def run_simps)

lemma void_fails: "void m w = (Inl e, w') \<longleftrightarrow> m w = (Inl e, w')"
  by (auto simp: void_def bnd_def split: prod.splits sum.splits)

section \<open>Steps that leave the database alone\<close>

lemma moves_split: "(\<And>a b. moves R (f a b)) \<Longrightarrow> moves R (case p of (a, b) \<Rightarrow> f a b)"
  by (simp add: split_beta)

lemma quiet_select: "moves quiet (select_execution st app)" "moves quiet (select_attempt st app op)"
  "moves quiet (select_operation_receipt st app op)" "moves quiet (select_application_receipt st app)"
  unfolding select_execution_def select_attempt_def select_operation_receipt_def select_application_receipt_def
  by (intro quiet.moves_rules)+

lemma quiet_guards: "moves quiet (require_orchestration_capability st cap)"
  "moves quiet (reject_generic_when_orchestrated st)" "moves quiet (present code row)" "moves quiet (dump doc)"
  "moves quiet (now_not_before now prior)"
  unfolding require_orchestration_capability_def reject_generic_when_orchestrated_def present_def dump_def now_not_before_def
  by (intro quiet.moves_rules)+

lemmas quiet_base = quiet_rules quiet_select quiet_guards quiet.moves_rules

lemma quiet_live_evidence: "moves quiet (live_evidence P E st a payload kind)"
  unfolding live_evidence_def by (intro quiet_base)

lemma quiet_reject_durable: "moves quiet (reject_durable_managed P st app)"
  unfolding reject_durable_managed_def durable_application_policy_def by (intro quiet_base)

lemma quiet_claimed_rows: "moves quiet (claimed_rows P st app sd aid ad owner)"
  unfolding claimed_rows_def by (intro quiet_base)

lemma quiet_finalization_refs: "moves quiet (finalization_refs P st app now i ops)"
  by (induction ops arbitrary: i) (auto intro!: quiet_base)

lemma quiet_appended_receipt: "moves quiet (appended_receipt P st ctx p c)"
  unfolding appended_receipt_def by (intro quiet_base)

lemmas quiet_steps = quiet_base quiet_live_evidence quiet_reject_durable quiet_claimed_rows quiet_finalization_refs
  quiet_appended_receipt

section \<open>Waiting for other processes\<close>

definition awaits :: "env \<Rightarrow> world \<Rightarrow> world \<Rightarrow> bool" where
  "awaits E w w' \<longleftrightarrow> (\<exists>ts. w_db w' = fold (env_others E) ts (w_db w)) \<and> w_sent w' = w_sent w \<and>
     w_commits w' = w_commits w \<and> w_contexts w' = w_contexts w \<and> w_tick w \<le> w_tick w'"

interpretation awaits: frame "awaits E"
proof unfold_locales
  show "awaits E w w" for w unfolding awaits_def by (auto intro: exI [of _ "[]"])
  show "awaits E w w''" if both: "awaits E w w'" "awaits E w' w''" for w w' w''
  proof -
    obtain ts us where "w_db w' = fold (env_others E) ts (w_db w)" "w_db w'' = fold (env_others E) us (w_db w')"
      using both unfolding awaits_def by blast
    then have "w_db w'' = fold (env_others E) (ts @ us) (w_db w)" by simp
    then show ?thesis using both unfolding awaits_def by (metis order_trans)
  qed
qed

lemma quiet_awaits: "quiet w w' \<Longrightarrow> awaits E w w'"
  unfolding quiet_def awaits_def by (auto intro: exI [of _ "[]"])

lemma awaits_quiet: "moves quiet m \<Longrightarrow> moves (awaits E) m"
  by (erule moves_mono) (rule quiet_awaits)

lemma awaits_after_others: "awaits E w (after_others E w)"
  unfolding awaits_def after_others_def by (auto intro: exI [of _ "[w_tick w]"])

lemma awaits_settle: "moves (awaits E) (settle_others E)"
  using awaits_after_others by (simp add: moves_def settle_others_def after_others_def)

lemma awaits_read: "moves quiet m \<Longrightarrow> moves (awaits E) (read_db E m)"
  unfolding read_db_def by (intro awaits.moves_rules awaits_settle awaits_quiet)

text \<open>The reads of the store write nothing.\<close>

lemma awaits_load: "moves (awaits E) (load_execution_state P E st app)"
  unfolding load_execution_state_def by (intro awaits.moves_rules awaits_read quiet_steps awaits_quiet)

lemma awaits_get_attempt: "moves (awaits E) (get_attempt P E st app op)"
  unfolding get_attempt_def by (intro awaits.moves_rules awaits_read quiet_steps awaits_quiet)

lemma awaits_get_operation_receipt: "moves (awaits E) (get_operation_receipt P E st app op)"
  unfolding get_operation_receipt_def by (intro awaits.moves_rules awaits_read quiet_steps awaits_quiet)

lemma awaits_get_application_receipt: "moves (awaits E) (get_application_receipt P E st app)"
  unfolding get_application_receipt_def by (intro awaits.moves_rules awaits_read quiet_steps awaits_quiet)

lemma awaits_load_receipts: "moves (awaits E) (load_receipts P E st app i es refs)"
proof (induction P E st app i es refs rule: load_receipts.induct)
  case (1 P E st app i expected es ref refs)
  show ?case
    by (simp, intro awaits.moves_rules awaits_get_operation_receipt 1)
      (auto intro!: awaits.moves_rules split: exn.split)
qed (simp_all add: moves_def awaits.frame_refl)

lemma awaits_get_execution: "moves (awaits E) (get_execution P E st app expected)"
  unfolding get_execution_def
  by (intro awaits.moves_rules awaits_load awaits_get_application_receipt awaits_load_receipts)

lemma awaits_validate_claim: "moves (awaits E) (validate_claim P E st cap app sd aid ad owner ctx)"
  unfolding validate_claim_def
  by (intro awaits.moves_rules awaits_get_execution awaits_get_attempt awaits_quiet quiet_steps)

lemmas awaits_reads = awaits_load awaits_get_attempt awaits_get_operation_receipt awaits_get_application_receipt
  awaits_get_execution awaits_validate_claim

section \<open>A failed call writes nothing\<close>

definition clean :: "env \<Rightarrow> 'a io \<Rightarrow> bool" where
  "clean E m \<longleftrightarrow> (\<forall>w e w'. m w = (Inl e, w') \<longrightarrow> awaits E w w')"

lemma clean_awaits: "moves (awaits E) m \<Longrightarrow> clean E m"
  by (simp add: clean_def moves_def) (metis snd_conv)

lemma clean_quiet: "moves quiet m \<Longrightarrow> clean E m"
  by (intro clean_awaits awaits_quiet)

lemma clean_bnd:
  assumes "moves quiet m" "\<And>x. clean E (f x)"
  shows "clean E (bnd m f)"
  unfolding clean_def
proof (intro allI impI)
  fix w e w' assume run: "bnd m f w = (Inl e, w')"
  obtain r w1 where m: "m w = (r, w1)" by fastforce
  then have 1: "awaits E w w1" using assms(1) moves_run quiet_awaits by metis
  show "awaits E w w'"
  proof (cases r)
    case (Inl _)
    then show ?thesis using run m 1 by (simp add: bnd_def)
  next
    case (Inr x)
    then have "f x w1 = (Inl e, w')" using run m by (simp add: bnd_def)
    then show ?thesis using assms(2) 1 awaits.frame_trans by (metis clean_def)
  qed
qed

text \<open>Inside a transaction anything may happen: it is rolled back.\<close>

definition inert :: "world \<Rightarrow> world \<Rightarrow> bool" where
  "inert w w' \<longleftrightarrow> w_sent w' = w_sent w \<and> w_commits w' = w_commits w \<and> w_contexts w' = w_contexts w \<and> w_tick w \<le> w_tick w'"

interpretation inert: frame inert
  by unfold_locales (simp_all add: inert_def)

lemma inert_quiet: "moves quiet m \<Longrightarrow> moves inert m"
  by (erule moves_mono) (simp add: quiet_def inert_def)

lemma clean_transaction: "moves inert m \<Longrightarrow> clean E (transaction E m)"
  unfolding clean_def
proof (intro allI impI)
  fix w e w' assume m: "moves inert m" and run: "transaction E m w = (Inl e, w')"
  obtain r w1 where 1: "m (after_others E w) = (r, w1)" by fastforce
  then have "inert (after_others E w) w1" using m moves_run by metis
  moreover have "w' = w1\<lparr>w_db := w_db (after_others E w)\<rparr>"
    using run 1 by (auto simp: transaction_def bnd_def settle_others_def atomic_def after_others_def split: sum.splits)
  ultimately have "awaits E (after_others E w) w'"
    by (auto simp: inert_def awaits_def intro: exI [of _ "[]"])
  then show "awaits E w w'" using awaits_after_others awaits.frame_trans by blast
qed

lemma clean_if: "clean E m \<Longrightarrow> clean E n \<Longrightarrow> clean E (if c then m else n)"
  by simp

lemma clean_option: "clean E m \<Longrightarrow> (\<And>x. clean E (f x)) \<Longrightarrow> clean E (case o' of None \<Rightarrow> m | Some x \<Rightarrow> f x)"
  by (simp split: option.splits)

lemmas clean_rules = clean_bnd clean_transaction clean_if clean_option

lemma inert_change: "moves inert (modify_db f)" "moves inert (modify_db_res g)"
  by (auto simp: moves_def modify_db_def modify_db_res_def inert_def split: sum.splits)

lemma inert_statements: "moves inert (insert_execution st app doc)" "moves inert (insert_attempt st app op doc)"
  "moves inert (insert_operation_receipt st app op doc)" "moves inert (insert_application_receipt st app doc)"
  "moves inert (update_execution st app doc)" "moves inert (update_attempt st app op doc)"
  unfolding insert_execution_def insert_attempt_def insert_operation_receipt_def insert_application_receipt_def
    update_execution_def update_attempt_def by (rule inert_change)+

lemmas inert_rules = inert.moves_rules moves_split inert_change inert_statements inert_quiet [OF quiet_live_evidence]
  inert_quiet [OF quiet_reject_durable] inert_quiet [OF quiet_claimed_rows] inert_quiet [OF quiet_finalization_refs]
  inert_quiet [OF quiet_appended_receipt] quiet_rules [THEN inert_quiet] quiet_select [THEN inert_quiet]
  quiet_guards [THEN inert_quiet]

lemma clean_managed:
  "clean E (create_execution_if_absent P E st cap s)" "clean E (claim_next_operation P E st cap app dig ctx owner now)"
  "clean E (complete_operation_success P E st cap app sd aid ad owner ctx receipt now)"
  "clean E (settle_operation P E st cap app sd aid ad owner ctx target code now)"
  "clean E (finalize_application P E st cap app sd ctx now)"
  unfolding create_execution_if_absent_def claim_next_operation_def complete_operation_success_def
    settle_operation_def finalize_application_def Let_def
  by (intro clean_rules inert_rules quiet_steps clean_quiet)+

lemma clean_generic:
  "clean E (save_execution P E st s)" "clean E (save_attempt P E st a)" "clean E (create_attempt_if_absent P E st a)"
  "clean E (transition_attempt P E st dig a)" "clean E (transition_execution P E st dig s)"
  "clean E (record_operation_receipt P E st r)" "clean E (record_application_receipt P E st ar)"
  unfolding save_execution_def save_attempt_def create_attempt_if_absent_def transition_attempt_def
    transition_execution_def record_operation_receipt_def record_application_receipt_def Let_def
  by (intro clean_rules inert_rules quiet_steps clean_quiet)+

lemma perform_clean: "perform P E st cap call w = (Inl e, w') \<Longrightarrow> awaits E w w'"
  using clean_managed clean_generic by (cases call) (auto simp: void_fails clean_def)

section \<open>Rows are never lost\<close>

definition history :: "database \<Rightarrow> database \<Rightarrow> bool" where
  "history d d' \<longleftrightarrow>
     table.keeps (db_executions d) (db_executions d') \<and> table.keeps (db_attempts d) (db_attempts d') \<and>
     table.extends (db_operation_receipts d) (db_operation_receipts d') \<and>
     table.extends (db_application_receipts d) (db_application_receipts d')"

lemma history_refl: "history d d"
  by (simp add: history_def)

lemma history_trans: "history d d' \<Longrightarrow> history d' d'' \<Longrightarrow> history d d''"
  unfolding history_def using table.keeps_trans table.extends_trans by metis

text \<open>The other processes run the same code.\<close>

definition rely :: "env \<Rightarrow> bool" where
  "rely E \<longleftrightarrow> (\<forall>t d. history d (env_others E t d))"

text \<open>
  \<open>chain d l d'\<close>: the commits \<open>l\<close> lie in this order between \<open>d\<close> and \<open>d'\<close>, and between two of them
  only the writes of others happened.
\<close>

fun chain :: "database \<Rightarrow> (database \<times> database) list \<Rightarrow> database \<Rightarrow> bool" where
  "chain d [] d' \<longleftrightarrow> history d d'"
| "chain d ((e, e') # l) d' \<longleftrightarrow> history d e \<and> history e e' \<and> chain e' l d'"

lemma chain_history: "chain d l d' \<Longrightarrow> history d d'"
  by (induction d l d' rule: chain.induct) (auto elim: history_trans)

lemma chain_later: "chain d l d' \<Longrightarrow> history d' d'' \<Longrightarrow> chain d l d''"
  by (induction l arbitrary: d) (auto elim: history_trans)

lemma chain_earlier: "history d0 d \<Longrightarrow> chain d l d' \<Longrightarrow> chain d0 l d'"
  by (cases l) (auto elim: history_trans)

lemma chain_append: "chain d l d' \<Longrightarrow> chain d' l' d'' \<Longrightarrow> chain d (l @ l') d''"
  by (induction l arbitrary: d) (auto intro: chain_earlier)

definition grows :: "world \<Rightarrow> world \<Rightarrow> bool" where
  "grows w w' \<longleftrightarrow>
     history (w_db w) (w_db w') \<and> (\<exists>l. w_commits w' = w_commits w @ l \<and> chain (w_db w) l (w_db w')) \<and>
     w_sent w' = w_sent w \<and> w_contexts w' = w_contexts w \<and> w_tick w \<le> w_tick w'"

interpretation grows: frame grows
proof unfold_locales
  show "grows w w" for w by (simp add: grows_def history_refl)
  show "grows w w''" if "grows w w'" "grows w' w''" for w w' w''
    using that history_trans chain_append unfolding grows_def by (metis (no_types, lifting) append_assoc order_trans)
qed

lemma grows_quiet: "moves quiet m \<Longrightarrow> moves grows m"
  by (erule moves_mono) (simp add: quiet_def grows_def history_refl)

lemma rely_fold: "rely E \<Longrightarrow> history d (fold (env_others E) ts d)"
  by (induction ts arbitrary: d) (auto simp: rely_def intro: history_refl history_trans)

lemma awaits_grows: "rely E \<Longrightarrow> awaits E w w' \<Longrightarrow> grows w w'"
  using rely_fold by (auto simp: awaits_def grows_def simp del: fold_simps)

lemma grows_transaction:
  assumes "rely E" "moves inert m" "moves grows m"
  shows "moves grows (transaction E m)"
  unfolding moves_def
proof
  fix w
  obtain r w' where m: "m (after_others E w) = (r, w')" by fastforce
  have 1: "grows w (after_others E w)" using awaits_grows [OF assms(1) awaits_after_others] .
  have 2: "inert (after_others E w) w'" "grows (after_others E w) w'" using assms(2,3) m moves_run by metis+
  have "snd (transaction E m w) =
      (case r of Inl _ \<Rightarrow> w'\<lparr>w_db := w_db (after_others E w)\<rparr> | Inr _ \<Rightarrow> commit (w_db (after_others E w)) w')"
    using m by (auto simp: transaction_def bnd_def settle_others_def atomic_def after_others_def split: sum.splits)
  moreover have "grows (after_others E w) (w'\<lparr>w_db := w_db (after_others E w)\<rparr>)"
      "grows (after_others E w) (commit (w_db (after_others E w)) w')"
    using 2 by (auto simp: grows_def inert_def history_refl)
  ultimately show "grows w (snd (transaction E m w))"
    using 1 2 grows.frame_trans by (cases r) auto
qed

lemma grows_modify: "(\<And>d. history d (f d)) \<Longrightarrow> moves grows (modify_db f)"
  by (simp add: moves_def modify_db_def grows_def)

lemma grows_insert: "moves grows (insert_execution st app doc)" "moves grows (insert_attempt st app op doc)"
  "moves grows (insert_operation_receipt st app op doc)" "moves grows (insert_application_receipt st app doc)"
  unfolding insert_execution_def insert_attempt_def insert_operation_receipt_def insert_application_receipt_def
    modify_db_res_def moves_def
  by (auto simp: grows_def history_def rbind_Inr table.ins_extends table.extends_keeps split: sum.splits)

lemma grows_update: "moves grows (update_execution st app doc)" "moves grows (update_attempt st app op doc)"
  unfolding update_execution_def update_attempt_def
  by (intro grows_modify; simp add: history_def table.upd_keeps)+

lemma history_upsert: "history d (d\<lparr>db_executions := upsert_row k v (db_executions d)\<rparr>)"
  "history d (d\<lparr>db_attempts := upsert_row l v (db_attempts d)\<rparr>)"
  "history d (d\<lparr>db_operation_receipts := ignore_row l v (db_operation_receipts d)\<rparr>)"
  "history d (d\<lparr>db_application_receipts := ignore_row k v (db_application_receipts d)\<rparr>)"
  by (simp_all add: history_def table.ups_keeps table.ign_extends)

lemmas grows_rules = grows.moves_rules moves_split grows_insert grows_update grows_modify history_upsert
  quiet_live_evidence [THEN grows_quiet] quiet_reject_durable [THEN grows_quiet] quiet_claimed_rows [THEN grows_quiet]
  quiet_finalization_refs [THEN grows_quiet] quiet_appended_receipt [THEN grows_quiet] quiet_rules [THEN grows_quiet]
  quiet_select [THEN grows_quiet] quiet_guards [THEN grows_quiet]

lemma grows_managed:
  assumes "rely E"
  shows "moves grows (create_execution_if_absent P E st cap s)" "moves grows (claim_next_operation P E st cap app dig ctx owner now)"
  "moves grows (complete_operation_success P E st cap app sd aid ad owner ctx receipt now)"
  "moves grows (settle_operation P E st cap app sd aid ad owner ctx target code now)"
  "moves grows (finalize_application P E st cap app sd ctx now)"
  unfolding create_execution_if_absent_def claim_next_operation_def complete_operation_success_def
    settle_operation_def finalize_application_def Let_def
  by (intro grows_transaction grows_rules inert_rules assms)+

lemma grows_generic:
  assumes "rely E"
  shows "moves grows (save_execution P E st s)" "moves grows (save_attempt P E st a)"
  "moves grows (create_attempt_if_absent P E st a)"
  "moves grows (transition_attempt P E st dig a)" "moves grows (transition_execution P E st dig s)"
  "moves grows (record_operation_receipt P E st r)" "moves grows (record_application_receipt P E st ar)"
  unfolding save_execution_def save_attempt_def create_attempt_if_absent_def transition_attempt_def
    transition_execution_def record_operation_receipt_def record_application_receipt_def Let_def
  by (intro grows_transaction grows_rules inert_rules assms)+

lemma perform_grows: "rely E \<Longrightarrow> moves grows (perform P E st cap call)"
  by (cases call) (simp_all add: void_def, (intro grows.moves_rules grows_managed grows_generic; assumption)+)

section \<open>Who may write\<close>

lemma managed_requires_capability:
  "managed_call call \<Longrightarrow> perform P E st cap call w = (Inr u, w') \<Longrightarrow> capability_valid st cap"
  by (cases call)
    (auto simp: void_run run_simps create_execution_if_absent_def claim_next_operation_def complete_operation_success_def
      settle_operation_def finalize_application_def)

lemma orchestrated_rejects:
  "orchestrated st \<Longrightarrow>
     bnd (reject_generic_when_orchestrated st) f w = (Inl (ValueError ''applier_orchestration_required''), w)"
  by (simp add: reject_generic_when_orchestrated_def)

lemma generic_rejected:
  "orchestrated st \<Longrightarrow> \<not> managed_call call \<Longrightarrow>
     perform P E st cap call w = (Inl (ValueError ''applier_orchestration_required''), w)"
  by (cases call)
    (simp_all add: void_fails save_execution_def save_attempt_def create_attempt_if_absent_def transition_attempt_def
      transition_execution_def record_operation_receipt_def record_application_receipt_def orchestrated_rejects)

lemma reject_durable_run:
  assumes "reject_durable_managed P st app w = (Inr u, w')"
    and "select_row (st_workspace st, app) (db_executions (w_db w)) = Some doc" "decode_exec_state P doc = Inr s"
  shows "\<not> es_managed s"
  using assms unfolding reject_durable_managed_def durable_application_policy_def
  by (auto simp: run_simps integrity_def)

lemma generic_on_managed:
  assumes "generic_application call = Some app"
    and "select_row (st_workspace st, app) (db_executions (env_others E (w_tick w) (w_db w))) = Some doc"
    and "decode_exec_state P doc = Inr s" "es_managed s"
  shows "perform P E st cap call w \<noteq> (Inr u, w')"
proof -
  have rej: "reject_durable_managed P st app (after_others E w) \<noteq> (Inr x, w'')" for x w''
    using reject_durable_run [of P st app "after_others E w"] assms(2-4) by (auto simp: after_others_def)
  have sel: "reject_generic_when_orchestrated st w = (Inr x, w'') \<Longrightarrow> w'' = w" for x w''
    by (simp add: reject_generic_when_orchestrated_def run_simps)
  show ?thesis
    using assms(1) rej
    by (cases call)
      (auto simp: void_run run_simps save_execution_def save_attempt_def create_attempt_if_absent_def transition_attempt_def
        transition_execution_def record_operation_receipt_def record_application_receipt_def Let_def dest!: sel)
qed

end
