(* ===== verification/Store_Protocol.thy ===== *)
theory Store_Protocol
  imports Execution_State
begin

text \<open>
  The abstract protocol of one managed application, which the execution store of
  \<open>delivery_system/execution_store.py\<close> implements (the simulation is in \<open>Store_Refinement\<close>): the
  coordination record, the attempts and the receipts of its operations and the application receipt,
  without documents, digests, clocks and authorities.  The parameter \<open>ids\<close> lists the operation
  identifiers of the approved operations in order.

  The lemmas give the invariant of the reachable states, that a terminal state is final, that what
  has been recorded stays recorded, and the exact number of steps left.
\<close>

section \<open>States and steps\<close>

record protocol =
  pr_state :: "status option"
  pr_next :: nat
  pr_current :: pyval
  pr_refs :: "string list"
  pr_attempts :: "string \<Rightarrow> (nat \<times> status) option"
  pr_receipts :: "string \<Rightarrow> (nat \<times> string) option"
  pr_final :: "string list option"

definition initial_protocol :: protocol where
  "initial_protocol = \<lparr>pr_state = None, pr_next = 0, pr_current = PNone, pr_refs = [], pr_attempts = (\<lambda>_. None),
     pr_receipts = (\<lambda>_. None), pr_final = None\<rparr>"

inductive protocol_step :: "string list \<Rightarrow> protocol \<Rightarrow> protocol \<Rightarrow> bool" for ids where
  Created: "pr_state p = None \<Longrightarrow>
    protocol_step ids p (p\<lparr>pr_state := Some Pending, pr_next := 0, pr_current := PNone, pr_refs := []\<rparr>)"
| Claimed: "pr_state p \<in> {Some Pending, Some PartiallyApplied} \<Longrightarrow> pr_next p < length ids \<Longrightarrow>
    pr_attempts p (ids ! pr_next p) = None \<Longrightarrow>
    protocol_step ids p (p\<lparr>pr_state := Some Applying, pr_current := PStr (ids ! pr_next p),
      pr_attempts := (pr_attempts p)(ids ! pr_next p \<mapsto> (pr_next p, Applying))\<rparr>)"
| Completed: "pr_state p = Some Applying \<Longrightarrow> pr_current p = PStr op \<Longrightarrow> pr_attempts p op = Some (i, Applying) \<Longrightarrow>
    i < length ids \<Longrightarrow> ids ! i = op \<Longrightarrow> pr_receipts p op = None \<Longrightarrow>
    protocol_step ids p (p\<lparr>pr_state := Some PartiallyApplied, pr_next := Suc (pr_next p), pr_current := PNone,
      pr_refs := pr_refs p @ [r], pr_attempts := (pr_attempts p)(op \<mapsto> (i, Applied)),
      pr_receipts := (pr_receipts p)(op \<mapsto> (i, r))\<rparr>)"
| Settled: "pr_state p = Some Applying \<Longrightarrow> pr_current p = PStr op \<Longrightarrow> pr_attempts p op = Some (i, Applying) \<Longrightarrow>
    t \<in> {Failed, Blocked, OutcomeUnknown} \<Longrightarrow>
    protocol_step ids p (p\<lparr>pr_state := Some t, pr_attempts := (pr_attempts p)(op \<mapsto> (i, t))\<rparr>)"
| Finalized: "pr_state p = Some PartiallyApplied \<Longrightarrow> pr_next p = length ids \<Longrightarrow> pr_current p = PNone \<Longrightarrow>
    pr_final p = None \<Longrightarrow> length rs = length ids \<Longrightarrow>
    list_all (\<lambda>i. pr_receipts p (ids ! i) = Some (i, rs ! i)) [0..<length ids] \<Longrightarrow>
    protocol_step ids p (p\<lparr>pr_state := Some Applied, pr_final := Some rs\<rparr>)"

inductive_cases protocol_stepE: "protocol_step ids p q"

section \<open>The invariant\<close>

text \<open>
  The operations before \<open>pr_next\<close> are applied and receipted in order, those after it are untouched,
  and the one at \<open>pr_next\<close> is in the state of the application while it is claimed or settled.
\<close>

definition current_attempt :: "string list \<Rightarrow> protocol \<Rightarrow> bool" where
  "current_attempt ids p \<longleftrightarrow>
     (case pr_state p of
        Some s \<Rightarrow>
          if s \<in> {Applying, Failed, Blocked, OutcomeUnknown}
          then pr_next p < length ids \<and> pr_current p = PStr (ids ! pr_next p) \<and>
               pr_attempts p (ids ! pr_next p) = Some (pr_next p, s)
          else pr_current p = PNone \<and> (pr_next p < length ids \<longrightarrow> pr_attempts p (ids ! pr_next p) = None)
      | None \<Rightarrow> pr_next p = 0 \<and> (\<forall>op. pr_attempts p op = None))"

definition protocol_ok :: "string list \<Rightarrow> protocol \<Rightarrow> bool" where
  "protocol_ok ids p \<longleftrightarrow>
     pr_next p \<le> length ids \<and> length (pr_refs p) = pr_next p \<and>
     (\<forall>i < pr_next p. pr_attempts p (ids ! i) = Some (i, Applied) \<and> pr_receipts p (ids ! i) = Some (i, pr_refs p ! i)) \<and>
     (\<forall>i. pr_next p < i \<and> i < length ids \<longrightarrow> pr_attempts p (ids ! i) = None) \<and>
     (\<forall>i. pr_next p \<le> i \<and> i < length ids \<longrightarrow> pr_receipts p (ids ! i) = None) \<and>
     current_attempt ids p \<and>
     (pr_state p = Some Pending \<longrightarrow> pr_next p = 0) \<and> (pr_state p = Some PartiallyApplied \<longrightarrow> 0 < pr_next p) \<and>
     (case pr_final p of None \<Rightarrow> pr_state p \<noteq> Some Applied
      | Some rs \<Rightarrow> pr_state p = Some Applied \<and> pr_next p = length ids \<and> rs = pr_refs p)"

lemma protocol_ok_initial: "protocol_ok ids initial_protocol"
  by (simp add: protocol_ok_def initial_protocol_def current_attempt_def)

lemma protocol_ok_claimed:
  assumes ok: "protocol_ok ids p" and "distinct ids"
    and claim: "pr_state p \<in> {Some Pending, Some PartiallyApplied}" "pr_next p < length ids"
  shows "protocol_ok ids (p\<lparr>pr_state := Some Applying, pr_current := PStr (ids ! pr_next p),
      pr_attempts := (pr_attempts p)(ids ! pr_next p \<mapsto> (pr_next p, Applying))\<rparr>)"
proof -
  have "ids ! i = ids ! pr_next p \<longleftrightarrow> i = pr_next p" if "i < length ids" for i
    using assms that by (simp add: nth_eq_iff_index_eq)
  moreover have "pr_final p = None"
    using ok claim by (auto simp: protocol_ok_def split: option.splits)
  ultimately show ?thesis
    using ok claim(2) unfolding protocol_ok_def current_attempt_def by auto
qed

lemma protocol_ok_completed:
  assumes ok: "protocol_ok ids p" and d: "distinct ids"
    and at: "pr_state p = Some Applying" "pr_current p = PStr op" "pr_attempts p op = Some (i, Applying)"
  shows "protocol_ok ids (p\<lparr>pr_state := Some PartiallyApplied, pr_next := Suc (pr_next p), pr_current := PNone,
      pr_refs := pr_refs p @ [r], pr_attempts := (pr_attempts p)(op \<mapsto> (i, Applied)),
      pr_receipts := (pr_receipts p)(op \<mapsto> (i, r))\<rparr>)"
proof -
  have n: "pr_next p < length ids" "op = ids ! pr_next p" "i = pr_next p"
    using ok at by (auto simp: protocol_ok_def current_attempt_def)
  have eq: "ids ! j = op \<longleftrightarrow> j = pr_next p" if "j < length ids" for j
    using n d that by (simp add: nth_eq_iff_index_eq)
  have "pr_final p = None"
    using ok at(1) by (auto simp: protocol_ok_def split: option.splits)
  then show ?thesis
    using ok n eq unfolding protocol_ok_def current_attempt_def
    by (auto simp: nth_append less_Suc_eq)
qed

lemma protocol_ok_settled:
  assumes ok: "protocol_ok ids p" and d: "distinct ids" and t: "t \<in> {Failed, Blocked, OutcomeUnknown}"
    and at: "pr_state p = Some Applying" "pr_current p = PStr op" "pr_attempts p op = Some (i, Applying)"
  shows "protocol_ok ids (p\<lparr>pr_state := Some t, pr_attempts := (pr_attempts p)(op \<mapsto> (i, t))\<rparr>)"
proof -
  have n: "pr_next p < length ids" "op = ids ! pr_next p" "i = pr_next p"
    using ok at by (auto simp: protocol_ok_def current_attempt_def)
  have eq: "ids ! j = op \<longleftrightarrow> j = pr_next p" if "j < length ids" for j
    using n d that by (simp add: nth_eq_iff_index_eq)
  have "pr_final p = None"
    using ok at(1) by (auto simp: protocol_ok_def split: option.splits)
  then show ?thesis
    using ok n eq t at(1,2) unfolding protocol_ok_def current_attempt_def by (elim conjE insertE) auto
qed

lemma final_current:
  assumes "pr_next p = length ids" "pr_current p = PNone"
  shows "current_attempt ids (p\<lparr>pr_state := Some Applied, pr_final := Some rs\<rparr>)"
  using assms by (simp add: current_attempt_def)

lemma protocol_ok_finalized:
  assumes ok: "protocol_ok ids p"
    and at: "pr_current p = PNone" "pr_state p = Some PartiallyApplied" "pr_next p = length ids" "length rs = length ids"
      "list_all (\<lambda>i. pr_receipts p (ids ! i) = Some (i, rs ! i)) [0..<length ids]"
  shows "protocol_ok ids (p\<lparr>pr_state := Some Applied, pr_final := Some rs\<rparr>)"
proof -
  have "rs ! i = pr_refs p ! i" if "i < length ids" for i
    using ok at(3,5) that by (simp add: protocol_ok_def list_all_length)
  moreover have len: "length (pr_refs p) = pr_next p"
    and finished: "\<forall>i < pr_next p. pr_attempts p (ids ! i) = Some (i, Applied) \<and> pr_receipts p (ids ! i) = Some (i, pr_refs p ! i)"
    using ok unfolding protocol_ok_def by blast+
  ultimately have rs: "rs = pr_refs p" using at(3,4) by (intro nth_equalityI) simp_all
  show ?thesis
    unfolding protocol_ok_def rs using len finished at(3) final_current [OF at(3,1)] by simp
qed

lemma protocol_ok_step:
  assumes "protocol_step ids p q" "protocol_ok ids p" "distinct ids"
  shows "protocol_ok ids q"
  using assms(1)
proof (cases rule: protocol_step.cases)
  case Created
  then show ?thesis using assms(2) by (auto simp: protocol_ok_def current_attempt_def split: option.splits)
next
  case Claimed
  then show ?thesis using assms(2,3) protocol_ok_claimed by simp
next
  case (Completed op i r)
  then show ?thesis using assms(2,3) protocol_ok_completed by simp
next
  case (Settled op i t)
  show ?thesis unfolding Settled(1) by (rule protocol_ok_settled [OF assms(2,3) Settled(5,2,3,4)])
next
  case (Finalized rs)
  show ?thesis unfolding Finalized(1) by (rule protocol_ok_finalized [OF assms(2) Finalized(4,2,3,6,7)])
qed

lemma protocol_ok_steps:
  assumes "(protocol_step ids)\<^sup>*\<^sup>* p q" "protocol_ok ids p" "distinct ids"
  shows "protocol_ok ids q"
  using assms by (induction rule: rtranclp_induct) (auto intro: protocol_ok_step)

section \<open>What is recorded stays recorded\<close>

definition recorded :: "protocol \<Rightarrow> protocol \<Rightarrow> bool" where
  "recorded p q \<longleftrightarrow>
     (\<forall>op. pr_attempts p op \<noteq> None \<longrightarrow> pr_attempts q op \<noteq> None) \<and>
     (\<forall>op r. pr_receipts p op = Some r \<longrightarrow> pr_receipts q op = Some r) \<and>
     (\<forall>rs. pr_final p = Some rs \<longrightarrow> pr_final q = Some rs) \<and>
     (pr_state p \<noteq> None \<longrightarrow> pr_state q \<noteq> None \<and> pr_next p \<le> pr_next q \<and> prefix (pr_refs p) (pr_refs q))"

lemma recorded_refl: "recorded p p"
  by (simp add: recorded_def)

lemma recorded_trans:
  assumes "recorded p q" "recorded q r"
  shows "recorded p r"
  using assms unfolding recorded_def
  by (elim conjE, intro conjI) (simp, simp, simp, metis le_trans prefix_order.trans)

lemma recorded_step: "protocol_step ids p q \<Longrightarrow> recorded p q"
  by (induction rule: protocol_step.induct) (auto simp: recorded_def)

lemma recorded_steps: "(protocol_step ids)\<^sup>*\<^sup>* p q \<Longrightarrow> recorded p q"
  by (induction rule: rtranclp_induct) (auto intro: recorded_refl recorded_trans recorded_step)

section \<open>Final states and the number of steps\<close>

lemma protocol_final: "pr_state p = Some s \<Longrightarrow> terminal s \<Longrightarrow> \<not> protocol_step ids p q"
  by (auto simp: terminal_def elim: protocol_stepE)

lemma protocol_final_steps:
  assumes "(protocol_step ids)\<^sup>*\<^sup>* p q" "pr_state p = Some s" "terminal s"
  shows "q = p"
  using assms(1)
proof (cases rule: converse_rtranclpE)
  case (step r)
  then show ?thesis using protocol_final [OF assms(2,3)] by simp
qed simp

text \<open>Every step moves the application exactly one place forward.\<close>

definition place :: "protocol \<Rightarrow> nat" where
  "place p = (case pr_state p of
      None \<Rightarrow> 0
    | Some s \<Rightarrow> 2 * pr_next p + (if s \<in> {Pending, PartiallyApplied} then 1 else if s = Applying then 2
        else if s = Applied then 2 else 3))"

lemma place_step: "protocol_ok ids p \<Longrightarrow> protocol_step ids p q \<Longrightarrow> place q = Suc (place p)"
  by (erule protocol_stepE) (auto simp: place_def)

lemma place_bound:
  assumes "protocol_ok ids p"
  shows "place p \<le> 2 * length ids + 2"
proof (cases "pr_state p")
  case (Some s)
  have "pr_next p < length ids" if "s \<in> {Applying, Failed, Blocked, OutcomeUnknown}"
    using assms Some that by (simp add: protocol_ok_def current_attempt_def)
  moreover have "pr_next p \<le> length ids" using assms by (simp add: protocol_ok_def)
  ultimately show ?thesis using Some by (cases s) (simp_all add: place_def)
qed (simp add: place_def)

lemma place_steps:
  assumes "((protocol_step ids) ^^ n) p q" "protocol_ok ids p" "distinct ids"
  shows "place q = place p + n \<and> protocol_ok ids q"
  using assms
proof (induction n arbitrary: q)
  case (Suc n)
  then obtain r where r: "((protocol_step ids) ^^ n) p r" "protocol_step ids r q" by auto
  then have "place r = place p + n" "protocol_ok ids r" using Suc by simp_all
  then show ?case using place_step [OF _ r(2)] protocol_ok_step [OF r(2)] Suc.prems(3) by simp
qed simp

lemma protocol_step_bound:
  assumes "((protocol_step ids) ^^ n) p q" "protocol_ok ids p" "distinct ids"
  shows "n \<le> 2 * length ids + 2"
  using place_steps [OF assms] place_bound [of ids q] by simp

text \<open>Unless it is final, a consistent application can always take a step.\<close>

lemma protocol_progress:
  assumes "protocol_ok ids p" "ids \<noteq> []" "\<And>s. pr_state p = Some s \<Longrightarrow> \<not> terminal s"
  shows "\<exists>q. protocol_step ids p q"
proof (cases "pr_state p")
  case None
  then show ?thesis using protocol_step.Created by blast
next
  case (Some s)
  then have ok: "protocol_ok ids p" and "\<not> terminal s" using assms by auto
  then consider "s = Applying" | "s \<in> {Pending, PartiallyApplied}" "pr_next p < length ids"
      | "s = PartiallyApplied" "pr_next p = length ids"
    using Some assms(2) by (cases s; cases "pr_next p < length ids") (auto simp: terminal_def protocol_ok_def)
  then show ?thesis
  proof cases
    case 1
    then show ?thesis using ok Some protocol_step.Settled [of p "ids ! pr_next p" "pr_next p" Failed ids]
      by (auto simp: protocol_ok_def current_attempt_def)
  next
    case 2
    then have "pr_attempts p (ids ! pr_next p) = None"
      using ok Some by (auto simp: protocol_ok_def current_attempt_def split: if_splits)
    then show ?thesis using 2 Some protocol_step.Claimed [of p ids] by auto
  next
    case 3
    have "pr_final p = None" using ok 3 Some by (auto simp: protocol_ok_def split: option.splits)
    moreover have "list_all (\<lambda>i. pr_receipts p (ids ! i) = Some (i, pr_refs p ! i)) [0..<length ids]"
      using ok 3(2) by (simp add: protocol_ok_def list_all_length)
    ultimately show ?thesis
      using ok 3 Some protocol_step.Finalized [of p ids "pr_refs p"]
      by (auto simp: protocol_ok_def current_attempt_def)
  qed
qed

end
