(* ===== verification/Store_Refinement.thy ===== *)
theory Store_Refinement
  imports Store_Effects Store_Protocol
begin

text \<open>
  The execution store implements the protocol of \<open>Store_Protocol\<close>: \<open>protocol_of\<close> reads the abstract
  state of an application from the rows of the database, and each call of an orchestrated store is
  at most one protocol step on it.  \<open>store_reach\<close> are the databases that calls of orchestrated stores
  with sound arguments reach, whichever processes make them and in whatever order, each call running
  without a write of another process in its middle; the invariant of the protocol holds in all of them.
\<close>

section \<open>The abstract state of an application\<close>

definition durable :: "(pyval \<Rightarrow> 'a res) \<Rightarrow> pyval option \<Rightarrow> 'a option" where
  "durable decode row = (case row of None \<Rightarrow> None | Some doc \<Rightarrow> (case decode doc of Inl _ \<Rightarrow> None | Inr x \<Rightarrow> Some x))"

lemma durable_simps [simp]: "durable decode None = None" "decode doc = Inr x \<Longrightarrow> durable decode (Some doc) = Some x"
  by (simp_all add: durable_def)

definition durable_state :: "prims \<Rightarrow> string \<Rightarrow> string \<Rightarrow> database \<Rightarrow> exec_state option" where
  "durable_state P ws app d = durable (decode_exec_state P) (select_row (ws, app) (db_executions d))"

definition durable_attempt :: "prims \<Rightarrow> string \<Rightarrow> string \<Rightarrow> string \<Rightarrow> database \<Rightarrow> attempt option" where
  "durable_attempt P ws app op d = durable (decode_attempt P) (select_row (ws, app, op) (db_attempts d))"

definition durable_receipt :: "prims \<Rightarrow> string \<Rightarrow> string \<Rightarrow> string \<Rightarrow> database \<Rightarrow> operation_receipt option" where
  "durable_receipt P ws app op d = durable (decode_operation_receipt P) (select_row (ws, app, op) (db_operation_receipts d))"

definition durable_final :: "prims \<Rightarrow> string \<Rightarrow> string \<Rightarrow> database \<Rightarrow> application_receipt option" where
  "durable_final P ws app d = durable (decode_application_receipt P) (select_row (ws, app) (db_application_receipts d))"

lemmas durable_defs = durable_state_def durable_attempt_def durable_receipt_def durable_final_def

definition protocol_of :: "prims \<Rightarrow> string \<Rightarrow> string \<Rightarrow> database \<Rightarrow> protocol" where
  "protocol_of P ws app d =
     \<lparr>pr_state = map_option es_state (durable_state P ws app d),
      pr_next = (case durable_state P ws app d of None \<Rightarrow> 0 | Some s \<Rightarrow> es_next s),
      pr_current = (case durable_state P ws app d of None \<Rightarrow> PNone | Some s \<Rightarrow> es_attempt s),
      pr_refs = (case durable_state P ws app d of None \<Rightarrow> [] | Some s \<Rightarrow> es_refs s),
      pr_attempts = (\<lambda>op. map_option (\<lambda>a. (at_index a, at_state a)) (durable_attempt P ws app op d)),
      pr_receipts = (\<lambda>op. map_option (\<lambda>r. (nat (or_index r), or_receipt_id r)) (durable_receipt P ws app op d)),
      pr_final = map_option (\<lambda>r. map fst (ar_refs r)) (durable_final P ws app d)\<rparr>"

text \<open>The rows of an application are bound to the keys they are stored under.\<close>

definition rows_bound :: "prims \<Rightarrow> string \<Rightarrow> string \<Rightarrow> database \<Rightarrow> bool" where
  "rows_bound P ws app d \<longleftrightarrow>
     (\<forall>s. durable_state P ws app d = Some s \<longrightarrow> es_application_id s = app) \<and>
     (\<forall>op a. durable_attempt P ws app op d = Some a \<longrightarrow> at_operation_identity a = op)"

lemma protocol_of_empty: "protocol_of P ws app empty_database = initial_protocol"
  by (simp add: protocol_of_def initial_protocol_def durable_defs empty_database_def select_row_def)

lemma rows_bound_empty: "rows_bound P ws app empty_database"
  by (simp add: rows_bound_def durable_defs empty_database_def select_row_def)

text \<open>The updates the managed operations make, seen by the application itself and by any other.\<close>

lemma sel_insert [simp]: "insert_row k v t = Inr t' \<Longrightarrow> select_row j t' = (if j = k then Some v else select_row j t)"
  by (rule table.sel_ins)

lemma sel_update [simp]: "select_row j (update_row k v t) = (if j = k \<and> select_row k t \<noteq> None then Some v else select_row j t)"
  by (rule table.sel_upd)

lemma insert_absent: "insert_row k v t = Inr t' \<Longrightarrow> select_row k t = None"
  by (rule table.ins_Inr_absent)

section \<open>Each operation is a step\<close>

text \<open>A context may only name the approved operations of the application.\<close>

definition context_sound :: "prims \<Rightarrow> string \<Rightarrow> string list \<Rightarrow> exec_context \<Rightarrow> bool" where
  "context_sound P app ids ctx \<longleftrightarrow> context_ok P ctx \<and>
     (id_application_id (cx_identity ctx) = app \<longrightarrow> operation_ids P app (cx_operations ctx) = Inr ids)"

definition implements ::
  "prims \<Rightarrow> string \<Rightarrow> string \<Rightarrow> string list \<Rightarrow> database \<Rightarrow> database \<Rightarrow> bool" where
  "implements P ws app ids d d' \<longleftrightarrow> (rows_bound P ws app d \<longrightarrow>
     rows_bound P ws app d' \<and> (protocol_step ids)\<^sup>=\<^sup>= (protocol_of P ws app d) (protocol_of P ws app d'))"

text \<open>Writes to the rows of another application or workspace are invisible.\<close>

definition same_rows :: "string \<Rightarrow> string \<Rightarrow> database \<Rightarrow> database \<Rightarrow> bool" where
  "same_rows ws app d d' \<longleftrightarrow>
     select_row (ws, app) (db_executions d') = select_row (ws, app) (db_executions d) \<and>
     (\<forall>op. select_row (ws, app, op) (db_attempts d') = select_row (ws, app, op) (db_attempts d)) \<and>
     (\<forall>op. select_row (ws, app, op) (db_operation_receipts d') = select_row (ws, app, op) (db_operation_receipts d)) \<and>
     select_row (ws, app) (db_application_receipts d') = select_row (ws, app) (db_application_receipts d)"

lemma same_rows_implements: "same_rows ws app d d' \<Longrightarrow> implements P ws app ids d d'"
  by (auto simp: same_rows_def implements_def protocol_of_def rows_bound_def durable_defs)

lemma implementsI:
  assumes "rows_bound P ws app d \<Longrightarrow> rows_bound P ws app d'"
    and "rows_bound P ws app d \<Longrightarrow> protocol_step ids (protocol_of P ws app d) (protocol_of P ws app d')"
  shows "implements P ws app ids d d'"
  using assms by (simp add: implements_def)

lemma create_implements:
  assumes "create_execution_if_absent P E st cap artifact w = (Inr s, w')" "exec_state_ok P (lv_body artifact)"
  shows "\<exists>t. implements P ws app ids (env_others E t (w_db w)) (w_db w')"
  using assms
proof (cases rule: create_execution_if_absent_run)
  case (existing t doc)
  then show ?thesis by (auto simp: implements_def intro!: exI [of _ t])
next
  case (created t rows)
  let ?d = "env_others E t (w_db w)"
  have s: "decode_exec_state P (exec_state_doc s) = Inr s" using created(2) exec_state_roundtrip by blast
  show ?thesis
  proof (cases "(st_workspace st, es_application_id (lv_body artifact)) = (ws, app)")
    case True
    then have "durable_state P ws app ?d = None" "durable_state P ws app (w_db w') = Some s"
      using created(12,13) s insert_absent [OF created(12)] by (simp_all add: durable_defs)
    moreover have "durable_attempt P ws app op (w_db w') = durable_attempt P ws app op ?d"
      "durable_receipt P ws app op (w_db w') = durable_receipt P ws app op ?d"
      "durable_final P ws app (w_db w') = durable_final P ws app ?d" for op
      using created(13) by (simp_all add: durable_defs)
    ultimately have "protocol_of P ws app (w_db w') =
        (protocol_of P ws app ?d)\<lparr>pr_state := Some Pending, pr_next := 0, pr_current := PNone, pr_refs := []\<rparr>"
      "pr_state (protocol_of P ws app ?d) = None" "durable_attempt P ws app op (w_db w') = durable_attempt P ws app op ?d"
      "durable_state P ws app (w_db w') = Some s" for op
      using created(5,6,8,9) by (simp_all add: protocol_of_def)
    then show ?thesis
      using protocol_step.Created [of "protocol_of P ws app ?d" ids] created(10) True
      by (intro exI [of _ t] implementsI) (simp_all add: rows_bound_def)
  next
    case False
    then show ?thesis
      using created(12,13) by (intro exI [of _ t] same_rows_implements) (auto simp: same_rows_def)
  qed
qed

lemma claim_implements:
  assumes "claim_next_operation P E st cap app' dig ctx owner now w = (Inr (s, a), w')" "context_sound P app ids ctx"
  shows "\<exists>t. implements P ws app ids (env_others E t (w_db w)) (w_db w')"
proof -
  have ok: "context_ok P ctx" using assms(2) by (simp add: context_sound_def)
  from assms(1) ok show ?thesis
  proof (rule claim_next_operation_run, goal_cases)
    case (1 t doc prev rows)
    note c = 1
    let ?d = "env_others E t (w_db w)"
    have s: "decode_exec_state P (exec_state_doc s) = Inr s" "decode_attempt P (attempt_doc a) = Inr a"
      using c exec_state_roundtrip attempt_roundtrip by blast+
    show ?case
    proof (cases "(st_workspace st, app') = (ws, app)")
      case True
      then have ids: "length ids = length (cx_operations ctx)" "ids ! es_next prev = at_operation_identity a"
        using assms(2) c(3,12,31) operation_ids_Inr [of P app "cx_operations ctx" ids] by (auto simp: context_sound_def)
      have "durable_state P ws app ?d = Some prev" "durable_state P ws app (w_db w') = Some s"
        using True c(4,5,33) s by (simp_all add: durable_defs)
      moreover have "durable_attempt P ws app (at_operation_identity a) ?d = None"
        "durable_attempt P ws app op (w_db w') =
           (if op = at_operation_identity a then Some a else durable_attempt P ws app op ?d)" for op
        using True c(32,33) s insert_absent [OF c(32)] by (simp_all add: durable_defs)
      moreover have "durable_receipt P ws app op (w_db w') = durable_receipt P ws app op ?d"
        "durable_final P ws app (w_db w') = durable_final P ws app ?d" for op
        using c(33) by (simp_all add: durable_defs)
      ultimately have "protocol_of P ws app (w_db w') = (let p = protocol_of P ws app ?d in
          p\<lparr>pr_state := Some Applying, pr_current := PStr (ids ! pr_next p),
            pr_attempts := (pr_attempts p)(ids ! pr_next p \<mapsto> (pr_next p, Applying))\<rparr>)"
        "pr_state (protocol_of P ws app ?d) \<in> {Some Pending, Some PartiallyApplied}"
        "pr_next (protocol_of P ws app ?d) < length ids"
        "pr_attempts (protocol_of P ws app ?d) (ids ! pr_next (protocol_of P ws app ?d)) = None"
        "durable_state P ws app (w_db w') = Some s"
        "durable_attempt P ws app op (w_db w') =
           (if op = at_operation_identity a then Some a else durable_attempt P ws app op ?d)" for op
        using c(9,12,15,17-19,21,27,28) ids True by (auto simp: protocol_of_def fun_eq_iff Let_def)
      then show ?thesis
        using protocol_step.Claimed [of "protocol_of P ws app ?d" ids]
          c(21) True
        by (intro exI [of _ t] implementsI) (simp_all add: rows_bound_def Let_def)
    next
      case False
      then show ?thesis
        using c(32,33) by (intro exI [of _ t] same_rows_implements) (auto simp: same_rows_def)
    qed
  qed
qed

lemma complete_implements:
  assumes run: "complete_operation_success P E st cap app' sd aid ad owner ctx receipt now w = (Inr s, w')"
    and sound: "context_sound P app ids ctx" and rok: "operation_receipt_ok P (lv_body receipt)"
  shows "\<exists>t. implements P ws app ids (env_others E t (w_db w)) (w_db w')"
proof -
  have ok: "context_ok P ctx" using sound by (simp add: context_sound_def)
  from run ok rok show ?thesis
  proof (rule complete_operation_success_run, goal_cases)
    case (1 t doc row prev attempt a r rows)
    note c = 1
    let ?d = "env_others E t (w_db w)"
    let ?p = "protocol_of P ws app ?d"
    have dec: "decode_exec_state P (exec_state_doc s) = Inr s" "decode_attempt P (attempt_doc a) = Inr a"
      "decode_operation_receipt P (operation_receipt_doc r) = Inr r"
      using c exec_state_roundtrip attempt_roundtrip operation_receipt_roundtrip by blast+
    show ?case
    proof (cases "(st_workspace st, app') = (ws, app)")
      case key: True
      have before: "durable_state P ws app ?d = Some prev" "durable_attempt P ws app aid ?d = Some attempt"
        using key c(4-7) by (simp_all add: durable_defs)
      show ?thesis
      proof (intro exI [of _ t] implementsI)
        assume "rows_bound P ws app ?d"
        then have bound: "es_application_id prev = app" "at_operation_identity attempt = aid"
            "\<And>op b. durable_attempt P ws app op ?d = Some b \<Longrightarrow> at_operation_identity b = op"
          using before by (auto simp: rows_bound_def)
        have after: "durable_state P ws app (w_db w') = Some s"
          "durable_attempt P ws app op (w_db w') = (if op = aid then Some a else durable_attempt P ws app op ?d)"
          "durable_receipt P ws app op (w_db w') = (if op = aid then Some r else durable_receipt P ws app op ?d)"
          "durable_receipt P ws app aid ?d = None" "durable_final P ws app (w_db w') = durable_final P ws app ?d" for op
          using key c(4,6,41,42) dec bound(2) insert_absent [OF c(41)] by (simp_all add: durable_defs)
        show "rows_bound P ws app (w_db w')"
          using after bound c(32,38) by (auto simp: rows_bound_def)
        have ids: "at_index attempt < length ids" "ids ! at_index attempt = aid"
          using sound bound c(3,17,18) operation_ids_Inr [of P app "cx_operations ctx" ids] by (auto simp: context_sound_def)
        have "protocol_of P ws app (w_db w') = ?p\<lparr>pr_state := Some PartiallyApplied, pr_next := Suc (pr_next ?p),
            pr_current := PNone, pr_refs := pr_refs ?p @ [or_receipt_id r],
            pr_attempts := (pr_attempts ?p)(aid \<mapsto> (at_index attempt, Applied)),
            pr_receipts := (pr_receipts ?p)(aid \<mapsto> (at_index attempt, or_receipt_id r))\<rparr>"
          using before after c(22,26,28-30,36,37) by (auto simp: protocol_of_def fun_eq_iff)
        moreover have "pr_state ?p = Some Applying" "pr_current ?p = PStr aid"
            "pr_attempts ?p aid = Some (at_index attempt, Applying)" "pr_receipts ?p aid = None"
          using before after c(11,13,16) by (simp_all add: protocol_of_def)
        ultimately show "protocol_step ids ?p (protocol_of P ws app (w_db w'))"
          using protocol_step.Completed ids by simp
      qed
    next
      case False
      then show ?thesis
        using c(41,42) by (intro exI [of _ t] same_rows_implements) (auto simp: same_rows_def)
    qed
  qed
qed

lemma settle_implements:
  assumes run: "settle_operation P E st cap app' sd aid ad owner ctx target code now w = (Inr s, w')"
    and sound: "context_sound P app ids ctx"
  shows "\<exists>t. implements P ws app ids (env_others E t (w_db w)) (w_db w')"
proof -
  have ok: "context_ok P ctx" using sound by (simp add: context_sound_def)
  from run ok show ?thesis
  proof (rule settle_operation_run, goal_cases)
    case (1 t doc row prev attempt a)
    note c = 1
    let ?d = "env_others E t (w_db w)"
    let ?p = "protocol_of P ws app ?d"
    have dec: "decode_exec_state P (exec_state_doc s) = Inr s" "decode_attempt P (attempt_doc a) = Inr a"
      using c exec_state_roundtrip attempt_roundtrip by blast+
    show ?case
    proof (cases "(st_workspace st, app') = (ws, app)")
      case key: True
      have before: "durable_state P ws app ?d = Some prev" "durable_attempt P ws app aid ?d = Some attempt"
        using key c(5-8) by (simp_all add: durable_defs)
      have after: "durable_state P ws app (w_db w') = Some s"
        "durable_attempt P ws app op (w_db w') = (if op = aid then Some a else durable_attempt P ws app op ?d)"
        "durable_receipt P ws app op (w_db w') = durable_receipt P ws app op ?d"
        "durable_final P ws app (w_db w') = durable_final P ws app ?d" for op
        using key c(5,7,36) dec by (simp_all add: durable_defs)
      show ?thesis
      proof (intro exI [of _ t] implementsI)
        assume "rows_bound P ws app ?d"
        then show "rows_bound P ws app (w_db w')"
          using before after c(27,33) by (auto simp: rows_bound_def)
      next
        have "protocol_of P ws app (w_db w') = ?p\<lparr>pr_state := Some target,
            pr_attempts := (pr_attempts ?p)(aid \<mapsto> (at_index attempt, target))\<rparr>"
          using before after c(14,20,22,24,25,31,32) by (auto simp: protocol_of_def fun_eq_iff)
        moreover have "pr_state ?p = Some Applying" "pr_current ?p = PStr aid"
            "pr_attempts ?p aid = Some (at_index attempt, Applying)"
          using before c(12,14,17) by (simp_all add: protocol_of_def)
        ultimately show "protocol_step ids ?p (protocol_of P ws app (w_db w'))"
          using protocol_step.Settled c(4) by simp
      qed
    next
      case False
      then show ?thesis
        using c(36) by (intro exI [of _ t] same_rows_implements) (auto simp: same_rows_def)
    qed
  qed
qed

lemma finalize_implements:
  assumes run: "finalize_application P E st cap app' sd ctx now w = (Inr s, w')"
    and sound: "context_sound P app ids ctx"
  shows "\<exists>t. implements P ws app ids (env_others E t (w_db w)) (w_db w')"
proof -
  have ok: "context_ok P ctx" using sound by (simp add: context_sound_def)
  from run ok show ?thesis
  proof (rule finalize_application_run, goal_cases)
    case (1 t doc prev refs r rows)
    note c = 1
    let ?d = "env_others E t (w_db w)"
    let ?p = "protocol_of P ws app ?d"
    have dec: "decode_exec_state P (exec_state_doc s) = Inr s" "decode_application_receipt P (application_receipt_doc r) = Inr r"
      using c exec_state_roundtrip application_receipt_roundtrip by blast+
    show ?case
    proof (cases "(st_workspace st, app') = (ws, app)")
      case key: True
      have before: "durable_state P ws app ?d = Some prev" using key c(4,5) by (simp add: durable_defs)
      have after: "durable_state P ws app (w_db w') = Some s"
        "durable_attempt P ws app op (w_db w') = durable_attempt P ws app op ?d"
        "durable_receipt P ws app op (w_db w') = durable_receipt P ws app op ?d"
        "durable_final P ws app (w_db w') = Some r" "durable_final P ws app ?d = None" for op
        using key c(4,30,31) dec insert_absent [OF c(30)] by (simp_all add: durable_defs)
      show ?thesis
      proof (intro exI [of _ t] implementsI)
        assume "rows_bound P ws app ?d"
        then show "rows_bound P ws app (w_db w')"
          using before after c(28) by (auto simp: rows_bound_def)
      next
        assume "rows_bound P ws app ?d"
        then have "app = id_application_id (cx_identity ctx)" using before c(3) by (auto simp: rows_bound_def)
        then have ids: "operation_ids P app (cx_operations ctx) = Inr ids" using sound by (simp add: context_sound_def)
        have "pr_receipts ?p (ids ! j) = Some (j, map fst refs ! j)" if j: "j < length (cx_operations ctx)" for j
          using c(13) c(14) [OF j] operation_ids_Inr(2) [OF ids j] j key
          by (auto simp: receipted_def protocol_of_def durable_defs)
        moreover have "map fst refs = map fst (ar_refs r)" using c(18) by (auto simp: case_prod_unfold comp_def)
        ultimately have refs: "list_all (\<lambda>j. pr_receipts ?p (ids ! j) = Some (j, map fst (ar_refs r) ! j)) [0..<length ids]"
            "length (map fst (ar_refs r)) = length ids"
          using operation_ids_Inr(1) [OF ids] c(13) by (auto simp: list_all_iff dest: arg_cong [of _ _ length])
        have "protocol_of P ws app (w_db w') = ?p\<lparr>pr_state := Some Applied, pr_final := Some (map fst (ar_refs r))\<rparr>"
          using before after c(11,22,24-26) by (simp add: protocol_of_def)
        moreover have "pr_state ?p = Some PartiallyApplied" "pr_current ?p = PNone" "pr_next ?p = length ids" "pr_final ?p = None"
          using before after c(9,11,12) operation_ids_Inr(1) [OF ids] by (simp_all add: protocol_of_def)
        ultimately show "protocol_step ids ?p (protocol_of P ws app (w_db w'))"
          using protocol_step.Finalized refs by simp
      qed
    next
      case False
      then show ?thesis
        using c(30,31) by (intro exI [of _ t] same_rows_implements) (auto simp: same_rows_def)
    qed
  qed
qed

section \<open>Calls are steps\<close>

text \<open>
  The objects a call hands over are objects of their classes, and its context, if it is one of the
  application, holds the approved operations.
\<close>

fun call_sound :: "prims \<Rightarrow> string \<Rightarrow> string list \<Rightarrow> store_call \<Rightarrow> bool" where
  "call_sound P app ids (CreateExecution s) = exec_state_ok P (lv_body s)"
| "call_sound P app ids (ClaimNext _ _ ctx _ _) = context_sound P app ids ctx"
| "call_sound P app ids (CompleteSuccess _ _ _ _ _ ctx r _) =
     (context_sound P app ids ctx \<and> operation_receipt_ok P (lv_body r))"
| "call_sound P app ids (Settle _ _ _ _ _ ctx _ _ _) = context_sound P app ids ctx"
| "call_sound P app ids (Finalize _ _ ctx _) = context_sound P app ids ctx"
| "call_sound P app ids _ = True"

lemma implements_refl: "implements P ws app ids d d"
  by (simp add: implements_def)

lemma perform_implements:
  assumes "perform P E st cap call w = (r, w')" "orchestrated st" "call_sound P app ids call"
  shows "\<exists>ts. implements P ws app ids (fold (env_others E) ts (w_db w)) (w_db w')"
proof (cases r)
  case (Inl e)
  then obtain ts where "w_db w' = fold (env_others E) ts (w_db w)"
    using assms(1) perform_clean unfolding awaits_def by blast
  then show ?thesis using implements_refl by metis
next
  case (Inr u)
  then have managed: "managed_call call" and run: "perform P E st cap call w = (Inr u, w')"
    using assms(1,2) generic_rejected by (metis Pair_inject sum.distinct(1), simp)
  have "\<exists>t. implements P ws app ids (env_others E t (w_db w)) (w_db w')"
    using managed run assms(3)
    by (cases call) (auto simp: void_run intro: create_implements claim_implements complete_implements
        settle_implements finalize_implements)
  then obtain t where "implements P ws app ids (fold (env_others E) [t] (w_db w)) (w_db w')" by auto
  then show ?thesis by blast
qed

text \<open>
  The databases reached from the empty one by calls of orchestrated stores with sound arguments, in
  any order: any process may make the next call, so the state of the process (its world apart from
  the database) is arbitrary, but no other process writes while the call runs.  The calls of a store
  that is not orchestrated are not among them; what those may do to a managed application is the
  subject of \<open>managed_application_protected\<close>.
\<close>

inductive store_reach :: "prims \<Rightarrow> string \<Rightarrow> string \<Rightarrow> string list \<Rightarrow> database \<Rightarrow> bool" for P ws app ids where
  Opened: "store_reach P ws app ids empty_database"
| Called: "store_reach P ws app ids (w_db w) \<Longrightarrow> orchestrated st \<Longrightarrow> call_sound P app ids call \<Longrightarrow>
    env_others E = (\<lambda>t d. d) \<Longrightarrow> perform P E st cap call w = (r, w') \<Longrightarrow> store_reach P ws app ids (w_db w')"

lemma fold_id [simp]: "fold (\<lambda>t d. d) ts d = d"
  by (induction ts) simp_all

lemma store_reach_protocol:
  assumes "store_reach P ws app ids d"
  shows "rows_bound P ws app d \<and> (protocol_step ids)\<^sup>*\<^sup>* initial_protocol (protocol_of P ws app d)"
  using assms
proof (induction rule: store_reach.induct)
  case Opened
  then show ?case by (simp add: rows_bound_empty protocol_of_empty)
next
  case (Called w st call E cap r w')
  then obtain ts where "implements P ws app ids (fold (env_others E) ts (w_db w)) (w_db w')"
    using perform_implements by blast
  then have "implements P ws app ids (w_db w) (w_db w')" using Called(4) by simp
  then show ?case using Called.IH unfolding implements_def
    by (metis (mono_tags, lifting) rtranclp.rtrancl_into_rtrancl sup2E)
qed

lemma store_reach_ok:
  assumes "store_reach P ws app ids d" "distinct ids"
  shows "protocol_ok ids (protocol_of P ws app d)"
  using store_reach_protocol [OF assms(1)] protocol_ok_steps protocol_ok_initial assms(2) by blast

text \<open>The invariant of the protocol, read off the rows.\<close>

lemma protocol_of_state:
  assumes "durable_state P ws app d = Some s"
  shows "pr_state (protocol_of P ws app d) = Some (es_state s)" "pr_next (protocol_of P ws app d) = es_next s"
    "pr_current (protocol_of P ws app d) = es_attempt s" "pr_refs (protocol_of P ws app d) = es_refs s"
  using assms by (simp_all add: protocol_of_def)

lemma protocol_of_rows:
  "pr_attempts (protocol_of P ws app d) op = Some (i, st) \<longleftrightarrow>
     (\<exists>a. durable_attempt P ws app op d = Some a \<and> at_index a = i \<and> at_state a = st)"
  "pr_attempts (protocol_of P ws app d) op = None \<longleftrightarrow> durable_attempt P ws app op d = None"
  "pr_receipts (protocol_of P ws app d) op = Some (i, rid) \<longleftrightarrow>
     (\<exists>r. durable_receipt P ws app op d = Some r \<and> nat (or_index r) = i \<and> or_receipt_id r = rid)"
  "pr_receipts (protocol_of P ws app d) op = None \<longleftrightarrow> durable_receipt P ws app op d = None"
  "pr_final (protocol_of P ws app d) = Some rs \<longleftrightarrow>
     (\<exists>r. durable_final P ws app d = Some r \<and> map fst (ar_refs r) = rs)"
  by (auto simp: protocol_of_def)

end
