(* ===== verification/Store_Progress.thy ===== *)
theory Store_Progress
  imports Store_Refinement
begin

text \<open>
  Enough conditions for the managed operations to succeed: while the authority stays current and
  nobody interferes, an application can be created, its next operation claimed, completed and
  settled, and the complete application finalized.  They show that the protocol is not blocked by
  the code's own checks, and give the runs that instantiate the other theorems.
\<close>

section \<open>Documents that can be written\<close>

definition jsonable :: "pyval \<Rightarrow> bool" where
  "jsonable v \<longleftrightarrow> (\<exists>t. json_text v = Inr t)"

lemma jsonable_simps [simp]: "jsonable PNone" "jsonable (PStr s)" "jsonable (PInt i)" "jsonable (PBool b)"
  by (simp_all add: jsonable_def)

lemma sequence_ok: "list_all (\<lambda>m. \<exists>x. m = Inr x) ms \<Longrightarrow> \<exists>xs. sequence ms = Inr xs"
  by (induction ms) auto

lemma jsonable_list [simp]: "jsonable (PList xs) \<longleftrightarrow> list_all jsonable xs"
proof
  show "jsonable (PList xs)" if "list_all jsonable xs"
  proof -
    have "list_all (\<lambda>m. \<exists>x. m = Inr x) (map json_text xs)" using that by (simp add: list_all_iff jsonable_def)
    then show ?thesis using sequence_ok by (fastforce simp: jsonable_def)
  qed
  show "list_all jsonable xs" if "jsonable (PList xs)"
    using that by (auto simp: jsonable_def rbind_Inr sequence_Inr list_all_iff map_Inr_eq_conv list_all2_conv_all_nth in_set_conv_nth)
qed

lemma jsonable_strs [simp]: "jsonable (strs ss)"
  by (simp add: strs_def list_all_iff)

lemma jsonable_obj:
  assumes "list_all (\<lambda>kv. jsonable (snd kv)) kvs"
  shows "jsonable (obj kvs)"
proof -
  let ?ps = "map (\<lambda>(k, v). (PStr k, v)) kvs"
  let ?entries = "sort_key (\<lambda>e. str_of (fst e)) (zip (map fst ?ps) (map (\<lambda>kv. json_text (snd kv)) ?ps))"
  have "set (map snd ?entries) \<subseteq> (\<lambda>kv. json_text (snd kv)) ` set kvs"
    by (force dest!: set_zip_rightD)
  then have "list_all (\<lambda>m. \<exists>x. m = Inr x) (map snd ?entries)"
    using assms unfolding list_all_iff jsonable_def by blast
  then obtain vs where "sequence (map snd ?entries) = Inr vs" using sequence_ok by blast
  moreover have "list_all (\<lambda>k. case k of PStr _ \<Rightarrow> True | _ \<Rightarrow> False) (map fst ?ps)"
    by (auto simp: list_all_iff)
  ultimately show ?thesis by (simp add: jsonable_def obj_def Let_def)
qed

lemma jsonable_docs [simp]: "jsonable (identity_to_dict v)" "jsonable (anchor_to_dict a)" "jsonable (provenance_to_dict p)"
  "jsonable (operation_doc op)"
proof -
  have "jsonable (values_to_dict v)"
    unfolding values_to_dict_def by (rule jsonable_obj) (simp add: values_fields_def)
  then show "jsonable (identity_to_dict v)"
    unfolding identity_to_dict_def by (intro jsonable_obj) simp
  show "jsonable (anchor_to_dict a)" "jsonable (provenance_to_dict p)" "jsonable (operation_doc op)"
    unfolding anchor_to_dict_def provenance_to_dict_def operation_doc_def
    by (rule jsonable_obj; simp add: provenance_kvs_def)+
qed

text \<open>Fields that hold text or nothing.\<close>

fun textual :: "pyval \<Rightarrow> bool" where
  "textual PNone = True"
| "textual (PStr _) = True"
| "textual _ = False"

lemma textual_json: "textual v \<Longrightarrow> jsonable v" and textual_normal: "textual v \<Longrightarrow> normalizable P v"
  by (cases v; simp)+

definition plain_state :: "exec_state \<Rightarrow> bool" where
  "plain_state s \<longleftrightarrow> textual (es_owner s) \<and> textual (es_attempt s) \<and> textual (es_recovery s) \<and>
     textual (es_started_at s) \<and> textual (es_updated_at s) \<and> textual (es_completed_at s)"

definition plain_attempt :: "attempt \<Rightarrow> bool" where
  "plain_attempt a \<longleftrightarrow> textual (at_started_at a) \<and> textual (at_updated_at a) \<and> textual (at_failure_code a)"

lemma exec_state_sealed: "plain_state s \<Longrightarrow> \<exists>d. exec_state_with_digest P s = Inr (s\<lparr>es_digest := PStr d\<rparr>)"
  using digest_normalizable [OF normalizable_exec_state, of P s]
  by (auto simp: plain_state_def textual_normal exec_state_with_digest_Inr)

lemma attempt_sealed: "plain_attempt a \<Longrightarrow> \<exists>d. attempt_with_digest P a = Inr (a\<lparr>at_digest := PStr d\<rparr>)"
proof -
  assume plain: "plain_attempt a"
  have "normalizable P (attempt_payload a)"
    unfolding attempt_payload_def
  proof (rule normalizable_obj)
    show "literal_keys (attempt_kvs a)" by (simp add: literal_keys_def attempt_kvs_def)
    show "list_all (\<lambda>kv. normalizable P (snd kv)) (attempt_kvs a)"
      using plain by (simp add: attempt_kvs_def plain_attempt_def textual_normal)
  qed
  then show ?thesis using digest_normalizable [of P "attempt_payload a"] by (auto simp: attempt_with_digest_Inr)
qed

lemma jsonable_exec_state: "plain_state s \<Longrightarrow> jsonable (exec_state_doc (s\<lparr>es_digest := PStr d\<rparr>))"
  unfolding exec_state_doc_def by (rule jsonable_obj) (auto simp: exec_state_kvs_def plain_state_def textual_json)

lemma jsonable_attempt: "plain_attempt a \<Longrightarrow> jsonable (attempt_doc (a\<lparr>at_digest := PStr d\<rparr>))"
  unfolding attempt_doc_def by (rule jsonable_obj) (auto simp: attempt_kvs_def plain_attempt_def textual_json)

section \<open>A steady environment\<close>

definition steady :: "env \<Rightarrow> bool" where
  "steady E \<longleftrightarrow> (\<forall>t. env_authority E t = AuthorityCurrent) \<and> (\<forall>t d. env_others E t d = d)"

text \<open>What a step inside the process keeps: registered contexts and live artifacts.\<close>

definition later :: "world \<Rightarrow> world \<Rightarrow> bool" where
  "later w w' \<longleftrightarrow> w_contexts w' = w_contexts w \<and> w_sent w' = w_sent w \<and> w_next w \<le> w_next w' \<and> w_tick w \<le> w_tick w' \<and>
     (\<forall>i < w_next w. w_artifacts w' i = w_artifacts w i)"

interpretation later: frame later
  by unfold_locales (auto simp: later_def)

lemmas later_trans = later.frame_trans

definition live_in :: "exec_context \<Rightarrow> string \<Rightarrow> ('a \<Rightarrow> pyval) \<Rightarrow> 'a live \<Rightarrow> world \<Rightarrow> bool" where
  "live_in ctx kind payload l w \<longleftrightarrow> w_artifacts w (lv_object l) = Some (kind, cx_id ctx, payload (lv_body l)) \<and>
     lv_context l = Some (cx_id ctx) \<and> lv_object l < w_next w"

lemma live_in_later: "live_in ctx kind payload l w \<Longrightarrow> later w w' \<Longrightarrow> live_in ctx kind payload l w'"
  unfolding live_in_def later_def by (elim conjE) (metis less_le_trans)

definition usable :: "prims \<Rightarrow> exec_context \<Rightarrow> world \<Rightarrow> bool" where
  "usable P ctx w \<longleftrightarrow> context_ok P ctx \<and> w_contexts w (cx_id ctx) = Some ctx"

lemma usable_later: "usable P ctx w \<Longrightarrow> later w w' \<Longrightarrow> usable P ctx w'"
  by (simp add: usable_def later_def)

abbreviation tick :: "world \<Rightarrow> world" where
  "tick w \<equiv> w\<lparr>w_tick := Suc (w_tick w)\<rparr>"

lemma later_tick: "later w (tick w)"
  by (simp add: later_def)

lemma validate_ok:
  "steady E \<Longrightarrow> usable P ctx w \<Longrightarrow> cx_service ctx = sv \<Longrightarrow> validate_execution_context P E sv ctx w = (Inr (), tick w)"
  using validate_execution_context_current [of P ctx w E] by (auto simp: steady_def usable_def)

lemma validate_live_ok:
  "steady E \<Longrightarrow> usable P ctx w \<Longrightarrow> cx_service ctx = sv \<Longrightarrow> live_in ctx kind payload l w \<Longrightarrow>
     validate_live_artifact P E sv l payload ctx kind w = (Inr (), tick w)"
  by (simp add: validate_live_artifact_def bnd_exec validate_ok live_in_def)

lemma register_ok:
  obtains l w' where "register ctx kind payload body w = (Inr l, w')" "lv_body l = body" "live_in ctx kind payload l w'"
    "later w w'" "w_db w' = w_db w"
proof -
  let ?l = "\<lparr>lv_body = body, lv_object = w_next w, lv_context = Some (cx_id ctx)\<rparr>"
  let ?w = "w\<lparr>w_next := Suc (w_next w), w_artifacts := (w_artifacts w)(w_next w \<mapsto> (kind, cx_id ctx, payload body))\<rparr>"
  have "register ctx kind payload body w = (Inr ?l, ?w)" by (simp add: register_run)
  then show ?thesis by (rule that) (simp_all add: live_in_def later_def)
qed

lemma after_others_steady: "steady E \<Longrightarrow> after_others E w = tick w"
  by (simp add: after_others_def steady_def)

section \<open>Making evidence\<close>

lemma application_id_nonempty: "identity_ok P i \<Longrightarrow> id_application_id i \<noteq> []"
  by (auto simp: identity_ok_def)

lemma request_identity_ok: "op \<noteq> [] \<Longrightarrow> \<exists>r. request_identity P op = Inr r"
  using digest_hex_normalizable [OF normalizable_request_payload, of P op] by (auto simp: request_identity_def)

lemma operation_identity_nonempty:
  "wf_op op \<Longrightarrow> operation_identity P app i (operation_doc op) = Inr oid \<Longrightarrow> oid \<noteq> []"
  by (auto simp: operation_identity_doc)

lemma live_provenance:
  assumes "provenance_from_live_authority P a = Inr p"
  shows "pv_driver_identity p = au_driver_identity a" "pv_remote_authority p = au_remote_authority a"
    "pv_credential_principal_identity p = au_credential_principal_identity a" "pv_issuer_id p = au_issuer_id a"
    "pv_credential_instance_id p = au_credential_instance_id a"
proof -
  obtain i :: logical_identity where "provenance_from_source (obj (authority_fields a @ [(''application_id'', PStr (id_application_id i))])) = Inr p"
    using assms by (auto simp: provenance_from_live_authority_def rbind_Inr)
  then have *: "dict_get (obj (authority_fields a @ [(''application_id'', PStr (id_application_id i))])) k = PStr (f p)"
    if "(k, f) \<in> {(''driver_identity'', pv_driver_identity), (''remote_authority'', pv_remote_authority),
        (''credential_principal_identity'', pv_credential_principal_identity), (''issuer_id'', pv_issuer_id),
        (''credential_instance_id'', pv_credential_instance_id)}" for k f
    using that unfolding provenance_from_source_def
    by (auto simp: rbind_Inr raise_if_Inr provenance_text_Inr simp del: dict_get_obj)
  show "pv_driver_identity p = au_driver_identity a" using * [of "''driver_identity''" pv_driver_identity]
    by (simp add: authority_fields_def)
  show "pv_remote_authority p = au_remote_authority a" using * [of "''remote_authority''" pv_remote_authority]
    by (simp add: authority_fields_def)
  show "pv_credential_principal_identity p = au_credential_principal_identity a"
    using * [of "''credential_principal_identity''" pv_credential_principal_identity] by (simp add: authority_fields_def)
  show "pv_issuer_id p = au_issuer_id a" using * [of "''issuer_id''" pv_issuer_id]
    by (simp add: authority_fields_def)
  show "pv_credential_instance_id p = au_credential_instance_id a"
    using * [of "''credential_instance_id''" pv_credential_instance_id] by (simp add: authority_fields_def)
qed

lemma new_attempt_ok:
  assumes "steady E" "usable P ctx w" and i: "i < length (cx_operations ctx)"
    and s: "s \<in> set attempt_states" and x: "x \<noteq> []" and y: "y \<noteq> []"
  obtains l w' where "new_attempt P E ctx i [(''state'', PStr (status_name s)), (''started_at'', PStr x), (''updated_at'', PStr y)] w
      = (Inr l, w')"
    "live_in ctx ''attempt'' attempt_payload l w'" "later w w'" "w_db w' = w_db w" "plain_attempt (lv_body l)"
proof -
  have ok: "context_ok P ctx" using assms(2) by (simp add: usable_def)
  let ?op = "cx_operations ctx ! i" and ?app = "id_application_id (cx_identity ctx)" and ?pv = "cx_provenance ctx"
  have wf: "wf_op ?op" using ok i by (simp add: context_ok_def list_all_length)
  obtain oid where oid: "operation_identity P ?app (int i) (operation_doc ?op) = Inr oid"
    using operation_identity_exists [OF wf] application_id_nonempty [OF context_ok_identity [OF ok]] by force
  obtain rq where rq: "request_identity P oid = Inr rq"
    using request_identity_ok operation_identity_nonempty [OF wf oid] by blast
  define a where "a = \<lparr>at_application_id = ?app, at_operation_identity = oid, at_index = i, at_operation = ?op,
      at_provenance = ?pv, at_request_identity = rq, at_state = s, at_started_at = PStr x, at_updated_at = PStr y,
      at_identity = cx_identity ctx, at_failure_code = PNone, at_digest = PStr []\<rparr>"
  have prov: "pv_driver_identity ?pv = au_driver_identity (cx_authority ctx)" "pv_remote_authority ?pv = au_remote_authority (cx_authority ctx)"
    using ok live_provenance(1,2) [of P "cx_authority ctx" ?pv] by (simp_all add: context_ok_def)
  have "attempt_ok P a"
    using context_ok_identity [OF ok] context_ok_provenance [OF ok] wf oid rq s x y by (simp add: attempt_ok_def a_def)
  from OperationAttemptState_intro [OF this, of "PStr []"]
  have c: "OperationAttemptState P (PStr ?app) (PStr oid) (PInt (int i)) (operation_doc ?op) (Inr ?pv)
      (PStr (au_driver_identity (cx_authority ctx))) (PStr (au_remote_authority (cx_authority ctx))) (PStr rq)
      (PStr (status_name s)) (PStr x) (PStr y) (Inr (cx_identity ctx)) PNone (PStr []) = Inr a"
    using prov by (simp add: a_def)
  obtain l w' where r: "register ctx ''attempt'' attempt_payload a (tick w) = (Inr l, w')" "lv_body l = a"
      "live_in ctx ''attempt'' attempt_payload l w'" "later (tick w) w'" "w_db w' = w_db (tick w)"
    by (rule register_ok)
  show ?thesis
  proof (rule that)
    show "new_attempt P E ctx i [(''state'', PStr (status_name s)), (''started_at'', PStr x), (''updated_at'', PStr y)] w
      = (Inr l, w')"
      using i oid rq c r(1) unfolding new_attempt_def Let_def
      by (simp add: bnd_exec validate_ok [OF assms(1,2) refl])
    show "live_in ctx ''attempt'' attempt_payload l w'" by (rule r)
    show "later w w'" using later_trans [OF later_tick r(4)] .
    show "w_db w' = w_db w" using r(5) by simp
    show "plain_attempt (lv_body l)" by (simp add: r(2) a_def plain_attempt_def)
  qed
qed

lemma continue_execution_state_ok:
  assumes "steady E" "usable P ctx w" and h: "exec_state_verify P h = Inr True" "id_values (es_identity h) = id_values (cx_identity ctx)"
    "es_application_id h = id_application_id (cx_identity ctx)" "es_anchor h = cx_anchor ctx"
    and ch: "fst ` set changes \<subseteq> {''state'', ''next_operation_index'', ''owner_id'', ''current_attempt_id'',
                    ''recovery_code'', ''operation_receipt_refs'', ''updated_at'', ''completed_at''}"
    and s: "exec_state_ok P s" "es_identity s = cx_identity ctx" "es_anchor s = cx_anchor ctx" "es_managed s = es_managed h"
      "changed changes ''state'' (PStr (status_name (es_state h))) = PStr (status_name (es_state s))"
      "changed changes ''next_operation_index'' (PInt (int (es_next h))) = PInt (int (es_next s))"
      "changed changes ''owner_id'' (es_owner h) = es_owner s" "changed changes ''current_attempt_id'' (es_attempt h) = es_attempt s"
      "changed changes ''recovery_code'' (es_recovery h) = es_recovery s"
      "changed changes ''operation_receipt_refs'' (PTuple (map PStr (es_refs h))) = PTuple (map PStr (es_refs s))"
      "es_started_at h = es_started_at s" "changed changes ''updated_at'' (es_updated_at h) = es_updated_at s"
      "changed changes ''completed_at'' (es_completed_at h) = es_completed_at s"
  obtains l w' where "continue_execution_state P E ctx h changes w = (Inr l, w')" "lv_body l = s\<lparr>es_digest := PStr []\<rparr>"
    "live_in ctx ''execution'' exec_state_payload l w'" "later w w'" "w_db w' = w_db w"
proof -
  let ?s = "s\<lparr>es_digest := PStr []\<rparr>"
  have refs: "read_refs (PTuple (map PStr (es_refs s))) = read_refs (strs (es_refs s))"
    using s(1) by (simp add: read_refs_Inr read_refs_intro exec_state_ok_def)
  have app: "es_application_id s = id_application_id (cx_identity ctx)" using s(1,2) by (simp add: exec_state_ok_def)
  have "ApplicationExecutionState P (PStr (es_application_id h)) (Inr (cx_identity ctx))
        (PStr (status_name (es_state s))) (PInt (int (es_next s))) (es_owner s) (es_attempt s) (es_recovery s)
        (PTuple (map PStr (es_refs s))) (es_started_at s) (es_updated_at s) (es_completed_at s) (Inr (cx_anchor ctx))
        (if es_managed h then PStr applier_orchestration_policy else PNone) (PStr []) = Inr ?s"
    using ApplicationExecutionState_intro [OF s(1), of "PStr []"] s(2-4) h(3) app
    unfolding ApplicationExecutionState_def refs by simp
  note c = this
  obtain l w' where r: "register ctx ''execution'' exec_state_payload ?s (tick w) = (Inr l, w')" "lv_body l = ?s"
      "live_in ctx ''execution'' exec_state_payload l w'" "later (tick w) w'" "w_db w' = w_db (tick w)"
    by (rule register_ok)
  show ?thesis
  proof (rule that)
    show "continue_execution_state P E ctx h changes w = (Inr l, w')"
      using h ch s(5-13) c r(1) unfolding continue_execution_state_def
      by (simp add: bnd_exec validate_ok [OF assms(1,2) refl])
    show "lv_body l = ?s" "live_in ctx ''execution'' exec_state_payload l w'" by (rule r)+
    show "later w w'" using later_trans [OF later_tick r(4)] .
    show "w_db w' = w_db w" using r(5) by simp
  qed
qed

section \<open>Operations that succeed\<close>

definition able :: "prims \<Rightarrow> env \<Rightarrow> exec_store \<Rightarrow> capability option \<Rightarrow> exec_context \<Rightarrow> world \<Rightarrow> bool" where
  "able P E st cap ctx w \<longleftrightarrow>
     steady E \<and> usable P ctx w \<and> capability_valid st cap \<and> service_of st = cx_service ctx"

lemma clock_now: "require_clock_not_before (PStr now) vs = Inr () \<Longrightarrow> require_clock_not_before (PStr now) [PStr now] = Inr ()"
  by (auto simp: require_clock_not_before_Inr)

lemma clock_nonempty: "require_clock_not_before (PStr now) vs = Inr () \<Longrightarrow> now \<noteq> []"
  by (auto simp: require_clock_not_before_Inr execution_timestamp_Inr utc_text_def)

lemma steps_simps:
  "select_execution st app w = (Inr (select_row (st_workspace st, app) (db_executions (w_db w))), w)"
  "select_attempt st app op w = (Inr (select_row (st_workspace st, app, op) (db_attempts (w_db w))), w)"
  "select_operation_receipt st app op w = (Inr (select_row (st_workspace st, app, op) (db_operation_receipts (w_db w))), w)"
  "select_application_receipt st app w = (Inr (select_row (st_workspace st, app) (db_application_receipts (w_db w))), w)"
  "present code (Some doc) w = (Inr doc, w)" "jsonable doc \<Longrightarrow> dump doc w = (Inr doc, w)"
  "require_clock_not_before (PStr now) vs = Inr () \<Longrightarrow> now_not_before now vs w = (Inr (), w)"
  "capability_valid st cap \<Longrightarrow> require_orchestration_capability st cap w = (Inr (), w)"
  "steady E \<Longrightarrow> settle_others E w = (Inr (), tick w)"
  by (auto simp: select_execution_def select_attempt_def select_operation_receipt_def select_application_receipt_def
      present_def dump_def jsonable_def now_not_before_def require_orchestration_capability_def settle_others_def steady_def)

lemma insert_ok:
  "select_row (st_workspace st, app) (db_executions (w_db w)) = None \<Longrightarrow> \<exists>w'. insert_execution st app doc w = (Inr (), w')"
  "select_row (st_workspace st, app, op) (db_attempts (w_db w)) = None \<Longrightarrow> \<exists>w'. insert_attempt st app op doc w = (Inr (), w')"
  "select_row (st_workspace st, app, op) (db_operation_receipts (w_db w)) = None \<Longrightarrow>
     \<exists>w'. insert_operation_receipt st app op doc w = (Inr (), w')"
  "select_row (st_workspace st, app) (db_application_receipts (w_db w)) = None \<Longrightarrow>
     \<exists>w'. insert_application_receipt st app doc w = (Inr (), w')"
  using table.ins_absent by (force simp: insert_run)+

lemma update_ok: "\<exists>w'. update_execution st app doc w = (Inr (), w')" "\<exists>w'. update_attempt st app op doc w = (Inr (), w')"
  by (simp_all add: update_run)

lemma create_execution_ok:
  assumes able: "able P E st cap ctx w" and live: "live_in ctx ''execution'' exec_state_payload artifact w"
    and init: "es_state (lv_body artifact) = Pending" "es_next (lv_body artifact) = 0" "es_owner (lv_body artifact) = PNone"
      "es_attempt (lv_body artifact) = PNone" "es_recovery (lv_body artifact) = PNone" "es_refs (lv_body artifact) = []"
      "es_completed_at (lv_body artifact) = PNone"
    and plain: "plain_state (lv_body artifact)"
    and none: "select_row (st_workspace st, es_application_id (lv_body artifact)) (db_executions (w_db w)) = None"
  shows "\<exists>s w'. create_execution_if_absent P E st cap artifact w = (Inr s, w')"
proof -
  note a = able [unfolded able_def]
  obtain d where d: "exec_state_with_digest P (lv_body artifact) = Inr ((lv_body artifact)\<lparr>es_digest := PStr d\<rparr>)"
    using exec_state_sealed [OF plain] by blast
  note v = validate_live_ok [OF _ _ _ live, of E P "service_of st"]
  obtain w' where ins: "insert_execution st (es_application_id (lv_body artifact))
      (exec_state_doc ((lv_body artifact)\<lparr>es_digest := PStr d\<rparr>)) (tick (tick w)) = (Inr (), w')"
    using insert_ok(1) [of st _ "tick (tick w)"] none by fastforce
  have "w_contexts w (cx_id ctx) = Some ctx" using a by (simp add: usable_def)
  then have "create_execution_if_absent P E st cap artifact w =
      (Inr ((lv_body artifact)\<lparr>es_digest := PStr d\<rparr>), commit (w_db (tick (tick w))) w')"
    using a init none d v live ins jsonable_exec_state [OF plain] unfolding create_execution_if_absent_def Let_def
    by (simp add: bnd_exec steps_simps live_in_def transaction_def atomic_def)
  then show ?thesis by blast
qed

lemma claim_next_operation_ok:
  assumes able: "able P E st cap ctx w" and "owner_valid owner" and app: "app = id_application_id (cx_identity ctx)"
    and row: "select_row (st_workspace st, app) (db_executions (w_db w)) = Some doc" "decode_exec_state P doc = Inr prev"
    and prev: "es_managed prev" "exec_state_verify P prev = Inr True" "es_state prev \<in> {Pending, PartiallyApplied}"
      "es_owner prev = PNone" "es_attempt prev = PNone" "es_next prev < length (cx_operations ctx)"
      "es_identity prev = cx_identity ctx" "es_anchor prev = cx_anchor ctx" "plain_state prev"
    and clock: "require_clock_not_before (PStr now) [es_started_at prev, es_updated_at prev] = Inr ()"
    and free: "\<And>op. operation_identity P app (int (es_next prev)) (operation_doc (cx_operations ctx ! es_next prev)) = Inr op \<Longrightarrow>
      select_row (st_workspace st, app, op) (db_attempts (w_db w)) = None"
  obtains s a w' d where "claim_next_operation P E st cap app (es_digest prev) ctx owner now w = (Inr (s, a), w')"
    "s = prev\<lparr>es_state := Applying, es_owner := PStr owner, es_attempt := PStr (at_operation_identity a),
       es_updated_at := PStr now, es_digest := d\<rparr>"
    "at_provenance a = cx_provenance ctx" "at_started_at a = PStr now" "at_updated_at a = PStr now"
    "at_failure_code a = PNone" "at_operation a = cx_operations ctx ! es_next prev"
proof -
  note a = able [unfolded able_def]
  have u1: "usable P ctx (tick (tick w))" using a usable_later later_tick later_trans by metis
  have now: "now \<noteq> []" using clock_nonempty [OF clock] .
  obtain la w2 where la: "new_attempt P E ctx (es_next prev)
      [(''state'', PStr (status_name Applying)), (''started_at'', PStr now), (''updated_at'', PStr now)] (tick (tick w)) = (Inr la, w2)"
    "live_in ctx ''attempt'' attempt_payload la w2" "later (tick (tick w)) w2" "w_db w2 = w_db (tick (tick w))" "plain_attempt (lv_body la)"
    by (rule new_attempt_ok [OF _ u1 prev(6) _ now now, where s = Applying]) (use a in \<open>auto simp: attempt_states_def\<close>)
  note la' = new_attempt_run [OF la(1)]
  define s where "s = prev\<lparr>es_state := Applying, es_owner := PStr owner,
      es_attempt := PStr (at_operation_identity (lv_body la)), es_updated_at := PStr now\<rparr>"
  have sok: "exec_state_ok P s"
    using decode_exec_state_ok [OF row(2)] now by (simp add: s_def exec_state_ok_def)
  have appid: "es_application_id prev = app"
    using decode_exec_state_ok [OF row(2)] prev(7) app by (simp add: exec_state_ok_def)
  have u2: "usable P ctx w2" using u1 la(3) usable_later by blast
  obtain ls w3 where ls: "continue_execution_state P E ctx prev
      [(''state'', PStr ''Applying''), (''owner_id'', PStr owner),
       (''current_attempt_id'', PStr (at_operation_identity (lv_body la))), (''updated_at'', PStr now)] w2 = (Inr ls, w3)"
    "lv_body ls = s\<lparr>es_digest := PStr []\<rparr>" "live_in ctx ''execution'' exec_state_payload ls w3" "later w2 w3" "w_db w3 = w_db w2"
    by (rule continue_execution_state_ok [OF _ u2 prev(2) _ _ prev(8) _ sok])
      (use a prev app appid in \<open>auto simp: s_def changed_def\<close>)
  have plain: "plain_state (lv_body ls)" using prev(9) ls(2) by (simp add: plain_state_def s_def)
  obtain d e where d: "attempt_with_digest P (lv_body la) = Inr ((lv_body la)\<lparr>at_digest := PStr d\<rparr>)"
      and e: "exec_state_with_digest P (lv_body ls) = Inr ((lv_body ls)\<lparr>es_digest := PStr e\<rparr>)"
    using attempt_sealed [OF la(5)] exec_state_sealed [OF plain] by blast
  have live3: "live_in ctx ''attempt'' attempt_payload la w3" "usable P ctx w3" using la(2) ls(4) live_in_later u2 usable_later by blast+
  then have "live_in ctx ''execution'' exec_state_payload ls (tick w3)" "usable P ctx (tick w3)"
    using ls(3) live_in_later later_tick usable_later by blast+
  then have v1: "validate_live_artifact P E (service_of st) la attempt_payload ctx ''attempt'' w3 = (Inr (), tick w3)"
    and v2: "validate_live_artifact P E (service_of st) ls exec_state_payload ctx ''execution'' (tick w3) = (Inr (), tick (tick w3))"
    using validate_live_ok live3 a by metis+
  have "select_row (st_workspace st, app, at_operation_identity (lv_body la)) (db_attempts (w_db (tick (tick w3)))) = None"
    using free la'(8) app la(4) ls(5) by simp
  then obtain w4 where ins: "insert_attempt st app (at_operation_identity (lv_body la))
      (attempt_doc ((lv_body la)\<lparr>at_digest := PStr d\<rparr>)) (tick (tick w3)) = (Inr (), w4)"
    using insert_ok(2) by blast
  obtain w5 where upd: "update_execution st app (exec_state_doc ((lv_body ls)\<lparr>es_digest := PStr e\<rparr>)) w4 = (Inr (), w5)"
    using update_ok by blast
  have clock2: "require_clock_not_before (at_updated_at (lv_body la)) [at_started_at (lv_body la)] = Inr ()"
    using clock_now [OF clock] la'(11,12) by simp
  have valid: "validate_execution_context P E (service_of st) ctx w = (Inr (), tick w)"
    using validate_ok a by metis
  have run: "claim_next_operation P E st cap app (es_digest prev) ctx owner now w =
      (Inr ((lv_body ls)\<lparr>es_digest := PStr e\<rparr>, (lv_body la)\<lparr>at_digest := PStr d\<rparr>), commit (w_db (tick (tick w))) w5)"
    using a assms(2) app row prev clock la(1) ls(1) v1 v2 d e ins upd valid clock2 la'(7)
      jsonable_exec_state [OF plain, of e] jsonable_attempt [OF la(5), of d]
    unfolding claim_next_operation_def jsonable_def
    by (auto simp: run_simps after_others_steady)
  have "at_operation (lv_body la) = cx_operations ctx ! es_next prev"
    using la'(15) a by (simp add: usable_def)
  then show ?thesis
    by (intro that [OF run, where d = "PStr e"]) (use la'(9,11-13) in \<open>simp_all add: ls(2) s_def\<close>)
qed

end
