(* ===== verification/Rendering.thy ===== *)
theory Rendering
  imports Receipts
begin

text \<open>
  Model of the pure part of \<open>delivery_system/applier.py\<close>: \<open>_json_value\<close>, \<open>_source\<close> and
  \<open>render_create_issue\<close>, which turn an approved item into the title and body of an issue.

  The lemmas show that every value of the body stays on its own indented line, so the item's text
  cannot open a section of its own, and that the body determines the value of each section.
\<close>

section \<open>JSON text of a value\<close>

text \<open>
  \<open>json.dumps\<close> without the normalisation of \<open>canonical.py\<close>.  Sealed items come from JSON documents:
  their mappings have text keys and their numbers are finite.
\<close>

fun raw_json :: "pyval \<Rightarrow> json res" where
  "raw_json (PStr s) = Inr (JStr s)"
| "raw_json (PDict kvs) =
     (if list_all (\<lambda>k. case k of PStr _ \<Rightarrow> True | _ \<Rightarrow> False) (map fst kvs)
      then rbind (sequence (map (\<lambda>kv. raw_json (snd kv)) kvs)) (\<lambda>vs. Inr (JObj (zip (map (str_of \<circ> fst) kvs) vs)))
      else Inl TypeError)"
| "raw_json (PList xs) = rbind (sequence (map raw_json xs)) (\<lambda>vs. Inr (JArr vs))"
| "raw_json (PTuple xs) = rbind (sequence (map raw_json xs)) (\<lambda>vs. Inr (JArr vs))"
| "raw_json (PBool b) = Inr (JBool b)"
| "raw_json (PInt i) = Inr (JInt i)"
| "raw_json PNone = Inr JNull"
| "raw_json (PFloat (Finite r)) = Inr (JFloat r)"
| "raw_json (PFloat NonFinite) = Inr (JFloat ''NaN'')"
| "raw_json (PSet xs) = Inl TypeError"
| "raw_json POther = Inl TypeError"

definition json_value :: "pyval \<Rightarrow> string res" where
  "json_value value = rbind (raw_json value) (\<lambda>j. Inr (json_dumps j))"

section \<open>Rendering an item\<close>

definition source_field :: "pyval \<Rightarrow> string \<Rightarrow> pyval res" where
  "source_field item field =
     (let entry = dict_get item field in
      raise_if (\<not> is_mapping entry \<or> \<not> has_exactly entry [''value'', ''declared_source'', ''provenance_status''])
        ''sealed_item_field_invalid''
      (raise_if (dict_get entry ''provenance_status'' \<noteq> PStr ''declared_unverified'' \<or>
                 \<not> nonempty_str (dict_get entry ''declared_source'')) ''sealed_item_provenance_invalid''
        (Inr (dict_get entry ''value''))))"

definition item_fields :: "string list" where
  "item_fields = [''role'', ''title'', ''context_problem'', ''outcome'', ''scope'', ''non_goals'',
     ''acceptance_criteria'', ''verification'', ''required_capabilities'', ''write_metadata'']"

definition plain_title :: "string \<Rightarrow> bool" where
  "plain_title title \<longleftrightarrow> title \<noteq> [] \<and> list_all (\<lambda>c. (32 :: nat) \<le> of_char c \<and> (of_char c :: nat) \<noteq> 127) title"

text \<open>\<open>isinstance(value, (list, tuple))\<close>\<close>

fun list_or_tuple :: "pyval \<Rightarrow> bool" where
  "list_or_tuple (PList _) = True"
| "list_or_tuple (PTuple _) = True"
| "list_or_tuple _ = False"

text \<open>The headings of the body with the field each shows; the first shows the client reference.\<close>

definition body_sections :: "(string \<times> string) list" where
  "body_sections = [(''Client reference'', ''client_ref''), (''Role'', ''role''),
     (''Context / Problem'', ''context_problem''), (''Outcome'', ''outcome''), (''Scope'', ''scope''),
     (''Non-goals'', ''non_goals''), (''Acceptance criteria'', ''acceptance_criteria''),
     (''Verification'', ''verification''), (''Required capabilities'', ''required_capabilities''),
     (''Write metadata (informational only)'', ''write_metadata'')]"

definition body_part :: "string \<Rightarrow> string \<Rightarrow> string" where
  "body_part heading encoded = ''## '' @ heading @ [LF, LF] @ ''    '' @ encoded"

definition render_create_issue :: "pyval \<Rightarrow> (string \<times> string) res" where
  "render_create_issue item =
     (let client_ref = dict_get item ''client_ref'' in
      raise_if (\<not> nonempty_str client_ref) ''sealed_item_field_invalid''
      (rbind (sequence (map (source_field item) item_fields)) (\<lambda>vs.
       let values = (''client_ref'', client_ref) # zip item_fields vs;
           shown = (\<lambda>field. case map_of values field of None \<Rightarrow> PNone | Some v \<Rightarrow> v);
           title = shown ''title'' in
       raise_if (\<not> (case title of PStr t \<Rightarrow> plain_title t | _ \<Rightarrow> False)) ''sealed_item_field_invalid''
       (raise_if (\<not> list_all (\<lambda>field. list_or_tuple (shown field))
                    [''non_goals'', ''acceptance_criteria'', ''required_capabilities'']) ''sealed_item_field_invalid''
        (rbind (sequence (map (\<lambda>(heading, field). rbind (json_value (shown field)) (\<lambda>t. Inr (body_part heading t))) body_sections))
          (\<lambda>parts. Inr (str_of title, join_with [LF, LF] parts)))))))"

section \<open>What the body shows\<close>

text \<open>The value an item shows in a section.\<close>

definition shown_field :: "pyval \<Rightarrow> string \<Rightarrow> pyval" where
  "shown_field item field =
     (if field = ''client_ref'' then dict_get item field else dict_get (dict_get item field) ''value'')"

lemma source_field_Inr: "source_field item field = Inr v \<Longrightarrow> v = dict_get (dict_get item field) ''value''"
  by (auto simp: source_field_def Let_def raise_if_Inr)

lemma shown_lookup:
  assumes "sequence (map (source_field item) item_fields) = Inr vs" "field \<in> snd ` set body_sections \<union> {''title''}"
  shows "map_of ((''client_ref'', dict_get item ''client_ref'') # zip item_fields vs) field = Some (shown_field item field)"
proof -
  have vs: "vs = map (\<lambda>f. dict_get (dict_get item f) ''value'') item_fields"
    using assms(1) by (auto simp: sequence_Inr map_Inr_eq_conv list_all2_conv_all_nth
        intro!: nth_equalityI dest!: source_field_Inr)
  show ?thesis
    using assms(2) unfolding vs by (auto simp: body_sections_def item_fields_def shown_field_def)
qed

lemma render_create_issue_Inr:
  assumes "render_create_issue item = Inr (title, body)"
  obtains texts where "length texts = length body_sections"
    "\<And>i. i < length body_sections \<Longrightarrow> json_value (shown_field item (snd (body_sections ! i))) = Inr (texts ! i)"
    "body = join_with [LF, LF] (map2 (\<lambda>(h, f) t. body_part h t) body_sections texts)"
    "shown_field item ''title'' = PStr title" "plain_title title"
proof -
  let ?shown = "\<lambda>vs field. case map_of ((''client_ref'', dict_get item ''client_ref'') # zip item_fields vs) field
     of None \<Rightarrow> PNone | Some v \<Rightarrow> v"
  obtain vs parts where vs: "sequence (map (source_field item) item_fields) = Inr vs"
    and title: "case ?shown vs ''title'' of PStr t \<Rightarrow> plain_title t | _ \<Rightarrow> False"
    and parts: "sequence (map (\<lambda>(heading, field). rbind (json_value (?shown vs field)) (\<lambda>t. Inr (body_part heading t))) body_sections) = Inr parts"
    and out: "title = str_of (?shown vs ''title'')" "body = join_with [LF, LF] parts"
    using assms unfolding render_create_issue_def Let_def raise_if_Inr rbind_Inr by auto
  have shown: "?shown vs f = shown_field item f" if "f \<in> snd ` set body_sections \<union> {''title''}" for f
    using shown_lookup [OF vs that] by simp
  have t: "shown_field item ''title'' = PStr title \<and> plain_title title"
    using title out(1) shown [of "''title''"] by (simp split: pyval.splits)
  let ?text = "\<lambda>i. projr (json_value (shown_field item (snd (body_sections ! i))))"
  have part: "json_value (shown_field item (snd (body_sections ! i))) = Inr (?text i) \<and>
      parts ! i = body_part (fst (body_sections ! i)) (?text i)" if i: "i < length body_sections" for i
  proof -
    let ?f = "\<lambda>(heading, field). rbind (json_value (?shown vs field)) (\<lambda>t. Inr (body_part heading t))"
    have "map ?f body_sections = map Inr parts" using parts by (simp only: sequence_Inr)
    then have "?f (body_sections ! i) = Inr (parts ! i)" using i by (simp only: map_Inr_eq_conv list_all2_conv_all_nth)
    moreover have "?shown vs (snd (body_sections ! i)) = shown_field item (snd (body_sections ! i))"
      using nth_mem [OF i] by (intro shown) blast
    ultimately have "rbind (json_value (shown_field item (snd (body_sections ! i)))) (\<lambda>t. Inr (body_part (fst (body_sections ! i)) t)) =
        Inr (parts ! i)"
      by (simp only: case_prod_unfold)
    then show ?thesis by (auto simp: rbind_Inr)
  qed
  have len: "length parts = length body_sections" using sequence_length [OF parts] by simp
  show ?thesis
  proof (rule that [of "map ?text [0..<length body_sections]"])
    show "body = join_with [LF, LF] (map2 (\<lambda>(h, f) t. body_part h t) body_sections (map ?text [0..<length body_sections]))"
      unfolding out(2)
      by (rule arg_cong [where f = "join_with [LF, LF]"]) (rule nth_equalityI; simp add: len part [THEN conjunct2] case_prod_unfold)
    show "json_value (shown_field item (snd (body_sections ! i))) = Inr (map ?text [0..<length body_sections] ! i)"
      if "i < length body_sections" for i
      using part [OF that] that by (metis (no_types, lifting) add.left_neutral diff_zero length_upt nth_map nth_upt)
  qed (use t in simp_all)
qed

text \<open>JSON text has no line breaks: they are escaped in strings and occur nowhere else.\<close>

lemma hex_char_no_LF: "hex_char n \<noteq> LF"
proof -
  have "hex_digits ! (n mod 16) \<in> set hex_digits" by (rule nth_mem) (simp add: hex_digits_def)
  then show ?thesis by (auto simp: hex_char_def hex_digits_def LF_def)
qed

lemma json_string_no_LF: "LF \<notin> set (json_string s)"
proof -
  have code: "(of_char LF :: nat) = 10" by (simp add: LF_def)
  have "LF \<notin> set (json_escape_char c)" for c
  proof (cases "c = LF")
    case True
    then show ?thesis by (simp add: json_escape_char_def LF_def)
  next
    case False
    then show ?thesis
      using hex_char_no_LF [symmetric] by (auto simp: json_escape_char_def Let_def) (simp_all add: LF_def)
  qed
  then show ?thesis by (auto simp: json_string_def LF_def)
qed

lemma join_no_LF: "LF \<notin> set sep \<Longrightarrow> (\<And>l. l \<in> set ls \<Longrightarrow> LF \<notin> set l) \<Longrightarrow> LF \<notin> set (join_with sep ls)"
  using set_join_with [of sep ls] by blast

lemma num_no_LF: "list_all num_char s \<Longrightarrow> LF \<notin> set s"
  by (auto simp: list_all_iff num_char_def is_digit_def LF_def)

lemma json_value_no_LF:
  assumes "floats_ok v" "json_value v = Inr t"
  shows "LF \<notin> set t"
proof -
  have "LF \<notin> set (json_dumps j)" if "raw_json v = Inr j" for j
    using that assms(1)
  proof (induction v arbitrary: j rule: raw_json.induct)
    case (2 kvs)
    then obtain vs where vs: "map (\<lambda>kv. raw_json (snd kv)) kvs = map Inr vs" "j = JObj (zip (map (str_of \<circ> fst) kvs) vs)"
      by (auto simp: rbind_Inr sequence_Inr split: if_splits)
    have each: "LF \<notin> set (json_dumps x)" if x: "x \<in> set vs" for x
    proof -
      obtain kv where kv: "kv \<in> set kvs" "raw_json (snd kv) = Inr x" using map_Inr_elem [OF vs(1) x] by blast
      moreover have "floats_ok (snd kv)" using 2(3) kv(1) by (simp add: list_all_iff)
      moreover have "list_all (\<lambda>k. case k of PStr _ \<Rightarrow> True | _ \<Rightarrow> False) (map fst kvs)"
        using 2(2) by (auto split: if_splits)
      ultimately show ?thesis using 2(1) by blast
    qed
    let ?es = "sort_key fst (map (\<lambda>(k, v). (k, json_dumps v)) (zip (map (str_of \<circ> fst) kvs) vs))"
    have "LF \<notin> set (join_with '','' (map (\<lambda>(k, t). json_string k @ '':'' @ t) ?es))"
    proof (rule join_no_LF)
      fix l assume "l \<in> set (map (\<lambda>(k, t). json_string k @ '':'' @ t) ?es)"
      then obtain k x where "(k, x) \<in> set (zip (map (str_of \<circ> fst) kvs) vs)" "l = json_string k @ '':'' @ json_dumps x"
        by auto
      then show "LF \<notin> set l" using each json_string_no_LF [of k] by (auto simp: LF_def dest!: set_zip_rightD)
    qed (simp add: LF_def)
    then show ?case using vs(2) by (simp add: LF_def)
  next
    case (3 xs)
    then obtain vs where vs: "map raw_json xs = map Inr vs" "j = JArr vs"
      by (auto simp: rbind_Inr sequence_Inr)
    have "LF \<notin> set (json_dumps x)" if x: "x \<in> set vs" for x
      using map_Inr_elem [OF vs(1) x] 3 by (auto simp: list_all_iff)
    then have "LF \<notin> set (join_with '','' (map json_dumps vs))"
      by (intro join_no_LF) (auto simp: LF_def)
    then show ?case using vs(2) by (simp add: LF_def)
  next
    case (4 xs)
    then obtain vs where vs: "map raw_json xs = map Inr vs" "j = JArr vs"
      by (auto simp: rbind_Inr sequence_Inr)
    have "LF \<notin> set (json_dumps x)" if x: "x \<in> set vs" for x
      using map_Inr_elem [OF vs(1) x] 4 by (auto simp: list_all_iff)
    then have "LF \<notin> set (join_with '','' (map json_dumps vs))"
      by (intro join_no_LF) (auto simp: LF_def)
    then show ?case using vs(2) by (simp add: LF_def)
  next
    case (8 r)
    then show ?case by (auto simp: float_repr_ok_def dest!: num_no_LF)
  next
    case (6 i)
    then show ?case using num_no_LF [OF int_repr_num] by auto
  qed (use json_string_no_LF in \<open>auto simp: LF_def split: if_splits\<close>)
  then show ?thesis using assms(2) by (auto simp: json_value_def rbind_Inr)
qed

lemma floats_ok_get: "floats_ok d \<Longrightarrow> floats_ok (dict_get d k)"
  by (cases d) (auto simp: dict_get_def list_all_iff split: option.splits dest!: map_of_SomeD)

lemma floats_ok_shown: "floats_ok item \<Longrightarrow> floats_ok (shown_field item f)"
  by (simp add: shown_field_def floats_ok_get)

text \<open>The lines of a body.\<close>

fun section_lines :: "(string \<times> string) list \<Rightarrow> string list" where
  "section_lines [] = [[]]"
| "section_lines [(h, t)] = [''## '' @ h, [], ''    '' @ t]"
| "section_lines ((h, t) # p # ps) = [''## '' @ h, [], ''    '' @ t, []] @ section_lines (p # ps)"

lemma split_lines_LF: "LF \<notin> set a \<Longrightarrow> split_lines (a @ LF # b) = a # split_lines b"
  by (induction a) auto

lemma split_lines_body:
  assumes "\<forall>(h, t) \<in> set ps. LF \<notin> set h \<and> LF \<notin> set t"
  shows "split_lines (join_with [LF, LF] (map (\<lambda>(h, t). body_part h t) ps)) = section_lines ps"
  using assms
proof (induction ps rule: section_lines.induct)
  case (2 h t)
  then show ?case
    using split_lines_LF [of "''## '' @ h" "LF # ''    '' @ t"] split_lines_LF [of "[]" "''    '' @ t"]
      split_lines_single [of "''    '' @ t"]
    by (simp add: body_part_def) (simp add: LF_def)
next
  case (3 h t p ps)
  let ?rest = "join_with [LF, LF] (map (\<lambda>(h, t). body_part h t) (p # ps))"
  have "split_lines (''## '' @ h @ LF # LF # (''    '' @ t) @ LF # LF # ?rest) =
      [''## '' @ h, [], ''    '' @ t, []] @ split_lines ?rest"
    using 3(2) split_lines_LF [of "''## '' @ h"] split_lines_LF [of "[]"] split_lines_LF [of "''    '' @ t"]
    by (simp add: LF_def)
  moreover have "split_lines ?rest = section_lines (p # ps)" using 3 by simp
  ultimately show ?case by (simp add: body_part_def)
qed simp

lemma section_headings: "ps \<noteq> [] \<Longrightarrow> filter (prefix ''#'') (section_lines ps) = map (\<lambda>p. ''## '' @ fst p) ps"
  by (induction ps rule: section_lines.induct) auto

lemma section_lines_inject: "length ps = length qs \<Longrightarrow> section_lines ps = section_lines qs \<Longrightarrow> ps = qs"
proof (induction ps arbitrary: qs rule: section_lines.induct)
  case (2 h t)
  then show ?case by (cases qs) (auto simp: length_Suc_conv)
next
  case (3 h t p ps)
  then obtain h' t' q qs' where qs: "qs = (h', t') # q # qs'" by (cases qs rule: section_lines.cases) auto
  then have "section_lines (p # ps) = section_lines (q # qs')" "h = h'" "t = t'"
    using 3(3) by (cases q; simp)+
  then show ?case using 3(1) [of "q # qs'"] 3(2) qs by simp
qed simp

lemma section_headings_LF: "LF \<notin> set (fst s)" if "s \<in> set body_sections"
  using that by (auto simp: body_sections_def LF_def)

lemma render_lines:
  assumes run: "render_create_issue item = Inr (title, body)" and ok: "floats_ok item"
  obtains texts where "length texts = length body_sections" "split_lines body = section_lines (zip (map fst body_sections) texts)"
    "map (\<lambda>s. json_value (shown_field item (snd s))) body_sections = map Inr texts"
proof -
  obtain texts where len: "length texts = length body_sections"
    and texts: "\<And>i. i < length body_sections \<Longrightarrow> json_value (shown_field item (snd (body_sections ! i))) = Inr (texts ! i)"
    and body: "body = join_with [LF, LF] (map2 (\<lambda>(h, f) t. body_part h t) body_sections texts)"
    by (rule render_create_issue_Inr [OF run], rule that) blast+
  have t: "LF \<notin> set t" if t: "t \<in> set texts" for t
  proof -
    obtain i where i: "i < length texts" "t = texts ! i" using t unfolding in_set_conv_nth by blast
    then show ?thesis using json_value_no_LF [OF floats_ok_shown [OF ok] texts [of i]] len by simp
  qed
  have "map2 (\<lambda>(h, f) t. body_part h t) body_sections texts = map (\<lambda>(h, t). body_part h t) (zip (map fst body_sections) texts)"
    by (simp add: zip_map1 case_prod_unfold comp_def)
  moreover have "\<forall>(h, t) \<in> set (zip (map fst body_sections) texts). LF \<notin> set h \<and> LF \<notin> set t"
    using t section_headings_LF by (fastforce dest: set_zip_rightD set_zip_leftD)
  ultimately have "split_lines body = section_lines (zip (map fst body_sections) texts)"
    unfolding body using split_lines_body by metis
  moreover have "map (\<lambda>s. json_value (shown_field item (snd s))) body_sections = map Inr texts"
    using len texts by (intro nth_equalityI) auto
  ultimately show ?thesis using that len by blast
qed

section \<open>The theorems\<close>

definition demo_field :: "string \<Rightarrow> pyval \<Rightarrow> string \<times> pyval" where
  "demo_field name v = (name, obj [(''value'', v), (''declared_source'', PStr ''user''),
     (''provenance_status'', PStr ''declared_unverified'')])"

text \<open>An approved item whose scope tries to open a section of its own.\<close>

definition demo_item :: "(string \<times> pyval) list \<Rightarrow> pyval" where
  "demo_item extra = obj ([(''client_ref'', PStr ''A''), demo_field ''role'' (PStr ''feature''), demo_field ''title'' (PStr ''First''),
     demo_field ''context_problem'' (PStr ''p''), demo_field ''outcome'' (PStr ''o''),
     demo_field ''scope'' (PStr (''x'' @ [LF] @ ''## Role'')), demo_field ''non_goals'' (PList []),
     demo_field ''acceptance_criteria'' (PList [PStr ''c'']), demo_field ''verification'' (PStr ''v''),
     demo_field ''required_capabilities'' (PList []), demo_field ''write_metadata'' (PDict [])] @ extra)"

text \<open>
  C30: the heading lines of a rendered issue body are the ten headings of the template, in order:
  no text of the item becomes a heading.
\<close>

theorem rendered_headings:
  assumes "render_create_issue item = Inr (title, body)" and "floats_ok item"
  shows "filter (prefix ''#'') (split_lines body) = map (\<lambda>s. ''## '' @ fst s) body_sections"
proof (rule render_lines [OF assms])
  fix texts assume t: "length texts = length body_sections" "split_lines body = section_lines (zip (map fst body_sections) texts)"
  then have "zip (map fst body_sections) texts \<noteq> []" by (auto simp: body_sections_def zip_eq_Nil_iff)
  then have "filter (prefix ''#'') (split_lines body) = map (\<lambda>p. ''## '' @ fst p) (zip (map fst body_sections) texts)"
    using t(2) section_headings by metis
  also have "\<dots> = map ((@) ''## '') (map fst (zip (map fst body_sections) texts))" by (simp add: comp_def)
  finally show ?thesis using t(1) by (simp add: comp_def)
qed

text \<open>
  C31: two items rendered to the same body agree in the JSON text of the client reference and of
  every approved field shown, whatever their values are.
\<close>

theorem rendered_body_faithful:
  assumes "render_create_issue a = Inr (title, body)" "render_create_issue b = Inr (title', body)"
    and "floats_ok a" "floats_ok b" and "field \<in> snd ` set body_sections"
  shows "json_value (shown_field a field) = json_value (shown_field b field)"
proof (rule render_lines [OF assms(1,3)], rule render_lines [OF assms(2,4)])
  fix ts us
  assume t: "length ts = length body_sections" "split_lines body = section_lines (zip (map fst body_sections) ts)"
      "map (\<lambda>s. json_value (shown_field a (snd s))) body_sections = map Inr ts"
    and u: "length us = length body_sections" "split_lines body = section_lines (zip (map fst body_sections) us)"
      "map (\<lambda>s. json_value (shown_field b (snd s))) body_sections = map Inr us"
  have "zip (map fst body_sections) ts = zip (map fst body_sections) us"
    by (rule section_lines_inject) (use t u in auto)
  then have "ts = us" using t(1) u(1) by (metis length_map map_snd_zip)
  then have "map (\<lambda>s. json_value (shown_field a (snd s))) body_sections = map (\<lambda>s. json_value (shown_field b (snd s))) body_sections"
    using t(3) u(3) by simp
  then show ?thesis using assms(5) by (auto simp: map_eq_conv)
qed

lemma demo_item_renders:
  "\<exists>body. render_create_issue (demo_item []) = Inr (''First'', body) \<and>
     render_create_issue (demo_item [(''priority'', PInt 1)]) = Inr (''First'', body)"
  "floats_ok (demo_item [])" "floats_ok (demo_item [(''priority'', PInt 1)])"
proof -
  have "case (render_create_issue (demo_item []), render_create_issue (demo_item [(''priority'', PInt 1)])) of
      (Inr p, Inr q) \<Rightarrow> fst p = ''First'' \<and> p = q | _ \<Rightarrow> False" by code_simp
  then show "\<exists>body. render_create_issue (demo_item []) = Inr (''First'', body) \<and>
     render_create_issue (demo_item [(''priority'', PInt 1)]) = Inr (''First'', body)"
    by (auto split: sum.splits)
  show "floats_ok (demo_item [])" "floats_ok (demo_item [(''priority'', PInt 1)])" by code_simp+
qed

theorem rendered_headings_witness:
  "\<exists>body. render_create_issue (demo_item []) = Inr (''First'', body) \<and>
     filter (prefix ''#'') (split_lines body) = map (\<lambda>s. ''## '' @ fst s) body_sections"
  using demo_item_renders rendered_headings [of "demo_item []" "''First''"] by blast

theorem rendered_body_faithful_witness:
  "\<exists>body. render_create_issue (demo_item []) = Inr (''First'', body) \<and>
     render_create_issue (demo_item [(''priority'', PInt 1)]) = Inr (''First'', body) \<and>
     json_value (shown_field (demo_item []) ''scope'') = json_value (shown_field (demo_item [(''priority'', PInt 1)]) ''scope'')"
proof -
  obtain body where b: "render_create_issue (demo_item []) = Inr (''First'', body)"
      "render_create_issue (demo_item [(''priority'', PInt 1)]) = Inr (''First'', body)"
    using demo_item_renders(1) by blast
  have "''scope'' \<in> snd ` set body_sections" by (simp add: body_sections_def)
  then show ?thesis using rendered_body_faithful [OF b demo_item_renders(2,3)] b by blast
qed

end
