(* ===== verification/Demo_Run.thy ===== *)
theory Demo_Run
  imports Store_Progress Rendering
begin

text \<open>
  A concrete application with one approved operation, created and claimed on an empty database.
  The theorems about the store are instantiated on this run.
\<close>

definition demo_time :: timestamp where
  "demo_time = \<lparr>ts_year = 2026, ts_month = 1, ts_day = 1, ts_hour = 0, ts_minute = 0, ts_second = 0, ts_micro = 0\<rparr>"

definition demo_now :: string where
  "demo_now = utc_text demo_time"

text \<open>The host's credential: a lease over the evidence of one installation and its registered binding.\<close>

definition demo_evidence :: installation_evidence where
  "demo_evidence = \<lparr>gi_app_id = 1, gi_installation_id = 2, gi_installation_account_identity = ''o'', gi_repository_id = 3,
     gi_repository_identity = ''o/r'', gi_repository_scope = [''o/r''], gi_effective_permissions = [(''issues'', ''write'')],
     gi_expires_at = au_expires_at demo_authority, gi_observed_at = ''2026-01-01T00:00:00Z'', gi_credential_instance_id = ''ci''\<rparr>"

definition demo_lease :: credential_lease where
  "demo_lease = \<lparr>ls_token = ''t'', ls_object = 7, ls_evidence = demo_evidence, ls_integrity = (''t'', demo_evidence)\<rparr>"

definition demo_registered :: "string \<Rightarrow> credential_binding" where
  "demo_registered source = \<lparr>cb_workspace_identity = ''ws'', cb_credential_instance_id = ''ci'', cb_issuer_id = ''is'',
     cb_credential_class = installation_credential_class,
     cb_credential_principal_identity = au_credential_principal_identity demo_authority, cb_challenge_digest = ''ch'',
     cb_repository_identity = ''o/r'', cb_github_subject_identity = ''gs'',
     cb_required_capabilities = au_required_capabilities demo_authority,
     cb_granted_capabilities = au_granted_capabilities demo_authority, cb_driver_identity = ''dr'', cb_remote_authority = ''ra'',
     cb_preview_id = ''p'', cb_revision = 1, cb_plan_digest = ''pd'', cb_sealed_preview_digest = ''sd'',
     cb_operation_set_digest = ''od'', cb_remote_snapshot_digest = ''rd'', cb_evidence_digest = ''ed'', cb_audit_id = ''a'',
     cb_audit_digest = ''ad'', cb_source_verification_digest = source, cb_expires_at = au_expires_at demo_authority\<rparr>"

definition demo_binding :: credential_binding where
  "demo_binding = demo_registered
     (case source_verification_digest plain_prims demo_evidence (live_request (demo_registered [])) of Inr d \<Rightarrow> d | Inl _ \<Rightarrow> [])"

definition demo_credentials :: credential_state where
  "demo_credentials = \<lparr>cs_lease = Some demo_lease, cs_snapshot = Some 7, cs_restart = (\<lambda>_. None), cs_issuance = (\<lambda>_. None),
     cs_binding = (\<lambda>i. if i = ''cb'' then Inr demo_binding else Inl (ValueError ''credential_binding_mismatch''))\<rparr>"

text \<open>A driver that creates issue 5.\<close>

definition demo_payload :: pyval where
  "demo_payload = obj [(''repository_identity'', PStr ''o/r''), (''issue_number'', PInt 5), (''numeric_issue_id'', PStr ''55''),
     (''node_id'', PStr ''I_5''), (''executor_identity'', PStr write_executor_identity), (''contract_version'', PStr ''1''),
     (''response_status'', PInt 201)]"

definition demo_observation :: observation where
  "demo_observation = \<lparr>ob_kind = DefinitiveSuccess, ob_result_identity = PStr ''I_5'', ob_result_payload = demo_payload,
     ob_code = PStr []\<rparr>"

text \<open>The sealed preview of one work item and its creation.\<close>

definition demo_preview :: pyval where
  "demo_preview = obj [(''canonical_version'', PStr ''1''), (''operation_intents'', PList [operation_doc (create_op ''A'')]),
     (''operation_set_digest'', PStr ''od''), (''semantic_payload'', obj [(''work_items'', PList [demo_item []])]),
     (''items'', PList [obj [(''client_ref'', PStr ''A''), (''item_id'', PStr ''i1'')]])]"

definition demo_env :: env where
  "demo_env = \<lparr>env_clock = (\<lambda>_. demo_time), env_owner = (\<lambda>_. ''0123456789abcdef0123456789abcdef''),
     env_authority = (\<lambda>_. AuthorityCurrent), env_resolve = (\<lambda>_ _. Inr (demo_authority, demo_preview)), env_endpoint = None,
     env_credentials = (\<lambda>_. demo_credentials), env_driver = (\<lambda>_ _ _. Inr demo_observation), env_others = (\<lambda>_ d. d)\<rparr>"

definition demo_store :: exec_store where
  "demo_store = \<lparr>st_object = 0, st_workspace = ''ws'', st_service = Some (0, True)\<rparr>"

definition demo_capability :: "capability option" where
  "demo_capability = Some \<lparr>cap_service = 0, cap_store = 0\<rparr>"

definition demo_initial :: "exec_context \<Rightarrow> exec_state" where
  "demo_initial ctx = \<lparr>es_application_id = id_application_id (cx_identity ctx), es_identity = cx_identity ctx,
     es_state = Pending, es_next = 0, es_owner = PNone, es_attempt = PNone, es_recovery = PNone, es_refs = [],
     es_started_at = PStr demo_now, es_updated_at = PStr demo_now, es_completed_at = PNone,
     es_anchor = cx_anchor ctx, es_managed = True, es_digest = PStr []\<rparr>"

definition demo_artifact :: "exec_context \<Rightarrow> exec_state live" where
  "demo_artifact ctx = \<lparr>lv_body = demo_initial ctx, lv_object = 0, lv_context = Some (cx_id ctx)\<rparr>"

definition demo_world :: "exec_context \<Rightarrow> world" where
  "demo_world ctx = \<lparr>w_db = empty_database, w_contexts = [cx_id ctx \<mapsto> ctx],
     w_artifacts = [0 \<mapsto> (''execution'', cx_id ctx, exec_state_payload (demo_initial ctx))], w_next = 1, w_tick = 0, w_sent = [], w_commits = []\<rparr>"

lemma demo_env_simps [simp]: "env_others demo_env = (\<lambda>_ d. d)" "env_authority demo_env t = AuthorityCurrent"
  "env_clock demo_env t = demo_time" "steady demo_env"
  by (simp_all add: demo_env_def steady_def)

lemma demo_valid [simp]: "capability_valid demo_store demo_capability" "orchestrated demo_store" "service_of demo_store = 0"
  "st_workspace demo_store = ''ws''"
  by (simp_all add: demo_store_def demo_capability_def capability_valid_def orchestrated_def service_of_def)

lemma demo_owner: "owner_valid ''execution-owner-0123456789abcdef0123456789abcdef''"
  by code_simp

lemma demo_clock: "require_clock_not_before (PStr demo_now) [PStr demo_now, PStr demo_now] = Inr ()"
proof -
  have "valid_timestamp demo_time" by (simp add: valid_timestamp_def demo_time_def days_in_month_def)
  then have "execution_timestamp (PStr demo_now) = Inr demo_time" by (simp add: execution_timestamp_Inr demo_now_def)
  then show ?thesis by (auto simp: require_clock_not_before_Inr)
qed

lemma demo_now_nonempty [simp]: "demo_now \<noteq> []"
  using clock_nonempty [OF demo_clock] .

lemma demo_context:
  obtains ctx where "context_ok plain_prims ctx" "cx_operations ctx = [create_op ''A'']" "cx_id ctx = 0" "cx_service ctx = 0"
    "cx_authority ctx = demo_authority" "cx_items ctx = [freeze_value (demo_item [])]" "cx_version ctx = PStr ''1''"
proof -
  have "case logical_values (authority_to_dict demo_authority) of Inr v \<Rightarrow> True | Inl _ \<Rightarrow> False"
    by code_simp
  then obtain v where v: "logical_values (authority_to_dict demo_authority) = Inr v" by (auto split: sum.splits)
  obtain h where h: "digest_hex plain_prims (identity_to_dict v) = Inr h"
    using digest_hex_normalizable [OF normalizable_identity] by blast
  let ?i = "\<lparr>id_values = v, id_application_id = ''application-'' @ h\<rparr>"
  have i: "identity_from_authority plain_prims demo_authority = Inr ?i"
    using v h by (simp add: identity_from_authority_values)
  obtain p where p: "provenance_from_live_authority plain_prims demo_authority = Inr p"
  proof -
    have "case provenance_from_source (obj (authority_fields demo_authority @ [(''application_id'', PStr (c # x))])) of
        Inr v \<Rightarrow> True | Inl _ \<Rightarrow> False" for c x
      by code_simp
    from this [of "CHR ''a''" "''pplication-'' @ h"] show ?thesis
      using i that by (auto simp: provenance_from_live_authority_def split: sum.splits)
  qed
  obtain a where a: "anchor_from_authority demo_authority = Inr a"
    by (simp add: anchor_from_authority_Inr demo_authority_def)
  let ?ctx = "\<lparr>cx_id = 0, cx_service = 0, cx_authority = demo_authority, cx_identity = ?i, cx_anchor = a,
      cx_operations = [create_op ''A''], cx_operation_set_digest = v_operation_set_digest v, cx_items = [freeze_value (demo_item [])],
      cx_version = PStr ''1'', cx_bindings = [], cx_snapshot = PNone, cx_provenance = p\<rparr>"
  have "wf_op (create_op ''A'')" by (simp add: wf_op_def create_op_def)
  then have "context_ok plain_prims ?ctx" using i p a by (simp add: context_ok_def)
  then show ?thesis by (rule that) simp_all
qed

lemma demo_usable:
  assumes "context_ok plain_prims ctx" "cx_service ctx = 0"
  shows "able plain_prims demo_env demo_store demo_capability ctx (demo_world ctx)"
  using assms by (simp add: able_def usable_def demo_world_def)

lemma demo_initial_ok:
  assumes "context_ok plain_prims ctx"
  shows "exec_state_ok plain_prims (demo_initial ctx)" "plain_state (demo_initial ctx)"
  using context_ok_identity [OF assms] context_ok_anchor [OF assms]
  by (simp_all add: demo_initial_def exec_state_ok_def plain_state_def)

lemma demo_create:
  assumes "context_ok plain_prims ctx" "cx_service ctx = 0"
  obtains s w' where
    "create_execution_if_absent plain_prims demo_env demo_store demo_capability (demo_artifact ctx) (demo_world ctx) = (Inr s, w')"
proof -
  have "\<exists>s w'. create_execution_if_absent plain_prims demo_env demo_store demo_capability (demo_artifact ctx) (demo_world ctx) = (Inr s, w')"
    by (rule create_execution_ok [OF demo_usable [OF assms]])
      (use demo_initial_ok(2) [OF assms(1)] in \<open>simp_all add: demo_artifact_def live_in_def demo_world_def demo_initial_def
        empty_database_def select_row_def\<close>)
  then show ?thesis using that by blast
qed

lemma demo_claim:
  assumes ctx: "context_ok plain_prims ctx" "cx_service ctx = 0" "cx_operations ctx = [create_op ''A'']"
  obtains s0 w1 s a w2 where
    "create_execution_if_absent plain_prims demo_env demo_store demo_capability (demo_artifact ctx) (demo_world ctx) = (Inr s0, w1)"
    "durable_state plain_prims ''ws'' (id_application_id (cx_identity ctx)) (w_db w1) = Some s0"
    "claim_next_operation plain_prims demo_env demo_store demo_capability (id_application_id (cx_identity ctx)) (es_digest s0) ctx
       ''execution-owner-0123456789abcdef0123456789abcdef'' demo_now w1 = (Inr (s, a), w2)"
    "es_state s0 = Pending" "es_managed s0"
proof -
  let ?app = "id_application_id (cx_identity ctx)"
  obtain s0 w1 where c: "create_execution_if_absent plain_prims demo_env demo_store demo_capability (demo_artifact ctx) (demo_world ctx)
      = (Inr s0, w1)"
    using demo_create ctx by metis
  have none: "select_row (''ws'', ?app) (db_executions (w_db (demo_world ctx))) = None"
    by (simp add: demo_world_def empty_database_def select_row_def)
  have ok: "exec_state_ok plain_prims (lv_body (demo_artifact ctx))"
    using demo_initial_ok [OF ctx(1)] by (simp add: demo_artifact_def)
  show ?thesis
    using c ok
  proof (cases rule: create_execution_if_absent_run)
    case (existing t doc)
    then show ?thesis using none by (simp add: demo_artifact_def demo_initial_def)
  next
    case (created t rows)
    have dec: "decode_exec_state plain_prims (exec_state_doc s0) = Inr s0" using created(2) exec_state_roundtrip by blast
    have s0: "s0 = (demo_initial ctx)\<lparr>es_digest := es_digest s0\<rparr>"
      using created(15) by (simp add: demo_artifact_def)
    have f: "es_managed s0" "es_identity s0 = cx_identity ctx" "es_anchor s0 = cx_anchor ctx" "plain_state s0"
        "es_started_at s0 = PStr demo_now" "es_updated_at s0 = PStr demo_now"
      by (subst s0, use demo_initial_ok(2) [OF ctx(1)] in \<open>simp add: demo_initial_def plain_state_def\<close>)+
    have row: "select_row (st_workspace demo_store, ?app) (db_executions (w_db w1)) = Some (exec_state_doc s0)"
      using created(12,13) by (simp add: demo_artifact_def demo_initial_def)
    have "w_contexts w1 = w_contexts (demo_world ctx)"
      using moves_run [OF grows_managed(1) c] by (simp add: grows_def rely_def history_refl)
    then have able: "able plain_prims demo_env demo_store demo_capability ctx w1"
      using demo_usable [OF ctx(1,2)] by (simp add: able_def usable_def)
    obtain s a w2 d where "claim_next_operation plain_prims demo_env demo_store demo_capability ?app (es_digest s0) ctx
       ''execution-owner-0123456789abcdef0123456789abcdef'' demo_now w1 = (Inr (s, a), w2)"
    proof (rule claim_next_operation_ok [OF able demo_owner refl row dec])
      show "select_row (st_workspace demo_store, ?app, op) (db_attempts (w_db w1)) = None" for op
        using created(13) by (simp add: demo_world_def empty_database_def select_row_def)
    qed (use f created(3,5-8) ctx(3) demo_clock in simp_all)
    moreover have "durable_state plain_prims ''ws'' ?app (w_db w1) = Some s0"
      using row dec by (simp add: durable_state_def)
    ultimately show ?thesis using that c created(5) f(1) by blast
  qed
qed

end
