(* ===== verification/Store_Properties.thy ===== *)
theory Store_Properties
  imports Demo_Run
begin

text \<open>
  The properties of the execution store: what holds in every database its calls can reach, what a
  call may write and who may make it.  They read the lemmas of \<open>Store_Effects\<close> and
  \<open>Store_Refinement\<close> off the rows, and are instantiated on the run of \<open>Demo_Run\<close>.
\<close>

section \<open>The demonstration run is reachable\<close>

lemma demo_sound:
  assumes "context_ok plain_prims ctx" "cx_operations ctx = [create_op ''A'']"
  obtains ids where "operation_ids plain_prims (id_application_id (cx_identity ctx)) (cx_operations ctx) = Inr ids"
    "length ids = 1" "context_sound plain_prims (id_application_id (cx_identity ctx)) ids ctx"
proof -
  have "wf_op (create_op ''A'')" by (simp add: wf_op_def create_op_def)
  then obtain oid where "operation_identity plain_prims (id_application_id (cx_identity ctx)) 0 (operation_doc (create_op ''A'')) = Inr oid"
    using operation_identity_exists application_id_nonempty [OF context_ok_identity [OF assms(1)]] by blast
  then have "operation_ids plain_prims (id_application_id (cx_identity ctx)) (cx_operations ctx) = Inr [oid]"
    by (simp add: operation_ids_def assms(2))
  then show ?thesis using that assms(1) by (simp add: context_sound_def)
qed

text \<open>The run of \<open>demo_claim\<close>, with what the theorems need of it.\<close>

lemma demo_run:
  obtains ctx app ids s0 w1 s a w2 where
    "context_ok plain_prims ctx" "app = id_application_id (cx_identity ctx)" "length ids = 1"
    "context_sound plain_prims app ids ctx" "exec_state_ok plain_prims (lv_body (demo_artifact ctx))"
    "create_execution_if_absent plain_prims demo_env demo_store demo_capability (demo_artifact ctx) (demo_world ctx) = (Inr s0, w1)"
    "durable_state plain_prims ''ws'' app (w_db w1) = Some s0"
    "claim_next_operation plain_prims demo_env demo_store demo_capability app (es_digest s0) ctx
       ''execution-owner-0123456789abcdef0123456789abcdef'' demo_now w1 = (Inr (s, a), w2)"
    "durable_state plain_prims ''ws'' app (w_db w2) = Some s" "es_state s = Applying"
    "store_reach plain_prims ''ws'' app ids (w_db w1)" "store_reach plain_prims ''ws'' app ids (w_db w2)"
    "es_state s0 = Pending" "es_managed s0"
proof -
  obtain ctx where ctx: "context_ok plain_prims ctx" "cx_operations ctx = [create_op ''A'']" "cx_id ctx = 0" "cx_service ctx = 0"
    by (rule demo_context)
  let ?app = "id_application_id (cx_identity ctx)"
  obtain ids where ids: "length ids = 1" "context_sound plain_prims ?app ids ctx"
    using demo_sound [OF ctx(1,2)] by metis
  obtain s0 w1 s a w2 where run: "create_execution_if_absent plain_prims demo_env demo_store demo_capability (demo_artifact ctx) (demo_world ctx) = (Inr s0, w1)"
    "durable_state plain_prims ''ws'' ?app (w_db w1) = Some s0"
    "claim_next_operation plain_prims demo_env demo_store demo_capability ?app (es_digest s0) ctx
       ''execution-owner-0123456789abcdef0123456789abcdef'' demo_now w1 = (Inr (s, a), w2)"
    "es_state s0 = Pending" "es_managed s0"
    by (rule demo_claim [OF ctx(1,4,2)])
  have ok: "exec_state_ok plain_prims (lv_body (demo_artifact ctx))"
    using demo_initial_ok [OF ctx(1)] by (simp add: demo_artifact_def)
  have "store_reach plain_prims ''ws'' ?app ids (w_db (demo_world ctx))"
    using store_reach.Opened by (simp add: demo_world_def)
  then have r1: "store_reach plain_prims ''ws'' ?app ids (w_db w1)"
    by (rule store_reach.Called [where st = demo_store and E = demo_env and cap = demo_capability
          and call = "CreateExecution (demo_artifact ctx)" and r = "Inr ()"]) (use ok run(1) in \<open>auto simp: void_run\<close>)
  then have r2: "store_reach plain_prims ''ws'' ?app ids (w_db w2)"
    by (rule store_reach.Called [where st = demo_store and E = demo_env and cap = demo_capability
          and call = "ClaimNext ?app (es_digest s0) ctx ''execution-owner-0123456789abcdef0123456789abcdef'' demo_now"
          and r = "Inr ()"]) (use ids run(3) in \<open>auto simp: void_run\<close>)
  from run(3) ctx(1) have claimed: "durable_state plain_prims ''ws'' ?app (w_db w2) = Some s \<and> es_state s = Applying"
  proof (rule claim_next_operation_run, goal_cases)
    case (1 t doc prev rows)
    then show ?case using exec_state_roundtrip [of plain_prims s] by (simp add: durable_state_def)
  qed
  show ?thesis
    by (rule that [of ctx ?app ids s0 w1 s a w2]; (fact ctx ids ok run r1 r2 refl)?) (use claimed in blast)+
qed

section \<open>Properties\<close>

text \<open>
  C1: in every database that calls of orchestrated stores with sound arguments can reach, made by any
  processes in any order and each undisturbed while it runs, the coordination record, the attempts
  and the receipts agree: one receipt per completed operation, in order, with its attempt
  Applied; nothing beyond the current operation was ever attempted; a claimed or failed operation
  is the current one; and an Applied application has all receipts and its application receipt.
\<close>

theorem store_invariant:
  assumes "store_reach P ws app ids d" "distinct ids" "durable_state P ws app d = Some s"
  shows "es_next s = length (es_refs s) \<and> es_next s \<le> length ids \<and>
    (\<forall>i < es_next s. \<exists>a r. durable_attempt P ws app (ids ! i) d = Some a \<and> at_state a = Applied \<and> at_index a = i \<and>
       durable_receipt P ws app (ids ! i) d = Some r \<and> or_receipt_id r = es_refs s ! i) \<and>
    (\<forall>i. es_next s < i \<and> i < length ids \<longrightarrow> durable_attempt P ws app (ids ! i) d = None) \<and>
    (\<forall>i. es_next s \<le> i \<and> i < length ids \<longrightarrow> durable_receipt P ws app (ids ! i) d = None) \<and>
    (es_state s \<in> {Applying, Failed, Blocked, OutcomeUnknown} \<longrightarrow>
       es_next s < length ids \<and> es_attempt s = PStr (ids ! es_next s) \<and>
       (\<exists>a. durable_attempt P ws app (ids ! es_next s) d = Some a \<and> at_state a = es_state s)) \<and>
    (es_state s = Applied \<longrightarrow> es_next s = length ids \<and>
       (\<exists>r. durable_final P ws app d = Some r \<and> map fst (ar_refs r) = es_refs s))"
proof -
  let ?p = "protocol_of P ws app d"
  have ok: "protocol_ok ids ?p" using store_reach_ok assms(1,2) by blast
  note st = protocol_of_state [OF assms(3)]
  have rows: "\<exists>a r. durable_attempt P ws app (ids ! i) d = Some a \<and> at_state a = Applied \<and> at_index a = i \<and>
       durable_receipt P ws app (ids ! i) d = Some r \<and> or_receipt_id r = es_refs s ! i" if "i < es_next s" for i
  proof -
    have "pr_attempts ?p (ids ! i) = Some (i, Applied)" "pr_receipts ?p (ids ! i) = Some (i, es_refs s ! i)"
      using ok that by (simp_all add: protocol_ok_def st)
    then show ?thesis by (auto simp: protocol_of_rows)
  qed
  have cur: "es_next s < length ids \<and> es_attempt s = PStr (ids ! es_next s) \<and>
       (\<exists>a. durable_attempt P ws app (ids ! es_next s) d = Some a \<and> at_state a = es_state s)"
    if "es_state s \<in> {Applying, Failed, Blocked, OutcomeUnknown}"
  proof -
    have "current_attempt ids ?p" using ok by (simp add: protocol_ok_def)
    then show ?thesis using that by (auto simp: current_attempt_def st protocol_of_rows)
  qed
  have fin: "es_next s = length ids \<and> (\<exists>r. durable_final P ws app d = Some r \<and> map fst (ar_refs r) = es_refs s)"
    if applied: "es_state s = Applied"
  proof -
    obtain rs where "pr_final ?p = Some rs" "pr_next ?p = length ids" "rs = pr_refs ?p"
      using ok applied st by (cases "pr_final ?p") (simp_all add: protocol_ok_def)
    then show ?thesis using st by (auto simp: protocol_of_rows)
  qed
  have "es_next s = length (es_refs s)" "es_next s \<le> length ids"
    "es_next s < i \<and> i < length ids \<longrightarrow> durable_attempt P ws app (ids ! i) d = None"
    "es_next s \<le> i \<and> i < length ids \<longrightarrow> durable_receipt P ws app (ids ! i) d = None" for i
    using ok by (simp_all add: protocol_ok_def st protocol_of_rows)
  then show ?thesis using rows cur fin by blast
qed

theorem store_invariant_witness:
  "\<exists>app ids d s. store_reach plain_prims ''ws'' app ids d \<and> durable_state plain_prims ''ws'' app d = Some s \<and>
     es_state s = Applying \<and> es_refs s = [] \<and> (\<exists>a. durable_attempt plain_prims ''ws'' app (ids ! 0) d = Some a \<and> at_state a = Applying)"
proof (rule demo_run, goal_cases)
  case (1 ctx app ids s0 w1 s a w2)
  have "distinct ids" using 1(3) by (auto simp: length_Suc_conv)
  note i = store_invariant [OF 1(12) this 1(9)]
  have "es_next s < length ids" using i 1(10) by blast
  then have "es_next s = 0" "es_refs s = []" using conjunct1 [OF i] 1(3) by simp_all
  then show ?case using i 1(9,10,12) by (intro exI [of _ app] exI [of _ ids] exI [of _ "w_db w2"] exI [of _ s]) auto
qed

text \<open>
  C2: an operation is claimed at most once, ever: after a claim has returned an attempt, no later
  claim, by any process and with any context, returns an attempt of the same operation, as long as
  nobody deletes attempt rows in between.
\<close>

theorem operation_claimed_once:
  assumes "claim_next_operation P E st cap app dig ctx owner now w = (Inr (s, a), w')" "context_ok P ctx"
    and "history (w_db w') (w_db v)" "rely F" "context_ok P ctx'" "st_workspace st' = st_workspace st"
  shows "\<forall>s' b v'. claim_next_operation P F st' cap' app' dig' ctx' owner' now' v = (Inr (s', b), v') \<longrightarrow>
     (at_application_id b, at_operation_identity b) \<noteq> (at_application_id a, at_operation_identity a)"
proof (intro allI impI notI)
  fix s' b v' assume again: "claim_next_operation P F st' cap' app' dig' ctx' owner' now' v = (Inr (s', b), v')"
    and same: "(at_application_id b, at_operation_identity b) = (at_application_id a, at_operation_identity a)"
  obtain t rows where ins: "insert_row (st_workspace st, at_application_id a, at_operation_identity a) (attempt_doc a)
      (db_attempts (env_others E t (w_db w))) = Inr rows" and w': "db_attempts (w_db w') = rows"
    using assms(1,2) by (rule claim_next_operation_run) auto
  obtain u rows' where ins': "insert_row (st_workspace st', at_application_id b, at_operation_identity b) (attempt_doc b)
      (db_attempts (env_others F u (w_db v))) = Inr rows'"
    using again assms(5) by (rule claim_next_operation_run) auto
  have "history (w_db w') (env_others F u (w_db v))"
    using assms(3,4) history_trans by (auto simp: rely_def)
  then have "table.keeps rows (db_attempts (env_others F u (w_db v)))" using w' by (simp add: history_def)
  then show False using table.ins_once [OF ins] ins' same assms(6) by fastforce
qed

theorem operation_claimed_once_witness:
  "\<exists>app dig ctx w s a w'. claim_next_operation plain_prims demo_env demo_store demo_capability app dig ctx
       ''execution-owner-0123456789abcdef0123456789abcdef'' demo_now w = (Inr (s, a), w') \<and>
     (\<forall>s' b v'. claim_next_operation plain_prims demo_env demo_store demo_capability app (es_digest s) ctx
         ''execution-owner-0123456789abcdef0123456789abcdef'' demo_now w' = (Inr (s', b), v') \<longrightarrow>
       (at_application_id b, at_operation_identity b) \<noteq> (at_application_id a, at_operation_identity a))"
proof (rule demo_run, goal_cases)
  case (1 ctx app ids s0 w1 s a w2)
  have "rely demo_env" by (simp add: rely_def history_refl)
  from operation_claimed_once [OF 1(8,1) history_refl this 1(1) refl] 1(8) show ?case by blast
qed

text \<open>
  C8: a call that raises has written nothing: the database differs only by what other processes
  committed meanwhile, and no command was dispatched.
\<close>

theorem failed_call_writes_nothing:
  assumes "perform P E st cap call w = (Inl e, w')"
  shows "\<exists>ts. w_db w' = fold (env_others E) ts (w_db w) \<and> w_sent w' = w_sent w"
  using perform_clean [OF assms] by (auto simp: awaits_def)

theorem failed_call_writes_nothing_witness:
  "\<exists>app dig ctx w e w'. durable_state plain_prims ''ws'' app (w_db w) \<noteq> None \<and>
     perform plain_prims demo_env demo_store demo_capability
       (ClaimNext app dig ctx ''execution-owner-0123456789abcdef0123456789abcdef'' demo_now) w = (Inl e, w') \<and>
     w_db w' = w_db w"
proof (rule demo_run, goal_cases)
  case (1 ctx app ids s0 w1 s a w2)
  let ?call = "ClaimNext app (es_digest s) ctx ''execution-owner-0123456789abcdef0123456789abcdef'' demo_now"
  obtain r w' where run: "perform plain_prims demo_env demo_store demo_capability ?call w2 = (r, w')" by fastforce
  have "r \<noteq> Inr ()"
  proof
    assume "r = Inr ()"
    then obtain s' a' where "claim_next_operation plain_prims demo_env demo_store demo_capability app (es_digest s) ctx
        ''execution-owner-0123456789abcdef0123456789abcdef'' demo_now w2 = (Inr (s', a'), w')"
      using run by (auto simp: void_run)
    then show False using 1(1)
    proof (rule claim_next_operation_run, goal_cases)
      case (1 t doc prev rows)
      then show ?case using \<open>durable_state plain_prims ''ws'' app (w_db w2) = Some s\<close> \<open>es_state s = Applying\<close>
        by (auto simp: durable_state_def)
    qed
  qed
  then obtain e where e: "perform plain_prims demo_env demo_store demo_capability ?call w2 = (Inl e, w')"
    using run by (cases r) auto
  from failed_call_writes_nothing [OF this] e 1(9) show ?case
    by (intro exI [of _ app] exI [of _ "es_digest s"] exI [of _ ctx] exI [of _ w2] exI [of _ e] exI [of _ w']) auto
qed

text \<open>
  C14: an orchestrated store only lets the applier write: a call that succeeds is a managed one, made
  with the capability of this very service and store.
\<close>

theorem only_the_applier_writes:
  assumes "orchestrated st" "perform P E st cap call w = (Inr u, w')"
  shows "managed_call call \<and> capability_valid st cap"
proof -
  have "managed_call call" using assms generic_rejected by (metis Pair_inject sum.distinct(1))
  then show ?thesis using managed_requires_capability assms(2) by blast
qed

theorem only_the_applier_writes_witness:
  "\<exists>artifact w u w'. perform plain_prims demo_env demo_store demo_capability (CreateExecution artifact) w = (Inr u, w') \<and>
     capability_valid demo_store demo_capability"
proof (rule demo_run, goal_cases)
  case (1 ctx app ids s0 w1 s a w2)
  have run: "perform plain_prims demo_env demo_store demo_capability (CreateExecution (demo_artifact ctx)) (demo_world ctx) = (Inr (), w1)"
    using 1(6) by (simp add: void_run)
  from only_the_applier_writes [OF demo_valid(2) run] run show ?case by blast
qed

text \<open>
  C13: a managed application is closed to the generic operations of any store, orchestrated or not:
  whatever evidence they are given, they raise and write nothing.
\<close>

theorem managed_application_protected:
  assumes "generic_application call = Some app"
    and "select_row (st_workspace st, app) (db_executions (env_others E (w_tick w) (w_db w))) = Some doc"
    and "decode_exec_state P doc = Inr s" "es_managed s"
  shows "\<exists>e w' ts. perform P E st cap call w = (Inl e, w') \<and> w_db w' = fold (env_others E) ts (w_db w)"
proof -
  obtain r w' where run: "perform P E st cap call w = (r, w')" by fastforce
  then obtain e where r: "r = Inl e" using generic_on_managed [OF assms] by (cases r) auto
  then show ?thesis using perform_clean run by (fastforce simp: awaits_def)
qed

theorem managed_application_protected_witness:
  "\<exists>st artifact w e w'. \<not> orchestrated st \<and> w_db w \<noteq> empty_database \<and>
     perform plain_prims demo_env st None (SaveExecution artifact) w = (Inl e, w') \<and> w_db w' = w_db w"
proof (rule demo_run, goal_cases)
  case (1 ctx app ids s0 w1 s a w2)
  let ?st = "demo_store\<lparr>st_service := None\<rparr>"
  obtain doc where doc: "select_row (''ws'', app) (db_executions (w_db w1)) = Some doc" "decode_exec_state plain_prims doc = Inr s0"
    using 1(7) by (auto simp: durable_state_def durable_def split: option.splits sum.splits)
  have ne: "w_db w1 \<noteq> empty_database"
    using 1(7) by (auto simp: durable_state_def empty_database_def select_row_def)
  have "generic_application (SaveExecution (demo_artifact ctx)) = Some app"
    using 1(2) by (simp add: demo_artifact_def demo_initial_def)
  then obtain e w' ts where "perform plain_prims demo_env ?st None (SaveExecution (demo_artifact ctx)) w1 = (Inl e, w')"
      "w_db w' = fold (env_others demo_env) ts (w_db w1)"
    using managed_application_protected [of "SaveExecution (demo_artifact ctx)" app ?st demo_env w1 doc plain_prims s0 None] doc 1(14)
    by auto
  then show ?case using ne
    by (intro exI [of _ ?st] exI [of _ "demo_artifact ctx"] exI [of _ w1] exI [of _ e] exI [of _ w'])
      (simp add: orchestrated_def)
qed

text \<open>
  C15: the record of an execution only grows: whatever call is made and however it ends, no
  execution, attempt or receipt row disappears and no receipt row ever changes, provided the other
  processes keep to that too.
\<close>

theorem store_history:
  assumes "rely E" "perform P E st cap call w = (r, w')" "select_row k (db_operation_receipts (w_db w)) = Some doc"
  shows "select_row k (db_operation_receipts (w_db w')) = Some doc \<and> history (w_db w) (w_db w')"
proof -
  have "history (w_db w) (w_db w')"
    using moves_run [OF perform_grows [OF assms(1)] assms(2)] by (simp add: grows_def)
  then show ?thesis using assms(3) unfolding history_def table.extends_def by blast
qed

theorem store_history_witness:
  "\<exists>artifact w w'. perform plain_prims demo_env demo_store demo_capability (CreateExecution artifact) w = (Inr (), w') \<and>
     select_row (''ws'', ''x'', ''y'') (db_operation_receipts (w_db w')) = Some PNone"
proof -
  obtain ctx where ctx: "context_ok plain_prims ctx" "cx_service ctx = 0" by (rule demo_context)
  let ?w = "(demo_world ctx)\<lparr>w_db := empty_database\<lparr>db_operation_receipts := [((''ws'', ''x'', ''y''), PNone)]\<rparr>\<rparr>"
  have able: "able plain_prims demo_env demo_store demo_capability ctx ?w"
    using demo_usable [OF ctx] by (simp add: able_def usable_def)
  have "\<exists>s w'. create_execution_if_absent plain_prims demo_env demo_store demo_capability (demo_artifact ctx) ?w = (Inr s, w')"
    by (rule create_execution_ok [OF able])
      (use demo_initial_ok(2) [OF ctx(1)] in \<open>simp_all add: demo_artifact_def live_in_def demo_world_def demo_initial_def
        empty_database_def select_row_def\<close>)
  then obtain w' where run: "perform plain_prims demo_env demo_store demo_capability (CreateExecution (demo_artifact ctx)) ?w = (Inr (), w')"
    by (auto simp: void_run)
  have "select_row (''ws'', ''x'', ''y'') (db_operation_receipts (w_db ?w)) = Some PNone"
    by (simp add: select_row_def)
  from store_history [OF _ run this] show ?thesis using run by (auto simp: rely_def history_refl)
qed

text \<open>
  C3: the store implements the protocol: each call of an orchestrated store, seen on the rows of any
  one application, is one protocol step from the state the other processes left, or none at all.
\<close>

theorem store_refines_protocol:
  assumes "perform P E st cap call w = (r, w')" "orchestrated st" "call_sound P app ids call"
    and "\<forall>ts. rows_bound P ws app (fold (env_others E) ts (w_db w))"
  shows "\<exists>ts. rows_bound P ws app (w_db w') \<and>
     (protocol_step ids)\<^sup>=\<^sup>= (protocol_of P ws app (fold (env_others E) ts (w_db w))) (protocol_of P ws app (w_db w'))"
  using perform_implements [OF assms(1-3)] assms(4) unfolding implements_def by blast

theorem store_refines_protocol_witness:
  "\<exists>app ids d d'. (protocol_step ids)\<^sup>=\<^sup>= (protocol_of plain_prims ''ws'' app d) (protocol_of plain_prims ''ws'' app d') \<and>
     pr_state (protocol_of plain_prims ''ws'' app d) = None \<and> pr_state (protocol_of plain_prims ''ws'' app d') \<noteq> None"
proof (rule demo_run, goal_cases)
  case (1 ctx app ids s0 w1 s a w2)
  let ?call = "CreateExecution (demo_artifact ctx)"
  have run: "perform plain_prims demo_env demo_store demo_capability ?call (demo_world ctx) = (Inr (), w1)"
    using 1(6) by (simp add: void_run)
  have "call_sound plain_prims app ids ?call" using 1(5) by simp
  moreover have "\<forall>ts. rows_bound plain_prims ''ws'' app (fold (env_others demo_env) ts (w_db (demo_world ctx)))"
    by (simp add: demo_world_def rows_bound_empty)
  ultimately have "(protocol_step ids)\<^sup>=\<^sup>= (protocol_of plain_prims ''ws'' app (w_db (demo_world ctx)))
      (protocol_of plain_prims ''ws'' app (w_db w1))"
    using store_refines_protocol [OF run demo_valid(2)] by fastforce
  moreover have "pr_state (protocol_of plain_prims ''ws'' app (w_db (demo_world ctx))) = None"
    by (simp add: demo_world_def protocol_of_empty initial_protocol_def)
  moreover have "pr_state (protocol_of plain_prims ''ws'' app (w_db w1)) \<noteq> None"
    using protocol_of_state(1) [OF 1(7)] by simp
  ultimately show ?case by blast
qed

text \<open>
  C9: on an orchestrated store Applied, Failed, Blocked and OutcomeUnknown are final: no call of such a
  store with sound arguments changes an application in such a state, its operations or its receipts,
  as long as no other process writes meanwhile.  (A store that is not orchestrated may rewrite the
  record of an application that is not managed.)
\<close>

theorem terminal_is_final:
  assumes "durable_state P ws app (w_db w) = Some s" "terminal (es_state s)" "rows_bound P ws app (w_db w)"
    and "perform P E st cap call w = (r, w')" "orchestrated st" "call_sound P app ids call" "env_others E = (\<lambda>t d. d)"
  shows "protocol_of P ws app (w_db w') = protocol_of P ws app (w_db w)"
proof -
  obtain ts where "implements P ws app ids (fold (env_others E) ts (w_db w)) (w_db w')"
    using perform_implements [OF assms(4-6)] by blast
  then have "(protocol_step ids)\<^sup>=\<^sup>= (protocol_of P ws app (w_db w)) (protocol_of P ws app (w_db w'))"
    using assms(3,7) by (simp add: implements_def)
  then show ?thesis
    using protocol_final [OF protocol_of_state(1) [OF assms(1)] assms(2)] by auto
qed

theorem terminal_is_final_witness:
  "\<exists>w app s. durable_state plain_prims ''ws'' app (w_db w) = Some s \<and> es_state s = Failed \<and>
     (\<forall>call r w'. perform plain_prims demo_env demo_store demo_capability call w = (r, w') \<and> call_sound plain_prims app [] call \<longrightarrow>
        protocol_of plain_prims ''ws'' app (w_db w') = protocol_of plain_prims ''ws'' app (w_db w))"
proof -
  obtain ctx where ctx: "context_ok plain_prims ctx" by (rule demo_context)
  let ?s = "(demo_initial ctx)\<lparr>es_state := Failed\<rparr>" and ?app = "id_application_id (cx_identity ctx)"
  let ?w = "(demo_world ctx)\<lparr>w_db := empty_database\<lparr>db_executions := [((''ws'', ?app), exec_state_doc ?s)]\<rparr>\<rparr>"
  have "exec_state_ok plain_prims ?s" using demo_initial_ok(1) [OF ctx] by (simp add: exec_state_ok_def)
  then have st: "durable_state plain_prims ''ws'' ?app (w_db ?w) = Some ?s"
    using exec_state_roundtrip by (simp add: durable_state_def select_row_def)
  have "rows_bound plain_prims ''ws'' ?app (w_db ?w)"
    using st by (simp add: rows_bound_def durable_attempt_def select_row_def empty_database_def demo_initial_def)
  from terminal_is_final [OF st _ this _ demo_valid(2)]
  have "protocol_of plain_prims ''ws'' ?app (w_db w') = protocol_of plain_prims ''ws'' ?app (w_db ?w)"
    if "perform plain_prims demo_env demo_store demo_capability call ?w = (r, w')" "call_sound plain_prims ?app [] call" for call r w'
    using that by (simp add: terminal_def)
  then have "\<forall>call r w'. perform plain_prims demo_env demo_store demo_capability call ?w = (r, w') \<and>
        call_sound plain_prims ?app [] call \<longrightarrow>
      protocol_of plain_prims ''ws'' ?app (w_db w') = protocol_of plain_prims ''ws'' ?app (w_db ?w)"
    by blast
  moreover have "es_state ?s = Failed" by simp
  ultimately show ?thesis using st by blast
qed

text \<open>
  Calls of orchestrated stores with sound arguments, one after the other as in \<open>store_reach\<close>, counting
  those that change the application.
\<close>

inductive store_run :: "prims \<Rightarrow> string \<Rightarrow> string \<Rightarrow> string list \<Rightarrow> nat \<Rightarrow> database \<Rightarrow> bool" for P ws app ids where
  Start: "store_run P ws app ids 0 empty_database"
| Call: "store_run P ws app ids n (w_db w) \<Longrightarrow> orchestrated st \<Longrightarrow> call_sound P app ids call \<Longrightarrow>
    env_others E = (\<lambda>t d. d) \<Longrightarrow> perform P E st cap call w = (r, w') \<Longrightarrow>
    store_run P ws app ids (if protocol_of P ws app (w_db w') = protocol_of P ws app (w_db w) then n else Suc n) (w_db w')"

text \<open>
  C10: the number of calls of orchestrated stores that change an application is bounded: each of
  them moves it one place forward, and with \<open>n\<close> operations there are at most \<open>2 * n + 2\<close> of them, in
  whatever order different processes make their calls, with sound arguments and each undisturbed
  while it runs.
\<close>

theorem store_run_bounded:
  assumes "store_run P ws app ids n d" "distinct ids"
  shows "n = place (protocol_of P ws app d) \<and> n \<le> 2 * length ids + 2"
proof -
  have "store_reach P ws app ids d \<and> n = place (protocol_of P ws app d)"
    using assms(1)
  proof (induction rule: store_run.induct)
    case Start
    then show ?case by (simp add: store_reach.Opened protocol_of_empty place_def initial_protocol_def)
  next
    case (Call n w st call E cap r w')
    then have reach: "store_reach P ws app ids (w_db w)" by simp
    then have "rows_bound P ws app (w_db w)" using store_reach_protocol by blast
    moreover obtain ts where "implements P ws app ids (fold (env_others E) ts (w_db w)) (w_db w')"
      using perform_implements Call(2,3,5) by blast
    ultimately have "(protocol_step ids)\<^sup>=\<^sup>= (protocol_of P ws app (w_db w)) (protocol_of P ws app (w_db w'))"
      using Call(4) by (simp add: implements_def)
    then show ?case
      using place_step [OF store_reach_ok [OF reach assms(2)]] Call store_reach.Called [OF reach Call(2-5)] by auto
  qed
  then show ?thesis using place_bound [OF store_reach_ok [OF _ assms(2)]] by blast
qed

theorem store_run_bounded_witness:
  "\<exists>app ids d. length ids = 1 \<and> store_run plain_prims ''ws'' app ids 2 d \<and> place (protocol_of plain_prims ''ws'' app d) = 2"
proof (rule demo_run, goal_cases)
  case (1 ctx app ids s0 w1 s a w2)
  have "store_run plain_prims ''ws'' app ids 0 (w_db (demo_world ctx))"
    using store_run.Start by (simp add: demo_world_def)
  then have "store_run plain_prims ''ws'' app ids
      (if protocol_of plain_prims ''ws'' app (w_db w1) = protocol_of plain_prims ''ws'' app (w_db (demo_world ctx)) then 0 else Suc 0) (w_db w1)"
    by (rule store_run.Call [where st = demo_store and E = demo_env and cap = demo_capability
          and call = "CreateExecution (demo_artifact ctx)" and r = "Inr ()"]) (use 1(5,6) in \<open>auto simp: void_run\<close>)
  moreover have "pr_state (protocol_of plain_prims ''ws'' app (w_db (demo_world ctx))) = None"
    by (simp add: demo_world_def protocol_of_empty initial_protocol_def)
  ultimately have "store_run plain_prims ''ws'' app ids (Suc 0) (w_db w1)"
    using protocol_of_state(1) [OF 1(7)] by (auto split: if_splits)
  then have "store_run plain_prims ''ws'' app ids
      (if protocol_of plain_prims ''ws'' app (w_db w2) = protocol_of plain_prims ''ws'' app (w_db w1) then Suc 0 else Suc (Suc 0)) (w_db w2)"
    by (rule store_run.Call [where st = demo_store and E = demo_env and cap = demo_capability
          and call = "ClaimNext app (es_digest s0) ctx ''execution-owner-0123456789abcdef0123456789abcdef'' demo_now"
          and r = "Inr ()"]) (use 1(4,8) in \<open>auto simp: void_run\<close>)
  moreover have "pr_state (protocol_of plain_prims ''ws'' app (w_db w1)) \<noteq> pr_state (protocol_of plain_prims ''ws'' app (w_db w2))"
    using protocol_of_state(1) [OF 1(7)] protocol_of_state(1) [OF 1(9)] 1(10,13) by simp
  ultimately have run: "store_run plain_prims ''ws'' app ids 2 (w_db w2)"
    by (auto simp: numeral_2_eq_2 split: if_splits)
  moreover have "distinct ids" using 1(3) by (auto simp: length_Suc_conv)
  ultimately show ?case using store_run_bounded [OF run] 1(3) by metis
qed

end
