(* ===== verification/Materialize.thy ===== *)
theory Materialize
  imports Rendering Execution_Store
begin

text \<open>
  Model of \<open>_materialize\<close>, \<open>_reference_from_receipt\<close>, \<open>_reference_from_existing_binding\<close> and
  \<open>_trusted_success_result\<close> of \<open>delivery_system/applier.py\<close> and of
  \<open>revalidate_existing_endpoint\<close> of \<open>runtime.py\<close>: how a claimed operation becomes the one command
  that is sent, and how the driver's answer becomes the evidence of a receipt.

  The lemmas say what a command can contain: the repository, request and items of the approved
  application, and references to issues whose creation has a durable, verified receipt or which the
  sealed preview binds.
\<close>

section \<open>References to issues\<close>

text \<open>\<open>str(value)\<close>\<close>

fun py_str :: "prims \<Rightarrow> pyval \<Rightarrow> string" where
  "py_str P (PStr s) = s"
| "py_str P (PInt i) = int_repr i"
| "py_str P (PBool b) = (if b then ''True'' else ''False'')"
| "py_str P PNone = ''None''"
| "py_str P (PFloat (Finite r)) = r"
| "py_str P v = repr_other P v"

definition repository_of :: "exec_context \<Rightarrow> pyval" where
  "repository_of ctx = PStr (au_repository_identity (cx_authority ctx))"

definition reference_unavailable :: exn where
  "reference_unavailable = ValueError ''write_reference_unavailable''"

definition revalidate_existing_endpoint ::
  "env \<Rightarrow> string \<Rightarrow> string option \<Rightarrow> issue_reference list option \<Rightarrow> unit io" where
  "revalidate_existing_endpoint E endpoint_ref kind references =
     (case env_endpoint E of
        None \<Rightarrow> ret ()
      | Some verifier \<Rightarrow>
          bnd (ask verifier) (\<lambda>verify.
          bnd (lift (verify endpoint_ref kind references)) (\<lambda>result.
          refuse (result = PBool False) ''existing_endpoint_semantic_stale'')))"

text \<open>The creation operation of a work item, with its place in the application.\<close>

fun creation_of :: "nat \<Rightarrow> write_op list \<Rightarrow> pyval \<Rightarrow> (nat \<times> write_op) option" where
  "creation_of i [] client_ref = None"
| "creation_of i (op # ops) client_ref =
     (if operation_kind op \<noteq> ''create_issue'' \<or> strs (client_refs op) \<noteq> PList [client_ref]
      then creation_of (Suc i) ops client_ref else Some (i, op))"

definition reference_from_receipt :: "prims \<Rightarrow> env \<Rightarrow> exec_store \<Rightarrow> exec_context \<Rightarrow> pyval \<Rightarrow> issue_reference io" where
  "reference_from_receipt P E st ctx client_ref =
     (let app = id_application_id (cx_identity ctx) in
      case creation_of 0 (cx_operations ctx) client_ref of
        None \<Rightarrow> fail reference_unavailable
      | Some (i, op) \<Rightarrow>
          bnd (lift (operation_identity P app (int i) (operation_doc op))) (\<lambda>op_id.
          bnd (get_operation_receipt P E st app op_id) (\<lambda>receipt.
          let payload = rr_payload (or_result receipt) in
          if rr_kind (or_result receipt) \<noteq> ''github.create_issue.v1'' \<or>
             dict_get payload ''repository_identity'' \<noteq> repository_of ctx
          then fail reference_unavailable
          else
            bnd (lift (dict_item payload ''repository_identity'')) (\<lambda>repository.
            bnd (lift (dict_item payload ''issue_number'')) (\<lambda>number.
            bnd (lift (dict_item payload ''numeric_issue_id'')) (\<lambda>numeric.
            bnd (lift (dict_item payload ''node_id'')) (\<lambda>node.
            lift (RemoteIssueReference P repository number numeric node))))))))"

text \<open>\<open>next((value for value in values if value.get(key) == wanted), None)\<close>\<close>

fun find_entry :: "string \<Rightarrow> pyval \<Rightarrow> pyval list \<Rightarrow> pyval res" where
  "find_entry key wanted [] = Inr PNone"
| "find_entry key wanted (v # vs) =
     (if \<not> is_mapping v then Inl AttributeError
      else if dict_get v key = wanted then Inr v else find_entry key wanted vs)"

definition binding_reference :: "prims \<Rightarrow> exec_context \<Rightarrow> string \<Rightarrow> issue_reference res" where
  "binding_reference P ctx endpoint_ref =
     rbind (find_entry ''endpoint_ref'' (PStr endpoint_ref) (cx_bindings ctx)) (\<lambda>binding.
     let snapshot = cx_snapshot ctx in
     if \<not> is_mapping binding \<or> \<not> is_mapping snapshot then Inl reference_unavailable
     else
       rbind (of_option TypeError (iterate (get_or snapshot ''issue_records'' (PList [])))) (\<lambda>records.
       rbind (find_entry ''issue_id'' (dict_get binding ''issue_id'') records) (\<lambda>record.
       if \<not> is_mapping record then Inl reference_unavailable
       else
         rbind (digest P record) (\<lambda>d.
         if PStr d \<noteq> dict_get binding ''remote_record_digest'' \<or>
            dict_get record ''repository_identity'' \<noteq> repository_of ctx \<or> dict_get record ''item_type'' \<noteq> PStr ''issue''
         then Inl reference_unavailable
         else
           catch (rbind (dict_item record ''issue_number'') (\<lambda>number.
                  rbind (dict_item record ''numeric_issue_id'') (\<lambda>numeric.
                  rbind (dict_item record ''issue_id'') (\<lambda>node.
                  RemoteIssueReference P (repository_of ctx) number (PStr (py_str P numeric)) node))))
             (\<lambda>e. case e of KeyError \<Rightarrow> Inl reference_unavailable | TypeError \<Rightarrow> Inl reference_unavailable
                  | ValueError _ \<Rightarrow> Inl reference_unavailable | _ \<Rightarrow> Inl e)))))"

definition reference_from_existing_binding ::
  "prims \<Rightarrow> env \<Rightarrow> exec_context \<Rightarrow> pyval \<Rightarrow> bool \<Rightarrow> issue_reference io" where
  "reference_from_existing_binding P E ctx endpoint_ref revalidate =
     (case endpoint_ref of
        PStr ref \<Rightarrow>
          if cx_version ctx \<noteq> PStr ''2'' then fail reference_unavailable
          else
            bnd (if revalidate then revalidate_existing_endpoint E ref None None else ret ()) (\<lambda>_.
            lift (binding_reference P ctx ref))
      | _ \<Rightarrow> fail reference_unavailable)"

section \<open>The command of an operation\<close>

text \<open>\<open>{item["client_ref"]: item for item in context.canonical_items}\<close>\<close>

fun items_by_ref :: "pyval list \<Rightarrow> (pyval \<times> pyval) list res" where
  "items_by_ref [] = Inr []"
| "items_by_ref (item # items) =
     rbind (dict_item item ''client_ref'') (\<lambda>ref.
     if \<not> hashable ref then Inl TypeError
     else rbind (items_by_ref items) (\<lambda>rest. Inr ((ref, item) # rest)))"

definition item_lookup :: "(pyval \<times> pyval) list \<Rightarrow> pyval \<Rightarrow> pyval option res" where
  "item_lookup items ref = (if \<not> hashable ref then Inl TypeError else Inr (map_of (rev items) ref))"

text \<open>\<open>refs[i]\<close>\<close>

definition sequence_item :: "pyval \<Rightarrow> nat \<Rightarrow> pyval res" where
  "sequence_item v i =
     (case v of
        PList xs \<Rightarrow> if i < length xs then Inr (xs ! i) else Inl IndexError
      | PTuple xs \<Rightarrow> if i < length xs then Inr (xs ! i) else Inl IndexError
      | PStr s \<Rightarrow> if i < length s then Inr (PStr [s ! i]) else Inl IndexError
      | PDict _ \<Rightarrow> Inl KeyError
      | _ \<Rightarrow> Inl TypeError)"

text \<open>\<open>any(ref not in items for ref in refs)\<close>\<close>

fun unknown_ref :: "(pyval \<times> pyval) list \<Rightarrow> pyval list \<Rightarrow> bool res" where
  "unknown_ref items [] = Inr False"
| "unknown_ref items (ref # refs) =
     rbind (item_lookup items ref) (\<lambda>found. if found = None then Inr True else unknown_ref items refs)"

definition create_command :: "prims \<Rightarrow> exec_context \<Rightarrow> pyval \<Rightarrow> pyval \<Rightarrow> string \<Rightarrow> command res" where
  "create_command P ctx item client_ref request =
     rbind (render_create_issue item) (\<lambda>(title, body).
     CreateIssueCommand P (repository_of ctx) client_ref (PStr title) (PStr body) (PStr request))"

definition list_item :: "'a list \<Rightarrow> nat \<Rightarrow> 'a res" where
  "list_item xs i = (if i < length xs then Inr (xs ! i) else Inl IndexError)"

text \<open>Two resolved references become one command; the existing endpoints are checked in between.\<close>

definition resolved_relationship ::
  "prims \<Rightarrow> env \<Rightarrow> exec_context \<Rightarrow> string \<Rightarrow> issue_reference list \<Rightarrow> string list \<Rightarrow> command io" where
  "resolved_relationship P E ctx kind references existing =
     bnd (lift (list_item references 0)) (\<lambda>a.
     bnd (lift (list_item references 1)) (\<lambda>b.
     bnd (if a = b then fail reference_unavailable else ret ()) (\<lambda>_.
     bnd (each (\<lambda>ref. revalidate_existing_endpoint E ref (Some kind) (Some references)) existing) (\<lambda>_.
     lift (RelationshipCommand P (repository_of ctx) a b)))))"

text \<open>An operation with explicit operands: the endpoint of a creation, the two of a relationship.\<close>

definition operand_reference ::
  "prims \<Rightarrow> env \<Rightarrow> exec_store \<Rightarrow> exec_context \<Rightarrow> pyval \<Rightarrow> (issue_reference \<times> string list) io" where
  "operand_reference P E st ctx operand =
     (if \<not> is_mapping operand then fail reference_unavailable
      else if dict_get operand ''endpoint_type'' = PStr ''work_item''
      then bnd (reference_from_receipt P E st ctx (dict_get operand ''client_ref'')) (\<lambda>r. ret (r, []))
      else if dict_get operand ''endpoint_type'' = PStr ''existing_issue''
      then bnd (reference_from_existing_binding P E ctx (dict_get operand ''endpoint_ref'') False) (\<lambda>r.
           ret (r, [str_of (dict_get operand ''endpoint_ref'')]))
      else fail reference_unavailable)"

definition materialize_operands ::
  "prims \<Rightarrow> env \<Rightarrow> exec_store \<Rightarrow> exec_context \<Rightarrow> pyval \<Rightarrow> string \<Rightarrow> command io" where
  "materialize_operands P E st ctx operation request =
     bnd (lift (dict_item operation ''operation_kind'')) (\<lambda>kind.
     if kind = PStr ''create_issue''
     then
       let endpoint = dict_get operation ''endpoint''; ref = dict_get endpoint ''client_ref'' in
       if \<not> is_mapping endpoint \<or> dict_get endpoint ''endpoint_type'' \<noteq> PStr ''work_item'' then fail reference_unavailable
       else
         bnd (lift (items_by_ref (canonical_items ctx))) (\<lambda>items.
         bnd (lift (item_lookup items ref)) (\<lambda>found.
         case found of
           None \<Rightarrow> fail reference_unavailable
         | Some item \<Rightarrow> lift (create_command P ctx item ref request)))
     else if kind = PStr ''add_sub_issue'' \<or> kind = PStr ''add_dependency''
     then
       (case dict_get operation ''operands'' of
          PList operands \<Rightarrow>
            if length operands \<noteq> 2 then fail reference_unavailable
            else
              bnd (each (operand_reference P E st ctx) operands) (\<lambda>rs.
              resolved_relationship P E ctx (str_of kind) (map fst rs) (concat (map snd rs)))
        | _ \<Rightarrow> fail reference_unavailable)
     else fail (ValueError ''write_operation_kind_invalid''))"

text \<open>The envelope of an operation of a V2 preview: \<open>work_item:...\<close> and \<open>existing_issue:...\<close>.\<close>

definition tagged_ref :: "pyval \<Rightarrow> (bool \<times> string) res" where
  "tagged_ref ref =
     (case ref of
        PStr s \<Rightarrow>
          if prefix ''work_item:'' s then Inr (True, drop 10 s)
          else if prefix ''existing_issue:'' s then Inr (False, drop 15 s)
          else Inl reference_unavailable
      | _ \<Rightarrow> Inl reference_unavailable)"

definition tagged_reference ::
  "prims \<Rightarrow> env \<Rightarrow> exec_store \<Rightarrow> exec_context \<Rightarrow> bool \<times> string \<Rightarrow> (issue_reference \<times> string list) io" where
  "tagged_reference P E st ctx tagged =
     (let (work_item, ref) = tagged in
      if work_item then bnd (reference_from_receipt P E st ctx (PStr ref)) (\<lambda>r. ret (r, []))
      else bnd (reference_from_existing_binding P E ctx (PStr ref) False) (\<lambda>r. ret (r, [ref])))"

definition materialize_refs :: "prims \<Rightarrow> env \<Rightarrow> exec_store \<Rightarrow> exec_context \<Rightarrow> pyval \<Rightarrow> string \<Rightarrow> command io" where
  "materialize_refs P E st ctx operation request =
     bnd (lift (items_by_ref (canonical_items ctx))) (\<lambda>items.
     bnd (lift (dict_item operation ''operation_kind'')) (\<lambda>kind.
     bnd (lift (dict_item operation ''client_refs'')) (\<lambda>refs.
     if kind = PStr ''create_issue''
     then
       bnd (lift (sequence_item refs 0)) (\<lambda>ref.
       bnd (lift (item_lookup items ref)) (\<lambda>found.
       bnd (lift (of_option KeyError found)) (\<lambda>item.
       lift (create_command P ctx item ref request))))
     else if kind = PStr ''add_sub_issue'' \<or> kind = PStr ''add_dependency''
     then
       bnd (lift (of_option TypeError (iterate refs))) (\<lambda>refs.
       if cx_version ctx = PStr ''2''
       then
         bnd (lift (sequence (map tagged_ref refs))) (\<lambda>tagged.
         bnd (each (tagged_reference P E st ctx) tagged) (\<lambda>rs.
         resolved_relationship P E ctx (str_of kind) (map fst rs) (concat (map snd rs))))
       else
         bnd (lift (unknown_ref items refs)) (\<lambda>unknown.
         bnd (if unknown then fail reference_unavailable else ret ()) (\<lambda>_.
         bnd (each (reference_from_receipt P E st ctx) refs) (\<lambda>references.
         bnd (lift (list_item references 0)) (\<lambda>a.
         bnd (lift (list_item references 1)) (\<lambda>b.
         lift (RelationshipCommand P (repository_of ctx) a b)))))))
     else fail (ValueError ''write_operation_kind_invalid''))))"

definition materialize :: "prims \<Rightarrow> env \<Rightarrow> exec_store \<Rightarrow> exec_context \<Rightarrow> attempt \<Rightarrow> command io" where
  "materialize P E st ctx attempt =
     (let operation = operation_doc (at_operation attempt) in
      if dict_lookup operation ''operands'' \<noteq> None \<or> dict_lookup operation ''endpoint'' \<noteq> None
      then materialize_operands P E st ctx operation (at_request_identity attempt)
      else materialize_refs P E st ctx operation (at_request_identity attempt))"

section \<open>The evidence of a success\<close>

definition decimal_id :: "pyval \<Rightarrow> bool" where
  "decimal_id v \<longleftrightarrow>
     (case v of PStr s \<Rightarrow> 1 \<le> length s \<and> length s \<le> 20 \<and> hd s \<noteq> CHR ''0'' \<and> list_all is_digit s | _ \<Rightarrow> False)"

text \<open>\<open>value == 201\<close>\<close>

definition created_status :: "pyval \<Rightarrow> bool" where
  "created_status v \<longleftrightarrow> v = PInt 201 \<or> v = PFloat (Finite ''201.0'')"

definition positive_int :: "pyval \<Rightarrow> bool" where
  "positive_int v \<longleftrightarrow> (case v of PInt n \<Rightarrow> 0 < n | _ \<Rightarrow> False)"

definition created_issue_fields :: "string list" where
  "created_issue_fields = [''repository_identity'', ''issue_number'', ''numeric_issue_id'', ''node_id'',
     ''executor_identity'', ''contract_version'', ''response_status'']"

definition executor_evidence :: "pyval \<Rightarrow> bool" where
  "executor_evidence payload \<longleftrightarrow>
     dict_get payload ''executor_identity'' = PStr write_executor_identity \<and>
     is_str (dict_get payload ''contract_version'') \<and> created_status (dict_get payload ''response_status'')"

definition trusted_payload :: "string \<Rightarrow> pyval \<Rightarrow> pyval \<Rightarrow> unit res" where
  "trusted_payload kind repository payload =
     (if kind = ''create_issue''
      then
        raise_if (\<not> has_exactly payload created_issue_fields \<or> dict_get payload ''repository_identity'' \<noteq> repository)
          ''write_observation_invalid''
        (raise_if (\<not> positive_int (dict_get payload ''issue_number'') \<or> \<not> decimal_id (dict_get payload ''numeric_issue_id'') \<or>
                   \<not> nonempty_str (dict_get payload ''node_id'') \<or> \<not> executor_evidence payload)
          ''write_observation_invalid'' (Inr ()))
      else if kind = ''add_sub_issue'' \<or> kind = ''add_dependency''
      then
        raise_if (\<not> is_str (dict_get payload ''repository_identity'') \<or>
                  dict_get payload ''repository_identity'' \<noteq> repository \<or> \<not> executor_evidence payload)
          ''write_observation_invalid'' (Inr ())
      else Inl (ValueError ''write_operation_kind_invalid''))"

definition trusted_success_result :: "prims \<Rightarrow> exec_context \<Rightarrow> attempt \<Rightarrow> observation \<Rightarrow> pyval res" where
  "trusted_success_result P ctx attempt observation =
     (let payload = ob_result_payload observation; kind = operation_kind (at_operation attempt) in
      raise_if (\<not> is_mapping payload) ''write_observation_invalid''
      (rbind (trusted_payload kind (repository_of ctx) payload) (\<lambda>_.
       raise_if (\<not> nonempty_str (ob_result_identity observation)) ''write_observation_invalid''
       (rbind (digest P payload) (\<lambda>d.
        Inr (obj [(''result_kind'', PStr (''github.'' @ kind @ ''.v1'')),
                  (''result_identity'', ob_result_identity observation),
                  (''result_digest'', PStr d), (''result_payload'', payload)]))))))"

end
