(* ===== verification/Applier.thy ===== *)
theory Applier
  imports Materialize
begin

text \<open>
  Model of \<open>_apply\<close> of \<open>delivery_system/applier.py\<close>, the loop that claims one approved operation
  after the other, sends its command and records the outcome, and of \<open>_ApplierCapability.dispatch\<close>
  and \<open>_validate_live_credential_dispatch\<close> of \<open>runtime.py\<close>, the only way a command leaves.

  Each call of the driver is recorded in \<open>w_sent\<close> under the application and operation it is made
  for, which is what the theorems about dispatches speak of; nothing reads it.

  The loop takes fuel and answers \<open>None\<close> when it has none left.  One more than the number of
  operations is enough, because every pass inserts the attempt row of an operation that had none
  (see \<open>Applier_Runs\<close>).
\<close>

section \<open>Dispatch\<close>

definition validate_live_credential_dispatch :: "prims \<Rightarrow> env \<Rightarrow> exec_context \<Rightarrow> unit io" where
  "validate_live_credential_dispatch P E ctx =
     bnd (ask (env_credentials E)) (\<lambda>service.
     case (cs_lease service, cs_snapshot service) of
       (Some lease, Some snapshot) \<Rightarrow>
         bnd (validate_execution_context P E (cx_service ctx) ctx) (\<lambda>_.
         let authority = cx_authority ctx; id = au_authority_id authority in
         case cs_restart service id of
           Some provenance \<Rightarrow>
             bnd (lift (restart_credential_checks P authority (cs_issuance service id) provenance lease snapshot)) (\<lambda>evidence.
             bnd (ask (env_clock E)) (\<lambda>now.
             bnd (lift (credential_unexpired (ValueError (''Invalid isoformat string: '' @ gi_expires_at evidence)) evidence now)) (\<lambda>_.
             lift (source_verified P evidence (restart_request authority provenance) (rp_source_verification_digest provenance)))))
         | None \<Rightarrow>
             bnd (lift (cs_binding service (au_credential_binding_id authority))) (\<lambda>binding.
             bnd (lift (live_credential_checks authority binding lease snapshot)) (\<lambda>evidence.
             bnd (ask (env_clock E)) (\<lambda>now.
             bnd (lift (credential_unexpired (ValueError ''credential_currentness_mismatch'') evidence now)) (\<lambda>_.
             lift (source_verified P evidence (live_request binding) (cb_source_verification_digest binding)))))))
     | _ \<Rightarrow> fail (ValueError ''credential_capability_unregistered''))"

definition dispatch ::
  "prims \<Rightarrow> env \<Rightarrow> string \<times> string \<Rightarrow> exec_context \<Rightarrow> string \<Rightarrow> command \<Rightarrow> observation io" where
  "dispatch P E operation ctx kind command =
     bnd (refuse (kind \<notin> {''create_issue'', ''add_sub_issue'', ''add_dependency''}) ''write_operation_kind_invalid'') (\<lambda>_.
     bnd (validate_live_credential_dispatch P E ctx) (\<lambda>_.
     bnd (ask (env_driver E)) (\<lambda>driver.
     bnd (change (\<lambda>w. w\<lparr>w_sent := w_sent w @ [(operation, kind, command)]\<rparr>)) (\<lambda>_.
     lift (driver kind command)))))"

section \<open>Results\<close>

record apply_result =
  rs_application_id :: string
  rs_state :: status
  rs_next :: nat
  rs_receipt :: "string option"
  rs_recovery :: pyval

definition result_of :: "string \<Rightarrow> exec_state \<Rightarrow> string option \<Rightarrow> pyval \<Rightarrow> apply_result" where
  "result_of app state receipt recovery =
     \<lparr>rs_application_id = app, rs_state = es_state state, rs_next = es_next state, rs_receipt = receipt, rs_recovery = recovery\<rparr>"

definition recovery_required :: pyval where
  "recovery_required = PStr ''application_recovery_required''"

definition receipt_id_of :: "prims \<Rightarrow> env \<Rightarrow> exec_store \<Rightarrow> string \<Rightarrow> string io" where
  "receipt_id_of P E st app = bnd (get_application_receipt P E st app) (\<lambda>r. ret (ar_receipt_id r))"

definition now_text :: "env \<Rightarrow> string io" where
  "now_text E = bnd (ask (env_clock E)) (\<lambda>t. ret (utc_text t))"

section \<open>One operation\<close>

text \<open>\<open>except ValueError as exc: if str(exc) != "runtime_authority_invalid": raise\<close>\<close>

definition or_recovery :: "string \<Rightarrow> exec_state \<Rightarrow> exn \<Rightarrow> apply_result option io" where
  "or_recovery app state e =
     (if e = ValueError ''runtime_authority_invalid'' then ret (Some (result_of app state None recovery_required)) else fail e)"

text \<open>A refused claim: another process has moved the application, or the error is raised.\<close>

definition state_changed :: "exec_state \<Rightarrow> exec_state \<Rightarrow> bool" where
  "state_changed current state \<longleftrightarrow>
     es_digest current \<noteq> es_digest state \<or> es_state current \<noteq> es_state state \<or> es_next current \<noteq> es_next state \<or>
     es_owner current \<noteq> es_owner state \<or> es_attempt current \<noteq> es_attempt state"

definition claim_refused ::
  "prims \<Rightarrow> env \<Rightarrow> exec_store \<Rightarrow> exec_context \<Rightarrow> exec_state \<Rightarrow> exn \<Rightarrow> apply_result option io" where
  "claim_refused P E st ctx state e =
     (if e \<in> {ValueError ''application_claim_unavailable'', ValueError ''application_state_stale''}
      then
        let app = id_application_id (cx_identity ctx) in
        bnd (get_execution P E st app (Some (expected_operations ctx))) (\<lambda>current.
        if \<not> state_changed current state then fail e
        else
          bnd (if es_state current = Applied then bnd (receipt_id_of P E st app) (\<lambda>r. ret (Some r)) else ret None) (\<lambda>receipt.
          ret (Some (result_of app current receipt
            (if es_state current = Applied then PNone
             else if es_state current \<in> {Applying, PartiallyApplied} then recovery_required
             else es_recovery current)))))
      else fail e)"

definition currentness_codes :: "string list" where
  "currentness_codes = [''existing_endpoint_not_found'', ''existing_endpoint_repository_mismatch'',
     ''existing_endpoint_identity_mismatch'', ''existing_endpoint_write_address_invalid'',
     ''existing_endpoint_semantic_stale'', ''relationship_already_exists'', ''remote_observation_unavailable'']"

definition preparation_target :: "string \<Rightarrow> status" where
  "preparation_target code =
     (if code \<in> set currentness_codes \<or>
         code \<in> {''write_reference_unavailable'', ''write_executor_invalid'', ''runtime_authority_required''}
      then Blocked else Failed)"

definition credential_codes :: "string list" where
  "credential_codes = [''credential_capability_unregistered'', ''credential_principal_mismatch'',
     ''credential_instance_mismatch'', ''credential_repository_mismatch'', ''credential_scope_mismatch'',
     ''credential_capability_mismatch'', ''credential_currentness_mismatch'', ''credential_expired'']"

definition outcome_code :: "observation \<Rightarrow> pyval" where
  "outcome_code observation =
     (if truthy (ob_code observation) then ob_code observation
      else PStr (if ob_kind observation = DefinitiveRejected then ''github_write_rejected'' else ''github_write_transport_ambiguous''))"

definition outcome_target :: "observation \<Rightarrow> status" where
  "outcome_target observation =
     (if ob_kind observation = Ambiguous then OutcomeUnknown
      else if outcome_code observation \<in> PStr ` {''github_write_authority_rejected'', ''github_write_target_unavailable'',
                ''github_write_conflict'', ''github_write_rate_limited'', ''github_write_redirect_rejected''}
      then Blocked else Failed)"

text \<open>\<open>store.settle_operation(...)\<close> and the result with the same code.\<close>

definition settle ::
  "prims \<Rightarrow> env \<Rightarrow> exec_store \<Rightarrow> capability option \<Rightarrow> exec_context \<Rightarrow> exec_state \<Rightarrow> attempt \<Rightarrow> string \<Rightarrow> status \<Rightarrow> pyval \<Rightarrow>
   apply_result option io" where
  "settle P E st cap ctx state attempt owner target code =
     (let app = id_application_id (cx_identity ctx) in
      bnd (now_text E) (\<lambda>now.
      bnd (settle_operation P E st cap app (es_digest state) (at_operation_identity attempt) (at_digest attempt) owner ctx
             target code now) (\<lambda>settled.
      ret (Some (result_of app settled None code)))))"

text \<open>
  \<open>perform_claimed\<close> is the body of the loop after a successful claim; its continuation is the next
  pass, taken when the operation has succeeded and its receipt is durable.
\<close>

definition prepare ::
  "prims \<Rightarrow> env \<Rightarrow> exec_store \<Rightarrow> capability option \<Rightarrow> exec_context \<Rightarrow> exec_state \<Rightarrow> attempt \<Rightarrow> string \<Rightarrow> command io" where
  "prepare P E st cap ctx state attempt owner =
     bnd (validate_claim P E st cap (id_application_id (cx_identity ctx)) (es_digest state) (at_operation_identity attempt)
            (at_digest attempt) owner ctx) (\<lambda>_.
     materialize P E st ctx attempt)"

definition record_success ::
  "prims \<Rightarrow> env \<Rightarrow> exec_store \<Rightarrow> capability option \<Rightarrow> exec_context \<Rightarrow> exec_state \<Rightarrow> attempt \<Rightarrow> string \<Rightarrow> observation \<Rightarrow>
   exec_state io" where
  "record_success P E st cap ctx state attempt owner observation =
     bnd (lift (trusted_success_result P ctx attempt observation)) (\<lambda>remote.
     bnd (now_text E) (\<lambda>completed.
     bnd (new_receipt P E ctx (at_index attempt) remote (at_started_at attempt) (PStr completed)) (\<lambda>receipt.
     bnd (now_text E) (\<lambda>now.
     complete_operation_success P E st cap (id_application_id (cx_identity ctx)) (es_digest state)
       (at_operation_identity attempt) (at_digest attempt) owner ctx receipt now))))"

definition perform_claimed ::
  "prims \<Rightarrow> env \<Rightarrow> exec_store \<Rightarrow> capability option \<Rightarrow> exec_context \<Rightarrow> exec_state \<Rightarrow> attempt \<Rightarrow> string \<Rightarrow>
   (exec_state \<Rightarrow> apply_result option io) \<Rightarrow> apply_result option io" where
  "perform_claimed P E st cap ctx state attempt owner continue =
     (let app = id_application_id (cx_identity ctx);
          current = validate_execution_context P E (cx_service ctx) ctx in
      attempt_then (prepare P E st cap ctx state attempt owner)
        (\<lambda>e. case e of
           ValueError code \<Rightarrow> settle P E st cap ctx state attempt owner (preparation_target code) (PStr code)
         | _ \<Rightarrow> fail e)
        (\<lambda>command.
      attempt_then current (or_recovery app state) (\<lambda>_.
      attempt_then (dispatch P E (app, at_operation_identity attempt) ctx (operation_kind (at_operation attempt)) command)
        (\<lambda>e. case e of
           ValueError code \<Rightarrow>
             if code \<in> set credential_codes then settle P E st cap ctx state attempt owner Blocked (PStr code) else fail e
         | _ \<Rightarrow> fail e)
        (\<lambda>observation.
      attempt_then current (or_recovery app state) (\<lambda>_.
      if ob_kind observation = DefinitiveSuccess
      then attempt_then (record_success P E st cap ctx state attempt owner observation) (or_recovery app state) continue
      else handle (settle P E st cap ctx state attempt owner (outcome_target observation) (outcome_code observation))
             (or_recovery app state))))))"

section \<open>The loop\<close>

definition finish :: "prims \<Rightarrow> env \<Rightarrow> exec_store \<Rightarrow> capability option \<Rightarrow> exec_context \<Rightarrow> exec_state \<Rightarrow> apply_result option io" where
  "finish P E st cap ctx state =
     (let app = id_application_id (cx_identity ctx) in
      bnd (now_text E) (\<lambda>now.
      bnd (finalize_application P E st cap app (es_digest state) ctx now) (\<lambda>final.
      bnd (receipt_id_of P E st app) (\<lambda>receipt.
      ret (Some (result_of app final (Some receipt) PNone))))))"

fun apply_loop ::
  "nat \<Rightarrow> prims \<Rightarrow> env \<Rightarrow> exec_store \<Rightarrow> capability option \<Rightarrow> exec_context \<Rightarrow> exec_state \<Rightarrow> apply_result option io" where
  "apply_loop fuel P E st cap ctx state =
     (if \<not> es_next state < length (cx_operations ctx) then finish P E st cap ctx state
      else case fuel of
        0 \<Rightarrow> ret None
      | Suc fuel \<Rightarrow>
          bnd (ask (env_owner E)) (\<lambda>suffix.
          let owner = ''execution-owner-'' @ suffix in
          bnd (now_text E) (\<lambda>now.
          attempt_then
            (claim_next_operation P E st cap (id_application_id (cx_identity ctx)) (es_digest state) ctx owner now)
            (claim_refused P E st ctx state)
            (\<lambda>(claimed, attempt).
               perform_claimed P E st cap ctx claimed attempt owner (apply_loop fuel P E st cap ctx)))))"

declare apply_loop.simps [simp del]

definition initial_state :: "prims \<Rightarrow> env \<Rightarrow> exec_context \<Rightarrow> string \<Rightarrow> exec_state live io" where
  "initial_state P E ctx now =
     new_execution_state P E ctx
       [(''state'', PStr ''Pending''), (''next_operation_index'', PInt 0), (''owner_id'', PNone), (''current_attempt_id'', PNone),
        (''recovery_code'', PNone), (''operation_receipt_refs'', PTuple []), (''started_at'', PStr now),
        (''updated_at'', PStr now), (''completed_at'', PNone), (''orchestration_policy'', PStr applier_orchestration_policy)]"

definition apply_in_context ::
  "nat \<Rightarrow> prims \<Rightarrow> env \<Rightarrow> exec_store \<Rightarrow> capability option \<Rightarrow> exec_context \<Rightarrow> apply_result option io" where
  "apply_in_context fuel P E st cap ctx =
     (let app = id_application_id (cx_identity ctx) in
      bnd (now_text E) (\<lambda>now.
      bnd (initial_state P E ctx now) (\<lambda>initial.
      bnd (create_execution_if_absent P E st cap initial) (\<lambda>state.
      if es_state state = Applied
      then
        bnd (get_execution P E st app (Some (expected_operations ctx))) (\<lambda>replayed.
        bnd (receipt_id_of P E st app) (\<lambda>receipt.
        ret (Some (result_of app replayed (Some receipt) PNone))))
      else if es_state state = Applying then ret (Some (result_of app state None recovery_required))
      else if es_state state \<in> {Failed, Blocked, OutcomeUnknown} then ret (Some (result_of app state None (es_recovery state)))
      else apply_loop fuel P E st cap ctx state))))"

definition apply_authority ::
  "prims \<Rightarrow> env \<Rightarrow> nat \<Rightarrow> exec_store \<Rightarrow> capability option \<Rightarrow> string \<Rightarrow> apply_result option io" where
  "apply_authority P E service st cap authority_id =
     bnd (create_execution_context P E service authority_id) (\<lambda>ctx.
     apply_in_context (Suc (length (cx_operations ctx))) P E st cap ctx)"

text \<open>\<open>create_applier\<close>: the applier of a store and its capability.\<close>

definition create_applier :: "nat \<Rightarrow> bool \<Rightarrow> exec_store \<Rightarrow> (exec_store \<times> capability) res" where
  "create_applier service enabled st =
     raise_if (\<not> enabled) ''write_executor_required''
     (raise_if (map_option fst (st_service st) \<noteq> Some service) ''applier_store_binding_invalid''
       (Inr (st, \<lparr>cap_service = service, cap_store = st_object st\<rparr>)))"

end
