(* ===== verification/Applier_Runs.thy ===== *)
theory Applier_Runs
  imports Applier Store_Runs Store_Effects
begin

text \<open>
  The runs of the applier.  \<open>leads Q m R\<close> says that every run of \<open>m\<close> from a state with \<open>Q\<close>, whether it
  returns or raises, ends in a state with \<open>R\<close>; \<open>yields\<close> also names the returned value.  A predicate
  that is \<open>steady_under_growth\<close> is carried over whatever keeps the store's rows and dispatches
  nothing.

  With them: the parts of the applier other than \<open>dispatch\<close> send nothing; each pass of the loop
  sends the command of an operation whose attempt row it has just inserted; and the loop never runs
  out of fuel.
\<close>

section \<open>Predicates over runs\<close>

definition leads :: "('w \<Rightarrow> bool) \<Rightarrow> ('w, 'a) program \<Rightarrow> ('w \<Rightarrow> bool) \<Rightarrow> bool" where
  "leads Q m R \<longleftrightarrow> (\<forall>w. Q w \<longrightarrow> R (snd (m w)))"

definition yields :: "('w \<Rightarrow> bool) \<Rightarrow> ('w, 'a) program \<Rightarrow> (exn \<Rightarrow> 'w \<Rightarrow> bool) \<Rightarrow> ('a \<Rightarrow> 'w \<Rightarrow> bool) \<Rightarrow> bool" where
  "yields Q m F R \<longleftrightarrow> (\<forall>w r w'. Q w \<longrightarrow> m w = (r, w') \<longrightarrow> (case r of Inl e \<Rightarrow> F e w' | Inr x \<Rightarrow> R x w'))"

lemma leads_yields: "leads Q m R \<longleftrightarrow> yields Q m (\<lambda>_. R) (\<lambda>_. R)"
  unfolding leads_def yields_def by (metis (no_types, lifting) case_sum_KK prod.collapse snd_conv sum.case_eq_if)

lemma yieldsD: "yields Q m F R \<Longrightarrow> Q w \<Longrightarrow> m w = (Inr x, w') \<Longrightarrow> R x w'"
  "yields Q m F R \<Longrightarrow> Q w \<Longrightarrow> m w = (Inl e, w') \<Longrightarrow> F e w'"
  by (fastforce simp: yields_def)+

lemma yields_ret [intro]: "(\<And>w. Q w \<Longrightarrow> R x w) \<Longrightarrow> yields Q (ret x) F R"
  by (simp add: yields_def)

lemma yields_fail [intro]: "(\<And>w. Q w \<Longrightarrow> F e w) \<Longrightarrow> yields Q (fail e) F R"
  by (simp add: yields_def)

lemma yields_lift: "(\<And>w. Q w \<Longrightarrow> case r of Inl e \<Rightarrow> F e w | Inr x \<Rightarrow> R x w) \<Longrightarrow> yields Q (lift r) F R"
  by (auto simp: yields_def)

lemma yields_bnd:
  assumes "yields Q m F M" "\<And>x. yields (M x) (f x) F R"
  shows "yields Q (bnd m f) F R"
  unfolding yields_def
proof (intro allI impI)
  fix w r w'' assume q: "Q w" and run: "bnd m f w = (r, w'')"
  obtain r1 w1 where m: "m w = (r1, w1)" by fastforce
  show "case r of Inl e \<Rightarrow> F e w'' | Inr x \<Rightarrow> R x w''"
  proof (cases r1)
    case (Inl e)
    then show ?thesis using assms(1) q m run by (fastforce simp: yields_def bnd_def)
  next
    case (Inr x)
    then have "M x w1" "f x w1 = (r, w'')" using assms(1) q m run by (fastforce simp: yields_def bnd_def)+
    then show ?thesis using assms(2) by (fastforce simp: yields_def)
  qed
qed

lemma yields_attempt_then:
  assumes "yields Q m G M" "\<And>e. yields (G e) (h e) F R" "\<And>x. yields (M x) (f x) F R"
  shows "yields Q (attempt_then m h f) F R"
  unfolding yields_def
proof (intro allI impI)
  fix w r w'' assume q: "Q w" and run: "attempt_then m h f w = (r, w'')"
  obtain r1 w1 where m: "m w = (r1, w1)" by fastforce
  show "case r of Inl e \<Rightarrow> F e w'' | Inr x \<Rightarrow> R x w''"
  proof (cases r1)
    case (Inl e)
    then have "G e w1" "h e w1 = (r, w'')" using assms(1) q m run by (fastforce simp: yields_def attempt_then_def)+
    then show ?thesis using assms(2) by (fastforce simp: yields_def)
  next
    case (Inr x)
    then have "M x w1" "f x w1 = (r, w'')" using assms(1) q m run by (fastforce simp: yields_def attempt_then_def)+
    then show ?thesis using assms(3) by (fastforce simp: yields_def)
  qed
qed

lemma handle_attempt: "handle m h = attempt_then m h ret"
  by (auto simp: handle_def attempt_then_def fun_eq_iff split: prod.splits sum.splits)

lemma yields_weaken:
  assumes "yields Q' m F' R'" "\<And>w. Q w \<Longrightarrow> Q' w" "\<And>e w. F' e w \<Longrightarrow> F e w" "\<And>x w. R' x w \<Longrightarrow> R x w"
  shows "yields Q m F R"
  using assms unfolding yields_def by (metis (no_types, lifting) sum.case_eq_if)

section \<open>The parts that dispatch nothing\<close>

lemma quiet_now_text: "moves quiet (now_text E)"
  unfolding now_text_def by (intro quiet_steps)

lemma quiet_initial_state: "moves quiet (initial_state P E ctx now)"
  unfolding initial_state_def by (rule quiet_new_execution_state)

lemma quiet_credential_dispatch: "moves quiet (validate_live_credential_dispatch P E ctx)"
  unfolding validate_live_credential_dispatch_def Let_def
  by (intro quiet_steps) (auto intro!: quiet_steps split: option.split)

lemma quiet_revalidate: "moves quiet (revalidate_existing_endpoint E r k refs)"
  unfolding revalidate_existing_endpoint_def by (auto intro!: quiet_steps split: option.split)

lemma awaits_receipt_reference: "moves (awaits E) (reference_from_receipt P E st ctx r)"
  unfolding reference_from_receipt_def Let_def
  by (auto intro!: awaits.moves_rules awaits_get_operation_receipt split: option.split)

lemma awaits_binding_reference: "moves (awaits E) (reference_from_existing_binding P E ctx r b)"
  unfolding reference_from_existing_binding_def
  by (cases r) (auto intro!: awaits.moves_rules awaits_quiet [OF quiet_revalidate])

lemma awaits_resolved: "moves (awaits E) (resolved_relationship P E ctx kind references existing)"
  unfolding resolved_relationship_def by (intro awaits.moves_rules awaits_quiet [OF quiet_revalidate])

lemma awaits_materialize: "moves (awaits E) (materialize P E st ctx a)"
proof -
  have "moves (awaits E) (operand_reference P E st ctx r)" for r
    unfolding operand_reference_def by (intro awaits.moves_rules awaits_receipt_reference awaits_binding_reference)
  note reference = this
  have pair: "moves (awaits E) (case v of PList operands \<Rightarrow> f operands | _ \<Rightarrow> fail e)"
    if "\<And>operands. moves (awaits E) (f operands)" for v :: pyval and f :: "pyval list \<Rightarrow> command io" and e
    by (cases v) (simp_all add: that awaits.moves_fail)
  have operands: "moves (awaits E) (materialize_operands P E st ctx op request)" for op request
    unfolding materialize_operands_def Let_def by (intro awaits.moves_rules pair awaits_resolved reference)
  have "moves (awaits E) (tagged_reference P E st ctx r)" for r
    unfolding tagged_reference_def Let_def
    by (cases r) (auto intro!: awaits.moves_rules awaits_receipt_reference awaits_binding_reference)
  then have refs: "moves (awaits E) (materialize_refs P E st ctx op request)" for op request
    unfolding materialize_refs_def by (intro awaits.moves_rules awaits_resolved awaits_receipt_reference)
  show ?thesis unfolding materialize_def Let_def using operands refs by simp
qed

lemma awaits_prepare: "moves (awaits E) (prepare P E st cap ctx state attempt owner)"
  unfolding prepare_def by (intro awaits.moves_rules awaits_validate_claim awaits_materialize)

lemma awaits_receipt_id: "moves (awaits E) (receipt_id_of P E st app)"
  unfolding receipt_id_of_def by (intro awaits.moves_rules awaits_get_application_receipt)

lemma awaits_or_recovery: "moves (awaits E) (or_recovery app state e)"
  unfolding or_recovery_def by (intro awaits.moves_rules)

lemma awaits_claim_refused: "moves (awaits E) (claim_refused P E st ctx state e)"
  unfolding claim_refused_def Let_def by (intro awaits.moves_rules awaits_get_execution awaits_receipt_id)

lemma grows_awaits: "rely E \<Longrightarrow> moves (awaits E) m \<Longrightarrow> moves grows m"
  by (erule moves_mono) (rule awaits_grows)

lemma grows_settle: "rely E \<Longrightarrow> moves grows (settle P E st cap ctx state attempt owner target code)"
  unfolding settle_def Let_def
  by (intro grows.moves_rules grows_quiet [OF quiet_now_text] grows_managed)

lemma grows_record_success: "rely E \<Longrightarrow> moves grows (record_success P E st cap ctx state attempt owner observation)"
  unfolding record_success_def
  by (intro grows.moves_rules grows_quiet [OF quiet_now_text] grows_quiet [OF quiet_new_receipt] grows_managed)

lemma grows_finish: "rely E \<Longrightarrow> moves grows (finish P E st cap ctx state)"
  unfolding finish_def Let_def
  by (intro grows.moves_rules grows_quiet [OF quiet_now_text] grows_managed grows_awaits [OF _ awaits_receipt_id])

lemmas grows_parts = grows_settle grows_record_success grows_finish grows_awaits [OF _ awaits_prepare]
  grows_awaits [OF _ awaits_claim_refused] grows_awaits [OF _ awaits_or_recovery] grows_managed
  grows_quiet [OF quiet_now_text] grows_quiet [OF quiet_validate] grows_quiet [OF quiet_initial_state]
  grows_quiet [OF quiet_ask] grows_quiet [OF quiet_credential_dispatch]

section \<open>One pass of the loop\<close>

definition steady_under_growth :: "(world \<Rightarrow> bool) \<Rightarrow> bool" where
  "steady_under_growth I \<longleftrightarrow> (\<forall>w w'. grows w w' \<longrightarrow> I w \<longrightarrow> I w')"

lemma yields_grows: "moves grows m \<Longrightarrow> steady_under_growth I \<Longrightarrow> yields I m (\<lambda>_. I) (\<lambda>_. I)"
  unfolding yields_def steady_under_growth_def by (fastforce dest: moves_run split: sum.splits)

lemma yields_grows_to:
  assumes "moves grows m" "steady_under_growth I" "\<And>e w. I w \<Longrightarrow> F e w" "\<And>x w. I w \<Longrightarrow> R x w"
  shows "yields I m F R"
  using yields_weaken [OF yields_grows [OF assms(1,2)]] assms(3,4) by blast

lemma settle_some: "settle P E st cap ctx state attempt owner target code w = (Inr r, w') \<Longrightarrow> r \<noteq> None"
  by (auto simp: settle_def Let_def run_simps)

lemma or_recovery_some: "or_recovery app state e w = (Inr r, w') \<Longrightarrow> r \<noteq> None"
  by (auto simp: or_recovery_def run_simps split: if_splits)

lemma claim_refused_some: "claim_refused P E st ctx state e w = (Inr r, w') \<Longrightarrow> r \<noteq> None"
  by (auto simp: claim_refused_def Let_def run_simps split: if_splits)

lemma finish_some: "finish P E st cap ctx state w = (Inr r, w') \<Longrightarrow> r \<noteq> None"
  by (auto simp: finish_def Let_def run_simps)

lemma yields_some:
  assumes "moves grows m" "steady_under_growth I" "\<And>e w. I w \<Longrightarrow> F e w" "\<And>x w. I w \<Longrightarrow> R (Some x) w"
    and "\<And>w r w'. m w = (Inr r, w') \<Longrightarrow> r \<noteq> None"
  shows "yields I m F R"
  using yields_grows [OF assms(1,2)] assms(3-5) unfolding yields_def
  by (fastforce split: sum.splits)

text \<open>
  What holds of the pass follows from what holds of the dispatch: \<open>J\<close> holds until the command is
  sent and \<open>K\<close> from then on, and every result but the next pass is an answer.
\<close>

lemma perform_claimed_yields:
  assumes rely: "rely E" and J: "steady_under_growth J" and K: "steady_under_growth K" and JK: "\<And>w. J w \<Longrightarrow> K w"
    and send: "\<And>op kind command. op = (id_application_id (cx_identity ctx), at_operation_identity attempt) \<Longrightarrow>
       yields J (dispatch P E op ctx kind command) (\<lambda>_. K) (\<lambda>_. K)"
    and continue: "\<And>s. yields K (continue s) F R" and F: "\<And>e w. K w \<Longrightarrow> F e w" and R: "\<And>x w. K w \<Longrightarrow> R (Some x) w"
  shows "yields J (perform_claimed P E st cap ctx state attempt owner continue) F R"
proof -
  have FJ: "F e w" if "J w" for e w using F JK that by blast
  have RJ: "R (Some x) w" if "J w" for x w using R JK that by blast
  have settleK: "yields K (settle P E st cap ctx state attempt owner t c) F R" for t c
    by (rule yields_some [OF grows_settle [OF rely] K]) (erule F R settle_some)+
  have settleJ: "yields J (settle P E st cap ctx state attempt owner t c) F R" for t c
    by (rule yields_some [OF grows_settle [OF rely] J]) (erule FJ RJ settle_some)+
  have recJ: "yields J (or_recovery app state e) F R" for app e
    by (rule yields_some [OF grows_awaits [OF rely awaits_or_recovery] J]) (erule FJ RJ or_recovery_some)+
  have recK: "yields K (or_recovery app state e) F R" for app e
    by (rule yields_some [OF grows_awaits [OF rely awaits_or_recovery] K]) (erule F R or_recovery_some)+
  have failJ: "yields J (fail e) F R" and failK: "yields K (fail e) F R" for e using F FJ by blast+
  have current: "yields I (validate_execution_context P E (cx_service ctx) ctx) (\<lambda>_. I) (\<lambda>_. I)"
    if "steady_under_growth I" for I by (rule yields_grows [OF grows_quiet [OF quiet_validate] that])
  note prep = yields_grows [OF grows_awaits [OF rely awaits_prepare] J]
  note success = yields_grows [OF grows_record_success [OF rely] K]
  have outcome: "yields K (if ob_kind observation = DefinitiveSuccess
        then attempt_then (record_success P E st cap ctx state attempt owner observation)
               (or_recovery (id_application_id (cx_identity ctx)) state) continue
        else handle (settle P E st cap ctx state attempt owner (outcome_target observation) (outcome_code observation))
               (or_recovery (id_application_id (cx_identity ctx)) state)) F R" for observation
  proof (cases "ob_kind observation = DefinitiveSuccess")
    case True
    then show ?thesis using yields_attempt_then [OF success recK continue] by simp
  next
    case False
    have s: "yields K (settle P E st cap ctx state attempt owner t c) (\<lambda>_. K) (\<lambda>r w. r \<noteq> None \<and> K w)" for t c
      by (rule yields_some [OF grows_settle [OF rely] K _ _ settle_some]) auto
    have r: "yields (\<lambda>w. x \<noteq> None \<and> K w) (ret x) F R" for x using R by (auto simp: yields_def)
    show ?thesis using False by (simp add: handle_attempt yields_attempt_then [OF s recK r])
  qed
  show ?thesis
    unfolding perform_claimed_def Let_def
  proof (rule yields_attempt_then [OF prep], goal_cases)
    case (1 e)
    then show ?case using settleJ failJ by (cases e) simp_all
  next
    case (2 command)
    show ?case
    proof (rule yields_attempt_then [OF current [OF J] recJ], rule yields_attempt_then [OF send [OF refl]], goal_cases)
      case (1 _ e)
      then show ?case using settleK failK by (cases e) simp_all
    next
      case (2 _ observation)
      show ?case by (rule yields_attempt_then [OF current [OF K] recK outcome])
    qed
  qed
qed

section \<open>All passes\<close>

text \<open>
  \<open>I n\<close> holds before a pass with fuel \<open>n\<close>, \<open>J n key\<close> after the claim of the operation \<open>key\<close> in it.
\<close>

lemma apply_loop_yields:
  assumes rely: "rely E" and I: "\<And>n. steady_under_growth (I n)" and J: "\<And>n key. steady_under_growth (J n key)"
    and empty: "\<And>w. I 0 w \<Longrightarrow> R None w"
    and claim: "\<And>n dig owner now. yields (I (Suc n))
       (claim_next_operation P E st cap (id_application_id (cx_identity ctx)) dig ctx owner now)
       (\<lambda>_. I (Suc n)) (\<lambda>(s, a). J n (id_application_id (cx_identity ctx), at_operation_identity a))"
    and weak: "\<And>n key w. J n key w \<Longrightarrow> I n w"
    and send: "\<And>n key kind command. yields (J n key) (dispatch P E key ctx kind command) (\<lambda>_. I n) (\<lambda>_. I n)"
    and F: "\<And>n e w. I n w \<Longrightarrow> F e w" and R: "\<And>n x w. I n w \<Longrightarrow> R (Some x) w"
  shows "yields (I n) (apply_loop n P E st cap ctx state) F R"
proof (induction n arbitrary: state)
  have finish: "yields (I n) (finish P E st cap ctx state) F R" for n state
    by (rule yields_some [OF grows_finish [OF rely] I]) (erule F R finish_some)+
  case 0
  show ?case by (subst apply_loop.simps) (use finish [of 0] empty in \<open>auto intro!: yields_ret\<close>)
  case (Suc n)
  let ?app = "id_application_id (cx_identity ctx)"
  have ask: "yields (I (Suc n)) (ask (env_owner E)) F (\<lambda>_. I (Suc n))"
    by (rule yields_grows_to [OF grows_quiet [OF quiet_ask] I]) (erule F, assumption)
  have now: "yields (I (Suc n)) (now_text E) F (\<lambda>_. I (Suc n))"
    by (rule yields_grows_to [OF grows_quiet [OF quiet_now_text] I]) (erule F, assumption)
  have refused: "yields (I (Suc n)) (claim_refused P E st ctx state e) F R" for state e
    by (rule yields_some [OF grows_awaits [OF rely awaits_claim_refused] I]) (erule F R claim_refused_some)+
  have perform: "yields ((\<lambda>(s, a). J n (?app, at_operation_identity a)) x)
      ((\<lambda>(claimed, attempt). perform_claimed P E st cap ctx claimed attempt owner (apply_loop n P E st cap ctx)) x) F R" for x owner
  proof (cases x)
    case (Pair s a)
    have "yields (J n (?app, at_operation_identity a))
        (perform_claimed P E st cap ctx s a owner (apply_loop n P E st cap ctx)) F R"
      by (rule perform_claimed_yields [OF rely J I weak _ Suc.IH])
        (use send F R in \<open>blast+\<close>)
    then show ?thesis using Pair by simp
  qed
  show ?case
  proof (cases "es_next state < length (cx_operations ctx)")
    case True
    show ?thesis
      by (subst apply_loop.simps, simp add: True Let_def,
          intro yields_bnd [OF ask] yields_bnd [OF now] yields_attempt_then [OF claim refused perform])
  next
    case False
    then show ?thesis using finish by (subst apply_loop.simps) simp
  qed
qed

end
