(* ===== verification/Applier_Effects.thy ===== *)
theory Applier_Effects
  imports Applier_Runs
begin

text \<open>
  The effects of the applier's steps: what creates a context, what a pass of the loop adds to the
  commands sent and to the open operations, what a passed credential check establishes, and which
  commands and results \<open>materialize\<close> and \<open>trusted_success_result\<close> let through.
\<close>

interpretation same_rows: frame "\<lambda>w w'. w_db w' = w_db w \<and> w_commits w' = w_commits w"
  by unfold_locales simp_all

section \<open>Contexts\<close>

lemma create_execution_context_run:
  assumes "create_execution_context P E service authority_id w = (Inr ctx, w')"
  shows "context_ok P ctx" "cx_service ctx = service" "w_contexts w' (cx_id ctx) = Some ctx"
    "w_db w' = w_db w" "w_sent w' = w_sent w"
  using assms unfolding create_execution_context_def Let_def bnd_run
  by (auto simp: run_simps fresh_object_def context_ok_def split: prod.splits dest: execution_operations_wf)

definition still :: "world \<Rightarrow> world \<Rightarrow> bool" where
  "still w w' \<longleftrightarrow> w_db w' = w_db w \<and> w_sent w' = w_sent w \<and> w_commits w' = w_commits w"

interpretation still: frame still
  by unfold_locales (simp_all add: still_def)

lemma still_create_context: "moves still (create_execution_context P E service authority_id)"
  unfolding create_execution_context_def Let_def
  by (intro still.moves_rules moves_split still.moves_change)
    (simp_all add: moves_def ask_def fresh_object_def still_def)

lemma rows_dispatch: "moves (\<lambda>w w'. w_db w' = w_db w \<and> w_commits w' = w_commits w) (dispatch P E key ctx kind command)"
proof -
  have "moves (\<lambda>w w'. w_db w' = w_db w \<and> w_commits w' = w_commits w) m" if "moves quiet m" for m :: "'a io"
    using that by (rule moves_mono) (simp add: quiet_def)
  note q = this
  show ?thesis
    unfolding dispatch_def
    by (intro same_rows.moves_rules same_rows.moves_change q quiet_credential_dispatch quiet_ask) simp
qed

section \<open>Each operation is sent at most once\<close>

text \<open>
  No operation was dispatched twice, and every dispatched operation has its attempt row, which a
  transaction of this process itself inserted.  \<open>unsent\<close> is the situation after a claim: the row is
  there and the command is not yet sent.
\<close>

definition attempted :: "string \<Rightarrow> string \<times> string \<Rightarrow> database \<Rightarrow> bool" where
  "attempted ws key d \<longleftrightarrow> select_row (ws, key) (db_attempts d) \<noteq> None"

definition claimed_in :: "string \<Rightarrow> string \<times> string \<Rightarrow> (database \<times> database) list \<Rightarrow> bool" where
  "claimed_in ws key commits \<longleftrightarrow> (\<exists>(d, d') \<in> set commits. \<not> attempted ws key d \<and> attempted ws key d')"

definition sent_claimed :: "string \<Rightarrow> world \<Rightarrow> bool" where
  "sent_claimed ws w \<longleftrightarrow> distinct (map fst (w_sent w)) \<and>
     (\<forall>key \<in> fst ` set (w_sent w). attempted ws key (w_db w) \<and> claimed_in ws key (w_commits w))"

definition unsent :: "string \<Rightarrow> string \<times> string \<Rightarrow> world \<Rightarrow> bool" where
  "unsent ws key w \<longleftrightarrow>
     sent_claimed ws w \<and> key \<notin> fst ` set (w_sent w) \<and> attempted ws key (w_db w) \<and> claimed_in ws key (w_commits w)"

lemma claimed_in_append: "claimed_in ws key l \<Longrightarrow> claimed_in ws key (l @ l')"
  by (auto simp: claimed_in_def)

lemma history_attempted: "history d d' \<Longrightarrow> attempted ws key d \<Longrightarrow> attempted ws key d'"
  unfolding history_def table.keeps_def attempted_def by blast

lemma grows_claimed: "grows w w' \<Longrightarrow> claimed_in ws key (w_commits w) \<Longrightarrow> claimed_in ws key (w_commits w')"
  by (auto simp: grows_def intro: claimed_in_append)

lemma grows_attempted: "grows w w' \<Longrightarrow> attempted ws key (w_db w) \<Longrightarrow> attempted ws key (w_db w')"
  unfolding grows_def using history_attempted by blast

lemma grows_sent: "grows w w' \<Longrightarrow> w_sent w' = w_sent w"
  by (simp add: grows_def)

lemma steady_sent: "steady_under_growth (sent_claimed ws)" "steady_under_growth (unsent ws key)"
  unfolding steady_under_growth_def sent_claimed_def unsent_def
  using grows_claimed grows_attempted by (simp add: grows_sent)+

lemma dispatch_unsent:
  "yields (unsent ws key) (dispatch P E key ctx kind command) (\<lambda>_. sent_claimed ws) (\<lambda>_. sent_claimed ws)"
proof -
  let ?send = "change (\<lambda>w. w\<lparr>w_sent := w_sent w @ [(key, kind, command)]\<rparr>)"
  have send: "yields (unsent ws key) ?send (\<lambda>_. sent_claimed ws) (\<lambda>_. sent_claimed ws)"
    by (cases key) (auto simp: yields_def sent_claimed_def unsent_def)
  have weak: "unsent ws key w \<Longrightarrow> sent_claimed ws w" for w by (simp add: unsent_def)
  have quiet: "yields (unsent ws key) m (\<lambda>_. sent_claimed ws) (\<lambda>_. unsent ws key)" if "moves quiet m" for m :: "'b io"
    by (rule yields_grows_to [OF grows_quiet [OF that] steady_sent(2)]) (auto intro: weak)
  have lift: "yields (sent_claimed ws) (lift r) (\<lambda>_. sent_claimed ws) (\<lambda>_. sent_claimed ws)" for r :: "observation res"
    by (rule yields_lift) (auto split: sum.splits)
  show ?thesis
    unfolding dispatch_def
    by (intro yields_bnd [OF quiet [OF quiet.moves_refuse]] yields_bnd [OF quiet [OF quiet_credential_dispatch]]
        yields_bnd [OF quiet [OF quiet_ask]] yields_bnd [OF send] lift)
qed

lemma claim_inserts:
  assumes "claim_next_operation P E st cap app dig ctx owner now w = (Inr (s, a), w')" "context_ok P ctx" "rely E"
  obtains i where "i < length (cx_operations ctx)"
    "operation_identity P app (int i) (operation_doc (cx_operations ctx ! i)) = Inr (at_operation_identity a)"
    "\<not> attempted (st_workspace st) (app, at_operation_identity a) (w_db w)"
    "attempted (st_workspace st) (app, at_operation_identity a) (w_db w')"
    "claimed_in (st_workspace st) (app, at_operation_identity a) (w_commits w')" "w_sent w' = w_sent w"
  using assms(1,2)
proof (rule claim_next_operation_run, goal_cases)
  case (1 t doc prev rows)
  have h: "history (w_db w) (env_others E t (w_db w))" using assms(3) by (simp add: rely_def)
  have fresh: "\<not> attempted (st_workspace st) (app, at_operation_identity a) (env_others E t (w_db w))"
    using table.ins_Inr_absent [OF 1(33)] by (simp add: attempted_def)
  then have "\<not> attempted (st_workspace st) (app, at_operation_identity a) (w_db w)"
    using history_attempted [OF h] by blast
  moreover have "attempted (st_workspace st) (app, at_operation_identity a) (w_db w')"
    using 1(34) table.sel_ins [OF 1(33)] by (simp add: attempted_def)
  moreover from this have "claimed_in (st_workspace st) (app, at_operation_identity a) (w_commits w')"
    using 1(36) fresh by (auto simp: claimed_in_def)
  ultimately show ?case using that [of "es_next prev"] 1(13,32,35) by simp
qed

lemma claim_unsent:
  assumes "rely E" "context_ok P ctx" and ws: "ws = st_workspace st"
  shows "yields (sent_claimed ws) (claim_next_operation P E st cap (id_application_id (cx_identity ctx)) dig ctx owner now)
    (\<lambda>_. sent_claimed ws) (\<lambda>(s, a). unsent ws (id_application_id (cx_identity ctx), at_operation_identity a))"
  unfolding yields_def
proof (intro allI impI)
  let ?app = "id_application_id (cx_identity ctx)"
  fix w r w' assume I: "sent_claimed ws w" and run: "claim_next_operation P E st cap ?app dig ctx owner now w = (r, w')"
  have I': "sent_claimed ws w'"
    using steady_sent(1) [of ws] moves_run [OF grows_managed(2) [OF assms(1)] run] I by (auto simp: steady_under_growth_def)
  show "case r of Inl e \<Rightarrow> sent_claimed ws w' | Inr x \<Rightarrow> (case x of (s, a) \<Rightarrow> unsent ws (?app, at_operation_identity a)) w'"
  proof (cases r)
    case (Inr x)
    obtain s a where x: "x = (s, a)" by fastforce
    then have "claim_next_operation P E st cap ?app dig ctx owner now w = (Inr (s, a), w')" using run Inr by simp
    then have fresh: "\<not> attempted ws (?app, at_operation_identity a) (w_db w)"
        "attempted ws (?app, at_operation_identity a) (w_db w')"
        "claimed_in ws (?app, at_operation_identity a) (w_commits w')" "w_sent w' = w_sent w"
      using claim_inserts [OF _ assms(2,1)] unfolding ws by blast+
    then have "(?app, at_operation_identity a) \<notin> fst ` set (w_sent w)"
      using I by (auto simp: sent_claimed_def)
    then show ?thesis using I' Inr x fresh by (simp add: unsent_def)
  qed (use I' in simp)
qed

lemma apply_loop_sends_once:
  assumes "rely E" "context_ok P ctx" "ws = st_workspace st"
  shows "yields (sent_claimed ws) (apply_loop n P E st cap ctx state) (\<lambda>_. sent_claimed ws) (\<lambda>_. sent_claimed ws)"
  by (rule apply_loop_yields [where I = "\<lambda>_. sent_claimed ws" and J = "\<lambda>_. unsent ws"])
    (auto simp: unsent_def intro: assms steady_sent claim_unsent dispatch_unsent)

text \<open>The steps before the loop.\<close>

lemma apply_in_context_yields:
  assumes rely: "rely E" and I: "steady_under_growth I" and F: "\<And>e w. I w \<Longrightarrow> F e w" and R: "\<And>x w. I w \<Longrightarrow> R (Some x) w"
    and loop: "\<And>state. yields I (apply_loop n P E st cap ctx state) F R"
  shows "yields I (apply_in_context n P E st cap ctx) F R"
proof -
  have step: "yields I m F (\<lambda>_. I)" if "moves grows m" for m :: "'b io"
    by (rule yields_grows_to [OF that I]) (erule F, assumption)
  have ret: "yields I (ret (Some x)) F R" for x using R by blast
  have replay: "moves grows (get_execution P E st app e)" "moves grows (receipt_id_of P E st app)" for app e
    by (rule grows_awaits [OF rely awaits_get_execution], rule grows_awaits [OF rely awaits_receipt_id])
  show ?thesis
    unfolding apply_in_context_def Let_def
    by (intro yields_bnd [OF step [OF grows_quiet [OF quiet_now_text]]] yields_bnd [OF step [OF grows_quiet [OF quiet_initial_state]]]
        yields_bnd [OF step [OF grows_managed(1) [OF rely]]])
      (auto intro!: yields_bnd [OF step [OF replay(1)]] yields_bnd [OF step [OF replay(2)]] ret loop)
qed

section \<open>Every run ends\<close>

text \<open>The operations that can still be claimed.\<close>

definition open_operations :: "prims \<Rightarrow> exec_context \<Rightarrow> string \<Rightarrow> world \<Rightarrow> nat set" where
  "open_operations P ctx ws w =
     {i. i < length (cx_operations ctx) \<and>
        (\<forall>op. operation_identity P (id_application_id (cx_identity ctx)) (int i) (operation_doc (cx_operations ctx ! i)) = Inr op \<longrightarrow>
           \<not> attempted ws (id_application_id (cx_identity ctx), op) (w_db w))}"

lemma open_operations_finite: "finite (open_operations P ctx ws w)"
  by (simp add: open_operations_def)

lemma open_operations_antimono: "history (w_db w) (w_db w') \<Longrightarrow> open_operations P ctx ws w' \<subseteq> open_operations P ctx ws w"
  unfolding open_operations_def using history_attempted by blast

lemma steady_open: "steady_under_growth (\<lambda>w. card (open_operations P ctx ws w) < n)"
  unfolding steady_under_growth_def grows_def
  using open_operations_antimono card_mono [OF open_operations_finite] by (meson order.strict_trans1)

lemma claim_closes:
  assumes "rely E" "context_ok P ctx" and ws: "ws = st_workspace st"
    and run: "claim_next_operation P E st cap (id_application_id (cx_identity ctx)) dig ctx owner now w = (Inr (s, a), w')"
  shows "card (open_operations P ctx ws w') < card (open_operations P ctx ws w)"
proof -
  let ?app = "id_application_id (cx_identity ctx)"
  obtain i where i: "i < length (cx_operations ctx)"
      "operation_identity P ?app (int i) (operation_doc (cx_operations ctx ! i)) = Inr (at_operation_identity a)"
      "\<not> attempted ws (?app, at_operation_identity a) (w_db w)" "attempted ws (?app, at_operation_identity a) (w_db w')"
    using run assms(2,1) unfolding ws by (rule claim_inserts)
  have "i \<in> open_operations P ctx ws w" using i by (simp add: open_operations_def)
  moreover have "i \<notin> open_operations P ctx ws w'" using i by (simp add: open_operations_def)
  moreover have "open_operations P ctx ws w' \<subseteq> open_operations P ctx ws w"
    using moves_run [OF grows_managed(2) [OF assms(1)] run] open_operations_antimono by (auto simp: grows_def)
  ultimately show ?thesis by (intro psubset_card_mono open_operations_finite) blast
qed

lemma dispatch_open:
  "yields (\<lambda>w. card (open_operations P ctx ws w) < n) (dispatch P E key ctx kind command)
     (\<lambda>_ w. card (open_operations P ctx ws w) < n) (\<lambda>_ w. card (open_operations P ctx ws w) < n)"
proof -
  have "card (open_operations P ctx ws w') < n" if "w_db w' = w_db w" "card (open_operations P ctx ws w) < n" for w w'
    using that by (simp add: open_operations_def)
  moreover have "w_db w' = w_db w" if "dispatch P E key ctx kind command w = (r, w')" for r w w'
    using that moves_run [OF rows_dispatch] by blast
  ultimately show ?thesis unfolding yields_def by (fastforce split: sum.splits)
qed

lemma apply_loop_ends:
  assumes "rely E" "context_ok P ctx"
  shows "yields (\<lambda>w. card (open_operations P ctx (st_workspace st) w) < n) (apply_loop n P E st cap ctx state)
     (\<lambda>_ _. True) (\<lambda>r _. r \<noteq> None)"
proof (rule apply_loop_yields [OF assms(1), where J = "\<lambda>n _ w. card (open_operations P ctx (st_workspace st) w) < n"])
  fix n dig owner now
  show "yields (\<lambda>w. card (open_operations P ctx (st_workspace st) w) < Suc n)
      (claim_next_operation P E st cap (id_application_id (cx_identity ctx)) dig ctx owner now)
      (\<lambda>_ w. card (open_operations P ctx (st_workspace st) w) < Suc n)
      (\<lambda>(s, a) w. card (open_operations P ctx (st_workspace st) w) < n)"
    unfolding yields_def
  proof (intro allI impI)
    fix w r w' assume I: "card (open_operations P ctx (st_workspace st) w) < Suc n"
      and run: "claim_next_operation P E st cap (id_application_id (cx_identity ctx)) dig ctx owner now w = (r, w')"
    have "card (open_operations P ctx (st_workspace st) w') < Suc n"
      using steady_open moves_run [OF grows_managed(2) [OF assms(1)] run] I by (auto simp: steady_under_growth_def)
    then show "case r of Inl e \<Rightarrow> card (open_operations P ctx (st_workspace st) w') < Suc n
        | Inr x \<Rightarrow> (case x of (s, a) \<Rightarrow> \<lambda>w. card (open_operations P ctx (st_workspace st) w) < n) w'"
      using claim_closes [OF assms refl] run I by (fastforce split: sum.splits prod.splits)
  qed
qed (auto intro: steady_open dispatch_open)

section \<open>What a dispatch presupposes\<close>

text \<open>
  The credentials the service holds at \<open>t\<close> entitle the authority to write at the instant \<open>now\<close>: the
  host's lease is intact and speaks for the authority's principal, instance, repository and
  permission, it has not expired, and its verification digest is the registered one.
\<close>

definition entitled_at :: "prims \<Rightarrow> credential_state \<Rightarrow> authority \<Rightarrow> timestamp \<Rightarrow> bool" where
  "entitled_at P service a now \<longleftrightarrow>
     (\<exists>lease expires request.
        cs_lease service = Some lease \<and> cs_snapshot service = Some (ls_object lease) \<and>
        entitles lease (ls_evidence lease) a \<and>
        valid_timestamp expires \<and> utc_text expires = au_expires_at a \<and> instant now < instant expires \<and>
        vr_repository_identity request = au_repository_identity a \<and>
        ((\<exists>p. cs_restart service (au_authority_id a) = Some p \<and> request = restart_request a p \<and>
              source_verification_digest P (ls_evidence lease) request = Inr (rp_source_verification_digest p)) \<or>
         (\<exists>b. cs_restart service (au_authority_id a) = None \<and> cs_binding service (au_credential_binding_id a) = Inr b \<and>
              request = live_request b \<and>
              source_verification_digest P (ls_evidence lease) request = Inr (cb_source_verification_digest b))))"

lemma live_checks_repository:
  "live_credential_checks a b l snapshot = Inr e \<Longrightarrow> cb_repository_identity b = au_repository_identity a"
  by (auto simp: live_credential_checks_def rbind_Inr raise_if_Inr)

lemma restart_checks_repository:
  "restart_credential_checks P a i p l snapshot = Inr e \<Longrightarrow> rp_repository_identity p = au_repository_identity a"
  by (auto simp: restart_credential_checks_def rbind_Inr raise_if_Inr matches_authority_def split: option.splits)

lemma validate_live_credential_dispatch_run:
  assumes run: "validate_live_credential_dispatch P E ctx w = (Inr u, w')"
  shows "entitled_at P (env_credentials E (w_tick w)) (cx_authority ctx) (env_clock E (w_tick w + 2))"
    "w_contexts w (cx_id ctx) = Some ctx" "env_authority E (w_tick w + 1) = AuthorityCurrent" "w' = w\<lparr>w_tick := w_tick w + 3\<rparr>"
proof -
  let ?s = "env_credentials E (w_tick w)" and ?a = "cx_authority ctx" and ?w = "w\<lparr>w_tick := Suc (w_tick w)\<rparr>"
  obtain lease snapshot w1 where held: "cs_lease ?s = Some lease" "cs_snapshot ?s = Some snapshot"
    and v: "validate_execution_context P E (cx_service ctx) ctx ?w = (Inr (), w1)"
    and rest: "(case cs_restart ?s (au_authority_id ?a) of
           Some provenance \<Rightarrow>
             bnd (lift (restart_credential_checks P ?a (cs_issuance ?s (au_authority_id ?a)) provenance lease snapshot)) (\<lambda>evidence.
             bnd (ask (env_clock E)) (\<lambda>now.
             bnd (lift (credential_unexpired (ValueError (''Invalid isoformat string: '' @ gi_expires_at evidence)) evidence now)) (\<lambda>_.
             lift (source_verified P evidence (restart_request ?a provenance) (rp_source_verification_digest provenance)))))
         | None \<Rightarrow>
             bnd (lift (cs_binding ?s (au_credential_binding_id ?a))) (\<lambda>binding.
             bnd (lift (live_credential_checks ?a binding lease snapshot)) (\<lambda>evidence.
             bnd (ask (env_clock E)) (\<lambda>now.
             bnd (lift (credential_unexpired (ValueError ''credential_currentness_mismatch'') evidence now)) (\<lambda>_.
             lift (source_verified P evidence (live_request binding) (cb_source_verification_digest binding))))))) w1 = (Inr u, w')"
    using run unfolding validate_live_credential_dispatch_def Let_def bnd_run ask_run
    by (auto simp: fail_run bnd_run split: option.splits prod.splits)
  note v' = validate_execution_context_run [OF v]
  show "w_contexts w (cx_id ctx) = Some ctx" "env_authority E (w_tick w + 1) = AuthorityCurrent" using v' by simp_all
  have tick: "w_tick w1 = w_tick w + 2" using v'(4) by simp
  have "entitled_at P ?s ?a (env_clock E (w_tick w1)) \<and> w' = w1\<lparr>w_tick := Suc (w_tick w1)\<rparr>"
  proof (cases "cs_restart ?s (au_authority_id ?a)")
    case None
    then obtain b e where b: "cs_binding ?s (au_credential_binding_id ?a) = Inr b" "live_credential_checks ?a b lease snapshot = Inr e"
      and t: "credential_unexpired (ValueError ''credential_currentness_mismatch'') e (env_clock E (w_tick w1)) = Inr ()"
      and d: "source_verified P e (live_request b) (cb_source_verification_digest b) = Inr u"
      and w': "w' = w1\<lparr>w_tick := Suc (w_tick w1)\<rparr>"
      using rest by (auto simp: run_simps)
    note c = live_credential_checks_entitle [OF b(2)]
    have "e = ls_evidence lease" "gi_expires_at e = au_expires_at ?a" using c(1) by (auto simp: entitles_def)
    moreover obtain x where "valid_timestamp x" "utc_text x = gi_expires_at e" "instant (env_clock E (w_tick w1)) < instant x"
      using t unfolding credential_unexpired_Inr by blast
    moreover have "vr_repository_identity (live_request b) = au_repository_identity ?a"
      using live_checks_repository [OF b(2)] by (simp add: live_request_def)
    ultimately show ?thesis
      using held None b(1) c d w' unfolding entitled_at_def source_verified_Inr by fastforce
  next
    case (Some p)
    then obtain e where b: "restart_credential_checks P ?a (cs_issuance ?s (au_authority_id ?a)) p lease snapshot = Inr e"
      and t: "credential_unexpired (ValueError (''Invalid isoformat string: '' @ gi_expires_at e)) e (env_clock E (w_tick w1)) = Inr ()"
      and d: "source_verified P e (restart_request ?a p) (rp_source_verification_digest p) = Inr u"
      and w': "w' = w1\<lparr>w_tick := Suc (w_tick w1)\<rparr>"
      using rest by (auto simp: run_simps)
    note c = restart_credential_checks_entitle [OF b]
    have "e = ls_evidence lease" "gi_expires_at e = au_expires_at ?a" using c(1) by (auto simp: entitles_def)
    moreover obtain x where "valid_timestamp x" "utc_text x = gi_expires_at e" "instant (env_clock E (w_tick w1)) < instant x"
      using t unfolding credential_unexpired_Inr by blast
    moreover have "vr_repository_identity (restart_request ?a p) = au_repository_identity ?a"
      using restart_checks_repository [OF b] by (simp add: restart_request_def)
    ultimately show ?thesis
      using held Some c d w' unfolding entitled_at_def source_verified_Inr by fastforce
  qed
  then show "entitled_at P (env_credentials E (w_tick w)) (cx_authority ctx) (env_clock E (w_tick w + 2))"
    "w' = w\<lparr>w_tick := w_tick w + 3\<rparr>"
    using tick v'(4) by simp_all
qed

section \<open>What a command contains\<close>

lemma items_by_ref_Inr:
  "items_by_ref items = Inr m \<Longrightarrow> (ref, item) \<in> set m \<Longrightarrow> item \<in> set items \<and> dict_lookup item ''client_ref'' = Some ref"
  by (induction items arbitrary: m) (auto simp: rbind_Inr dict_item_def of_option_Inr split: if_splits)

lemma item_lookup_Some: "item_lookup m ref = Inr (Some item) \<Longrightarrow> (ref, item) \<in> set m"
  by (auto simp: item_lookup_def split: if_splits dest!: map_of_SomeD)

lemma CreateIssueCommand_Inr:
  "CreateIssueCommand P repo ref title body request = Inr c \<Longrightarrow>
     \<exists>r. normalize_repository_identity P repo = Inr r \<and>
       c = CreateIssue r (str_of ref) (str_of title) (str_of body) (str_of request) \<and>
       list_all nonblank [ref, title, body, request]"
  by (auto simp: CreateIssueCommand_def rbind_Inr raise_if_Inr)

text \<open>
  \<open>created_issue P st ctx ref d a\<close>: \<open>a\<close> is the issue that the durable, verified receipt of the creation
  of the work item \<open>ref\<close> identifies in the database \<open>d\<close>.
\<close>

definition creates :: "string \<Rightarrow> write_op \<Rightarrow> bool" where
  "creates ref op \<longleftrightarrow> operation_kind op = ''create_issue'' \<and> client_refs op = [ref]"

definition created_issue :: "prims \<Rightarrow> exec_store \<Rightarrow> exec_context \<Rightarrow> string \<Rightarrow> database \<Rightarrow> issue_reference \<Rightarrow> bool" where
  "created_issue P st ctx ref d a \<longleftrightarrow> (\<exists>i op_id doc r.
     i < length (cx_operations ctx) \<and> creates ref (cx_operations ctx ! i) \<and> (\<forall>j < i. \<not> creates ref (cx_operations ctx ! j)) \<and>
     operation_identity P (id_application_id (cx_identity ctx)) (int i) (operation_doc (cx_operations ctx ! i)) = Inr op_id \<and>
     select_row (st_workspace st, id_application_id (cx_identity ctx), op_id) (db_operation_receipts d) = Some doc \<and>
     decode_operation_receipt P doc = Inr r \<and> operation_receipt_verify P r = Inr True \<and>
     or_application_id r = id_application_id (cx_identity ctx) \<and> or_operation_identity r = op_id \<and>
     rr_kind (or_result r) = ''github.create_issue.v1'' \<and>
     dict_get (rr_payload (or_result r)) ''repository_identity'' = repository_of ctx \<and>
     normalize_repository_identity P (repository_of ctx) = Inr (ir_repository_identity a) \<and>
     dict_get (rr_payload (or_result r)) ''issue_number'' = PInt (ir_issue_number a) \<and>
     dict_get (rr_payload (or_result r)) ''numeric_issue_id'' = PStr (ir_numeric_issue_id a) \<and>
     dict_get (rr_payload (or_result r)) ''node_id'' = PStr (ir_node_id a))"

text \<open>
  \<open>bound_issue P ctx ref a\<close>: \<open>a\<close> is the issue the sealed preview binds the existing endpoint \<open>ref\<close> to,
  by a binding that carries the digest of its record in the sealed snapshot.
\<close>

definition bound_issue :: "prims \<Rightarrow> exec_context \<Rightarrow> string \<Rightarrow> issue_reference \<Rightarrow> bool" where
  "bound_issue P ctx ref a \<longleftrightarrow> (\<exists>bound records issue d.
     find (\<lambda>v. dict_get v ''endpoint_ref'' = PStr ref) (cx_bindings ctx) = Some bound \<and>
     iterate (get_or (cx_snapshot ctx) ''issue_records'' (PList [])) = Some records \<and>
     find (\<lambda>v. dict_get v ''issue_id'' = dict_get bound ''issue_id'') records = Some issue \<and>
     digest P issue = Inr d \<and> dict_get bound ''remote_record_digest'' = PStr d \<and>
     dict_get issue ''repository_identity'' = repository_of ctx \<and> dict_get issue ''item_type'' = PStr ''issue'' \<and>
     normalize_repository_identity P (repository_of ctx) = Inr (ir_repository_identity a) \<and>
     dict_get issue ''issue_number'' = PInt (ir_issue_number a) \<and>
     py_str P (dict_get issue ''numeric_issue_id'') = ir_numeric_issue_id a \<and>
     dict_get issue ''issue_id'' = PStr (ir_node_id a))"

lemma creation_of_Some:
  "creation_of k ops (PStr ref) = Some (i, op) \<Longrightarrow>
     k \<le> i \<and> i - k < length ops \<and> op = ops ! (i - k) \<and> creates ref op \<and> (\<forall>j < i - k. \<not> creates ref (ops ! j))"
proof (induction ops arbitrary: k)
  case (Cons o' ops)
  have c: "operation_kind o' \<noteq> ''create_issue'' \<or> strs (client_refs o') \<noteq> PList [PStr ref] \<longleftrightarrow> \<not> creates ref o'"
    by (auto simp: creates_def strs_def map_eq_Cons_conv)
  show ?case
  proof (cases "creates ref o'")
    case False
    then have IH: "Suc k \<le> i \<and> i - Suc k < length ops \<and> op = ops ! (i - Suc k) \<and> creates ref op \<and>
        (\<forall>j < i - Suc k. \<not> creates ref (ops ! j))"
      using Cons c by (metis creation_of.simps(2))
    have "i - k = Suc (i - Suc k)" using conjunct1 [OF IH] by linarith
    with IH False show ?thesis by (auto simp: nth_Cons split: nat.split)
  qed (use Cons.prems c in auto)
qed simp

lemma find_entry_Inr: "find_entry key wanted vs = Inr v \<Longrightarrow> is_mapping v \<Longrightarrow> find (\<lambda>v. dict_get v key = wanted) vs = Some v"
  by (induction vs) (auto split: if_splits)

lemma get_operation_receipt_run:
  assumes "get_operation_receipt P E st app op w = (Inr r, w')"
  obtains doc where "select_row (st_workspace st, app, op) (db_operation_receipts (w_db w')) = Some doc"
    "decode_operation_receipt P doc = Inr r" "operation_receipt_verify P r = Inr True"
    "or_application_id r = app" "or_operation_identity r = op"
  using assms unfolding get_operation_receipt_def read_db_def present_def
  by (auto simp: run_simps integrity_Inr of_option_Inr)

lemma dict_item_Inr: "dict_item d k = Inr v \<Longrightarrow> v = dict_get d k"
  by (simp add: dict_item_def of_option_Inr dict_get_def)

lemma catch_Inr: "catch m h = Inr x \<longleftrightarrow> m = Inr x \<or> (\<exists>e. m = Inl e \<and> h e = Inr x)"
  by (cases m) simp_all

lemma reference_from_receipt_run:
  assumes "reference_from_receipt P E st ctx (PStr ref) w = (Inr a, w')"
  shows "created_issue P st ctx ref (w_db w') a"
proof -
  let ?app = "id_application_id (cx_identity ctx)"
  obtain i op where c: "creation_of 0 (cx_operations ctx) (PStr ref) = Some (i, op)"
    using assms unfolding reference_from_receipt_def Let_def by (auto simp: run_simps split: option.splits)
  obtain op_id r where op_id: "operation_identity P ?app (int i) (operation_doc op) = Inr op_id"
    and r: "get_operation_receipt P E st ?app op_id w = (Inr r, w')" "rr_kind (or_result r) = ''github.create_issue.v1''"
      "dict_get (rr_payload (or_result r)) ''repository_identity'' = repository_of ctx"
    and a: "RemoteIssueReference P (repository_of ctx) (dict_get (rr_payload (or_result r)) ''issue_number'')
      (dict_get (rr_payload (or_result r)) ''numeric_issue_id'') (dict_get (rr_payload (or_result r)) ''node_id'') = Inr a"
    using assms unfolding reference_from_receipt_def Let_def c
    by (auto simp: run_simps split: if_splits dest!: dict_item_Inr)
  have "i < length (cx_operations ctx)" "op = cx_operations ctx ! i" "creates ref op"
      "\<forall>j < i. \<not> creates ref (cx_operations ctx ! j)"
    using creation_of_Some [OF c] by auto
  moreover obtain doc where "select_row (st_workspace st, ?app, op_id) (db_operation_receipts (w_db w')) = Some doc"
    "decode_operation_receipt P doc = Inr r" "operation_receipt_verify P r = Inr True"
    "or_application_id r = ?app" "or_operation_identity r = op_id"
    by (rule get_operation_receipt_run [OF r(1)])
  ultimately show ?thesis
    using op_id r(2,3) a unfolding created_issue_def RemoteIssueReference_Inr by metis
qed

lemma unavailable_raises [simp]:
  "(case e of KeyError \<Rightarrow> Inl u | TypeError \<Rightarrow> Inl u | ValueError s \<Rightarrow> Inl u | _ \<Rightarrow> Inl e) \<noteq> Inr a"
  by (cases e) simp_all

lemma binding_reference_Inr:
  assumes "binding_reference P ctx ref = Inr a"
  shows "bound_issue P ctx ref a"
proof -
  obtain bound records issue d where f: "find_entry ''endpoint_ref'' (PStr ref) (cx_bindings ctx) = Inr bound"
      "is_mapping bound" "iterate (get_or (cx_snapshot ctx) ''issue_records'' (PList [])) = Some records"
      "find_entry ''issue_id'' (dict_get bound ''issue_id'') records = Inr issue" "is_mapping issue"
      "digest P issue = Inr d" "dict_get bound ''remote_record_digest'' = PStr d"
      "dict_get issue ''repository_identity'' = repository_of ctx" "dict_get issue ''item_type'' = PStr ''issue''"
    and a: "RemoteIssueReference P (repository_of ctx) (dict_get issue ''issue_number'')
      (PStr (py_str P (dict_get issue ''numeric_issue_id''))) (dict_get issue ''issue_id'') = Inr a"
    using assms unfolding binding_reference_def Let_def
    by (auto simp: rbind_Inr catch_Inr of_option_Inr reference_unavailable_def split: if_splits dest!: dict_item_Inr)
  show ?thesis
    using f a find_entry_Inr [OF f(1,2)] find_entry_Inr [OF f(4,5)] unfolding bound_issue_def RemoteIssueReference_Inr by auto
qed

text \<open>
  The issue an endpoint of a relationship stands for: that of the approved reference \<open>ref\<close>, read from
  the database at some moment between \<open>w\<close> and \<open>w'\<close>.
\<close>

definition receipted_issue ::
  "prims \<Rightarrow> env \<Rightarrow> exec_store \<Rightarrow> exec_context \<Rightarrow> world \<Rightarrow> world \<Rightarrow> string \<Rightarrow> issue_reference \<Rightarrow> bool" where
  "receipted_issue P E st ctx w w' ref a \<longleftrightarrow> (\<exists>v. awaits E w v \<and> awaits E v w' \<and> created_issue P st ctx ref (w_db v) a)"

definition approved_endpoint ::
  "prims \<Rightarrow> env \<Rightarrow> exec_store \<Rightarrow> exec_context \<Rightarrow> world \<Rightarrow> world \<Rightarrow> string \<Rightarrow> issue_reference \<Rightarrow> bool" where
  "approved_endpoint P E st ctx w w' ref a \<longleftrightarrow>
     (if cx_version ctx = PStr ''2''
      then (\<exists>r. ref = ''work_item:'' @ r \<and> receipted_issue P E st ctx w w' r a) \<or>
           (\<exists>r. ref = ''existing_issue:'' @ r \<and> bound_issue P ctx r a)
      else receipted_issue P E st ctx w w' ref a)"

lemma awaits_each:
  assumes "\<And>x. moves (awaits E) (f x)" and "each f xs w = (Inr ys, w')"
  shows "length ys = length xs \<and>
    (\<forall>i < length xs. \<exists>v v'. awaits E w v \<and> f (xs ! i) v = (Inr (ys ! i), v') \<and> awaits E v' w')"
  using assms(2)
proof (induction xs arbitrary: w ys)
  case (Cons x xs)
  then obtain y zs w1 where 1: "f x w = (Inr y, w1)" "each f xs w1 = (Inr zs, w')" "ys = y # zs"
    by (auto simp: run_simps)
  have 2: "awaits E w w1" "awaits E w1 w'"
    using moves_run [OF assms(1) 1(1)] moves_run [OF awaits.moves_each [OF assms(1)] 1(2)] .
  have 3: "length zs = length xs" "\<exists>v v'. awaits E w1 v \<and> f (xs ! i) v = (Inr (zs ! i), v') \<and> awaits E v' w'"
    if "i < length xs" for i using Cons.IH [OF 1(2)] that by simp_all
  have "\<exists>v v'. awaits E w v \<and> f ((x # xs) ! i) v = (Inr (ys ! i), v') \<and> awaits E v' w'" if i: "i < length (x # xs)" for i
  proof (cases i)
    case 0
    then show ?thesis using 1 2(2) awaits.frame_refl by auto
  next
    case (Suc j)
    then show ?thesis using 3(2) [of j] i 1(3) 2(1) awaits.frame_trans by fastforce
  qed
  then show ?case using Cons.IH [OF 1(2)] 1(3) by simp
qed (simp add: run_simps)

lemma receipted_from_run:
  "reference_from_receipt P E st ctx (PStr ref) v = (Inr a, v') \<Longrightarrow> awaits E w v \<Longrightarrow> awaits E v' w' \<Longrightarrow>
     receipted_issue P E st ctx w w' ref a"
  unfolding receipted_issue_def
  using reference_from_receipt_run moves_run [OF awaits_receipt_reference] awaits.frame_trans by metis

lemma approved_endpoint_later:
  "approved_endpoint P E st ctx w w1 ref a \<Longrightarrow> awaits E w1 w' \<Longrightarrow> approved_endpoint P E st ctx w w' ref a"
  unfolding approved_endpoint_def receipted_issue_def by (auto intro: awaits.frame_trans split: if_splits)

lemma awaits_tagged: "moves (awaits E) (tagged_reference P E st ctx t)"
  unfolding tagged_reference_def Let_def
  by (cases t) (auto intro!: awaits.moves_rules awaits_receipt_reference awaits_binding_reference)

lemma tagged_ref_Inr: "tagged_ref (PStr ref) = Inr (work_item, r) \<longleftrightarrow>
    (if work_item then ref = ''work_item:'' @ r else ref = ''existing_issue:'' @ r)"
  by (auto simp: tagged_ref_def prefix_def)

lemma tagged_reference_run:
  assumes "tagged_ref (PStr ref) = Inr t" "tagged_reference P E st ctx t v = (Inr p, v')" "awaits E w v" "awaits E v' w'"
    and "cx_version ctx = PStr ''2''"
  shows "approved_endpoint P E st ctx w w' ref (fst p)"
proof -
  obtain work_item r where t: "t = (work_item, r)" by fastforce
  show ?thesis
  proof (cases work_item)
    case True
    then show ?thesis using assms t receipted_from_run
      by (fastforce simp: approved_endpoint_def tagged_reference_def run_simps tagged_ref_Inr)
  next
    case False
    then have "binding_reference P ctx r = Inr (fst p)"
      using assms(2) t by (auto simp: tagged_reference_def reference_from_existing_binding_def run_simps split: if_splits)
    then show ?thesis using False assms(1,5) t binding_reference_Inr
      by (fastforce simp: approved_endpoint_def tagged_ref_Inr)
  qed
qed

lemma resolved_relationship_run:
  assumes "resolved_relationship P E ctx kind references existing w = (Inr c, w')"
  shows "\<exists>a b rest. references = a # b # rest \<and> RelationshipCommand P (repository_of ctx) a b = Inr c \<and> awaits E w w'"
proof -
  have "awaits E w w'" by (rule moves_run [OF awaits_resolved assms])
  moreover obtain a b where "list_item references 0 = Inr a" "list_item references 1 = Inr b"
      "RelationshipCommand P (repository_of ctx) a b = Inr c"
    using assms by (auto simp: resolved_relationship_def run_simps split: if_splits)
  moreover from this obtain rest where "references = a # b # rest"
    by (cases references; cases "tl references") (auto simp: list_item_def split: if_splits)
  ultimately show ?thesis by blast
qed

text \<open>The command of a relationship stands for the first two approved references, in their order.\<close>

definition approved_relationship ::
  "prims \<Rightarrow> env \<Rightarrow> exec_store \<Rightarrow> exec_context \<Rightarrow> string list \<Rightarrow> world \<Rightarrow> world \<Rightarrow> command \<Rightarrow> bool" where
  "approved_relationship P E st ctx refs w w' c \<longleftrightarrow> (\<exists>first second rest a b repo.
     refs = first # second # rest \<and> approved_endpoint P E st ctx w w' first a \<and> approved_endpoint P E st ctx w w' second b \<and>
     normalize_repository_identity P (repository_of ctx) = Inr repo \<and> c = Relationship repo a b \<and> a \<noteq> b \<and>
     ir_repository_identity a = repo \<and> ir_repository_identity b = repo)"

lemma approved_relationshipI:
  assumes "length rs = length refs" "\<And>i. i < length refs \<Longrightarrow> approved_endpoint P E st ctx w w' (refs ! i) (rs ! i)"
    and "rs = a # b # rest" "RelationshipCommand P (repository_of ctx) a b = Inr c"
  shows "approved_relationship P E st ctx refs w w' c"
proof -
  obtain x y zs where refs: "refs = x # y # zs"
    using assms(1,3) by (metis Suc_length_conv length_Cons)
  have "approved_endpoint P E st ctx w w' x a" "approved_endpoint P E st ctx w w' y b"
    using assms(2) [of 0] assms(2) [of 1] by (simp_all add: refs assms(3))
  then show ?thesis using refs assms(4) unfolding approved_relationship_def RelationshipCommand_Inr by blast
qed

lemma relationship_v1_run:
  assumes "each (reference_from_receipt P E st ctx) (map PStr refs) w = (Inr rs, w')" "cx_version ctx \<noteq> PStr ''2''"
  shows "length rs = length refs \<and> (\<forall>i < length refs. approved_endpoint P E st ctx w w' (refs ! i) (rs ! i))"
  using awaits_each [OF awaits_receipt_reference assms(1)] assms(2) receipted_from_run
  by (fastforce simp: approved_endpoint_def)

lemma relationship_v2_run:
  assumes "sequence (map tagged_ref (map PStr refs)) = Inr tagged" "each (tagged_reference P E st ctx) tagged w = (Inr rs, w')"
    and "cx_version ctx = PStr ''2''"
  shows "length rs = length refs \<and> (\<forall>i < length refs. approved_endpoint P E st ctx w w' (refs ! i) (fst (rs ! i)))"
proof -
  have t: "map tagged_ref (map PStr refs) = map Inr tagged" using assms(1) by (simp add: sequence_Inr)
  then have len: "length tagged = length refs" by (metis length_map)
  have "tagged_ref (PStr (refs ! i)) = Inr (tagged ! i)" if "i < length refs" for i
    using arg_cong [OF t, of "\<lambda>xs. xs ! i"] that len by simp
  note tag = this
  have "approved_endpoint P E st ctx w w' (refs ! i) (fst (rs ! i))" if i: "i < length refs" for i
  proof -
    obtain v v' where "awaits E w v" "tagged_reference P E st ctx (tagged ! i) v = (Inr (rs ! i), v')" "awaits E v' w'"
      using awaits_each [OF awaits_tagged assms(2)] len i by auto
    then show ?thesis using tagged_reference_run [OF tag [OF i] _ _ _ assms(3)] by blast
  qed
  then show ?thesis using awaits_each [OF awaits_tagged assms(2)] len by simp
qed

lemma materialize_run:
  assumes "materialize P E st ctx attempt w = (Inr c, w')"
  shows "operation_kind (at_operation attempt) = ''create_issue'' \<Longrightarrow>
      \<exists>item ref title body repo. item \<in> set (canonical_items ctx) \<and> dict_get item ''client_ref'' = PStr ref \<and>
        hd (client_refs (at_operation attempt)) = ref \<and> render_create_issue item = Inr (title, body) \<and>
        normalize_repository_identity P (repository_of ctx) = Inr repo \<and>
        c = CreateIssue repo ref title body (at_request_identity attempt)"
    "operation_kind (at_operation attempt) \<noteq> ''create_issue'' \<Longrightarrow>
      operation_kind (at_operation attempt) \<in> {''add_sub_issue'', ''add_dependency''} \<and>
      approved_relationship P E st ctx (client_refs (at_operation attempt)) w w' c"
proof -
  let ?op = "at_operation attempt"
  have run: "materialize_refs P E st ctx (operation_doc ?op) (at_request_identity attempt) w = (Inr c, w')"
    using assms by (simp add: materialize_def operation_doc_def)
  have kind: "dict_item (operation_doc ?op) ''operation_kind'' = Inr (PStr (operation_kind ?op))"
    "dict_item (operation_doc ?op) ''client_refs'' = Inr (strs (client_refs ?op))"
    by (simp_all add: dict_item_def operation_doc_def)
  show "\<exists>item ref title body repo. item \<in> set (canonical_items ctx) \<and> dict_get item ''client_ref'' = PStr ref \<and>
        hd (client_refs ?op) = ref \<and> render_create_issue item = Inr (title, body) \<and>
        normalize_repository_identity P (repository_of ctx) = Inr repo \<and>
        c = CreateIssue repo ref title body (at_request_identity attempt)"
    if create: "operation_kind ?op = ''create_issue''"
  proof -
    obtain items ref item where items: "items_by_ref (canonical_items ctx) = Inr items"
      and ref: "sequence_item (strs (client_refs ?op)) 0 = Inr ref" and item: "item_lookup items ref = Inr (Some item)"
      and c: "create_command P ctx item ref (at_request_identity attempt) = Inr c"
      using run unfolding materialize_refs_def bnd_run lift_run kind create
      by (auto simp: run_simps of_option_Inr)
    have r: "client_refs ?op \<noteq> []" "ref = PStr (hd (client_refs ?op))"
      using ref by (auto simp: sequence_item_def strs_def hd_conv_nth split: if_splits)
    have "item \<in> set (canonical_items ctx) \<and> dict_lookup item ''client_ref'' = Some ref"
      using items_by_ref_Inr [OF items] item_lookup_Some [OF item] by blast
    moreover obtain title body where "render_create_issue item = Inr (title, body)"
      "CreateIssueCommand P (repository_of ctx) ref (PStr title) (PStr body) (PStr (at_request_identity attempt)) = Inr c"
      using c by (auto simp: create_command_def rbind_Inr)
    ultimately show ?thesis using r by (auto simp: dict_get_def dest!: CreateIssueCommand_Inr)
  qed
  let ?refs = "client_refs ?op"
  have refs: "iterate (strs ?refs) = Some (map PStr ?refs)" by (simp add: strs_def)
  assume other: "operation_kind ?op \<noteq> ''create_issue''"
  then have related: "operation_kind ?op \<in> {''add_sub_issue'', ''add_dependency''}"
    using run unfolding materialize_refs_def bnd_run lift_run kind by (auto simp: run_simps split: if_splits)
  have "approved_relationship P E st ctx ?refs w w' c"
  proof (cases "cx_version ctx = PStr ''2''")
    case True
    then have "bnd (lift (sequence (map tagged_ref (map PStr ?refs)))) (\<lambda>tagged.
         bnd (each (tagged_reference P E st ctx) tagged) (\<lambda>rs.
         resolved_relationship P E ctx (operation_kind ?op) (map fst rs) (concat (map snd rs)))) w = (Inr c, w')"
      using run other related unfolding materialize_refs_def bnd_run lift_run kind
      by (clarsimp simp: refs simp del: map_map) (simp only: bnd_run lift_run, blast)
    then obtain tagged rs w1 where t: "sequence (map tagged_ref (map PStr ?refs)) = Inr tagged"
        "each (tagged_reference P E st ctx) tagged w = (Inr rs, w1)"
      and r: "resolved_relationship P E ctx (operation_kind ?op) (map fst rs) (concat (map snd rs)) w1 = (Inr c, w')"
      unfolding bnd_run lift_run by blast
    obtain a b rest where ab: "map fst rs = a # b # rest" "RelationshipCommand P (repository_of ctx) a b = Inr c" "awaits E w1 w'"
      using resolved_relationship_run [OF r] by (elim exE conjE)
    note v2 = relationship_v2_run [OF t True]
    show ?thesis
      by (rule approved_relationshipI [OF _ _ ab(1,2)]) (use v2 approved_endpoint_later [OF _ ab(3)] in auto)
  next
    case False
    then obtain rs a b where t: "each (reference_from_receipt P E st ctx) (map PStr ?refs) w = (Inr rs, w')"
      and ab: "list_item rs 0 = Inr a" "list_item rs 1 = Inr b" "RelationshipCommand P (repository_of ctx) a b = Inr c"
      using run other related unfolding materialize_refs_def bnd_run lift_run kind
      by (auto simp: run_simps of_option_Inr refs split: if_splits)
    obtain rest where rs: "rs = a # b # rest"
      using ab by (cases rs; cases "tl rs") (auto simp: list_item_def split: if_splits)
    note v1 = relationship_v1_run [OF t False]
    show ?thesis by (rule approved_relationshipI [OF _ _ rs ab(3)]) (use v1 in auto)
  qed
  with related show "operation_kind ?op \<in> {''add_sub_issue'', ''add_dependency''} \<and> approved_relationship P E st ctx ?refs w w' c"
    by simp
qed

section \<open>The evidence of a success\<close>

lemma trusted_payload_Inr:
  assumes "trusted_payload kind repository payload = Inr u"
  shows "kind \<in> {''create_issue'', ''add_sub_issue'', ''add_dependency''}" "dict_get payload ''repository_identity'' = repository"
    "dict_get payload ''executor_identity'' = PStr write_executor_identity"
    "kind = ''create_issue'' \<Longrightarrow> \<exists>n numeric node. dict_get payload ''issue_number'' = PInt n \<and> 0 < n \<and>
       dict_get payload ''numeric_issue_id'' = PStr numeric \<and> numeric \<noteq> [] \<and> list_all is_digit numeric \<and>
       dict_get payload ''node_id'' = PStr node \<and> node \<noteq> []"
  using assms
  by (auto simp: trusted_payload_def raise_if_Inr executor_evidence_def positive_int_def decimal_id_def nonempty_str_iff
      split: if_splits pyval.splits)

lemma trusted_success_result_Inr:
  assumes "trusted_success_result P ctx a ob = Inr v"
  obtains d where "is_mapping (ob_result_payload ob)"
    "trusted_payload (operation_kind (at_operation a)) (repository_of ctx) (ob_result_payload ob) = Inr ()"
    "nonempty_str (ob_result_identity ob)" "digest P (ob_result_payload ob) = Inr d"
    "v = obj [(''result_kind'', PStr (''github.'' @ operation_kind (at_operation a) @ ''.v1'')),
       (''result_identity'', ob_result_identity ob), (''result_digest'', PStr d), (''result_payload'', ob_result_payload ob)]"
  using assms by (auto simp: trusted_success_result_def Let_def raise_if_Inr rbind_Inr)

lemma digest_copy: "digest P (copy_value v) = digest P v"
  by (simp add: digest_def canonical_payload_def normalize_copy)

end
