(* ===== verification/Store_Completion.thy ===== *)
theory Store_Completion
  imports Store_Progress
begin

text \<open>
  Enough conditions for the second half of the protocol: while the authority stays current and the
  clock does not run backwards, a claimed operation can be completed with a receipt, and an
  application whose operations all have receipts can be finalized.
\<close>

section \<open>Time\<close>

definition steady_clock :: "env \<Rightarrow> bool" where
  "steady_clock E \<longleftrightarrow>
     (\<forall>t. valid_timestamp (env_clock E t)) \<and> (\<forall>s t. s \<le> t \<longrightarrow> instant (env_clock E s) \<le> instant (env_clock E t))"

text \<open>A field that holds the time of a moment no later than \<open>t\<close>.\<close>

definition stamped :: "env \<Rightarrow> nat \<Rightarrow> pyval \<Rightarrow> bool" where
  "stamped E t v \<longleftrightarrow> (\<exists>s \<le> t. v = PStr (utc_text (env_clock E s)))"

lemma stamped_now: "s \<le> t \<Longrightarrow> stamped E t (PStr (utc_text (env_clock E s)))"
  by (auto simp: stamped_def)

lemma stamped_later: "stamped E s v \<Longrightarrow> s \<le> t \<Longrightarrow> stamped E t v"
  unfolding stamped_def by (elim exE conjE, rule exI, rule conjI, erule (1) order_trans)

lemma stamped_textual: "stamped E t v \<Longrightarrow> textual v"
  by (auto simp: stamped_def)

lemma utc_text_nonempty [simp]: "utc_text t \<noteq> []"
  by (simp add: utc_text_def)

lemma stamped_clock:
  assumes "steady_clock E" "\<forall>v \<in> set vs. stamped E t v"
  shows "require_clock_not_before (PStr (utc_text (env_clock E t))) vs = Inr ()"
proof -
  have valid: "execution_timestamp (PStr (utc_text (env_clock E s))) = Inr (env_clock E s)" for s
    using assms(1) by (simp add: execution_timestamp_Inr steady_clock_def)
  have "\<exists>u. execution_timestamp v = Inr u \<and> instant u \<le> instant (env_clock E t)" if "v \<in> set vs" for v
    using assms that valid unfolding steady_clock_def stamped_def by metis
  then show ?thesis using valid by (simp add: require_clock_not_before_Inr)
qed

section \<open>Evidence of a completed operation\<close>

lemma live_provenance_application:
  assumes "provenance_from_live_authority P a = Inr p" "identity_from_authority P a = Inr i"
  shows "pv_application_id p = id_application_id i"
  using assms unfolding provenance_from_live_authority_def provenance_from_source_def
  by (auto simp: rbind_Inr raise_if_Inr provenance_text_Inr authority_fields_def)

lemma live_anchor:
  assumes "context_ok P ctx"
  shows "(if pv_credential_principal_identity (cx_provenance ctx) \<noteq> []
     then CredentialContinuityAnchor (PStr ''PRINCIPAL'') [PStr (pv_credential_principal_identity (cx_provenance ctx))]
     else CredentialContinuityAnchor (PStr ''LEGACY_INSTANCE'')
       [PStr (pv_issuer_id (cx_provenance ctx)), PStr (pv_credential_instance_id (cx_provenance ctx))]) = Inr (cx_anchor ctx)"
  using assms live_provenance(3-5) [of P "cx_authority ctx" "cx_provenance ctx"]
  by (simp add: context_ok_def anchor_from_authority_def split: if_splits)

lemma continue_attempt_ok:
  assumes "steady E" "usable P ctx w" and h: "attempt_ok P h" "attempt_verify P h = Inr True" "at_identity h = cx_identity ctx"
      "at_index h < length (cx_operations ctx)" "at_operation h = cx_operations ctx ! at_index h"
      "at_provenance h = cx_provenance ctx"
    and ch: "fst ` set changes \<subseteq> {''state'', ''updated_at'', ''failure_code''}"
    and a: "a = h\<lparr>at_state := s, at_updated_at := u, at_failure_code := c, at_digest := PStr []\<rparr>"
      "s \<in> set attempt_states" "truthy u"
      "changed changes ''state'' (PStr (status_name (at_state h))) = PStr (status_name s)"
      "changed changes ''updated_at'' (at_updated_at h) = u" "changed changes ''failure_code'' (at_failure_code h) = c"
  obtains l w' where "continue_attempt P E ctx h changes w = (Inr l, w')" "lv_body l = a"
    "live_in ctx ''attempt'' attempt_payload l w'" "later w w'" "w_db w' = w_db w"
proof -
  have ok: "context_ok P ctx" using assms(2) by (simp add: usable_def)
  have aok: "attempt_ok P a" using h(1) a(1-3) by (auto simp: attempt_ok_def)
  have c: "OperationAttemptState P (PStr (at_application_id h)) (PStr (at_operation_identity h)) (PInt (int (at_index h)))
      (operation_doc (at_operation h)) (Inr (at_provenance h)) (PStr (pv_driver_identity (at_provenance h)))
      (PStr (pv_remote_authority (at_provenance h))) (PStr (at_request_identity h)) (PStr (status_name s))
      (at_started_at h) u (Inr (cx_identity ctx)) c (PStr []) = Inr a"
    using OperationAttemptState_intro [OF aok, of "PStr []"] a(1) h(3) by simp
  have ids: "at_application_id h = id_application_id (cx_identity ctx)"
    "operation_identity P (id_application_id (cx_identity ctx)) (int (at_index h)) (operation_doc (cx_operations ctx ! at_index h)) =
       Inr (at_operation_identity h)" "request_identity P (at_operation_identity h) = Inr (at_request_identity h)"
    using h by (auto simp: attempt_ok_def)
  have pv: "pv_driver_identity (cx_provenance ctx) = au_driver_identity (cx_authority ctx)"
    "pv_remote_authority (cx_provenance ctx) = au_remote_authority (cx_authority ctx)"
    using ok live_provenance(1,2) [of P "cx_authority ctx" "cx_provenance ctx"] by (simp_all add: context_ok_def)
  obtain l w' where r: "register ctx ''attempt'' attempt_payload a (tick w) = (Inr l, w')" "lv_body l = a"
      "live_in ctx ''attempt'' attempt_payload l w'" "later (tick w) w'" "w_db w' = w_db (tick w)"
    by (rule register_ok)
  show ?thesis
  proof (rule that)
    show "continue_attempt P E ctx h changes w = (Inr l, w')"
      using h(2-6) ch a(4-6) c ids pv r(1) live_anchor [OF ok] unfolding continue_attempt_def Let_def
      by (simp add: bnd_exec validate_ok [OF assms(1,2) refl] split: if_splits)
    show "lv_body l = a" "live_in ctx ''attempt'' attempt_payload l w'" by (rule r)+
    show "later w w'" using later_trans [OF later_tick r(4)] .
    show "w_db w' = w_db w" using r(5) by simp
  qed
qed

lemma new_receipt_ok:
  assumes "steady E" "usable P ctx w" and i: "i < length (cx_operations ctx)"
    and rr: "remote_result P remote = Inr rr" and x: "x \<noteq> []" and y: "y \<noteq> []"
  obtains l w' where "new_receipt P E ctx i remote (PStr x) (PStr y) w = (Inr l, w')"
    "live_in ctx ''operation_receipt'' operation_receipt_payload l w'" "later w w'" "w_db w' = w_db w"
    "or_started_at (lv_body l) = x" "or_completed_at (lv_body l) = y" "or_result (lv_body l) = rr"
proof -
  have ok: "context_ok P ctx" using assms(2) by (simp add: usable_def)
  let ?op = "cx_operations ctx ! i" and ?app = "id_application_id (cx_identity ctx)"
  have wf: "wf_op ?op" using ok i by (simp add: context_ok_def list_all_length)
  obtain oid where oid: "operation_identity P ?app (int i) (operation_doc ?op) = Inr oid"
    using operation_identity_exists [OF wf] application_id_nonempty [OF context_ok_identity [OF ok]] by force
  obtain rq where rq: "request_identity P oid = Inr rq"
    using request_identity_ok operation_identity_nonempty [OF wf oid] by blast
  obtain rid where rid: "operation_receipt_id_of P oid = Inr rid"
  proof -
    have "normalizable P (receipt_id_payload oid)"
      unfolding receipt_id_payload_def by (rule normalizable_obj) (simp_all add: literal_keys_def)
    then obtain h where "digest_hex P (receipt_id_payload oid) = Inr h" using digest_hex_normalizable by blast
    then show ?thesis by (intro that) (simp add: operation_receipt_id_of_def)
  qed
  have pv: "provenance_from_live_authority P (cx_authority ctx) = Inr (cx_provenance ctx)"
      "identity_from_authority P (cx_authority ctx) = Inr (cx_identity ctx)"
    using ok by (simp_all add: context_ok_def)
  define r where "r = \<lparr>or_receipt_id = rid, or_application_id = ?app, or_identity = cx_identity ctx,
      or_operation_identity = oid, or_index = int i, or_operation = ?op, or_request_identity = rq,
      or_provenance = cx_provenance ctx, or_result = rr, or_started_at = x, or_completed_at = y, or_digest = PStr []\<rparr>"
  have rok: "operation_receipt_ok P r"
    using context_ok_identity [OF ok] context_ok_provenance [OF ok] wf oid rq rid remote_result_Inr [OF rr]
      live_provenance_application [OF pv] x y
    by (simp add: operation_receipt_ok_def r_def)
  have c: "OperationReceipt P (PStr rid) (PStr ?app) (Inr (cx_identity ctx)) (PStr oid) (PInt (int i)) (operation_doc ?op)
      (PStr rq) (Inr (cx_provenance ctx)) remote (PStr x) (PStr y) (PStr []) = Inr r"
    using OperationReceipt_intro [OF rok, of "PStr []"] rr remote_result_roundtrip [OF remote_result_Inr [OF rr]]
    unfolding OperationReceipt_def by (simp add: r_def)
  obtain r' d where r': "operation_receipt_with_digest P r = Inr r'" and rd: "r' = r\<lparr>or_digest := d\<rparr>"
    using operation_receipt_with_digest_exists [OF rok] by (auto simp: operation_receipt_with_digest_Inr)
  obtain l w' where reg: "register ctx ''operation_receipt'' operation_receipt_payload r' (tick (tick w)) = (Inr l, w')" "lv_body l = r'"
      "live_in ctx ''operation_receipt'' operation_receipt_payload l w'" "later (tick (tick w)) w'" "w_db w' = w_db (tick (tick w))"
    by (rule register_ok)
  have u1: "usable P ctx (tick w)" using assms(2) later_tick usable_later by blast
  show ?thesis
  proof (rule that)
    show "new_receipt P E ctx i remote (PStr x) (PStr y) w = (Inr l, w')"
      using i oid rq rid c r' reg(1) pv(1) single_operation_doc [OF wf]
      unfolding new_receipt_def create_operation_receipt_def Let_def
      by (simp add: bnd_exec validate_ok [OF assms(1,2) refl] validate_ok [OF assms(1) u1 refl])
    show "live_in ctx ''operation_receipt'' operation_receipt_payload l w'" by (rule reg)
    show "later w w'" using later_trans [OF later_tick later_trans [OF later_tick reg(4)]] .
    show "w_db w' = w_db w" using reg(5) by simp
  qed (simp_all add: reg(2) rd r_def)
qed

section \<open>Completing an operation\<close>

lemma jsonable_receipt:
  assumes "operation_receipt_verify P r = Inr True" "jsonable (out_value (rr_payload (or_result r)))"
  shows "jsonable (operation_receipt_doc r)"
  unfolding operation_receipt_doc_def
proof (rule jsonable_obj)
  have "jsonable (remote_result_doc (or_result r))"
    unfolding remote_result_doc_def by (rule jsonable_obj) (simp add: remote_result_kvs_def assms(2))
  then show "list_all (\<lambda>kv. jsonable (snd kv)) (operation_receipt_kvs r @ [(''receipt_digest'', or_digest r)])"
    using assms(1) by (auto simp: operation_receipt_kvs_def operation_receipt_verify_True)
qed

lemma with_live_digest_ok:
  assumes "steady E" "usable P ctx w"
  shows "plain_state (lv_body s) \<Longrightarrow> \<exists>l d w'. with_live_digest_state P ctx s w = (Inr l, w') \<and>
       lv_body l = (lv_body s)\<lparr>es_digest := PStr d\<rparr> \<and> live_in ctx ''execution'' exec_state_payload l w' \<and> later w w' \<and> w_db w' = w_db w"
    "plain_attempt (lv_body a) \<Longrightarrow> \<exists>l d w'. with_live_digest_attempt P ctx a w = (Inr l, w') \<and>
       lv_body l = (lv_body a)\<lparr>at_digest := PStr d\<rparr> \<and> live_in ctx ''attempt'' attempt_payload l w' \<and> later w w' \<and> w_db w' = w_db w"
proof -
  show "\<exists>l d w'. with_live_digest_state P ctx s w = (Inr l, w') \<and>
       lv_body l = (lv_body s)\<lparr>es_digest := PStr d\<rparr> \<and> live_in ctx ''execution'' exec_state_payload l w' \<and> later w w' \<and> w_db w' = w_db w"
    if plain: "plain_state (lv_body s)"
  proof -
    obtain d where d: "exec_state_with_digest P (lv_body s) = Inr ((lv_body s)\<lparr>es_digest := PStr d\<rparr>)"
      using exec_state_sealed [OF plain] by blast
    show ?thesis
      by (rule register_ok [of ctx "''execution''" exec_state_payload "(lv_body s)\<lparr>es_digest := PStr d\<rparr>" w])
        (auto simp: with_live_digest_state_def d)
  qed
  show "\<exists>l d w'. with_live_digest_attempt P ctx a w = (Inr l, w') \<and>
       lv_body l = (lv_body a)\<lparr>at_digest := PStr d\<rparr> \<and> live_in ctx ''attempt'' attempt_payload l w' \<and> later w w' \<and> w_db w' = w_db w"
    if plain: "plain_attempt (lv_body a)"
  proof -
    obtain d where d: "attempt_with_digest P (lv_body a) = Inr ((lv_body a)\<lparr>at_digest := PStr d\<rparr>)"
      using attempt_sealed [OF plain] by blast
    show ?thesis
      by (rule register_ok [of ctx "''attempt''" attempt_payload "(lv_body a)\<lparr>at_digest := PStr d\<rparr>" w])
        (auto simp: with_live_digest_attempt_def d)
  qed
qed

text \<open>What is known of a claim: its rows and the fields of its two documents.\<close>

definition claimed_state :: "prims \<Rightarrow> exec_context \<Rightarrow> string \<Rightarrow> exec_state \<Rightarrow> attempt \<Rightarrow> bool" where
  "claimed_state P ctx owner s a \<longleftrightarrow>
     exec_state_ok P s \<and> exec_state_verify P s = Inr True \<and> es_managed s \<and> es_state s = Applying \<and>
     es_owner s = PStr owner \<and> es_attempt s = PStr (at_operation_identity a) \<and>
     es_identity s = cx_identity ctx \<and> es_anchor s = cx_anchor ctx \<and> plain_state s \<and>
     attempt_ok P a \<and> attempt_verify P a = Inr True \<and> at_state a = Applying \<and> at_identity a = cx_identity ctx \<and>
     at_index a = es_next s \<and> es_next s < length (cx_operations ctx) \<and>
     at_operation a = cx_operations ctx ! es_next s \<and> at_provenance a = cx_provenance ctx \<and> plain_attempt a"

definition claim_rows :: "exec_store \<Rightarrow> exec_state \<Rightarrow> attempt \<Rightarrow> database \<Rightarrow> bool" where
  "claim_rows st s a d \<longleftrightarrow>
     select_row (st_workspace st, es_application_id s) (db_executions d) = Some (exec_state_doc s) \<and>
     select_row (st_workspace st, es_application_id s, at_operation_identity a) (db_attempts d) = Some (attempt_doc a)"

lemma claimed_rows_ok:
  assumes "claimed_state P ctx owner s a" "claim_rows st s a (w_db w)"
  shows "claimed_rows P st (es_application_id s) (es_digest s) (at_operation_identity a) (at_digest a) owner w = (Inr (s, a), w)"
  using assms exec_state_roundtrip [of P s] attempt_roundtrip [of P a]
  unfolding claimed_rows_def claimed_state_def claim_rows_def by (simp add: bnd_exec steps_simps)

lemma complete_operation_success_ok:
  assumes able: "able P E st cap ctx w" and claim: "claimed_state P ctx owner s a" "claim_rows st s a (w_db w)"
    and live: "live_in ctx ''operation_receipt'' operation_receipt_payload receipt w"
    and r: "operation_receipt_verify P (lv_body receipt) = Inr True" "or_application_id (lv_body receipt) = es_application_id s"
      "or_index (lv_body receipt) = int (es_next s)" "or_operation_identity (lv_body receipt) = at_operation_identity a"
      "jsonable (out_value (rr_payload (or_result (lv_body receipt))))" "or_receipt_id (lv_body receipt) \<noteq> []"
      "or_receipt_id (lv_body receipt) \<notin> set (es_refs s)"
    and clock: "require_clock_not_before (PStr now) [es_started_at s, es_updated_at s, at_started_at a, at_updated_at a] = Inr ()"
      "require_clock_not_before (PStr now) [PStr (or_started_at (lv_body receipt)), PStr (or_completed_at (lv_body receipt))] = Inr ()"
    and free: "select_row (st_workspace st, es_application_id s, at_operation_identity a) (db_operation_receipts (w_db w)) = None"
  obtains s' w' d where
    "complete_operation_success P E st cap (es_application_id s) (es_digest s) (at_operation_identity a) (at_digest a) owner ctx
       receipt now w = (Inr s', w')"
    "s' = s\<lparr>es_state := PartiallyApplied, es_next := Suc (es_next s), es_refs := es_refs s @ [or_receipt_id (lv_body receipt)],
       es_owner := PNone, es_attempt := PNone, es_updated_at := PStr now, es_digest := d\<rparr>"
    "select_row (st_workspace st, es_application_id s, at_operation_identity a) (db_operation_receipts (w_db w')) =
       Some (operation_receipt_doc (lv_body receipt))"
proof -
  note a = able [unfolded able_def]
  note c = claim(1) [unfolded claimed_state_def]
  let ?r = "lv_body receipt"
  have now: "now \<noteq> []" using clock_nonempty [OF clock(1)] .
  have sealed: "operation_receipt_with_digest P ?r = Inr ?r"
    using r(1) by (auto simp: operation_receipt_verify_True operation_receipt_with_digest_Inr)
  have u: "usable P ctx (tick w)" "usable P ctx (tick (tick w))" "usable P ctx (tick (tick (tick w)))"
    using a usable_later later_tick by metis+
  have live2: "live_in ctx ''operation_receipt'' operation_receipt_payload receipt (tick (tick w))"
    using live live_in_later later_tick by blast
  have ctx: "lv_context receipt = Some (cx_id ctx)" using live by (simp add: live_in_def)
  have v0: "validate_execution_context P E (service_of st) ctx w = (Inr (), tick w)"
    using a validate_ok by metis
  have vr: "validate_live_artifact P E (service_of st) receipt operation_receipt_payload ctx ''operation_receipt'' (tick (tick w)) =
      (Inr (), tick (tick (tick w)))"
    using validate_live_ok [OF _ u(2) _ live2] a by metis
  define na where "na = a\<lparr>at_state := Applied, at_updated_at := PStr now, at_digest := PStr []\<rparr>"
  obtain la w4 where la: "continue_attempt P E ctx a [(''state'', PStr (status_name Applied)), (''updated_at'', PStr now)]
      (tick (tick (tick w))) = (Inr la, w4)"
      "lv_body la = na" "live_in ctx ''attempt'' attempt_payload la w4" "later (tick (tick (tick w))) w4" "w_db w4 = w_db w"
    by (rule continue_attempt_ok [where h = a and a = na and s = Applied and u = "PStr now" and c = "at_failure_code a", OF _ u(3)])
      (use a c now in \<open>auto simp: na_def changed_def attempt_states_def\<close>)
  have u4: "usable P ctx w4" using u(3) la(4) usable_later by blast
  have "plain_attempt (lv_body la)" using c by (simp add: la(2) na_def plain_attempt_def)
  then obtain la' d5 w5 where la': "with_live_digest_attempt P ctx la w4 = (Inr la', w5)" "lv_body la' = na\<lparr>at_digest := PStr d5\<rparr>"
      "live_in ctx ''attempt'' attempt_payload la' w5" "later w4 w5" "w_db w5 = w_db w"
    using with_live_digest_ok(2) [OF _ u4, of E la] a la(2,5) by auto
  have u5: "usable P ctx w5" using u4 la'(4) usable_later by blast
  define ns where "ns = s\<lparr>es_state := PartiallyApplied, es_next := Suc (es_next s), es_refs := es_refs s @ [or_receipt_id ?r],
       es_owner := PNone, es_attempt := PNone, es_updated_at := PStr now\<rparr>"
  have nsok: "exec_state_ok P ns" using c r(6,7) now by (auto simp: ns_def exec_state_ok_def)
  obtain ls w6 where ls: "continue_execution_state P E ctx s
              [(''state'', PStr ''PartiallyApplied''), (''next_operation_index'', PInt (int (es_next s) + 1)),
               (''operation_receipt_refs'', PTuple (map PStr (es_refs s @ [or_receipt_id ?r]))),
               (''owner_id'', PNone), (''current_attempt_id'', PNone), (''updated_at'', PStr now)] w5 = (Inr ls, w6)"
      "lv_body ls = ns\<lparr>es_digest := PStr []\<rparr>" "live_in ctx ''execution'' exec_state_payload ls w6" "later w5 w6" "w_db w6 = w_db w5"
  proof (rule continue_execution_state_ok [where h = s and s = ns, OF _ u5])
    show "exec_state_ok P ns" by (rule nsok)
    show "es_application_id s = id_application_id (cx_identity ctx)" using c by (auto simp: exec_state_ok_def)
    show "steady E" using a by simp
  qed (use c in \<open>auto simp: ns_def changed_def\<close>)
  have u6: "usable P ctx w6" using u5 ls(4) usable_later by blast
  have plain: "plain_state (lv_body ls)" using c by (simp add: ls(2) ns_def plain_state_def)
  then obtain ls' d7 w7 where ls': "with_live_digest_state P ctx ls w6 = (Inr ls', w7)" "lv_body ls' = ns\<lparr>es_digest := PStr d7\<rparr>"
      "live_in ctx ''execution'' exec_state_payload ls' w7" "later w6 w7" "w_db w7 = w_db w6"
    using with_live_digest_ok(1) [OF _ u6, of E ls] a ls(2) by auto
  have u7: "usable P ctx w7" "usable P ctx (tick w7)"
    using u6 ls'(4) usable_later later_tick by blast+
  have "live_in ctx ''attempt'' attempt_payload la' w7"
    using la'(3) ls(4) ls'(4) live_in_later by blast
  then have va: "validate_live_artifact P E (service_of st) la' attempt_payload ctx ''attempt'' w7 = (Inr (), tick w7)"
    using validate_live_ok [OF _ u7(1)] a by metis
  have "live_in ctx ''execution'' exec_state_payload ls' (tick w7)"
    using ls'(3) live_in_later later_tick by blast
  then have vs: "validate_live_artifact P E (service_of st) ls' exec_state_payload ctx ''execution'' (tick w7) = (Inr (), tick (tick w7))"
    using validate_live_ok [OF _ u7(2)] a by metis
  have "select_row (st_workspace st, es_application_id s, or_operation_identity ?r) (db_operation_receipts (w_db (tick (tick w7)))) = None"
    using free r(4) la(5) la'(5) ls(5) ls'(5) by simp
  then obtain w8 where ins: "insert_operation_receipt st (es_application_id s) (or_operation_identity ?r)
      (operation_receipt_doc ?r) (tick (tick w7)) = (Inr (), w8)"
    using insert_ok(3) by blast
  then have "select_row (st_workspace st, es_application_id s, at_operation_identity a) (db_operation_receipts (w_db w8)) =
      Some (operation_receipt_doc ?r)"
    using r(4) table.sel_ins by (fastforce simp: insert_run)
  moreover obtain w9 where ua: "update_attempt st (es_application_id s) (at_operation_identity a)
      (attempt_doc (na\<lparr>at_digest := PStr d5\<rparr>)) w8 = (Inr (), w9)" and w9: "db_operation_receipts (w_db w9) = db_operation_receipts (w_db w8)"
    by (simp add: update_run)
  moreover obtain w10 where us: "update_execution st (es_application_id s) (exec_state_doc (ns\<lparr>es_digest := PStr d7\<rparr>)) w9 = (Inr (), w10)"
    and w10: "db_operation_receipts (w_db w10) = db_operation_receipts (w_db w9)"
    by (simp add: update_run)
  moreover have "complete_operation_success P E st cap (es_application_id s) (es_digest s) (at_operation_identity a) (at_digest a) owner
      ctx receipt now w = (Inr (ns\<lparr>es_digest := PStr d7\<rparr>), commit (w_db (tick (tick w))) w10)"
  proof -
    have j: "jsonable (operation_receipt_doc ?r)" "jsonable (attempt_doc (na\<lparr>at_digest := PStr d5\<rparr>))"
        "jsonable (exec_state_doc (ns\<lparr>es_digest := PStr d7\<rparr>))"
      using jsonable_receipt [OF r(1,5)] jsonable_attempt [of na] jsonable_exec_state [of ns] c
      by (simp_all add: na_def ns_def plain_attempt_def plain_state_def)
    have rows: "claimed_rows P st (es_application_id s) (es_digest s) (at_operation_identity a) (at_digest a) owner (tick (tick w)) =
        (Inr (s, a), tick (tick w))"
      using claimed_rows_ok [OF claim(1), of st "tick (tick w)"] claim(2) by simp
    have cap: "require_orchestration_capability st cap w = (Inr (), w)" "settle_others E (tick w) = (Inr (), tick (tick w))"
      using a by (simp_all add: steps_simps)
    have c': "at_index a = es_next s" using c by simp
    show ?thesis
      using la(1) ctx rows vr ls(1) ins r(4)
      by (simp add: complete_operation_success_def transaction_def atomic_def bnd_exec Let_def cap v0 r(2,3) c'
          steps_simps(7) [OF clock(1)] steps_simps(7) [OF clock(2)] sealed la' ls' va vs steps_simps(6) [OF j(1)]
          steps_simps(6) [OF j(2)] steps_simps(6) [OF j(3)] ua us)
  qed
  ultimately show ?thesis by (intro that [where d = "PStr d7" and w' = "commit (w_db (tick (tick w))) w10"]) (simp_all add: ns_def)
qed

section \<open>Finalizing an application\<close>

lemma digest_of_obj: "literal_keys kvs \<Longrightarrow> list_all (\<lambda>kv. normalizable P (snd kv)) kvs \<Longrightarrow> \<exists>d. digest P (obj kvs) = Inr d"
  using digest_normalizable [OF normalizable_obj] by blast

lemma seal_application_receipt_ok:
  assumes i: "identity_ok P i" and refs: "opset \<noteq> []" "refs \<noteq> []" "distinct refs" "\<forall>(r, d) \<in> set refs. r \<noteq> [] \<and> (\<exists>t. d = PStr t \<and> t \<noteq> [])"
  shows "\<exists>r. seal_application_receipt P i opset refs (PStr x) (PStr y) = Inr r \<and> jsonable (application_receipt_doc r)"
proof -
  obtain h where "digest_hex P (application_receipt_id_payload (id_application_id i)) = Inr h"
  proof -
    have "normalizable P (application_receipt_id_payload (id_application_id i))"
      unfolding application_receipt_id_payload_def by (rule normalizable_obj) (simp_all add: literal_keys_def)
    then show ?thesis using that digest_hex_normalizable by blast
  qed
  then have rid: "application_receipt_id_of P (id_application_id i) = Inr (''application-receipt-'' @ h)"
    by (simp add: application_receipt_id_of_def)
  let ?ps = "map (\<lambda>(i, d). (PStr i, d)) refs"
  have rr: "receipt_refs (refs_value refs) = Inr ?ps"
  proof -
    have "map receipt_ref (map (\<lambda>(i, d). obj [(''operation_receipt_id'', PStr i), (''operation_receipt_digest'', d)]) refs) =
        map (\<lambda>p. Inr (PStr (fst p), snd p)) refs"
      by (auto simp: receipt_ref_Inr)
    then show ?thesis by (simp only: receipt_refs_def refs_value_def iterate.simps option.case sequence_map_Inr)
        (simp add: case_prod_unfold)
  qed
  have ne: "list_all (\<lambda>(i, d). nonempty_str i \<and> nonempty_str d) ?ps"
    using refs(4) by (auto simp: list_all_iff nonempty_str_iff)
  moreover have "list_all (\<lambda>(i, d). hashable i \<and> hashable d) ?ps"
    using refs(4) by (auto simp: list_all_iff)
  moreover have "distinct ?ps"
    using refs(3) by (auto simp: distinct_map inj_on_def)
  ultimately obtain r where r: "ApplicationReceipt P (PStr (''application-receipt-'' @ h)) (PStr (id_application_id i)) (Inr i)
      (PStr opset) (refs_value refs) (PStr ''Applied'') (PStr x) (PStr y) (PStr []) = Inr r"
      "ar_started_at r = PStr x" "ar_completed_at r = PStr y"
    using rr rid refs(1,2) unfolding ApplicationReceipt_def by (simp add: raise_if_def)
  have "normalizable P (PList (map receipt_ref_doc (ar_refs r)))"
    by (auto simp: receipt_ref_doc_def list_all_iff literal_keys_def intro!: normalizable_obj)
  then obtain d where d: "digest P (application_receipt_payload r) = Inr d"
    using digest_of_obj [of "application_receipt_kvs r" P] r(2,3)
    by (auto simp: application_receipt_payload_def application_receipt_kvs_def literal_keys_def)
  have "list_all jsonable (map receipt_ref_doc (ar_refs r))"
    by (auto simp: receipt_ref_doc_def list_all_iff intro: jsonable_obj)
  then have "jsonable (application_receipt_doc (r\<lparr>ar_digest := PStr d\<rparr>))"
    unfolding application_receipt_doc_def using r(2,3)
    by (intro jsonable_obj) (simp add: application_receipt_kvs_def)
  then show ?thesis
    using rid r d by (simp add: seal_application_receipt_def application_receipt_with_digest_def)
qed

text \<open>The durable, verified and timely receipt of the operation with identity \<open>op_id\<close> at place \<open>i\<close>.\<close>

definition receipt_stored :: "prims \<Rightarrow> env \<Rightarrow> exec_store \<Rightarrow> string \<Rightarrow> nat \<Rightarrow> nat \<Rightarrow> string \<Rightarrow> database \<Rightarrow> bool" where
  "receipt_stored P E st app t i op_id d \<longleftrightarrow> (\<exists>doc r.
     select_row (st_workspace st, app, op_id) (db_operation_receipts d) = Some doc \<and> decode_operation_receipt P doc = Inr r \<and>
     operation_receipt_verify P r = Inr True \<and> or_index r = int i \<and> or_operation_identity r = op_id \<and>
     stamped E t (PStr (or_started_at r)) \<and> stamped E t (PStr (or_completed_at r)))"

lemma finalization_refs_ok:
  assumes "steady_clock E" and "\<forall>j < length ops. \<exists>op_id.
     operation_identity P app (int (i + j)) (operation_doc (ops ! j)) = Inr op_id \<and>
     receipt_stored P E st app t (i + j) op_id (w_db w)"
  shows "\<exists>refs. finalization_refs P st app (utc_text (env_clock E t)) i ops w = (Inr refs, w)"
  using assms(2)
proof (induction ops arbitrary: i)
  case (Cons op ops)
  obtain op_id doc r where *: "operation_identity P app (int i) (operation_doc op) = Inr op_id"
      "select_row (st_workspace st, app, op_id) (db_operation_receipts (w_db w)) = Some doc" "decode_operation_receipt P doc = Inr r"
      "operation_receipt_verify P r = Inr True" "or_index r = int i"
      "stamped E t (PStr (or_started_at r))" "stamped E t (PStr (or_completed_at r))"
    using Cons.prems [rule_format, of 0] by (auto simp: receipt_stored_def)
  have clock: "require_clock_not_before (PStr (utc_text (env_clock E t))) [PStr (or_started_at r)] = Inr ()"
      "require_clock_not_before (PStr (utc_text (env_clock E t))) [PStr (or_completed_at r)] = Inr ()"
    using stamped_clock [OF assms(1)] *(6,7) by simp_all
  then obtain s where s: "execution_timestamp (PStr (or_started_at r)) = Inr s"
    by (auto simp: require_clock_not_before_Inr)
  have "\<exists>op_id. operation_identity P app (int (Suc i + j)) (operation_doc (ops ! j)) = Inr op_id \<and>
     receipt_stored P E st app t (Suc i + j) op_id (w_db w)" if "j < length ops" for j
    using Cons.prems [rule_format, of "Suc j"] that by simp
  then obtain refs where "finalization_refs P st app (utc_text (env_clock E t)) (Suc i) ops w = (Inr refs, w)"
    using Cons.IH [of "Suc i"] by blast
  then show ?case using * s steps_simps(7) [OF clock(2)] by (simp add: bnd_exec steps_simps)
qed simp

lemma receipted_stored:
  assumes "receipted P (st_workspace st) app d j op ref" "operation_identity P app (int j) (operation_doc op) = Inr op_id"
    and "receipt_stored P E st app t j op_id d"
  shows "operation_receipt_id_of P op_id = Inr (fst ref) \<and> fst ref \<noteq> [] \<and> (\<exists>x. snd ref = PStr x \<and> x \<noteq> [])"
proof -
  obtain doc r where r: "decode_operation_receipt P doc = Inr r" "operation_receipt_verify P r = Inr True"
      "or_operation_identity r = op_id" "ref = (or_receipt_id r, or_digest r)"
    using assms by (auto simp: receipted_def receipt_stored_def)
  have "operation_receipt_id_of P op_id = Inr (or_receipt_id r)"
    using decode_operation_receipt_ok [OF r(1)] r(3) by (auto simp: operation_receipt_ok_def)
  moreover have "or_receipt_id r \<noteq> []" using calculation by (auto simp: operation_receipt_id_of_def rbind_Inr)
  ultimately show ?thesis using r(2,4) by (auto simp: operation_receipt_verify_True dest: digest_nonempty)
qed

lemma finalize_application_ok:
  assumes able: "able P E st cap ctx w" and clock: "steady_clock E"
    and row: "select_row (st_workspace st, app) (db_executions (w_db w)) = Some (exec_state_doc s)"
    and s: "exec_state_ok P s" "exec_state_verify P s = Inr True" "es_managed s" "es_state s = PartiallyApplied"
      "es_next s = length (cx_operations ctx)" "es_owner s = PNone" "es_attempt s = PNone" "es_identity s = cx_identity ctx"
      "es_anchor s = cx_anchor ctx" "plain_state s" "stamped E t (es_started_at s)" "stamped E t (es_updated_at s)"
    and app: "app = id_application_id (cx_identity ctx)" and ops: "cx_operations ctx \<noteq> []"
    and ids: "operation_ids P app (cx_operations ctx) = Inr ids" "distinct (map (operation_receipt_id_of P) ids)"
    and receipts: "\<And>i. i < length ids \<Longrightarrow> receipt_stored P E st app t i (ids ! i) (w_db w)"
    and free: "select_row (st_workspace st, app) (db_application_receipts (w_db w)) = None"
  shows "\<exists>s' w'. finalize_application P E st cap app (es_digest s) ctx (utc_text (env_clock E t)) w = (Inr s', w')"
proof -
  note a = able [unfolded able_def]
  note ids' = operation_ids_Inr [OF ids(1)]
  let ?now = "utc_text (env_clock E t)"
  have ctx: "context_ok P ctx" using a by (simp add: usable_def)
  have u: "usable P ctx (tick w)" "usable P ctx (tick (tick w))" using a usable_later later_tick by metis+
  have v0: "validate_execution_context P E (service_of st) ctx w = (Inr (), tick w)" using a validate_ok by metis
  have "\<exists>op_id. operation_identity P app (int (0 + j)) (operation_doc (cx_operations ctx ! j)) = Inr op_id \<and>
     receipt_stored P E st app t (0 + j) op_id (w_db (tick (tick w)))" if "j < length (cx_operations ctx)" for j
    using ids' receipts that by simp
  then obtain refs where refs: "finalization_refs P st app ?now 0 (cx_operations ctx) (tick (tick w)) = (Inr refs, tick (tick w))"
    using finalization_refs_ok [OF clock] by blast
  note refs' = finalization_refs_run [OF refs]
  have ref: "operation_receipt_id_of P (ids ! j) = Inr (fst (refs ! j)) \<and> fst (refs ! j) \<noteq> [] \<and> (\<exists>x. snd (refs ! j) = PStr x \<and> x \<noteq> [])"
    if "j < length refs" for j
    using receipted_stored [of P st app "w_db w" j "cx_operations ctx ! j" "refs ! j" "ids ! j" E t] refs' receipts ids' that by simp
  have "map (operation_receipt_id_of P) ids = map (Inr \<circ> fst) refs"
    using ref refs' ids'(1) by (intro nth_equalityI) simp_all
  then have "distinct refs" using ids(2) by (metis distinct_map)
  moreover have "\<forall>(r, d) \<in> set refs. r \<noteq> [] \<and> (\<exists>t. d = PStr t \<and> t \<noteq> [])"
    using ref by (force simp: in_set_conv_nth)
  moreover have "refs \<noteq> []" using refs' ops by auto
  moreover have "cx_operation_set_digest ctx \<noteq> []"
    using ctx context_ok_identity [OF ctx] by (auto simp: context_ok_def identity_ok_def values_ok_def list_all_iff)
  ultimately obtain r where r: "seal_application_receipt P (cx_identity ctx) (cx_operation_set_digest ctx) refs (PStr ?now) (PStr ?now) =
      Inr r" "jsonable (application_receipt_doc r)"
    using seal_application_receipt_ok [OF context_ok_identity [OF ctx]] by blast
  obtain lr w3 where lr: "register ctx ''application_receipt'' application_receipt_payload r (tick (tick (tick w))) = (Inr lr, w3)"
      "lv_body lr = r" "live_in ctx ''application_receipt'' application_receipt_payload lr w3" "later (tick (tick (tick w))) w3"
      "w_db w3 = w_db (tick (tick (tick w)))"
    by (rule register_ok)
  have nr: "new_application_receipt_from_refs P E ctx refs (PStr ?now) (PStr ?now) (tick (tick w)) = (Inr lr, w3)"
    unfolding new_application_receipt_from_refs_def using a r(1) lr(1) validate_ok [OF _ u(2) refl, of E] by (simp add: bnd_exec)
  have u3: "usable P ctx w3" "usable P ctx (tick w3)"
    using a lr(4) usable_later later_trans later_tick by blast+
  have vr: "validate_live_artifact P E (service_of st) lr application_receipt_payload ctx ''application_receipt'' w3 = (Inr (), tick w3)"
    using validate_live_ok [OF _ u3(1) _ lr(3)] a by metis
  define ns where "ns = s\<lparr>es_state := Applied, es_completed_at := PStr ?now, es_updated_at := PStr ?now\<rparr>"
  have nsok: "exec_state_ok P ns" using s by (auto simp: ns_def exec_state_ok_def)
  obtain ls w6 where ls: "continue_execution_state P E ctx s
              [(''state'', PStr ''Applied''), (''completed_at'', PStr ?now), (''updated_at'', PStr ?now)] (tick w3) = (Inr ls, w6)"
      "lv_body ls = ns\<lparr>es_digest := PStr []\<rparr>" "live_in ctx ''execution'' exec_state_payload ls w6" "later (tick w3) w6"
      "w_db w6 = w_db (tick w3)"
    by (rule continue_execution_state_ok [where h = s and s = ns, OF _ u3(2)])
      (use a s nsok in \<open>auto simp: ns_def changed_def exec_state_ok_def\<close>)
  have u6: "usable P ctx w6" using u3(2) ls(4) usable_later by blast
  have "plain_state (lv_body ls)" using s by (simp add: ls(2) ns_def plain_state_def)
  then obtain ls' d7 w7 where ls': "with_live_digest_state P ctx ls w6 = (Inr ls', w7)" "lv_body ls' = ns\<lparr>es_digest := PStr d7\<rparr>"
      "live_in ctx ''execution'' exec_state_payload ls' w7" "later w6 w7" "w_db w7 = w_db w6"
    using with_live_digest_ok(1) [OF _ u6, of E ls] a ls(2) by auto
  have u7: "usable P ctx w7" using u6 ls'(4) usable_later by blast
  have vs: "validate_live_artifact P E (service_of st) ls' exec_state_payload ctx ''execution'' w7 = (Inr (), tick w7)"
    using validate_live_ok [OF _ u7 _ ls'(3)] a by metis
  have "select_row (st_workspace st, app) (db_application_receipts (w_db (tick w7))) = None"
    using free lr(5) ls(5) ls'(5) by simp
  then obtain w8 where ins: "insert_application_receipt st app (application_receipt_doc r) (tick w7) = (Inr (), w8)"
    using insert_ok(4) by blast
  obtain w9 where us: "update_execution st app (exec_state_doc (ns\<lparr>es_digest := PStr d7\<rparr>)) w8 = (Inr (), w9)"
    using update_ok(1) by blast
  have j: "jsonable (exec_state_doc (ns\<lparr>es_digest := PStr d7\<rparr>))"
    using jsonable_exec_state [of ns] s by (simp add: ns_def plain_state_def)
  have cap: "require_orchestration_capability st cap w = (Inr (), w)" "settle_others E (tick w) = (Inr (), tick (tick w))"
    using a by (simp_all add: steps_simps)
  have c: "require_clock_not_before (PStr ?now) [es_started_at s, es_updated_at s] = Inr ()"
    using stamped_clock [OF clock] s(11,12) by simp
  then obtain x y where xy: "execution_timestamp (es_started_at s) = Inr x" "execution_timestamp (es_updated_at s) = Inr y"
    by (auto simp: require_clock_not_before_Inr)
  have "finalize_application P E st cap app (es_digest s) ctx ?now w = (Inr (ns\<lparr>es_digest := PStr d7\<rparr>), commit (w_db (tick (tick w))) w9)"
    using s(2-7) row exec_state_roundtrip [OF s(1)] refs nr
    by (simp add: finalize_application_def transaction_def atomic_def bnd_exec cap v0 steps_simps(1,5) xy lr(2)
        steps_simps(7) [OF c] vr ls(1) ls' vs steps_simps(6) [OF j] steps_simps(6) [OF r(2)] ins us)
  then show ?thesis by blast
qed

end
