(* ===== verification/Applier_Completion.thy ===== *)
theory Applier_Completion
  imports Applier_Runs Store_Completion
begin

text \<open>
  The applier finishes its work: in favourable circumstances a run over an application of creations
  sends each command once, in the approved order, and answers that the application is applied, with
  the receipt.  One lemma per step of a pass, one per pass, and the induction over the passes.
\<close>

section \<open>Text with a visible character\<close>

lemma strip_front_keeps: "c \<in> set s \<Longrightarrow> \<forall>t \<in> set toks. c \<notin> set t \<Longrightarrow> c \<in> set (strip_front toks s)"
proof (induction toks s rule: strip_front.induct)
  case (1 toks s)
  show ?case
  proof (cases "find (\<lambda>t. t \<noteq> [] \<and> prefix t s) toks")
    case None
    then show ?thesis using 1(2) by (subst strip_front.simps) simp
  next
    case (Some t)
    then have t: "t \<in> set toks" "prefix t s" by (auto simp: find_Some_iff)
    then have "c \<in> set (drop (length t) s)" using 1(2,3) by (auto simp: prefix_def)
    then show ?thesis using 1(1) [OF Some] 1(3) Some by (subst strip_front.simps) simp
  qed
qed

lemma nonblank_visible: "CHR ''a'' \<in> set s \<Longrightarrow> nonblank (PStr s)"
proof -
  assume "CHR ''a'' \<in> set s"
  moreover have "\<forall>t \<in> set ws_tokens. CHR ''a'' \<notin> set t" by code_simp
  ultimately have "CHR ''a'' \<in> set (strip s)"
    unfolding strip_def rstrip_def lstrip_def by (simp add: strip_front_keeps)
  then show ?thesis by auto
qed

lemma request_nonblank: "request_identity P op = Inr r \<Longrightarrow> nonblank (PStr r)"
  by (rule nonblank_visible) (auto simp: request_identity_def rbind_Inr raise_if_Inr)

section \<open>Favourable circumstances\<close>

text \<open>The operation creates an issue from a sealed item that can be rendered.\<close>

definition creatable :: "prims \<Rightarrow> exec_context \<Rightarrow> write_op \<Rightarrow> bool" where
  "creatable P ctx op \<longleftrightarrow> operation_kind op = ''create_issue'' \<and> client_refs op \<noteq> [] \<and> nonblank (PStr (hd (client_refs op))) \<and>
     (\<exists>items item title body. items_by_ref (canonical_items ctx) = Inr items \<and>
        item_lookup items (PStr (hd (client_refs op))) = Inr (Some item) \<and> render_create_issue item = Inr (title, body) \<and>
        nonblank (PStr title) \<and> nonblank (PStr body)) \<and>
     (\<exists>repo. normalize_repository_identity P (repository_of ctx) = Inr repo)"

text \<open>The driver answers every creation with evidence the applier trusts.\<close>

definition trusted_driver :: "prims \<Rightarrow> env \<Rightarrow> exec_context \<Rightarrow> bool" where
  "trusted_driver P E ctx \<longleftrightarrow> (\<forall>t command. \<exists>ob. env_driver E t ''create_issue'' command = Inr ob \<and>
     ob_kind ob = DefinitiveSuccess \<and> is_mapping (ob_result_payload ob) \<and>
     trusted_payload ''create_issue'' (repository_of ctx) (ob_result_payload ob) = Inr () \<and> nonempty_str (ob_result_identity ob) \<and>
     normalizable P (ob_result_payload ob) \<and> jsonable (out_value (copy_value (ob_result_payload ob))))"

text \<open>The host's credential passes the check before each dispatch.\<close>

definition credential_admits :: "prims \<Rightarrow> env \<Rightarrow> exec_context \<Rightarrow> bool" where
  "credential_admits P E ctx \<longleftrightarrow>
     (\<forall>w. usable P ctx w \<longrightarrow> validate_live_credential_dispatch P E ctx w = (Inr (), w\<lparr>w_tick := w_tick w + 3\<rparr>))"

definition favourable :: "prims \<Rightarrow> env \<Rightarrow> exec_store \<Rightarrow> capability option \<Rightarrow> exec_context \<Rightarrow> string list \<Rightarrow> bool" where
  "favourable P E st cap ctx ids \<longleftrightarrow>
     steady E \<and> steady_clock E \<and> (\<forall>t. length (env_owner E t) = 32) \<and> credential_admits P E ctx \<and> trusted_driver P E ctx \<and>
     capability_valid st cap \<and> service_of st = cx_service ctx \<and> identity_workspace (cx_identity ctx) = st_workspace st \<and>
     cx_operations ctx \<noteq> [] \<and> list_all (creatable P ctx) (cx_operations ctx) \<and>
     operation_ids P (id_application_id (cx_identity ctx)) (cx_operations ctx) = Inr ids \<and>
     distinct (map (operation_receipt_id_of P) ids)"

lemma favourable_able: "favourable P E st cap ctx ids \<Longrightarrow> usable P ctx w \<Longrightarrow> able P E st cap ctx w"
  by (simp add: favourable_def able_def)

text \<open>The instant of a step: nothing but the time has changed.\<close>

abbreviation ticked :: "nat \<Rightarrow> world \<Rightarrow> world" where
  "ticked n w \<equiv> w\<lparr>w_tick := w_tick w + n\<rparr>"

lemma usable_ticked [simp]: "usable P ctx (w\<lparr>w_tick := n\<rparr>) = usable P ctx w"
  by (simp add: usable_def)

lemma now_text_run: "now_text E w = (Inr (utc_text (env_clock E (w_tick w))), ticked 1 w)"
  by (simp add: now_text_def bnd_exec ask_def)

section \<open>Reading the claim back and making the command\<close>

lemma get_execution_ok:
  assumes "steady E" "select_row (st_workspace st, es_application_id s) (db_executions (w_db w)) = Some (exec_state_doc s)"
    and "exec_state_ok P s" "exec_state_verify P s = Inr True" "es_state s \<noteq> Applied" "identity_workspace (es_identity s) = st_workspace st"
  shows "get_execution P E st (es_application_id s) expected w = (Inr s, ticked 1 w)"
  using assms exec_state_roundtrip [OF assms(3)]
  by (simp add: get_execution_def load_execution_state_def read_db_def bnd_exec steps_simps integrity_def)

lemma get_attempt_ok:
  assumes "steady E" "select_row (st_workspace st, at_application_id a, at_operation_identity a) (db_attempts (w_db w)) = Some (attempt_doc a)"
    and "attempt_ok P a" "attempt_verify P a = Inr True" "identity_workspace (at_identity a) = st_workspace st"
  shows "get_attempt P E st (at_application_id a) (at_operation_identity a) w = (Inr a, ticked 1 w)"
  using assms attempt_roundtrip [OF assms(3)]
  by (simp add: get_attempt_def read_db_def bnd_exec steps_simps integrity_def)

lemma materialize_creation_ok:
  assumes op: "creatable P ctx (at_operation a)" and a: "attempt_ok P a"
  shows "\<exists>c. materialize P E st ctx a w = (Inr c, w)"
proof -
  let ?op = "at_operation a"
  obtain items item title body repo where o: "operation_kind ?op = ''create_issue''" "client_refs ?op \<noteq> []"
      "nonblank (PStr (hd (client_refs ?op)))" "items_by_ref (canonical_items ctx) = Inr items"
      "item_lookup items (PStr (hd (client_refs ?op))) = Inr (Some item)" "render_create_issue item = Inr (title, body)"
      "nonblank (PStr title)" "nonblank (PStr body)" "normalize_repository_identity P (repository_of ctx) = Inr repo"
    using op by (auto simp: creatable_def)
  have "nonblank (PStr (at_request_identity a))" using a request_nonblank by (auto simp: attempt_ok_def)
  then have c: "create_command P ctx item (PStr (hd (client_refs ?op))) (at_request_identity a) =
      Inr (CreateIssue repo (hd (client_refs ?op)) title body (at_request_identity a))"
    using o by (simp add: create_command_def CreateIssueCommand_def)
  have d: "dict_item (operation_doc ?op) ''operation_kind'' = Inr (PStr ''create_issue'')"
    "dict_item (operation_doc ?op) ''client_refs'' = Inr (strs (client_refs ?op))"
    "dict_lookup (operation_doc ?op) ''operands'' = None" "dict_lookup (operation_doc ?op) ''endpoint'' = None"
    using o(1) by (simp_all add: dict_item_def operation_doc_def)
  have "sequence_item (strs (client_refs ?op)) 0 = Inr (PStr (hd (client_refs ?op)))"
    using o(2) by (simp add: sequence_item_def strs_def hd_conv_nth)
  then show ?thesis
    using c d o(4,5) by (simp add: materialize_def materialize_refs_def bnd_exec)
qed

lemma claimed_application: "claimed_state P ctx owner s a \<Longrightarrow>
    es_application_id s = id_application_id (cx_identity ctx) \<and> at_application_id a = id_application_id (cx_identity ctx)"
  by (auto simp: claimed_state_def exec_state_ok_def attempt_ok_def)

lemma prepare_ok:
  assumes fav: "favourable P E st cap ctx ids" and use: "usable P ctx w"
    and claim: "claimed_state P ctx owner s a" "claim_rows st s a (w_db w)"
  shows "\<exists>c. prepare P E st cap ctx s a owner w = (Inr c, ticked 3 w)"
proof -
  note f = fav [unfolded favourable_def]
  note c = claim(1) [unfolded claimed_state_def] and app = claimed_application [OF claim(1)]
  let ?app = "id_application_id (cx_identity ctx)"
  have v: "validate_execution_context P E (service_of st) ctx w = (Inr (), ticked 1 w)"
    using validate_ok [OF _ use, of E "service_of st"] f by simp
  have "es_state s \<noteq> Applied" using c by simp
  then have s: "get_execution P E st ?app None (ticked 1 w) = (Inr s, ticked 2 w)"
    using get_execution_ok [of E st s "ticked 1 w" P None] f c claim(2) app by (simp add: claim_rows_def)
  have a: "get_attempt P E st ?app (at_operation_identity a) (ticked 2 w) = (Inr a, ticked 3 w)"
    using get_attempt_ok [of E st a "ticked 2 w" P] f c claim(2) app by (simp add: claim_rows_def)
  have "creatable P ctx (at_operation a)" using f c by (simp add: list_all_length)
  then obtain command where m: "materialize P E st ctx a (ticked 3 w) = (Inr command, ticked 3 w)"
    using materialize_creation_ok c by blast
  have "validate_claim P E st cap ?app (es_digest s) (at_operation_identity a) (at_digest a) owner ctx w = (Inr (s, a), ticked 3 w)"
    using f c s a v by (simp add: validate_claim_def bnd_exec steps_simps)
  then show ?thesis using m by (simp add: prepare_def bnd_exec)
qed

section \<open>Sending the command and recording its success\<close>

lemma dispatch_ok:
  assumes fav: "favourable P E st cap ctx ids" and use: "usable P ctx w"
  obtains ob where "dispatch P E key ctx ''create_issue'' command w =
      (Inr ob, w\<lparr>w_tick := w_tick w + 4, w_sent := w_sent w @ [(key, ''create_issue'', command)]\<rparr>)"
    "ob_kind ob = DefinitiveSuccess" "is_mapping (ob_result_payload ob)" "nonempty_str (ob_result_identity ob)"
    "trusted_payload ''create_issue'' (repository_of ctx) (ob_result_payload ob) = Inr ()" "normalizable P (ob_result_payload ob)"
    "jsonable (out_value (copy_value (ob_result_payload ob)))"
proof -
  note f = fav [unfolded favourable_def]
  obtain ob where ob: "env_driver E (w_tick w + 3) ''create_issue'' command = Inr ob"
    "ob_kind ob = DefinitiveSuccess" "is_mapping (ob_result_payload ob)" "nonempty_str (ob_result_identity ob)"
    "trusted_payload ''create_issue'' (repository_of ctx) (ob_result_payload ob) = Inr ()" "normalizable P (ob_result_payload ob)"
    "jsonable (out_value (copy_value (ob_result_payload ob)))"
    using f unfolding trusted_driver_def by meson
  have "validate_live_credential_dispatch P E ctx w = (Inr (), ticked 3 w)"
    using f use by (simp add: credential_admits_def)
  then have "dispatch P E key ctx ''create_issue'' command w =
      (Inr ob, w\<lparr>w_tick := w_tick w + 4, w_sent := w_sent w @ [(key, ''create_issue'', command)]\<rparr>)"
    using ob(1) by (simp add: dispatch_def bnd_exec ask_def eval_nat_numeral)
  then show ?thesis using that ob by blast
qed

lemma trusted_success_result_ok:
  assumes "operation_kind (at_operation a) = ''create_issue''" "is_mapping (ob_result_payload ob)"
    "nonempty_str (ob_result_identity ob)" "trusted_payload ''create_issue'' (repository_of ctx) (ob_result_payload ob) = Inr ()"
    "normalizable P (ob_result_payload ob)"
  obtains v rr where "trusted_success_result P ctx a ob = Inr v" "remote_result P v = Inr rr"
    "rr_payload rr = copy_value (ob_result_payload ob)"
proof -
  obtain h where d: "digest P (ob_result_payload ob) = Inr h" "digest P (copy_value (ob_result_payload ob)) = Inr h" "h \<noteq> []"
    using digest_normalizable [OF assms(5)] by (auto simp: digest_def canonical_payload_def normalize_copy)
  let ?v = "obj [(''result_kind'', PStr ''github.create_issue.v1''), (''result_identity'', ob_result_identity ob),
       (''result_digest'', PStr h), (''result_payload'', ob_result_payload ob)]"
  have t: "trusted_success_result P ctx a ob = Inr ?v"
    using assms d by (simp add: trusted_success_result_def raise_if_def)
  have "has_exactly ?v remote_result_fields" by (simp add: has_exactly_obj remote_result_fields_def)
  then have "remote_result P ?v = Inr \<lparr>rr_kind = ''github.create_issue.v1'', rr_identity = str_of (ob_result_identity ob),
      rr_digest = h, rr_payload = copy_value (ob_result_payload ob)\<rparr>"
    using assms(2,3) d by (simp add: remote_result_def raise_if_def)
  then show ?thesis using that [OF t] by simp
qed

text \<open>What is known of the clock fields of a claim.\<close>

definition claim_stamped :: "env \<Rightarrow> nat \<Rightarrow> exec_state \<Rightarrow> attempt \<Rightarrow> bool" where
  "claim_stamped E t s a \<longleftrightarrow>
     stamped E t (es_started_at s) \<and> stamped E t (es_updated_at s) \<and> stamped E t (at_started_at a) \<and> stamped E t (at_updated_at a)"

lemma record_success_ok:
  assumes fav: "favourable P E st cap ctx ids" and use: "usable P ctx w"
    and claim: "claimed_state P ctx owner s a" "claim_rows st s a (w_db w)" "claim_stamped E (w_tick w) s a"
    and ob: "is_mapping (ob_result_payload ob)" "nonempty_str (ob_result_identity ob)"
      "trusted_payload ''create_issue'' (repository_of ctx) (ob_result_payload ob) = Inr ()" "normalizable P (ob_result_payload ob)"
      "jsonable (out_value (copy_value (ob_result_payload ob)))"
    and fresh: "operation_receipt_id_of P (at_operation_identity a) \<notin> Inr ` set (es_refs s)"
      "select_row (st_workspace st, es_application_id s, at_operation_identity a) (db_operation_receipts (w_db w)) = None"
  obtains s' w' receipt_id d t where "record_success P E st cap ctx s a owner ob w = (Inr s', w')"
    "s' = s\<lparr>es_state := PartiallyApplied, es_next := Suc (es_next s), es_refs := es_refs s @ [receipt_id],
       es_owner := PNone, es_attempt := PNone, es_updated_at := PStr (utc_text (env_clock E t)), es_digest := d\<rparr>"
    "operation_receipt_id_of P (at_operation_identity a) = Inr receipt_id" "t \<le> w_tick w'"
    "receipt_stored P E st (es_application_id s) (w_tick w') (es_next s) (at_operation_identity a) (w_db w')"
    "w_tick w \<le> w_tick w'" "w_contexts w' = w_contexts w" "w_sent w' = w_sent w"
    "\<exists>r n x y. w_db w' = w_db w\<lparr>db_operation_receipts := r,
       db_attempts := update_row (st_workspace st, es_application_id s, at_operation_identity a) x (db_attempts (w_db w)),
       db_executions := update_row (st_workspace st, es_application_id s) (exec_state_doc s') (db_executions (w_db w))\<rparr> \<and>
       insert_row (st_workspace st, es_application_id s, at_operation_identity a) y (db_operation_receipts (w_db w)) = Inr r"
    "exec_state_ok P s'" "exec_state_verify P s' = Inr True"
proof -
  note f = fav [unfolded favourable_def]
  note c = claim(1) [unfolded claimed_state_def] and app = claimed_application [OF claim(1)]
  have ok: "context_ok P ctx" using use by (simp add: usable_def)
  have kind: "operation_kind (at_operation a) = ''create_issue''"
    using f c by (simp add: list_all_length creatable_def)
  obtain v rr where v: "trusted_success_result P ctx a ob = Inr v" "remote_result P v = Inr rr"
      "rr_payload rr = copy_value (ob_result_payload ob)"
    using trusted_success_result_ok kind ob by metis
  obtain x where x: "at_started_at a = PStr x" "x \<noteq> []"
    using claim(3) by (auto simp: claim_stamped_def stamped_def)
  let ?completed = "utc_text (env_clock E (w_tick w))"
  have i: "at_index a < length (cx_operations ctx)" using c by simp
  obtain l w2 where l: "new_receipt P E ctx (at_index a) v (PStr x) (PStr ?completed) (ticked 1 w) = (Inr l, w2)"
    "live_in ctx ''operation_receipt'' operation_receipt_payload l w2" "later (ticked 1 w) w2" "w_db w2 = w_db (ticked 1 w)"
    "or_started_at (lv_body l) = x" "or_completed_at (lv_body l) = ?completed" "or_result (lv_body l) = rr"
    by (rule new_receipt_ok [of E P ctx "ticked 1 w" "at_index a" v rr x ?completed]) (use f use i v(2) x(2) in simp_all)
  note l' = new_receipt_run [OF l(1)]
  have rok: "operation_receipt_ok P (lv_body l)" "or_operation (lv_body l) = cx_operations ctx ! at_index a"
    using l'(11) [OF ok] by simp_all
  have rop: "or_operation_identity (lv_body l) = at_operation_identity a"
  proof -
    let ?id = "operation_identity P (id_application_id (cx_identity ctx)) (int (at_index a)) (operation_doc (cx_operations ctx ! at_index a))"
    have "?id = Inr (or_operation_identity (lv_body l))"
      using rok l'(3,4,6) by (simp add: operation_receipt_ok_def)
    moreover have "?id = Inr (at_operation_identity a)"
    proof -
      have "attempt_ok P a" "at_operation a = cx_operations ctx ! at_index a" "at_application_id a = id_application_id (cx_identity ctx)"
        using c app by simp_all
      then show ?thesis by (auto simp: attempt_ok_def)
    qed
    ultimately show ?thesis by simp
  qed
  have rid: "operation_receipt_id_of P (at_operation_identity a) = Inr (or_receipt_id (lv_body l))"
    using rok(1) rop by (simp add: operation_receipt_ok_def)
  have ridne: "or_receipt_id (lv_body l) \<noteq> []" using rid by (auto simp: operation_receipt_id_of_def rbind_Inr)
  have tick2: "w_tick w + 1 \<le> w_tick w2" using l(3) by (simp add: later_def)
  let ?now = "utc_text (env_clock E (w_tick w2))"
  have use3: "usable P ctx (ticked 1 w2)" using use l(3) by (simp add: usable_def later_def)
  have live3: "live_in ctx ''operation_receipt'' operation_receipt_payload l (ticked 1 w2)"
    using l(2) by (simp add: live_in_def)
  have stamps: "stamped E (w_tick w2) v" if "stamped E (w_tick w) v" for v
    using stamped_later [OF that] tick2 by simp
  have clock: "require_clock_not_before (PStr ?now) [es_started_at s, es_updated_at s, at_started_at a, at_updated_at a] = Inr ()"
    "require_clock_not_before (PStr ?now) [PStr (or_started_at (lv_body l)), PStr (or_completed_at (lv_body l))] = Inr ()"
  proof -
    have "steady_clock E" using f by simp
    moreover have "stamped E (w_tick w2) (PStr ?completed)" using tick2 by (intro stamped_now) simp
    moreover have "\<forall>v \<in> {es_started_at s, es_updated_at s, at_started_at a, at_updated_at a}. stamped E (w_tick w2) v"
      using claim(3) stamps by (auto simp: claim_stamped_def)
    ultimately show "require_clock_not_before (PStr ?now) [es_started_at s, es_updated_at s, at_started_at a, at_updated_at a] = Inr ()"
      "require_clock_not_before (PStr ?now) [PStr (or_started_at (lv_body l)), PStr (or_completed_at (lv_body l))] = Inr ()"
      using l(5,6) x(1) by (auto intro: stamped_clock)
  qed
  have rows: "claim_rows st s a (w_db (ticked 1 w2))" using claim(2) l(4) by simp
  obtain s' w' d where s': "complete_operation_success P E st cap (es_application_id s) (es_digest s) (at_operation_identity a)
      (at_digest a) owner ctx l ?now (ticked 1 w2) = (Inr s', w')"
    "s' = s\<lparr>es_state := PartiallyApplied, es_next := Suc (es_next s), es_refs := es_refs s @ [or_receipt_id (lv_body l)],
       es_owner := PNone, es_attempt := PNone, es_updated_at := PStr ?now, es_digest := d\<rparr>"
    "select_row (st_workspace st, es_application_id s, at_operation_identity a) (db_operation_receipts (w_db w')) =
       Some (operation_receipt_doc (lv_body l))"
  proof (rule complete_operation_success_ok [where now = ?now, OF favourable_able [OF fav use3] claim(1) rows live3])
    show "or_index (lv_body l) = int (es_next s)" using l'(3) c by simp
    show "or_receipt_id (lv_body l) \<notin> set (es_refs s)" using fresh(1) rid by auto
    show "jsonable (out_value (rr_payload (or_result (lv_body l))))" using l(7) v(3) ob(5) by simp
    show "select_row (st_workspace st, es_application_id s, at_operation_identity a)
        (db_operation_receipts (w_db (ticked 1 w2))) = None" using l(4) fresh(2) by simp
    show "or_application_id (lv_body l) = es_application_id s" using l'(4) app by simp
  qed (use l'(7) rop ridne clock in \<open>blast+\<close>)
  have rely: "rely E" using f by (simp add: rely_def steady_def history_refl)
  have g: "grows (ticked 1 w2) w'" using moves_run [OF grows_managed(3) [OF rely] s'(1)] .
  have "w_tick w2 + 1 \<le> w_tick w'" "w_contexts w' = w_contexts w" "w_sent w' = w_sent w"
    using g l(3) by (simp_all add: grows_def later_def)
  note later = this
  have stored: "receipt_stored P E st (es_application_id s) (w_tick w') (es_next s) (at_operation_identity a) (w_db w')"
    unfolding receipt_stored_def
    using s'(3) operation_receipt_roundtrip [OF rok(1)] l'(3,7) rop l(5,6) x(1) claim(3) later(1) tick2 c
      stamped_later [of E "w_tick w" "at_started_at a" "w_tick w'"] stamped_now [of "w_tick w" "w_tick w'" E]
    by (auto simp: claim_stamped_def)
  have run: "record_success P E st cap ctx s a owner ob w = (Inr s', w')"
    using v(1) l(1) s'(1) x(1) app by (simp add: record_success_def bnd_exec now_text_run)
  show ?thesis
    using s'(1) ok rok(1)
  proof (rule complete_operation_success_run, goal_cases)
    case (1 t doc row prev attempt a' r rows)
    have "env_others E t (w_db (ticked 1 w2)) = w_db w" using f l(4) by (simp add: steady_def)
    note db = this
    have "attempt = a"
      using 1(6,7) db claim(2) attempt_roundtrip [of P a] c by (simp add: claim_rows_def)
    then have rows: "\<exists>r n x y. w_db w' = w_db w\<lparr>db_operation_receipts := r,
       db_attempts := update_row (st_workspace st, es_application_id s, at_operation_identity a) x (db_attempts (w_db w)),
       db_executions := update_row (st_workspace st, es_application_id s) (exec_state_doc s') (db_executions (w_db w))\<rparr> \<and>
       insert_row (st_workspace st, es_application_id s, at_operation_identity a) y (db_operation_receipts (w_db w)) = Inr r"
      using 1(41,42) db by auto
    have "w_tick w2 \<le> w_tick w'" "w_tick w \<le> w_tick w'" using later(1) tick2 by simp_all
    then show ?case
      by (intro that [OF run s'(2) rid _ stored _ later(2,3) rows]) (use 1(24,25) in simp_all)
  qed
qed

section \<open>One pass\<close>

text \<open>
  What holds before the pass for operation \<open>n\<close>: the first \<open>n\<close> operations have their receipts, nothing
  has happened to the others, and the state is free to be claimed.
\<close>

definition before_pass ::
  "prims \<Rightarrow> env \<Rightarrow> exec_store \<Rightarrow> exec_context \<Rightarrow> string list \<Rightarrow> nat \<Rightarrow> exec_state \<Rightarrow> world \<Rightarrow> bool" where
  "before_pass P E st ctx ids n s w \<longleftrightarrow>
     (let ws = st_workspace st; app = id_application_id (cx_identity ctx) in
      usable P ctx w \<and> select_row (ws, app) (db_executions (w_db w)) = Some (exec_state_doc s) \<and>
      exec_state_ok P s \<and> exec_state_verify P s = Inr True \<and> es_managed s \<and>
      es_state s = (if n = 0 then Pending else PartiallyApplied) \<and> es_next s = n \<and> es_owner s = PNone \<and> es_attempt s = PNone \<and>
      es_identity s = cx_identity ctx \<and> es_anchor s = cx_anchor ctx \<and> plain_state s \<and>
      stamped E (w_tick w) (es_started_at s) \<and> stamped E (w_tick w) (es_updated_at s) \<and>
      map Inr (es_refs s) = map (operation_receipt_id_of P) (take n ids) \<and>
      (\<forall>i < n. receipt_stored P E st app (w_tick w) i (ids ! i) (w_db w)) \<and>
      (\<forall>i. n \<le> i \<and> i < length ids \<longrightarrow> select_row (ws, app, ids ! i) (db_attempts (w_db w)) = None \<and>
         select_row (ws, app, ids ! i) (db_operation_receipts (w_db w)) = None) \<and>
      select_row (ws, app) (db_application_receipts (w_db w)) = None)"

lemma claim_ok:
  assumes fav: "favourable P E st cap ctx ids" and pass: "before_pass P E st ctx ids n s w" and n: "n < length ids"
    and owner: "owner_valid owner"
  obtains s1 a w1 t where
    "claim_next_operation P E st cap (id_application_id (cx_identity ctx)) (es_digest s) ctx owner (utc_text (env_clock E (w_tick w)))
       (ticked 1 w) = (Inr (s1, a), w1)"
    "claimed_state P ctx owner s1 a" "claim_rows st s1 a (w_db w1)" "claim_stamped E (w_tick w1) s1 a"
    "es_refs s1 = es_refs s" "es_next s1 = n" "at_operation_identity a = ids ! n"
    "w_db w1 = w_db w\<lparr>db_attempts := t, db_executions := update_row (st_workspace st, id_application_id (cx_identity ctx))
       (exec_state_doc s1) (db_executions (w_db w))\<rparr>"
    "insert_row (st_workspace st, id_application_id (cx_identity ctx), ids ! n) (attempt_doc a) (db_attempts (w_db w)) = Inr t"
    "usable P ctx w1" "w_tick w < w_tick w1" "w_sent w1 = w_sent w"
proof -
  note f = fav [unfolded favourable_def]
  note p = pass [unfolded before_pass_def Let_def]
  let ?app = "id_application_id (cx_identity ctx)" and ?now = "utc_text (env_clock E (w_tick w))"
  have ids: "operation_ids P ?app (cx_operations ctx) = Inr ids" using f by simp
  note ids' = operation_ids_Inr [OF ids]
  have use: "usable P ctx (ticked 1 w)" using p by simp
  have ok: "context_ok P ctx" using p by (simp add: usable_def)
  have clock: "require_clock_not_before (PStr ?now) [es_started_at s, es_updated_at s] = Inr ()"
    using f p by (intro stamped_clock) auto
  have free: "select_row (st_workspace st, ?app, op) (db_attempts (w_db (ticked 1 w))) = None"
    if "operation_identity P ?app (int (es_next s)) (operation_doc (cx_operations ctx ! es_next s)) = Inr op" for op
  proof -
    have "op = ids ! n" using that ids'(2) [of n] ids'(1) n p by simp
    then show ?thesis using p n by simp
  qed
  have row: "select_row (st_workspace st, ?app) (db_executions (w_db (ticked 1 w))) = Some (exec_state_doc s)"
    "decode_exec_state P (exec_state_doc s) = Inr s" using p exec_state_roundtrip by simp_all
  have next_op: "es_next s < length (cx_operations ctx)" "es_state s \<in> {Pending, PartiallyApplied}"
    using p n ids'(1) by simp_all
  obtain s1 a w1 d where run: "claim_next_operation P E st cap ?app (es_digest s) ctx owner ?now (ticked 1 w) = (Inr (s1, a), w1)"
    and s1: "s1 = s\<lparr>es_state := Applying, es_owner := PStr owner, es_attempt := PStr (at_operation_identity a),
       es_updated_at := PStr ?now, es_digest := d\<rparr>"
    and a: "at_provenance a = cx_provenance ctx" "at_started_at a = PStr ?now" "at_updated_at a = PStr ?now"
      "at_failure_code a = PNone" "at_operation a = cx_operations ctx ! es_next s"
  proof (rule claim_next_operation_ok [OF favourable_able [OF fav use] owner refl row])
    show "es_managed s" "exec_state_verify P s = Inr True" "es_owner s = PNone" "es_attempt s = PNone"
      "es_identity s = cx_identity ctx" "es_anchor s = cx_anchor ctx" "plain_state s"
      using p by blast+
  qed (use next_op clock free in \<open>blast+\<close>)
  have rely: "rely E" using f by (simp add: rely_def steady_def history_refl)
  have g: "grows (ticked 1 w) w1" using moves_run [OF grows_managed(2) [OF rely] run] .
  show ?thesis
    using run ok
  proof (rule claim_next_operation_run, goal_cases)
    case (1 t doc prev rows)
    have db: "env_others E t (w_db (ticked 1 w)) = w_db w" using f by (simp add: steady_def)
    have prev: "prev = s" using 1(4,5) db row by simp
    have op: "at_operation_identity a = ids ! n" using 1(31) prev ids'(2) [of n] ids'(1) n p by simp
    have later: "w_tick w < w_tick w1" "usable P ctx w1" "w_sent w1 = w_sent w"
      using g p by (auto simp: grows_def usable_def)
    have claimed: "claimed_state P ctx owner s1 a"
      unfolding claimed_state_def
      using 1(12-31) prev p a by (auto simp: s1 plain_state_def plain_attempt_def)
    have app1: "es_application_id s1 = ?app" using 1(21) by simp
    have at: "insert_row (st_workspace st, ?app, ids ! n) (attempt_doc a) (db_attempts (w_db w)) = Inr rows"
      using 1(32) op db by simp
    have rows: "claim_rows st s1 a (w_db w1)"
      unfolding claim_rows_def app1 op using 1(33) db table.sel_ins [OF at] table.sel_upd p by simp
    have stamps: "claim_stamped E (w_tick w1) s1 a"
      unfolding claim_stamped_def a s1 using p later(1) stamped_later [of E "w_tick w" _ "w_tick w1"] stamped_now [of "w_tick w" "w_tick w1" E]
      by simp
    show ?case
      by (rule that [OF run claimed rows stamps _ _ op _ at later(2,1,3)]) (use 1(33) db p in \<open>simp_all add: s1\<close>)
  qed
qed

lemma receipt_stored_later:
  assumes "receipt_stored P E st app t i op d" "t \<le> u"
    and "select_row (st_workspace st, app, op) (db_operation_receipts d') = select_row (st_workspace st, app, op) (db_operation_receipts d)"
  shows "receipt_stored P E st app u i op d'"
  using assms stamped_later unfolding receipt_stored_def by fastforce

lemma pass_ok:
  assumes fav: "favourable P E st cap ctx ids" and pass: "before_pass P E st ctx ids n s w" and n: "n < length ids"
  obtains s' w' command where
    "apply_loop (Suc fuel) P E st cap ctx s w = apply_loop fuel P E st cap ctx s' w'" "before_pass P E st ctx ids (Suc n) s' w'"
    "w_sent w' = w_sent w @ [((id_application_id (cx_identity ctx), ids ! n), ''create_issue'', command)]"
proof -
  note f = fav [unfolded favourable_def]
  note p = pass [unfolded before_pass_def Let_def]
  let ?app = "id_application_id (cx_identity ctx)" and ?ws = "st_workspace st"
  let ?owner = "''execution-owner-'' @ env_owner E (w_tick w)"
  have ids: "operation_ids P ?app (cx_operations ctx) = Inr ids" using f by simp
  note ids' = operation_ids_Inr [OF ids]
  have use: "usable P ctx w" "context_ok P ctx" using p by (simp_all add: usable_def)
  have pass1: "before_pass P E st ctx ids n s (ticked 1 w)"
    using pass stamped_later [of E "w_tick w" _ "Suc (w_tick w)"] unfolding before_pass_def Let_def
    by (auto simp: receipt_stored_later)
  have "owner_valid ?owner" using f by (simp add: owner_valid_def)
  then obtain s1 a w1 t where claim: "claim_next_operation P E st cap ?app (es_digest s) ctx ?owner
      (utc_text (env_clock E (w_tick (ticked 1 w)))) (ticked 1 (ticked 1 w)) = (Inr (s1, a), w1)"
    "claimed_state P ctx ?owner s1 a" "claim_rows st s1 a (w_db w1)" "claim_stamped E (w_tick w1) s1 a"
    "es_refs s1 = es_refs s" "es_next s1 = n" "at_operation_identity a = ids ! n"
    "w_db w1 = w_db (ticked 1 w)\<lparr>db_attempts := t, db_executions := update_row (?ws, ?app)
       (exec_state_doc s1) (db_executions (w_db (ticked 1 w)))\<rparr>"
    "insert_row (?ws, ?app, ids ! n) (attempt_doc a) (db_attempts (w_db (ticked 1 w))) = Inr t"
    "usable P ctx w1" "w_tick (ticked 1 w) < w_tick w1" "w_sent w1 = w_sent (ticked 1 w)"
    using claim_ok [OF fav pass1 n] by metis
  note c = claim(2) [unfolded claimed_state_def] and app1 = claimed_application [OF claim(2)]
  have kind: "operation_kind (at_operation a) = ''create_issue''"
    using f c by (simp add: list_all_length creatable_def)
  obtain command where prep: "prepare P E st cap ctx s1 a ?owner w1 = (Inr command, ticked 3 w1)"
    using prepare_ok [OF fav claim(10,2,3)] by blast
  have v1: "validate_execution_context P E (cx_service ctx) ctx (ticked 3 w1) = (Inr (), ticked 4 w1)"
    using validate_ok [of E P ctx "ticked 3 w1", OF _ _ refl] f claim(10) by simp
  obtain ob where ob: "dispatch P E (?app, at_operation_identity a) ctx ''create_issue'' command (ticked 4 w1) =
      (Inr ob, w1\<lparr>w_tick := w_tick w1 + 8, w_sent := w_sent w1 @ [((?app, at_operation_identity a), ''create_issue'', command)]\<rparr>)"
    "ob_kind ob = DefinitiveSuccess" "is_mapping (ob_result_payload ob)" "nonempty_str (ob_result_identity ob)"
    "trusted_payload ''create_issue'' (repository_of ctx) (ob_result_payload ob) = Inr ()" "normalizable P (ob_result_payload ob)"
    "jsonable (out_value (copy_value (ob_result_payload ob)))"
    using dispatch_ok [OF fav, of "ticked 4 w1" "(?app, at_operation_identity a)" command] claim(10) by (auto simp: eval_nat_numeral)
  let ?w5 = "w1\<lparr>w_tick := w_tick w1 + 9, w_sent := w_sent w1 @ [((?app, at_operation_identity a), ''create_issue'', command)]\<rparr>"
  have use5: "usable P ctx ?w5" using claim(10) by (simp add: usable_def)
  have v2: "validate_execution_context P E (cx_service ctx) ctx
      (w1\<lparr>w_tick := w_tick w1 + 8, w_sent := w_sent w1 @ [((?app, at_operation_identity a), ''create_issue'', command)]\<rparr>) = (Inr (), ?w5)"
    using validate_ok [of E P ctx, OF _ _ refl] f claim(10) by (simp add: usable_def)
  have stamps5: "claim_stamped E (w_tick ?w5) s1 a"
    using claim(4) stamped_later [of E "w_tick w1" _ "w_tick w1 + 9"] by (simp add: claim_stamped_def)
  have rows5: "claim_rows st s1 a (w_db ?w5)" using claim(3) by simp
  have refs: "map Inr (es_refs s) = map (operation_receipt_id_of P) (take n ids)" using p by blast
  have ridn: "operation_receipt_id_of P (ids ! n) \<notin> Inr ` set (es_refs s)"
  proof
    assume "operation_receipt_id_of P (ids ! n) \<in> Inr ` set (es_refs s)"
    then have "operation_receipt_id_of P (ids ! n) \<in> set (map (operation_receipt_id_of P) (take n ids))"
      using arg_cong [OF refs, of set] by simp
    then obtain j where "j < n" "operation_receipt_id_of P (ids ! n) = operation_receipt_id_of P (ids ! j)"
      using n by (auto simp: in_set_conv_nth)
    then show False using f n by (auto simp: distinct_conv_nth)
  qed
  have free5: "select_row (?ws, es_application_id s1, at_operation_identity a) (db_operation_receipts (w_db ?w5)) = None"
    using claim(7,8) p n app1 by simp
  have rid5: "operation_receipt_id_of P (at_operation_identity a) \<notin> Inr ` set (es_refs s1)" using ridn claim(5,7) by simp
  obtain s' w' rid d t5 where rec: "record_success P E st cap ctx s1 a ?owner ob ?w5 = (Inr s', w')"
    "s' = s1\<lparr>es_state := PartiallyApplied, es_next := Suc (es_next s1), es_refs := es_refs s1 @ [rid],
       es_owner := PNone, es_attempt := PNone, es_updated_at := PStr (utc_text (env_clock E t5)), es_digest := d\<rparr>"
    "operation_receipt_id_of P (at_operation_identity a) = Inr rid" "t5 \<le> w_tick w'"
    "receipt_stored P E st (es_application_id s1) (w_tick w') (es_next s1) (at_operation_identity a) (w_db w')"
    "w_tick ?w5 \<le> w_tick w'" "w_contexts w' = w_contexts ?w5" "w_sent w' = w_sent ?w5"
    "\<exists>r n x y. w_db w' = w_db ?w5\<lparr>db_operation_receipts := r,
       db_attempts := update_row (?ws, es_application_id s1, at_operation_identity a) x (db_attempts (w_db ?w5)),
       db_executions := update_row (?ws, es_application_id s1) (exec_state_doc s') (db_executions (w_db ?w5))\<rparr> \<and>
       insert_row (?ws, es_application_id s1, at_operation_identity a) y (db_operation_receipts (w_db ?w5)) = Inr r"
    "exec_state_ok P s'" "exec_state_verify P s' = Inr True"
    by (rule record_success_ok [OF fav use5 claim(2) rows5 stamps5 ob(3-7) rid5 free5])
  have perform: "perform_claimed P E st cap ctx s1 a ?owner (apply_loop fuel P E st cap ctx) w1 = apply_loop fuel P E st cap ctx s' w'"
    using prep v1 ob(1,2) v2 rec(1) kind by (simp add: perform_claimed_def attempt_then_def Let_def)
  have "es_next s < length (cx_operations ctx)" using p n ids'(1) by simp
  then have run: "apply_loop (Suc fuel) P E st cap ctx s w = apply_loop fuel P E st cap ctx s' w'"
    using claim(1) perform
    by (subst apply_loop.simps) (simp add: bnd_exec ask_def now_text_run attempt_then_def Let_def)
  obtain r x y where db: "w_db w' = w_db w\<lparr>db_operation_receipts := r, db_attempts := update_row (?ws, ?app, ids ! n) x t,
       db_executions := update_row (?ws, ?app) (exec_state_doc s')
         (update_row (?ws, ?app) (exec_state_doc s1) (db_executions (w_db w)))\<rparr>"
    and ins: "insert_row (?ws, ?app, ids ! n) y (db_operation_receipts (w_db w)) = Inr r"
    using rec(9) claim(7,8) app1 by auto
  have tick: "w_tick w \<le> w_tick w'" using rec(6) claim(11) by simp
  have diff: "ids ! i \<noteq> ids ! n" if "i < length ids" "i \<noteq> n" for i
    using f n that by (metis distinct_map nth_eq_iff_index_eq)
  have "before_pass P E st ctx ids (Suc n) s' w'"
    unfolding before_pass_def Let_def
  proof (intro conjI allI impI)
    show "usable P ctx w'" using use5 rec(7) by (simp add: usable_def)
    show "select_row (?ws, ?app) (db_executions (w_db w')) = Some (exec_state_doc s')"
      using p by (simp add: db table.sel_upd)
    show "exec_state_ok P s'" "exec_state_verify P s' = Inr True" by (rule rec)+
    show "es_managed s'" "es_state s' = (if Suc n = 0 then Pending else PartiallyApplied)" "es_next s' = Suc n"
      "es_owner s' = PNone" "es_attempt s' = PNone" "es_identity s' = cx_identity ctx" "es_anchor s' = cx_anchor ctx" "plain_state s'"
      using c claim(6) by (simp_all add: rec(2) plain_state_def)
    show "stamped E (w_tick w') (es_started_at s')" "stamped E (w_tick w') (es_updated_at s')"
      using claim(4) rec(4,6) stamped_later [of E "w_tick w1" _ "w_tick w'"] stamped_now
      by (auto simp: rec(2) claim_stamped_def)
    show "map Inr (es_refs s') = map (operation_receipt_id_of P) (take (Suc n) ids)"
      using refs rec(3) claim(5,7) n by (simp add: rec(2) take_Suc_conv_app_nth)
    show "receipt_stored P E st ?app (w_tick w') i (ids ! i) (w_db w')" if "i < Suc n" for i
    proof (cases "i = n")
      case True
      then show ?thesis using rec(5) claim(6,7) app1 by simp
    next
      case False
      then have "receipt_stored P E st ?app (w_tick w) i (ids ! i) (w_db w)" using p that by simp
      then show ?thesis
        by (rule receipt_stored_later [OF _ tick]) (use diff [of i] False that n table.sel_ins [OF ins] in \<open>simp add: db\<close>)
    qed
    show "select_row (?ws, ?app, ids ! i) (db_attempts (w_db w')) = None" "select_row (?ws, ?app, ids ! i) (db_operation_receipts (w_db w')) = None"
      if "Suc n \<le> i \<and> i < length ids" for i
      using that p diff [of i] table.sel_ins [OF ins] table.sel_ins [OF claim(9)] by (simp_all add: db table.sel_upd)
    show "select_row (?ws, ?app) (db_application_receipts (w_db w')) = None" using p by (simp add: db)
  qed
  then show ?thesis using that [OF run] rec(8) claim(7,12) by simp
qed

section \<open>All passes\<close>

lemma finish_ok:
  assumes fav: "favourable P E st cap ctx ids" and pass: "before_pass P E st ctx ids (length ids) s w"
  obtains r receipt w' where "finish P E st cap ctx s w = (Inr (Some r), w')" "rs_application_id r = id_application_id (cx_identity ctx)"
    "rs_state r = Applied" "rs_next r = length ids" "rs_receipt r = Some receipt" "rs_recovery r = PNone" "w_sent w' = w_sent w"
proof -
  note f = fav [unfolded favourable_def]
  note p = pass [unfolded before_pass_def Let_def]
  let ?app = "id_application_id (cx_identity ctx)" and ?ws = "st_workspace st"
  have ids: "operation_ids P ?app (cx_operations ctx) = Inr ids" using f by simp
  note ids' = operation_ids_Inr [OF ids]
  have use: "usable P ctx (ticked 1 w)" and ok: "context_ok P ctx" using p by (simp_all add: usable_def)
  have ne: "length ids \<noteq> 0" using f ids'(1) by auto
  have "\<exists>s' w'. finalize_application P E st cap ?app (es_digest s) ctx (utc_text (env_clock E (w_tick w))) (ticked 1 w) = (Inr s', w')"
    by (rule finalize_application_ok [OF favourable_able [OF fav use]]) (use f p ids'(1) ne in auto)
  then obtain s' w' where fin: "finalize_application P E st cap ?app (es_digest s) ctx (utc_text (env_clock E (w_tick w))) (ticked 1 w) =
      (Inr s', w')" by blast
  have rely: "rely E" using f by (simp add: rely_def steady_def history_refl)
  show ?thesis
    using fin ok
  proof (rule finalize_application_run, goal_cases)
    case (1 t doc prev refs r rows)
    have db: "env_others E t (w_db (ticked 1 w)) = w_db w" using f by (simp add: steady_def)
    have prev: "prev = s" using 1(4,5) db p exec_state_roundtrip [of P s] by simp
    have row: "select_row (?ws, ?app) (db_application_receipts (w_db w')) = Some (application_receipt_doc r)"
      using 1(30,31) table.sel_ins [OF 1(30)] by simp
    have get: "get_application_receipt P E st ?app w' = (Inr r, ticked 1 w')"
      using row f application_receipt_roundtrip [OF 1(15)] 1(3,16,17,19)
      by (simp add: get_application_receipt_def read_db_def bnd_exec steps_simps integrity_def)
    have run: "finish P E st cap ctx s w = (Inr (Some (result_of ?app s' (Some (ar_receipt_id r)) PNone)), ticked 1 w')"
      using fin get by (simp add: finish_def receipt_id_of_def bnd_exec now_text_run Let_def)
    show ?case
      by (rule that [OF run]) (use 1(22,25,32) prev p in \<open>simp_all add: result_of_def\<close>)
  qed
qed

lemma apply_loop_done:
  assumes fav: "favourable P E st cap ctx ids" and pass: "before_pass P E st ctx ids (length ids) s w"
  shows "apply_loop fuel P E st cap ctx s w = finish P E st cap ctx s w"
proof -
  have "operation_ids P (id_application_id (cx_identity ctx)) (cx_operations ctx) = Inr ids" using fav by (simp add: favourable_def)
  then have "\<not> es_next s < length (cx_operations ctx)"
    using pass operation_ids_Inr(1) by (fastforce simp: before_pass_def)
  then show ?thesis by (simp add: apply_loop.simps)
qed

lemma apply_loop_ok:
  assumes fav: "favourable P E st cap ctx ids"
  shows "before_pass P E st ctx ids n s w \<Longrightarrow> n \<le> length ids \<Longrightarrow> length ids \<le> n + fuel \<Longrightarrow> \<exists>r receipt commands w'.
     apply_loop fuel P E st cap ctx s w = (Inr (Some r), w') \<and> rs_application_id r = id_application_id (cx_identity ctx) \<and>
     rs_state r = Applied \<and> rs_next r = length ids \<and> rs_receipt r = Some receipt \<and> rs_recovery r = PNone \<and>
     length commands = length ids - n \<and>
     w_sent w' = w_sent w @ map (\<lambda>(op, c). ((id_application_id (cx_identity ctx), op), ''create_issue'', c)) (zip (drop n ids) commands)"
proof (induction fuel arbitrary: n s w)
  case 0
  then have pass: "before_pass P E st ctx ids (length ids) s w" by simp
  show ?case
    by (rule finish_ok [OF fav pass]) (use 0 apply_loop_done [OF fav pass, of 0] in simp)
next
  case (Suc fuel)
  show ?case
  proof (cases "n = length ids")
    case True
    then have pass: "before_pass P E st ctx ids (length ids) s w" using Suc.prems by simp
    show ?thesis
      by (rule finish_ok [OF fav pass]) (use True apply_loop_done [OF fav pass, of "Suc fuel"] in simp)
  next
    case False
    then have n: "n < length ids" using Suc.prems(2) by simp
    obtain s' w1 command where step: "apply_loop (Suc fuel) P E st cap ctx s w = apply_loop fuel P E st cap ctx s' w1"
      "before_pass P E st ctx ids (Suc n) s' w1"
      "w_sent w1 = w_sent w @ [((id_application_id (cx_identity ctx), ids ! n), ''create_issue'', command)]"
      using pass_ok [OF fav Suc.prems(1) n] by blast
    obtain r receipt commands w' where IH: "apply_loop fuel P E st cap ctx s' w1 = (Inr (Some r), w')"
       "rs_application_id r = id_application_id (cx_identity ctx)"
       "rs_state r = Applied" "rs_next r = length ids" "rs_receipt r = Some receipt" "rs_recovery r = PNone"
       "length commands = length ids - Suc n"
       "w_sent w' = w_sent w1 @ map (\<lambda>(op, c). ((id_application_id (cx_identity ctx), op), ''create_issue'', c)) (zip (drop (Suc n) ids) commands)"
      using Suc.IH [OF step(2)] Suc.prems(3) n by auto
    have "drop n ids = ids ! n # drop (Suc n) ids" using n by (simp add: Cons_nth_drop_Suc)
    then have "w_sent w' = w_sent w @ map (\<lambda>(op, c). ((id_application_id (cx_identity ctx), op), ''create_issue'', c))
        (zip (drop n ids) (command # commands))"
      using IH(8) step(3) by simp
    moreover have "length (command # commands) = length ids - n" using IH(7) n by simp
    ultimately show ?thesis using step(1) IH(1-6) by metis
  qed
qed

section \<open>From the initial state\<close>

definition initial_body :: "exec_context \<Rightarrow> string \<Rightarrow> exec_state" where
  "initial_body ctx now = \<lparr>es_application_id = id_application_id (cx_identity ctx), es_identity = cx_identity ctx,
     es_state = Pending, es_next = 0, es_owner = PNone, es_attempt = PNone, es_recovery = PNone, es_refs = [],
     es_started_at = PStr now, es_updated_at = PStr now, es_completed_at = PNone,
     es_anchor = cx_anchor ctx, es_managed = True, es_digest = PStr []\<rparr>"

lemma initial_body_ok:
  assumes "context_ok P ctx" "now \<noteq> []"
  shows "exec_state_ok P (initial_body ctx now)" "plain_state (initial_body ctx now)"
  using assms context_ok_identity context_ok_anchor by (auto simp: exec_state_ok_def initial_body_def plain_state_def)

lemma initial_state_ok:
  assumes "steady E" "usable P ctx w" "now \<noteq> []"
  obtains l w' where "initial_state P E ctx now w = (Inr l, w')" "lv_body l = initial_body ctx now"
    "live_in ctx ''execution'' exec_state_payload l w'" "later w w'" "w_db w' = w_db w"
proof -
  let ?s = "initial_body ctx now"
  have "context_ok P ctx" using assms(2) by (simp add: usable_def)
  note c = ApplicationExecutionState_intro [OF initial_body_ok(1) [OF this assms(3)], of "PStr []"]
  have c': "ApplicationExecutionState P (PStr (id_application_id (cx_identity ctx))) (Inr (cx_identity ctx)) (PStr ''Pending'')
      (PInt 0) PNone PNone PNone (PTuple []) (PStr now) (PStr now) PNone (Inr (cx_anchor ctx)) (PStr applier_orchestration_policy)
      (PStr []) = Inr ?s"
  proof -
    have "read_refs (PTuple []) = read_refs (strs [])" by (simp add: read_refs_def strs_def)
    then show ?thesis using c unfolding ApplicationExecutionState_def by (simp add: initial_body_def)
  qed
  obtain l w' where r: "register ctx ''execution'' exec_state_payload ?s (tick w) = (Inr l, w')" "lv_body l = ?s"
      "live_in ctx ''execution'' exec_state_payload l w'" "later (tick w) w'" "w_db w' = w_db (tick w)"
    by (rule register_ok)
  show ?thesis
  proof (rule that)
    show "initial_state P E ctx now w = (Inr l, w')"
      using c' r(1) unfolding initial_state_def new_execution_state_def Let_def
      by (simp add: bnd_exec validate_ok [OF assms(1,2) refl])
    show "later w w'" using later_trans [OF later_tick r(4)] .
  qed (use r in simp_all)
qed

text \<open>The database holds nothing of the application.\<close>

definition untouched :: "exec_store \<Rightarrow> string \<Rightarrow> string list \<Rightarrow> database \<Rightarrow> bool" where
  "untouched st app ids d \<longleftrightarrow>
     select_row (st_workspace st, app) (db_executions d) = None \<and> select_row (st_workspace st, app) (db_application_receipts d) = None \<and>
     (\<forall>op \<in> set ids. select_row (st_workspace st, app, op) (db_attempts d) = None \<and>
        select_row (st_workspace st, app, op) (db_operation_receipts d) = None)"

lemma apply_in_context_ok:
  assumes fav: "favourable P E st cap ctx ids" and use: "usable P ctx w"
    and new: "untouched st (id_application_id (cx_identity ctx)) ids (w_db w)"
  obtains s w1 where "apply_in_context n P E st cap ctx w = apply_loop n P E st cap ctx s w1" "before_pass P E st ctx ids 0 s w1"
    "w_sent w1 = w_sent w"
proof -
  note f = fav [unfolded favourable_def]
  let ?app = "id_application_id (cx_identity ctx)" and ?now = "utc_text (env_clock E (w_tick w))"
  have ok: "context_ok P ctx" using use by (simp add: usable_def)
  have use1: "usable P ctx (ticked 1 w)" using use by simp
  obtain l w1 where l: "initial_state P E ctx ?now (ticked 1 w) = (Inr l, w1)" "lv_body l = initial_body ctx ?now"
      "live_in ctx ''execution'' exec_state_payload l w1" "later (ticked 1 w) w1" "w_db w1 = w_db (ticked 1 w)"
    by (rule initial_state_ok [OF _ use1 utc_text_nonempty]) (use f in blast)+
  have use2: "usable P ctx w1" using use1 l(4) usable_later by blast
  have app: "es_application_id (lv_body l) = ?app" by (simp add: l(2) initial_body_def)
  have none: "select_row (st_workspace st, es_application_id (lv_body l)) (db_executions (w_db w1)) = None"
    using new l(5) app by (simp add: untouched_def)
  obtain s w2 where c: "create_execution_if_absent P E st cap l w1 = (Inr s, w2)"
    using create_execution_ok [OF favourable_able [OF fav use2] l(3)] initial_body_ok(2) [OF ok utc_text_nonempty] none
    by (auto simp: l(2) initial_body_def)
  have rely: "rely E" using f by (simp add: rely_def steady_def history_refl)
  have g: "grows w1 w2" using moves_run [OF grows_managed(1) [OF rely] c] .
  have body: "exec_state_ok P (lv_body l)" using initial_body_ok(1) [OF ok utc_text_nonempty] l(2) by simp
  show ?thesis
    using c body
  proof (cases rule: create_execution_if_absent_run)
    case (existing t doc)
    then show ?thesis using none f by (simp add: steady_def)
  next
    case (created t rows)
    have db: "env_others E t (w_db w1) = w_db w" using f l(5) by (simp add: steady_def)
    have s: "s = (initial_body ctx ?now)\<lparr>es_digest := es_digest s\<rparr>" using created(15) l(2) by simp
    have fields: "es_managed s" "es_identity s = cx_identity ctx" "es_anchor s = cx_anchor ctx" "es_started_at s = PStr ?now"
      "es_updated_at s = PStr ?now" "plain_state s"
      by (subst s, simp add: initial_body_def plain_state_def)+
    have tick: "w_tick w \<le> w_tick w2" using g l(4) by (simp add: grows_def later_def)
    have "before_pass P E st ctx ids 0 s w2"
      unfolding before_pass_def Let_def
      using use2 g created(2,3,5-9,12,13) fields new db app table.sel_ins [OF created(12)] stamped_now [OF tick, of E]
      by (auto simp: grows_def usable_def untouched_def)
    moreover have "apply_in_context n P E st cap ctx w = apply_loop n P E st cap ctx s w2"
      using l(1) c created(5) by (simp add: apply_in_context_def bnd_exec now_text_run Let_def)
    ultimately show ?thesis using that g l(4) by (simp add: grows_def later_def)
  qed
qed

lemma apply_authority_ok:
  assumes "create_execution_context P E service authority_id w = (Inr ctx, w1)" and "usable P ctx w1"
    and "favourable P E st cap ctx ids" and "untouched st (id_application_id (cx_identity ctx)) ids (w_db w1)"
  obtains result receipt commands w' where
    "apply_authority P E service st cap authority_id w = (Inr (Some result), w')"
    "rs_application_id result = id_application_id (cx_identity ctx)" "rs_state result = Applied"
    "rs_next result = length (cx_operations ctx)" "rs_receipt result = Some receipt" "rs_recovery result = PNone"
    "length commands = length (cx_operations ctx)" "length ids = length (cx_operations ctx)"
    "w_sent w' = w_sent w1 @ map (\<lambda>(op, c). ((id_application_id (cx_identity ctx), op), ''create_issue'', c)) (zip ids commands)"
proof -
  have len: "length ids = length (cx_operations ctx)"
    using assms(3) operation_ids_Inr(1) by (auto simp: favourable_def)
  let ?fuel = "Suc (length (cx_operations ctx))"
  obtain s w2 where c: "apply_in_context ?fuel P E st cap ctx w1 = apply_loop ?fuel P E st cap ctx s w2"
    "before_pass P E st ctx ids 0 s w2" "w_sent w2 = w_sent w1"
    by (rule apply_in_context_ok [OF assms(3,2,4)])
  have "apply_authority P E service st cap authority_id w = apply_loop ?fuel P E st cap ctx s w2"
    using assms(1) c(1) by (simp add: apply_authority_def bnd_exec)
  then show ?thesis using apply_loop_ok [OF assms(3) c(2), of ?fuel] c(3) len that by auto
qed

end
