(* ===== verification/Applier_Demo.thy ===== *)
theory Applier_Demo
  imports Applier_Completion Demo_Run
begin

text \<open>
  A complete run on the concrete application: its context is created from the sealed preview, its
  operation claimed, sent, completed and the application finalized.  The theorems about the applier
  are instantiated on this run.
\<close>

definition demo_start :: world where
  "demo_start = \<lparr>w_db = empty_database, w_contexts = (\<lambda>_. None), w_artifacts = (\<lambda>_. None), w_next = 0, w_tick = 0, w_sent = [], w_commits = []\<rparr>"

definition demo_applied :: "world \<Rightarrow> world" where
  "demo_applied w = snd (apply_authority plain_prims demo_env 0 demo_store demo_capability ''application-authority-1'' w)"

lemma demo_valid_time [simp]: "valid_timestamp demo_time"
  by (simp add: valid_timestamp_def demo_time_def days_in_month_def)

lemma demo_identity:
  obtains i a p where "identity_from_authority plain_prims demo_authority = Inr i"
    "v_operation_set_digest (id_values i) = ''od''" "v_workspace_identity (id_values i) = ''ws''"
    "anchor_from_authority demo_authority = Inr a" "provenance_from_live_authority plain_prims demo_authority = Inr p"
proof -
  have "case logical_values (authority_to_dict demo_authority) of
      Inr v \<Rightarrow> v_operation_set_digest v = ''od'' \<and> v_workspace_identity v = ''ws'' | Inl _ \<Rightarrow> False"
    by code_simp
  then obtain v where v: "logical_values (authority_to_dict demo_authority) = Inr v"
    "v_operation_set_digest v = ''od''" "v_workspace_identity v = ''ws''" by (auto split: sum.splits)
  obtain ctx where ctx: "context_ok plain_prims ctx" "cx_authority ctx = demo_authority"
    using demo_context by blast
  then have "identity_from_authority plain_prims demo_authority = Inr (cx_identity ctx)"
    "anchor_from_authority demo_authority = Inr (cx_anchor ctx)"
    "provenance_from_live_authority plain_prims demo_authority = Inr (cx_provenance ctx)"
    by (simp_all add: context_ok_def)
  moreover have "id_values (cx_identity ctx) = v"
    using calculation(1) v(1) by (auto simp: identity_from_authority_values rbind_Inr)
  ultimately show ?thesis using that v(2,3) by simp
qed

lemma demo_sealed: "sealed_items demo_preview = Inr [freeze_value (demo_item [])]"
proof -
  have "dict_get (demo_item []) ''client_ref'' = PStr ''A''" by code_simp
  moreover have "is_mapping (demo_item [])" by code_simp
  ultimately show ?thesis
    by (simp add: sealed_items_def demo_preview_def get_or_def raise_if_def)
qed

lemma demo_operations: "execution_operations demo_preview = Inr [create_op ''A'']"
proof -
  have "wf_op (create_op ''A'')" by (simp add: wf_op_def create_op_def)
  then show ?thesis
    by (simp add: execution_operations_def demo_preview_def operation_intents_of_def normalize_write_operations_single)
qed

lemma demo_created:
  obtains ctx w where "create_execution_context plain_prims demo_env 0 ''application-authority-1'' demo_start = (Inr ctx, w)"
    "context_ok plain_prims ctx" "cx_id ctx = 0" "cx_service ctx = 0" "cx_authority ctx = demo_authority" "cx_operations ctx = [create_op ''A'']"
    "cx_items ctx = [freeze_value (demo_item [])]" "identity_workspace (cx_identity ctx) = ''ws''" "w_contexts w 0 = Some ctx"
    "w_db w = empty_database" "w_sent w = []"
proof -
  obtain i a p where *: "identity_from_authority plain_prims demo_authority = Inr i"
    "v_operation_set_digest (id_values i) = ''od''" "v_workspace_identity (id_values i) = ''ws''"
    "anchor_from_authority demo_authority = Inr a" "provenance_from_live_authority plain_prims demo_authority = Inr p"
    by (rule demo_identity)
  have get: "is_mapping demo_preview" "dict_get demo_preview ''operation_set_digest'' = PStr ''od''"
    "get_or demo_preview ''existing_endpoint_bindings'' (PList []) = PList []"
    by (simp_all add: demo_preview_def get_or_def)
  let ?ctx = "\<lparr>cx_id = 0, cx_service = 0, cx_authority = demo_authority, cx_identity = i, cx_anchor = a,
                cx_operations = [create_op ''A''], cx_operation_set_digest = ''od'', cx_items = [freeze_value (demo_item [])],
                cx_version = dict_get demo_preview ''canonical_version'', cx_bindings = [],
                cx_snapshot = dict_get demo_preview ''remote_snapshot'', cx_provenance = p\<rparr>"
  let ?w = "demo_start\<lparr>w_tick := 1, w_next := 1, w_contexts := [0 \<mapsto> ?ctx]\<rparr>"
  have "create_execution_context plain_prims demo_env 0 ''application-authority-1'' demo_start = (Inr ?ctx, ?w)"
    using * get demo_sealed demo_operations
    by (simp add: create_execution_context_def bnd_exec ask_def fresh_object_def demo_env_def demo_start_def Let_def)
  then show ?thesis
  proof (rule that)
    have "wf_op (create_op ''A'')" by (simp add: wf_op_def create_op_def)
    then show "context_ok plain_prims ?ctx" using * by (simp add: context_ok_def)
  qed (simp_all add: * identity_workspace_def demo_start_def)
qed

lemma demo_admits:
  assumes "cx_authority ctx = demo_authority"
  shows "credential_admits plain_prims demo_env ctx"
  unfolding credential_admits_def
proof (intro allI impI)
  fix w assume use: "usable plain_prims ctx w"
  have live: "live_request demo_binding = live_request (demo_registered [])"
    by (simp add: demo_binding_def demo_registered_def live_request_def)
  have checks: "live_credential_checks demo_authority demo_binding demo_lease 7 = Inr demo_evidence"
  proof -
    have "valid_token ''t''" by (simp add: valid_token_def strip_visible is_ascii_def ascii_ws_def)
    moreover have "github_app_installation_principal 1 2 = ''github-app-installation-1-2''" by code_simp
    moreover have "permission demo_evidence ''issues'' = Some ''write''" by code_simp
    ultimately have intact: "lease_intact demo_lease" "evidence_agrees demo_evidence ''ci'' ''github-app-installation-1-2'' ''o/r''
        (au_expires_at demo_authority) True = Inr ()"
      by (simp_all add: lease_intact_def evidence_agrees_Inr) (simp_all add: demo_lease_def demo_evidence_def)
    then show ?thesis
      by (simp add: live_credential_checks_def lease_snapshot_def lease_credential_class_def validate_lease_def raise_if_def)
        (simp add: demo_binding_def demo_registered_def demo_authority_def demo_lease_def)
  qed
  have unexpired: "credential_unexpired e demo_evidence demo_time = Inr ()" for e
  proof -
    let ?t = "demo_time\<lparr>ts_hour := 1\<rparr>"
    have "utc_text ?t = gi_expires_at demo_evidence" by code_simp
    moreover have "valid_timestamp ?t" "instant demo_time < instant ?t"
      by (simp_all add: valid_timestamp_def demo_time_def days_in_month_def instant_def)
    ultimately show ?thesis using read_utc_text by (force simp: credential_unexpired_Inr)
  qed
  have digest: "source_verified plain_prims demo_evidence (live_request demo_binding) (cb_source_verification_digest demo_binding) = Inr ()"
  proof -
    have keys: "dict_of_pairs (gi_effective_permissions demo_evidence) = [(''issues'', ''write'')]"
      by code_simp
    have "normalizable plain_prims (evidence_dict demo_evidence)"
      unfolding evidence_dict_def keys
      by (intro normalizable_obj) (auto simp: literal_keys_def intro!: normalizable_obj)
    moreover have "normalizable plain_prims (PTuple (map PStr ss))" for ss
      using normalizable_strs [of plain_prims ss] by (simp add: normalizable_def strs_def)
    then have "normalizable plain_prims (request_binding r)" for r
      unfolding request_binding_def by (intro normalizable_obj) (auto simp: literal_keys_def)
    ultimately obtain d where "source_verification_digest plain_prims demo_evidence (live_request (demo_registered [])) = Inr d"
      unfolding source_verification_digest_def
      using digest_of_obj [of "[(''domain'', PStr source_verification_domain), (''evidence'', evidence_dict demo_evidence),
          (''request_binding'', request_binding (live_request (demo_registered [])))]" plain_prims]
      by (auto simp: literal_keys_def)
    then show ?thesis
      unfolding source_verified_def live by (simp add: demo_binding_def demo_registered_def raise_if_def)
  qed
  have v: "validate_execution_context plain_prims demo_env (cx_service ctx) ctx (w\<lparr>w_tick := Suc (w_tick w)\<rparr>) =
      (Inr (), w\<lparr>w_tick := Suc (Suc (w_tick w))\<rparr>)"
    using validate_ok [OF _ _ refl, of demo_env plain_prims ctx "w\<lparr>w_tick := Suc (w_tick w)\<rparr>"] use by simp
  have creds: "cs_lease demo_credentials = Some demo_lease" "cs_snapshot demo_credentials = Some 7" "cs_restart demo_credentials x = None"
    "cs_binding demo_credentials (au_credential_binding_id demo_authority) = Inr demo_binding"
    "env_credentials demo_env t = demo_credentials" for x t
    by (simp_all add: demo_credentials_def demo_env_def demo_authority_def)
  show "validate_live_credential_dispatch plain_prims demo_env ctx w = (Inr (), w\<lparr>w_tick := w_tick w + 3\<rparr>)"
    by (simp add: validate_live_credential_dispatch_def bnd_exec ask_def v assms creds checks unexpired digest Let_def)
qed

lemma demo_trusted:
  assumes "cx_authority ctx = demo_authority"
  shows "trusted_driver plain_prims demo_env ctx"
proof -
  have repo: "repository_of ctx = PStr ''o/r''" using assms by (simp add: repository_of_def demo_authority_def)
  have "trusted_payload ''create_issue'' (PStr ''o/r'') demo_payload = Inr ()" "is_mapping demo_payload"
    by code_simp+
  moreover have "normalizable plain_prims demo_payload"
    unfolding demo_payload_def by (rule normalizable_obj) (simp_all add: literal_keys_def)
  moreover have "jsonable (out_value (copy_value demo_payload))"
  proof -
    have "case json_text (out_value (copy_value demo_payload)) of Inr t \<Rightarrow> True | Inl _ \<Rightarrow> False" by code_simp
    then show ?thesis unfolding jsonable_def by (auto split: sum.splits)
  qed
  ultimately show ?thesis
    unfolding trusted_driver_def repo by (simp add: demo_env_def demo_observation_def nonempty_str_iff)
qed

lemma demo_creatable:
  assumes "cx_authority ctx = demo_authority" "cx_items ctx = [freeze_value (demo_item [])]"
  shows "creatable plain_prims ctx (create_op ''A'')"
proof -
  obtain body where body: "render_create_issue (demo_item []) = Inr (''First'', body)" using demo_item_renders by blast
  have "case render_create_issue (demo_item []) of Inr (title, body) \<Rightarrow> list_ex ((=) CHR ''a'') body | Inl _ \<Rightarrow> False" by code_simp
  then have "CHR ''a'' \<in> set body" using body by (simp add: list_ex_iff)
  then have nb: "nonblank (PStr body)" by (rule nonblank_visible)
  have "thaw_value (freeze_value (demo_item [])) = demo_item []" by code_simp
  then have canonical: "canonical_items ctx = [demo_item []]" using assms(2) by (simp add: canonical_items_def)
  have items: "items_by_ref [demo_item []] = Inr [(PStr ''A'', demo_item [])]"
  proof -
    have "dict_item (demo_item []) ''client_ref'' = Inr (PStr ''A'')" by code_simp
    then show ?thesis by simp
  qed
  have "split_on (CHR 0x2F) ''o/r'' = [''o'', ''r'']" by simp
  moreover have "strip ''o'' = ''o''" by (rule strip_visible) code_simp+
  moreover have "strip ''r'' = ''r''" by (rule strip_visible) code_simp+
  ultimately have repo: "normalize_repository_identity plain_prims (PStr ''o/r'') = Inr (lower plain_prims ''o'' @ ''/'' @ lower plain_prims ''r'')"
    by (simp add: normalize_repository_identity_def raise_if_def)
  have "\<exists>repo. normalize_repository_identity plain_prims (repository_of ctx) = Inr repo"
    using assms(1) repo by (simp add: repository_of_def demo_authority_def)
  moreover have "nonblank (PStr ''A'')" by (simp add: strip_visible is_ascii_def ascii_ws_def)
  moreover have "nonblank (PStr ''First'')" by (simp add: strip_visible is_ascii_def ascii_ws_def)
  ultimately show ?thesis
    using body nb items canonical unfolding creatable_def by (simp add: create_op_def item_lookup_def)
qed

text \<open>The run starts in favourable circumstances.\<close>

lemma demo_favourable:
  obtains ctx w op where "create_execution_context plain_prims demo_env 0 ''application-authority-1'' demo_start = (Inr ctx, w)"
    "usable plain_prims ctx w" "favourable plain_prims demo_env demo_store demo_capability ctx [op]"
    "untouched demo_store (id_application_id (cx_identity ctx)) [op] (w_db w)" "w_sent w = []"
    "cx_id ctx = 0" "cx_authority ctx = demo_authority"
proof -
  obtain ctx w where c: "create_execution_context plain_prims demo_env 0 ''application-authority-1'' demo_start = (Inr ctx, w)"
    "context_ok plain_prims ctx" "cx_id ctx = 0" "cx_service ctx = 0" "cx_authority ctx = demo_authority" "cx_operations ctx = [create_op ''A'']"
    "cx_items ctx = [freeze_value (demo_item [])]" "identity_workspace (cx_identity ctx) = ''ws''" "w_contexts w 0 = Some ctx"
    "w_db w = empty_database" "w_sent w = []"
    by (rule demo_created)
  have "wf_op (create_op ''A'')" by (simp add: wf_op_def create_op_def)
  then obtain op where op: "operation_identity plain_prims (id_application_id (cx_identity ctx)) 0 (operation_doc (create_op ''A'')) = Inr op"
    using operation_identity_exists [of "create_op ''A''" 0 "id_application_id (cx_identity ctx)" plain_prims]
      application_id_nonempty [OF context_ok_identity [OF c(2)]] by auto
  have ids: "operation_ids plain_prims (id_application_id (cx_identity ctx)) (cx_operations ctx) = Inr [op]"
    using op c(6) by (simp add: operation_ids_def)
  have demo_owners: "length (env_owner demo_env t) = 32" for t by (simp add: demo_env_def)
  have clock: "steady_clock demo_env" by (simp add: steady_clock_def)
  show ?thesis
  proof (rule that [OF c(1)])
    show "favourable plain_prims demo_env demo_store demo_capability ctx [op]"
      using clock ids c demo_admits [OF c(5)] demo_trusted [OF c(5)] demo_creatable [OF c(5,7)]
      unfolding favourable_def by (simp add: demo_owners)
    show "usable plain_prims ctx w" using c by (simp add: usable_def)
    show "untouched demo_store (id_application_id (cx_identity ctx)) [op] (w_db w)"
      by (simp add: untouched_def c(10) empty_database_def select_row_def)
  qed (use c in simp_all)
qed

lemma demo_applies:
  obtains result receipt app op command w where
    "apply_authority plain_prims demo_env 0 demo_store demo_capability ''application-authority-1'' demo_start = (Inr (Some result), w)"
    "rs_state result = Applied" "rs_next result = 1" "rs_receipt result = Some receipt"
    "w_sent w = [((app, op), ''create_issue'', command)]"
proof -
  obtain ctx w op where c: "create_execution_context plain_prims demo_env 0 ''application-authority-1'' demo_start = (Inr ctx, w)"
    "usable plain_prims ctx w" "favourable plain_prims demo_env demo_store demo_capability ctx [op]"
    "untouched demo_store (id_application_id (cx_identity ctx)) [op] (w_db w)" "w_sent w = []"
    by (rule demo_favourable) blast
  show ?thesis
  proof (rule apply_authority_ok [OF c(1-4)])
    fix result receipt commands w'
    assume r: "apply_authority plain_prims demo_env 0 demo_store demo_capability ''application-authority-1'' demo_start = (Inr (Some result), w')"
      "rs_state result = Applied" "rs_next result = length (cx_operations ctx)" "rs_receipt result = Some receipt"
      "length commands = length (cx_operations ctx)" "length [op] = length (cx_operations ctx)"
      "w_sent w' = w_sent w @ map (\<lambda>(op, c). ((id_application_id (cx_identity ctx), op), ''create_issue'', c)) (zip [op] commands)"
    have "length commands = 1" using r(5,6) by simp
    then obtain command where "commands = [command]" by (auto simp: length_Suc_conv)
    then show thesis using that [of result w' receipt _ op command] r c(5) by simp
  qed
qed

text \<open>An attempt of the operation, and a dispatch of its command.\<close>

lemma demo_attempt:
  obtains ctx w a where "usable plain_prims ctx w" "attempt_ok plain_prims a" "at_operation a = create_op ''A''"
    "creatable plain_prims ctx (create_op ''A'')" "cx_authority ctx = demo_authority"
proof -
  obtain ctx and w :: world where c: "context_ok plain_prims ctx" "cx_id ctx = 0" "cx_authority ctx = demo_authority"
    "cx_operations ctx = [create_op ''A'']" "cx_items ctx = [freeze_value (demo_item [])]" "w_contexts w 0 = Some ctx"
    by (rule demo_created) blast
  have use: "usable plain_prims ctx w" using c by (simp add: usable_def)
  obtain l w' where n: "new_attempt plain_prims demo_env ctx 0 [(''state'', PStr (status_name Applying)), (''started_at'', PStr ''x''),
      (''updated_at'', PStr ''x'')] w = (Inr l, w')"
    by (rule new_attempt_ok [OF _ use, of demo_env 0 Applying "''x''" "''x''"]) (simp_all add: c(4) attempt_states_def)
  have "attempt_ok plain_prims (lv_body l) \<and> at_operation (lv_body l) = create_op ''A''"
    using new_attempt_run(15) [OF n c(1)] c(4) by simp
  then show ?thesis using that [OF use _ _ demo_creatable [OF c(3,5)] c(3)] by blast
qed

text \<open>A relationship between two issues that a sealed preview of version 2 binds.\<close>

definition demo_issue :: "int \<Rightarrow> string \<Rightarrow> pyval" where
  "demo_issue n node = obj [(''repository_identity'', PStr ''o/r''), (''item_type'', PStr ''issue''), (''issue_number'', PInt n),
     (''numeric_issue_id'', PStr ''11''), (''issue_id'', PStr node)]"

definition demo_bound :: "string \<Rightarrow> string \<Rightarrow> string \<Rightarrow> pyval" where
  "demo_bound ref node d = obj [(''endpoint_ref'', PStr ref), (''issue_id'', PStr node), (''remote_record_digest'', PStr d)]"

definition demo_bindings :: "exec_context \<Rightarrow> string \<Rightarrow> string \<Rightarrow> exec_context" where
  "demo_bindings ctx d d' = ctx\<lparr>cx_version := PStr ''2'', cx_bindings := [demo_bound ''A'' ''n1'' d, demo_bound ''B'' ''n2'' d'],
     cx_snapshot := obj [(''issue_records'', PList [demo_issue 1 ''n1'', demo_issue 2 ''n2''])]\<rparr>"

definition demo_link :: write_op where
  "demo_link = \<lparr>operation_kind = ''add_sub_issue'', client_refs = [''existing_issue:A'', ''existing_issue:B''], depends_on = []\<rparr>"

lemma demo_relationship:
  fixes a :: attempt and w :: world
  obtains ctx repo where "materialize plain_prims demo_env demo_store ctx (a\<lparr>at_operation := demo_link\<rparr>) w =
      (Inr (Relationship repo \<lparr>ir_repository_identity = repo, ir_issue_number = 1, ir_numeric_issue_id = ''11'', ir_node_id = ''n1''\<rparr>
        \<lparr>ir_repository_identity = repo, ir_issue_number = 2, ir_numeric_issue_id = ''11'', ir_node_id = ''n2''\<rparr>), w)"
    "cx_version ctx = PStr ''2''"
proof -
  obtain ctx0 where c: "creatable plain_prims ctx0 (create_op ''A'')" "cx_authority ctx0 = demo_authority"
    by (rule demo_attempt) blast
  have "normalizable plain_prims (demo_issue n node)" for n node
    unfolding demo_issue_def by (intro normalizable_obj) (simp_all add: literal_keys_def)
  then obtain d d' where d: "digest plain_prims (demo_issue 1 ''n1'') = Inr d" "digest plain_prims (demo_issue 2 ''n2'') = Inr d'"
    using digest_normalizable by blast
  let ?ctx = "demo_bindings ctx0 d d'"
  obtain repo where repo: "normalize_repository_identity plain_prims (repository_of ?ctx) = Inr repo"
    using c(1) by (auto simp: creatable_def repository_of_def demo_bindings_def)
  obtain items where items: "items_by_ref (canonical_items ?ctx) = Inr items"
    using c(1) by (auto simp: creatable_def canonical_items_def demo_bindings_def)
  have repository: "repository_of ?ctx = PStr ''o/r''"
    using c(2) by (simp add: repository_of_def demo_bindings_def demo_authority_def)
  have visible: "strip ''11'' = ''11''" "strip ''n1'' = ''n1''" "strip ''n2'' = ''n2''" by (rule strip_visible; code_simp)+
  have refs: "binding_reference plain_prims ?ctx ''A'' = Inr \<lparr>ir_repository_identity = repo, ir_issue_number = 1,
        ir_numeric_issue_id = ''11'', ir_node_id = ''n1''\<rparr>"
      "binding_reference plain_prims ?ctx ''B'' = Inr \<lparr>ir_repository_identity = repo, ir_issue_number = 2,
        ir_numeric_issue_id = ''11'', ir_node_id = ''n2''\<rparr>"
    using repo d visible c(2) unfolding repository
    by (simp_all add: binding_reference_def Let_def demo_bindings_def demo_bound_def demo_issue_def dict_item_def
        RemoteIssueReference_def get_or_def repository_of_def demo_authority_def)
  have version: "cx_version ?ctx = PStr ''2''" by (simp add: demo_bindings_def)
  have tags: "tagged_ref (PStr ''existing_issue:A'') = Inr (False, ''A'')" "tagged_ref (PStr ''existing_issue:B'') = Inr (False, ''B'')"
    by (simp_all add: tagged_ref_def)
  have "materialize plain_prims demo_env demo_store ?ctx (a\<lparr>at_operation := demo_link\<rparr>) w =
      (Inr (Relationship repo \<lparr>ir_repository_identity = repo, ir_issue_number = 1, ir_numeric_issue_id = ''11'', ir_node_id = ''n1''\<rparr>
        \<lparr>ir_repository_identity = repo, ir_issue_number = 2, ir_numeric_issue_id = ''11'', ir_node_id = ''n2''\<rparr>), w)"
    using items by (simp add: materialize_def materialize_refs_def operation_doc_def demo_link_def dict_item_def strs_def bnd_exec
        tags version tagged_reference_def reference_from_existing_binding_def refs resolved_relationship_def list_item_def
        revalidate_existing_endpoint_def demo_env_def RelationshipCommand_def repo)
  then show ?thesis by (rule that) (simp add: demo_bindings_def)
qed

lemma demo_dispatch:
  obtains ctx w w' where "dispatch plain_prims demo_env (''app'', ''op'') ctx ''create_issue'' (CreateIssue r c t b q) w = (Inr demo_observation, w')"
    "w_sent w' \<noteq> w_sent w" "cx_authority ctx = demo_authority" "env_credentials demo_env (w_tick w) = demo_credentials"
proof -
  obtain ctx w op where c: "usable plain_prims ctx w" "favourable plain_prims demo_env demo_store demo_capability ctx [op]"
      "cx_authority ctx = demo_authority"
    by (rule demo_favourable) blast
  have "validate_live_credential_dispatch plain_prims demo_env ctx w = (Inr (), w\<lparr>w_tick := w_tick w + 3\<rparr>)"
    using c(1,2) by (simp add: favourable_def credential_admits_def)
  then have "dispatch plain_prims demo_env (''app'', ''op'') ctx ''create_issue'' (CreateIssue r c t b q) w =
      (Inr demo_observation, w\<lparr>w_tick := w_tick w + 4, w_sent := w_sent w @ [((''app'', ''op''), ''create_issue'', CreateIssue r c t b q)]\<rparr>)"
    by (simp add: dispatch_def bnd_exec ask_def demo_env_def)
  then show ?thesis by (rule that) (simp_all add: c(3), simp add: demo_env_def)
qed

end
