(* ===== verification/Applier_Properties.thy ===== *)
theory Applier_Properties
  imports Applier_Effects Applier_Demo
begin

text \<open>
  What the applier guarantees: no operation is dispatched twice, every run returns or raises, every
  dispatch is entitled by a current credential and sends what was approved, and in favourable
  circumstances the application is applied.
\<close>

section \<open>The theorems\<close>

text \<open>A run of the applier keeps \<open>sent_claimed\<close>, whether it returns or raises.\<close>

lemma apply_sent_claimed:
  assumes "rely E" and "sent_claimed (st_workspace st) w"
  shows "sent_claimed (st_workspace st) (snd (apply_authority P E service st cap authority_id w))"
proof -
  let ?I = "sent_claimed (st_workspace st)"
  obtain r w1 where c: "create_execution_context P E service authority_id w = (r, w1)" by fastforce
  have I: "?I w1" using moves_run [OF still_create_context c] assms(2) by (simp add: still_def sent_claimed_def)
  show ?thesis
  proof (cases r)
    case (Inr ctx)
    then have ok: "context_ok P ctx" using c create_execution_context_run(1) by blast
    have "yields ?I (apply_in_context (Suc (length (cx_operations ctx))) P E st cap ctx) (\<lambda>_. ?I) (\<lambda>_. ?I)"
      by (rule apply_in_context_yields [OF assms(1) steady_sent(1)]) (auto intro: apply_loop_sends_once assms ok)
    then have "leads ?I (apply_in_context (Suc (length (cx_operations ctx))) P E st cap ctx) ?I" by (simp add: leads_yields)
    then show ?thesis using I c Inr by (simp add: leads_def apply_authority_def bnd_def)
  qed (use I c in \<open>simp add: apply_authority_def bnd_def\<close>)
qed

text \<open>
  The commits of a run lie between the databases it starts and ends with: \<open>built d0 l0\<close> are the
  states reached from the database \<open>d0\<close> and the commits \<open>l0\<close>.
\<close>

definition built :: "database \<Rightarrow> (database \<times> database) list \<Rightarrow> world \<Rightarrow> bool" where
  "built d0 l0 w \<longleftrightarrow> (\<exists>l. w_commits w = l0 @ l \<and> chain d0 l (w_db w))"

lemma steady_built: "steady_under_growth (built d0 l0)"
  unfolding steady_under_growth_def built_def grows_def by (metis append_assoc chain_append)

lemma dispatch_built: "yields (built d0 l0) (dispatch P E key ctx kind command) (\<lambda>_. built d0 l0) (\<lambda>_. built d0 l0)"
proof -
  have "built d0 l0 w'" if "built d0 l0 w" "dispatch P E key ctx kind command w = (r, w')" for r w w'
    using that(1) moves_run [OF rows_dispatch that(2)] by (simp add: built_def)
  then show ?thesis unfolding yields_def by (fastforce split: sum.splits)
qed

lemma apply_built:
  assumes "rely E"
  shows "built (w_db w) (w_commits w) (snd (apply_authority P E service st cap authority_id w))"
proof -
  let ?I = "built (w_db w) (w_commits w)"
  obtain r w1 where c: "create_execution_context P E service authority_id w = (r, w1)" by fastforce
  have I: "?I w1" using moves_run [OF still_create_context c] by (simp add: still_def built_def history_refl)
  show ?thesis
  proof (cases r)
    case (Inr ctx)
    have loop: "yields ?I (apply_loop n P E st cap ctx state) (\<lambda>_. ?I) (\<lambda>_. ?I)" for n state
      by (rule apply_loop_yields [where I = "\<lambda>_. ?I" and J = "\<lambda>_ _. ?I"])
        (auto intro: assms steady_built dispatch_built yields_weaken [OF yields_grows [OF grows_managed(2) [OF assms] steady_built]])
    have "yields ?I (apply_in_context (Suc (length (cx_operations ctx))) P E st cap ctx) (\<lambda>_. ?I) (\<lambda>_. ?I)"
      by (rule apply_in_context_yields [OF assms steady_built]) (auto intro: loop)
    then have "leads ?I (apply_in_context (Suc (length (cx_operations ctx))) P E st cap ctx) ?I" by (simp add: leads_yields)
    then show ?thesis using I c Inr by (simp add: leads_def apply_authority_def bnd_def)
  qed (use I c in \<open>simp add: apply_authority_def bnd_def\<close>)
qed

section \<open>Several processes\<close>

text \<open>
  \<open>process P ws w\<close>: the state \<open>w\<close> of a process that has been started on some database, has run the
  applier of the workspace \<open>ws\<close> for whatever authorities, has made whatever other calls of execution
  stores, and between them found what other processes wrote.
\<close>

inductive process :: "prims \<Rightarrow> string \<Rightarrow> world \<Rightarrow> bool" for P ws where
  process_begin: "w_sent w = [] \<Longrightarrow> w_commits w = [] \<Longrightarrow> process P ws w"
| process_apply: "process P ws w \<Longrightarrow> rely E \<Longrightarrow> st_workspace st = ws \<Longrightarrow>
    process P ws (snd (apply_authority P E service st cap authority_id w))"
| process_call: "process P ws w \<Longrightarrow> rely E \<Longrightarrow> process P ws (snd (perform P E st cap call w))"
| process_others: "process P ws w \<Longrightarrow> history (w_db w) d \<Longrightarrow> process P ws (w\<lparr>w_db := d\<rparr>)"

text \<open>
  SQLite serialises the transactions on a database file: \<open>log\<close> lists those of the processes \<open>ps\<close> in
  the order they were committed, each with the number of its process, and from one to the next the
  database changed only the way the calls of the store change it.
\<close>

definition serialised :: "world list \<Rightarrow> (nat \<times> database \<times> database) list \<Rightarrow> bool" where
  "serialised ps log \<longleftrightarrow>
     list_all (\<lambda>c. fst c < length ps) log \<and>
     (\<forall>i < length ps. w_commits (ps ! i) = map snd (filter (\<lambda>c. fst c = i) log)) \<and>
     successively (\<lambda>(_, _, d) (_, d', _). history d d') log"

lemma chain_commits: "chain d0 l d1 \<Longrightarrow> (d, d') \<in> set l \<Longrightarrow> history d d'"
  by (induction d0 l d1 rule: chain.induct) auto

lemma built_commits: "built d0 l0 w \<Longrightarrow> (d, d') \<in> set (w_commits w) \<Longrightarrow> (d, d') \<in> set l0 \<or> history d d'"
  unfolding built_def using chain_commits by fastforce

lemma process_invariant:
  assumes "process P ws w"
  shows "sent_claimed ws w \<and> (\<forall>(d, d') \<in> set (w_commits w). history d d')"
  using assms
proof induction
  case (process_begin w)
  then show ?case by (simp add: sent_claimed_def)
next
  case (process_apply w E st service cap authority_id)
  then show ?case using apply_sent_claimed built_commits [OF apply_built] by fast
next
  case (process_call w E st cap call)
  then have g: "grows w (snd (perform P E st cap call w))" using perform_grows by (simp add: moves_def)
  then have "built (w_db w) (w_commits w) (snd (perform P E st cap call w))" by (auto simp: grows_def built_def)
  then show ?case
    using g process_call.IH steady_sent(1) built_commits unfolding steady_under_growth_def by fast
next
  case (process_others w d)
  then show ?case using history_attempted by (auto simp: sent_claimed_def)
qed

lemma chain_successively: "chain d l d' \<Longrightarrow> successively (\<lambda>c c'. history (snd c) (fst c')) l"
proof (induction d l d' rule: chain.induct)
  case (2 d e e' l d')
  then show ?case by (cases l) (auto simp: successively_Cons)
qed simp

lemma two_serialised:
  assumes "chain d (w_commits a) d'" "chain d' (w_commits b) d''"
  shows "serialised [a, b] (map (Pair 0) (w_commits a) @ map (Pair 1) (w_commits b))"
proof -
  let ?log = "map (Pair 0) (w_commits a) @ map (Pair 1) (w_commits b) :: (nat \<times> database \<times> database) list"
  have tags: "filter (\<lambda>c. fst c = k) (map (Pair k) l) = map (Pair k) l"
      "j \<noteq> k \<Longrightarrow> filter (\<lambda>c. fst c = k) (map (Pair j) l) = []" for j k :: nat and l :: "(database \<times> database) list"
    by (induction l) auto
  have "successively (\<lambda>c c'. history (snd c) (fst c')) (map snd ?log)"
    using chain_successively [OF chain_append [OF assms]] by (simp add: comp_def)
  then have "successively (\<lambda>(_, _, d) (_, d', _). history d d') ?log"
    by (simp only: successively_map case_prod_unfold)
  then show ?thesis
    by (auto simp: serialised_def tags less_Suc_eq numeral_2_eq_2 comp_def list_all_iff)
qed

lemma distinct_concat_nth:
  assumes "\<And>i. i < length xs \<Longrightarrow> distinct (xs ! i)"
    and "\<And>i j x. i < length xs \<Longrightarrow> j < length xs \<Longrightarrow> x \<in> set (xs ! i) \<Longrightarrow> x \<in> set (xs ! j) \<Longrightarrow> i = j"
  shows "distinct (concat xs)"
  using assms
proof (induction xs)
  case (Cons y ys)
  have "x \<notin> set (ys ! j)" if "x \<in> set y" "j < length ys" for x j
    using Cons.prems(2) [of 0 "Suc j" x] that by auto
  then have "set y \<inter> set (concat ys) = {}" by (auto simp: in_set_conv_nth [of _ ys])
  moreover have "distinct (concat ys)"
  proof (rule Cons.IH)
    show "distinct (ys ! i)" if "i < length ys" for i using Cons.prems(1) [of "Suc i"] that by simp
    show "i = j" if "i < length ys" "j < length ys" "x \<in> set (ys ! i)" "x \<in> set (ys ! j)" for i j x
      using Cons.prems(2) [of "Suc i" "Suc j" x] that by simp
  qed
  ultimately show ?case using Cons.prems(1) [of 0] by simp
qed simp

text \<open>A key is claimed by at most one commit of the log.\<close>

lemma serial_claims:
  assumes "successively (\<lambda>(_, _, d) (_, d', _). history d d') log" and "\<forall>(_, d, d') \<in> set log. history d d'"
    and "a < b" "b < length log" and "attempted ws key (snd (snd (log ! a)))"
  shows "attempted ws key (fst (snd (log ! b)))"
proof -
  have step: "history (snd (snd (log ! n))) (fst (snd (log ! Suc n)))" if "Suc n < length log" for n
    using assms(1) that by (auto simp: successively_conv_nth split_beta)
  have own: "history (fst (snd (log ! n))) (snd (snd (log ! n)))" if "n < length log" for n
    using assms(2) nth_mem [OF that] by (auto simp: split_beta)
  have "history (snd (snd (log ! a))) (fst (snd (log ! b)))"
    using assms(3,4)
  proof (induction b)
    case (Suc b)
    then have b: "history (fst (snd (log ! b))) (snd (snd (log ! b)))" "history (snd (snd (log ! b))) (fst (snd (log ! Suc b)))"
      using step [of b] own [of b] by simp_all
    show ?case
    proof (cases "a = b")
      case False
      then have "history (snd (snd (log ! a))) (fst (snd (log ! b)))" using Suc by simp
      from history_trans [OF history_trans [OF this b(1)] b(2)] show ?thesis .
    qed (use b in simp)
  qed simp
  then show ?thesis using assms(5) history_attempted by blast
qed

lemma claims_of_one:
  assumes log: "serialised ps log" and ps: "list_all (process P ws) ps"
    and i: "i < length ps" "claimed_in ws key (w_commits (ps ! i))" and j: "j < length ps" "claimed_in ws key (w_commits (ps ! j))"
  shows "i = j"
proof -
  have commits: "w_commits (ps ! k) = map snd (filter (\<lambda>c. fst c = k) log)" if "k < length ps" for k
    using log that by (simp add: serialised_def)
  have own: "\<forall>(_, d, d') \<in> set log. history d d'"
  proof clarify
    fix k d d' assume c: "(k, d, d') \<in> set log"
    then have k: "k < length ps" using log by (auto simp: serialised_def list_all_iff)
    then have "(d, d') \<in> set (w_commits (ps ! k))" using c commits by force
    then show "history d d'" using process_invariant ps k by (fastforce simp: list_all_length)
  qed
  have claim: "\<exists>n < length log. fst (log ! n) = k \<and> \<not> attempted ws key (fst (snd (log ! n))) \<and> attempted ws key (snd (snd (log ! n)))"
    if k: "k < length ps" "claimed_in ws key (w_commits (ps ! k))" for k
  proof -
    obtain d d' where "(k, d, d') \<in> set log" "\<not> attempted ws key d" "attempted ws key d'"
      using k(2) unfolding commits [OF k(1)] claimed_in_def by auto
    then show ?thesis by (metis fst_conv in_set_conv_nth snd_conv)
  qed
  obtain m n where m: "m < length log" "fst (log ! m) = i" "\<not> attempted ws key (fst (snd (log ! m)))" "attempted ws key (snd (snd (log ! m)))"
    and n: "n < length log" "fst (log ! n) = j" "\<not> attempted ws key (fst (snd (log ! n)))" "attempted ws key (snd (snd (log ! n)))"
    using claim [OF i] claim [OF j] by blast
  have "m = n"
    using serial_claims [OF _ own] m n log unfolding serialised_def by (metis linorder_neqE_nat)
  then show ?thesis using m n by simp
qed

text \<open>
  C4: no operation is dispatched twice, whatever the processes that work on the database.  Let \<open>ps\<close> be
  the states of any processes that ran the applier of a workspace, each any number of times and with
  any other calls of the store in between, whose transactions on the database were serialised.  Then
  the dispatches of all of them together are of different operations, and the attempt of each was
  inserted by a transaction of the process that dispatched it.
\<close>

theorem operations_sent_once:
  assumes "list_all (process P ws) ps" and "serialised ps log"
  shows "distinct (concat (map (\<lambda>w. map fst (w_sent w)) ps)) \<and>
    list_all (\<lambda>w. list_all (\<lambda>(key, _). attempted ws key (w_db w) \<and> claimed_in ws key (w_commits w)) (w_sent w)) ps"
proof
  have inv: "sent_claimed ws w" if "w \<in> set ps" for w
    using process_invariant assms(1) that by (auto simp: list_all_iff)
  show "list_all (\<lambda>w. list_all (\<lambda>(key, _). attempted ws key (w_db w) \<and> claimed_in ws key (w_commits w)) (w_sent w)) ps"
    using inv by (fastforce simp: list_all_iff sent_claimed_def)
  show "distinct (concat (map (\<lambda>w. map fst (w_sent w)) ps))"
  proof (rule distinct_concat_nth)
    fix i assume "i < length (map (\<lambda>w. map fst (w_sent w)) ps)"
    then show "distinct (map (\<lambda>w. map fst (w_sent w)) ps ! i)" using inv nth_mem by (auto simp: sent_claimed_def)
  next
    fix i j key assume *: "i < length (map (\<lambda>w. map fst (w_sent w)) ps)" "j < length (map (\<lambda>w. map fst (w_sent w)) ps)"
      "key \<in> set (map (\<lambda>w. map fst (w_sent w)) ps ! i)" "key \<in> set (map (\<lambda>w. map fst (w_sent w)) ps ! j)"
    then have "claimed_in ws key (w_commits (ps ! i))" "claimed_in ws key (w_commits (ps ! j))"
      using inv [OF nth_mem, of i] inv [OF nth_mem, of j] unfolding sent_claimed_def by (simp, blast)+
    then show "i = j" using claims_of_one [OF assms(2,1)] * by simp
  qed
qed

text \<open>
  The witness: one process runs the demonstration, and a second one runs the applier for the same
  authority on the database the first left.
\<close>

theorem operations_sent_once_witness:
  "\<exists>app op command.
     w_sent (demo_applied demo_start) = [((app, op), ''create_issue'', command)] \<and>
     (app, op) \<notin> fst ` set (w_sent (demo_applied (demo_start\<lparr>w_db := w_db (demo_applied demo_start)\<rparr>)))"
proof -
  let ?a = "demo_applied demo_start" let ?b = "demo_applied (demo_start\<lparr>w_db := w_db ?a\<rparr>)"
  let ?log = "map (Pair 0) (w_commits ?a) @ map (Pair 1) (w_commits ?b) :: (nat \<times> database \<times> database) list"
  have rely: "rely demo_env" by (simp add: rely_def history_refl)
  have ps: "list_all (process plain_prims ''ws'') [?a, ?b]"
  proof -
    have "process plain_prims ''ws'' (demo_applied w)" if "w_sent w = []" "w_commits w = []" for w
      unfolding demo_applied_def
      by (rule process_apply [OF process_begin [OF that] rely]) (simp add: demo_store_def)
    then show ?thesis by (simp add: demo_start_def)
  qed
  have run: "chain (w_db w) (w_commits (demo_applied w)) (w_db (demo_applied w))" if "w_commits w = []" for w
    using apply_built [OF rely, of w plain_prims 0 demo_store demo_capability "''application-authority-1''"] that
    by (simp add: built_def demo_applied_def)
  have "chain (w_db demo_start) (w_commits ?a) (w_db ?a)" "chain (w_db ?a) (w_commits ?b) (w_db ?b)"
    using run [of demo_start] run [of "demo_start\<lparr>w_db := w_db ?a\<rparr>"] by (simp_all add: demo_start_def)
  then have "serialised [?a, ?b] ?log" by (rule two_serialised)
  from operations_sent_once [OF ps this]
  have once: "key \<in> fst ` set (w_sent ?a) \<Longrightarrow> key \<notin> fst ` set (w_sent ?b)" for key by auto
  show ?thesis
    by (rule demo_applies) (use once in \<open>auto simp: demo_applied_def\<close>)
qed

text \<open>
  C11: a run of the applier always ends: it returns a result or raises, and the loop never runs out
  of the passes it is given, one more than the application has operations.
\<close>

theorem apply_returns:
  assumes "rely E" and "apply_authority P E service st cap authority_id w = (Inr result, w')"
  shows "\<exists>r. result = Some r"
proof -
  obtain ctx w1 where c: "create_execution_context P E service authority_id w = (Inr ctx, w1)"
    and run: "apply_in_context (Suc (length (cx_operations ctx))) P E st cap ctx w1 = (Inr result, w')"
    using assms(2) by (auto simp: apply_authority_def run_simps)
  let ?n = "length (cx_operations ctx)"
  let ?I = "\<lambda>w. card (open_operations P ctx (st_workspace st) w) < Suc ?n"
  have "card (open_operations P ctx (st_workspace st) w1) \<le> card {..< ?n}"
    by (intro card_mono) (auto simp: open_operations_def)
  then have "?I w1" by simp
  moreover have "yields ?I (apply_in_context (Suc ?n) P E st cap ctx) (\<lambda>_ _. True) (\<lambda>r _. r \<noteq> None)"
    by (rule apply_in_context_yields [OF assms(1) steady_open _ _ apply_loop_ends [OF assms(1) create_execution_context_run(1) [OF c]]])
      simp_all
  ultimately show ?thesis using yieldsD(1) run by fastforce
qed

theorem apply_returns_witness:
  "\<exists>result w' r.
     apply_authority plain_prims demo_env 0 demo_store demo_capability ''application-authority-1'' demo_start = (Inr result, w') \<and>
     result = Some r"
proof -
  have rely: "rely demo_env" by (simp add: rely_def history_refl)
  obtain result w' where "apply_authority plain_prims demo_env 0 demo_store demo_capability ''application-authority-1'' demo_start =
      (Inr (Some result), w')"
    by (rule demo_applies) blast
  from this apply_returns [OF rely this] show ?thesis by blast
qed

text \<open>
  C6: a command reaches the driver only while the execution context is registered and its authority
  current, and only under a host credential that entitles the authority: intact, for the approved
  repository alone, with permission to write issues, of the registered principal and instance,
  unexpired, and with the verification digest of the approved request.
\<close>

theorem dispatch_entitled:
  assumes "dispatch P E operation ctx kind command w = (r, w')" and "w_sent w' \<noteq> w_sent w"
  shows "w_sent w' = w_sent w @ [(operation, kind, command)] \<and>
    kind \<in> {''create_issue'', ''add_sub_issue'', ''add_dependency''} \<and>
    w_contexts w (cx_id ctx) = Some ctx \<and> env_authority E (w_tick w + 1) = AuthorityCurrent \<and>
    entitled_at P (env_credentials E (w_tick w)) (cx_authority ctx) (env_clock E (w_tick w + 2))"
proof -
  have kind: "kind \<in> {''create_issue'', ''add_sub_issue'', ''add_dependency''}"
  proof (rule ccontr)
    assume "\<not> kind \<in> {''create_issue'', ''add_sub_issue'', ''add_dependency''}"
    then have "w' = w" using assms(1) by (simp add: dispatch_def)
    then show False using assms(2) by simp
  qed
  then have guard: "refuse (kind \<notin> {''create_issue'', ''add_sub_issue'', ''add_dependency''}) code w = (Inr (), w)" for code
    by simp
  obtain q w1 where v: "validate_live_credential_dispatch P E ctx w = (q, w1)" by fastforce
  then have "w_sent w1 = w_sent w" using moves_run [OF quiet_credential_dispatch] by (force simp: quiet_def)
  show ?thesis
  proof (cases q)
    case (Inl e)
    then have "w' = w1" using assms(1) guard v unfolding dispatch_def bnd_exec by (simp del: insert_iff)
    then show ?thesis using assms(2) \<open>w_sent w1 = w_sent w\<close> by simp
  next
    case (Inr u)
    then have "w_sent w' = w_sent w1 @ [(operation, kind, command)]"
      using assms(1) guard v unfolding dispatch_def bnd_exec by (auto simp: ask_def simp del: insert_iff)
    then show ?thesis using kind validate_live_credential_dispatch_run [of P E ctx w u w1] v Inr \<open>w_sent w1 = w_sent w\<close> by simp
  qed
qed

theorem dispatch_entitled_witness:
  "\<exists>(ctx :: exec_context) (w :: world). cx_authority ctx = demo_authority \<and> w_contexts w (cx_id ctx) = Some ctx \<and>
     entitled_at plain_prims demo_credentials demo_authority demo_time"
proof (rule demo_dispatch [of "''o/r''" "''A''" "''First''" "''b''" "''q''"])
  fix ctx :: exec_context and w w' :: world
  assume d: "dispatch plain_prims demo_env (''app'', ''op'') ctx ''create_issue'' (CreateIssue ''o/r'' ''A'' ''First'' ''b'' ''q'') w =
      (Inr demo_observation, w')" "w_sent w' \<noteq> w_sent w" "cx_authority ctx = demo_authority"
    "env_credentials demo_env (w_tick w) = demo_credentials"
  from dispatch_entitled [OF d(1,2)] d(3,4) show ?thesis by auto
qed

text \<open>
  C7: the command made for a claimed operation contains only what was approved.  A creation is the
  rendering of the sealed item the operation names, in the authority's repository, under the
  attempt's request identity.  Any other command is a relationship between two different issues of
  that repository, those of the operation's first two references in their order: the issue of a work
  item is the one that the durable, verified receipt of its approved creation identifies, and the
  issue of an existing endpoint is the one the sealed preview binds by the digest of its record.
\<close>

theorem command_from_approval:
  assumes "materialize P E st ctx attempt w = (Inr command, w')"
  shows "\<exists>repo. normalize_repository_identity P (repository_of ctx) = Inr repo \<and>
    (if operation_kind (at_operation attempt) = ''create_issue''
     then \<exists>item \<in> set (canonical_items ctx). \<exists>title body.
       dict_get item ''client_ref'' = PStr (hd (client_refs (at_operation attempt))) \<and>
       render_create_issue item = Inr (title, body) \<and>
       command = CreateIssue repo (hd (client_refs (at_operation attempt))) title body (at_request_identity attempt)
     else operation_kind (at_operation attempt) \<in> {''add_sub_issue'', ''add_dependency''} \<and>
       (\<exists>first second rest a b. client_refs (at_operation attempt) = first # second # rest \<and>
          command = Relationship repo a b \<and> a \<noteq> b \<and>
          approved_endpoint P E st ctx w w' first a \<and> approved_endpoint P E st ctx w w' second b \<and>
          ir_repository_identity a = repo \<and> ir_repository_identity b = repo))"
proof (cases "operation_kind (at_operation attempt) = ''create_issue''")
  case True
  then show ?thesis using materialize_run(1) [OF assms True] by auto
next
  case False
  then show ?thesis using materialize_run(2) [OF assms False] unfolding approved_relationship_def by auto
qed

theorem command_from_approval_witness:
  "(\<exists>ctx a w command repo title body. materialize plain_prims demo_env demo_store ctx a w = (Inr command, w) \<and>
      command = CreateIssue repo ''A'' title body (at_request_identity a)) \<and>
   (\<exists>ctx attempt w repo a b. materialize plain_prims demo_env demo_store ctx (attempt\<lparr>at_operation := demo_link\<rparr>) w =
        (Inr (Relationship repo a b), w) \<and>
      ir_issue_number a = 1 \<and> bound_issue plain_prims ctx ''A'' a \<and> ir_issue_number b = 2 \<and> bound_issue plain_prims ctx ''B'' b)"
proof
  show "\<exists>ctx a w command repo title body. materialize plain_prims demo_env demo_store ctx a w = (Inr command, w) \<and>
      command = CreateIssue repo ''A'' title body (at_request_identity a)"
  proof (rule demo_attempt)
    fix ctx :: exec_context and w :: world and a :: attempt
    assume a: "attempt_ok plain_prims a" "at_operation a = create_op ''A''" "creatable plain_prims ctx (create_op ''A'')"
    then obtain command where m: "materialize plain_prims demo_env demo_store ctx a w = (Inr command, w)"
      using materialize_creation_ok by metis
    obtain repo title body where "command = CreateIssue repo ''A'' title body (at_request_identity a)"
      using command_from_approval [OF m] a(2) by (auto simp: create_op_def)
    then show ?thesis using m by metis
  qed
  show "\<exists>ctx attempt w repo a b. materialize plain_prims demo_env demo_store ctx (attempt\<lparr>at_operation := demo_link\<rparr>) w =
        (Inr (Relationship repo a b), w) \<and>
      ir_issue_number a = 1 \<and> bound_issue plain_prims ctx ''A'' a \<and> ir_issue_number b = 2 \<and> bound_issue plain_prims ctx ''B'' b"
  proof (rule demo_attempt, rule demo_relationship)
    fix attempt :: attempt and ctx :: exec_context and repo
    assume m: "materialize plain_prims demo_env demo_store ctx (attempt\<lparr>at_operation := demo_link\<rparr>) demo_start =
      (Inr (Relationship repo \<lparr>ir_repository_identity = repo, ir_issue_number = 1, ir_numeric_issue_id = ''11'', ir_node_id = ''n1''\<rparr>
        \<lparr>ir_repository_identity = repo, ir_issue_number = 2, ir_numeric_issue_id = ''11'', ir_node_id = ''n2''\<rparr>), demo_start)"
      and v: "cx_version ctx = PStr ''2''"
    let ?a = "\<lparr>ir_repository_identity = repo, ir_issue_number = 1, ir_numeric_issue_id = ''11'', ir_node_id = ''n1''\<rparr>"
    let ?b = "\<lparr>ir_repository_identity = repo, ir_issue_number = 2, ir_numeric_issue_id = ''11'', ir_node_id = ''n2''\<rparr>"
    have "bound_issue plain_prims ctx ''A'' ?a" "bound_issue plain_prims ctx ''B'' ?b"
      using command_from_approval [OF m] v by (auto simp: demo_link_def approved_endpoint_def)
    then show ?thesis using m by (intro exI [of _ ctx] exI [of _ attempt] exI [of _ demo_start] exI [of _ repo] exI [of _ ?a] exI [of _ ?b]) simp
  qed
qed

text \<open>
  C12: a success the applier trusts is one the receipts accept: the result it builds is read as the
  remote result of a receipt, with the driver's payload and its digest; the payload is of the
  approved repository and of the write executor, and that of a creation identifies an issue.
\<close>

theorem trusted_result_recordable:
  assumes "trusted_success_result P ctx attempt observation = Inr v"
  shows "\<exists>r. remote_result P v = Inr r \<and> rr_payload r = copy_value (ob_result_payload observation) \<and>
    rr_kind r = ''github.'' @ operation_kind (at_operation attempt) @ ''.v1'' \<and>
    PStr (rr_identity r) = ob_result_identity observation \<and>
    digest P (ob_result_payload observation) = Inr (rr_digest r) \<and>
    dict_get (ob_result_payload observation) ''repository_identity'' = repository_of ctx \<and>
    dict_get (ob_result_payload observation) ''executor_identity'' = PStr write_executor_identity \<and>
    (operation_kind (at_operation attempt) = ''create_issue'' \<longrightarrow>
       (\<exists>n numeric node. dict_get (ob_result_payload observation) ''issue_number'' = PInt n \<and> 0 < n \<and>
          dict_get (ob_result_payload observation) ''numeric_issue_id'' = PStr numeric \<and> numeric \<noteq> [] \<and> list_all is_digit numeric \<and>
          dict_get (ob_result_payload observation) ''node_id'' = PStr node \<and> node \<noteq> []))"
  using assms
proof (rule trusted_success_result_Inr)
  fix d assume m: "is_mapping (ob_result_payload observation)" "nonempty_str (ob_result_identity observation)"
    and t: "trusted_payload (operation_kind (at_operation attempt)) (repository_of ctx) (ob_result_payload observation) = Inr ()"
    and d: "digest P (ob_result_payload observation) = Inr d"
    and v: "v = obj [(''result_kind'', PStr (''github.'' @ operation_kind (at_operation attempt) @ ''.v1'')),
       (''result_identity'', ob_result_identity observation), (''result_digest'', PStr d), (''result_payload'', ob_result_payload observation)]"
  have "has_exactly v remote_result_fields" by (simp add: v has_exactly_obj remote_result_fields_def)
  moreover have "d \<noteq> []" using d by (auto simp: digest_def rbind_Inr)
  ultimately have "remote_result P v = Inr \<lparr>rr_kind = ''github.'' @ operation_kind (at_operation attempt) @ ''.v1'',
      rr_identity = str_of (ob_result_identity observation), rr_digest = d, rr_payload = copy_value (ob_result_payload observation)\<rparr>"
    using m d by (simp add: remote_result_def v digest_copy)
  then show ?thesis using trusted_payload_Inr [OF t] m(2) d by (auto simp: nonempty_str_iff)
qed

theorem trusted_result_recordable_witness:
  "\<exists>ctx a v r. trusted_success_result plain_prims ctx a demo_observation = Inr v \<and> remote_result plain_prims v = Inr r \<and>
     rr_kind r = ''github.create_issue.v1'' \<and> dict_get demo_payload ''issue_number'' = PInt 5"
proof (rule demo_attempt)
  fix ctx :: exec_context and w :: world and a :: attempt
  assume a: "at_operation a = create_op ''A''" "cx_authority ctx = demo_authority"
  obtain ob where ob: "env_driver demo_env 0 ''create_issue'' undefined = Inr ob" "is_mapping (ob_result_payload ob)"
    "nonempty_str (ob_result_identity ob)" "trusted_payload ''create_issue'' (repository_of ctx) (ob_result_payload ob) = Inr ()"
    "normalizable plain_prims (ob_result_payload ob)"
    using demo_trusted [OF a(2)] unfolding trusted_driver_def by meson
  have "ob = demo_observation" using ob(1) by (simp add: demo_env_def)
  moreover have "operation_kind (at_operation a) = ''create_issue''" by (simp add: a(1) create_op_def)
  ultimately obtain v where v: "trusted_success_result plain_prims ctx a demo_observation = Inr v"
    using trusted_success_result_ok ob(2-5) by metis
  have "dict_get demo_payload ''issue_number'' = PInt 5" by (simp add: demo_payload_def)
  with v trusted_result_recordable [OF v] a(1) show ?thesis by (auto simp: create_op_def)
qed

text \<open>
  C5: the applier finishes.  Suppose the authority stays current, nobody interferes, the clock does
  not run backwards, the credential admits each dispatch, the driver answers each creation with
  trusted evidence, and the application consists of creations of renderable items and is new to the
  database.  Then a run sends the command of each operation exactly once, in the approved order, and
  returns the state \<open>Applied\<close> with the application receipt.
\<close>

theorem apply_completes:
  assumes "create_execution_context P E service authority_id w = (Inr ctx, w1)" and "usable P ctx w1"
    and "favourable P E st cap ctx ids" and "untouched st (id_application_id (cx_identity ctx)) ids (w_db w1)"
  shows "\<exists>result receipt commands w'.
    apply_authority P E service st cap authority_id w = (Inr (Some result), w') \<and>
    rs_application_id result = id_application_id (cx_identity ctx) \<and> rs_state result = Applied \<and>
    rs_next result = length (cx_operations ctx) \<and> rs_receipt result = Some receipt \<and> rs_recovery result = PNone \<and>
    length commands = length (cx_operations ctx) \<and>
    w_sent w' = w_sent w @ map (\<lambda>(op, c). ((id_application_id (cx_identity ctx), op), ''create_issue'', c)) (zip ids commands)"
  by (rule apply_authority_ok [OF assms]) (use create_execution_context_run(5) [OF assms(1)] in auto)

theorem apply_completes_witness:
  "\<exists>ctx w result receipt w'.
     create_execution_context plain_prims demo_env 0 ''application-authority-1'' demo_start = (Inr ctx, w) \<and>
     apply_authority plain_prims demo_env 0 demo_store demo_capability ''application-authority-1'' demo_start = (Inr (Some result), w') \<and>
     rs_state result = Applied \<and> rs_receipt result = Some receipt \<and> length (w_sent w') = length (cx_operations ctx)"
proof (rule demo_favourable)
  fix ctx :: exec_context and w :: world and op
  assume c: "create_execution_context plain_prims demo_env 0 ''application-authority-1'' demo_start = (Inr ctx, w)"
    "usable plain_prims ctx w" "favourable plain_prims demo_env demo_store demo_capability ctx [op]"
    "untouched demo_store (id_application_id (cx_identity ctx)) [op] (w_db w)"
  have "length (cx_operations ctx) = 1"
    using c(3) operation_ids_Inr(1) by (fastforce simp: favourable_def)
  then show ?thesis using apply_completes [OF c] c(1) by (fastforce simp: demo_start_def)
qed

end
