(* ===== verification/Public_Errors.thy ===== *)
theory Public_Errors
  imports DS_Prelude
begin

text \<open>
  Model of \<open>delivery_system/public_error_contract.py\<close>: the registry of the errors a tool may show,
  and the search for a registered code along the chain of an exception's causes.

  The registry is the table of the source, in its order.  Exceptions are objects of a finite heap
  that refer to their cause and their context, so the chain may share objects and run in cycles;
  the search remembers the objects it has seen, as the source does, and its termination is proved.
\<close>

section \<open>The contract\<close>

datatype error_category =
    INPUT_VALIDATION | DOMAIN_BUSINESS | CURRENTNESS_STALENESS | IDENTITY_BINDING
  | PERSISTENCE_WORKSPACE | AUTHORITY_CREDENTIAL | TRANSPORT_HOST

datatype retry_disposition = NO_AUTOMATIC_RETRY

datatype recovery_action =
    CORRECT_CALLER_INPUT
  | ESTABLISH_CURRENT_AUDIT_CONTEXT
  | ESTABLISH_CURRENT_PREVIEW_THEN_RESTART_CEREMONY
  | RESTART_APPROVAL_CEREMONY
  | INVESTIGATE_APPROVAL_STATE
  | RESTORE_WORKSPACE_CONTEXT
  | REACQUIRE_CURRENT_CREDENTIAL
  | REESTABLISH_APPLICATION_AUTHORITY_AFTER_CURRENT_APPROVAL
  | INVESTIGATE_DURABLE_STATE
  | ESCALATE_TO_HOST_OPERATOR

fun category_value :: "error_category \<Rightarrow> string" where
  "category_value INPUT_VALIDATION = ''INPUT_VALIDATION''"
| "category_value DOMAIN_BUSINESS = ''DOMAIN_BUSINESS''"
| "category_value CURRENTNESS_STALENESS = ''CURRENTNESS_STALENESS''"
| "category_value IDENTITY_BINDING = ''IDENTITY_BINDING''"
| "category_value PERSISTENCE_WORKSPACE = ''PERSISTENCE_WORKSPACE''"
| "category_value AUTHORITY_CREDENTIAL = ''AUTHORITY_CREDENTIAL''"
| "category_value TRANSPORT_HOST = ''TRANSPORT_HOST''"

fun retry_value :: "retry_disposition \<Rightarrow> string" where
  "retry_value NO_AUTOMATIC_RETRY = ''NO_AUTOMATIC_RETRY''"

fun recovery_value :: "recovery_action \<Rightarrow> string" where
  "recovery_value CORRECT_CALLER_INPUT = ''CORRECT_CALLER_INPUT''"
| "recovery_value ESTABLISH_CURRENT_AUDIT_CONTEXT = ''ESTABLISH_CURRENT_AUDIT_CONTEXT''"
| "recovery_value ESTABLISH_CURRENT_PREVIEW_THEN_RESTART_CEREMONY = ''ESTABLISH_CURRENT_PREVIEW_THEN_RESTART_CEREMONY''"
| "recovery_value RESTART_APPROVAL_CEREMONY = ''RESTART_APPROVAL_CEREMONY''"
| "recovery_value INVESTIGATE_APPROVAL_STATE = ''INVESTIGATE_APPROVAL_STATE''"
| "recovery_value RESTORE_WORKSPACE_CONTEXT = ''RESTORE_WORKSPACE_CONTEXT''"
| "recovery_value REACQUIRE_CURRENT_CREDENTIAL = ''REACQUIRE_CURRENT_CREDENTIAL''"
| "recovery_value REESTABLISH_APPLICATION_AUTHORITY_AFTER_CURRENT_APPROVAL =
     ''REESTABLISH_APPLICATION_AUTHORITY_AFTER_CURRENT_APPROVAL''"
| "recovery_value INVESTIGATE_DURABLE_STATE = ''INVESTIGATE_DURABLE_STATE''"
| "recovery_value ESCALATE_TO_HOST_OPERATOR = ''ESCALATE_TO_HOST_OPERATOR''"

record public_tool_error =
  te_code :: string
  te_category :: error_category
  te_retry :: retry_disposition
  te_recovery :: recovery_action

definition to_meta :: "public_tool_error \<Rightarrow> pyval" where
  "to_meta e = obj [(''code'', PStr (te_code e)), (''category'', PStr (category_value (te_category e))),
     (''retry_disposition'', PStr (retry_value (te_retry e))), (''recovery_action'', PStr (recovery_value (te_recovery e)))]"

record error_descriptor =
  ed_code :: string
  ed_category :: error_category
  ed_retry :: retry_disposition
  ed_recovery :: recovery_action
  ed_safe_text :: string

definition public_error :: "error_descriptor \<Rightarrow> public_tool_error" where
  "public_error d = \<lparr>te_code = ed_code d, te_category = ed_category d, te_retry = ed_retry d, te_recovery = ed_recovery d\<rparr>"

definition describe :: "string \<Rightarrow> error_category \<Rightarrow> recovery_action \<Rightarrow> string \<Rightarrow> error_descriptor" where
  "describe code category recovery text =
     \<lparr>ed_code = code, ed_category = category, ed_retry = NO_AUTOMATIC_RETRY, ed_recovery = recovery, ed_safe_text = text\<rparr>"

section \<open>The registry\<close>

text \<open>The table, in four parts.\<close>

definition application_errors :: "(string \<times> error_descriptor) list" where
  "application_errors = [
    (''application_authority_id_invalid'', describe ''application_authority_id_invalid'' INPUT_VALIDATION CORRECT_CALLER_INPUT
       ''application_authority_id_invalid: Application Authority input is invalid.''),
    (''application_authority_rejected'', describe ''application_authority_rejected'' AUTHORITY_CREDENTIAL REESTABLISH_APPLICATION_AUTHORITY_AFTER_CURRENT_APPROVAL
       ''application_authority_rejected: Application Authority could not be accepted for the current Approval.''),
    (''application_binding_conflict'', describe ''application_binding_conflict'' IDENTITY_BINDING INVESTIGATE_DURABLE_STATE
       ''application_binding_conflict: Application identity binding is inconsistent.''),
    (''application_id_invalid'', describe ''application_id_invalid'' INPUT_VALIDATION CORRECT_CALLER_INPUT
       ''application_id_invalid: Application identifier input is invalid.''),
    (''application_not_found'', describe ''application_not_found'' PERSISTENCE_WORKSPACE INVESTIGATE_DURABLE_STATE
       ''application_not_found: The requested Application was not found in durable state.''),
    (''application_reconciliation_boundary_unavailable'', describe ''application_reconciliation_boundary_unavailable'' TRANSPORT_HOST ESCALATE_TO_HOST_OPERATOR
       ''application_reconciliation_boundary_unavailable: The Application observation boundary is unavailable.''),
    (''application_reconciliation_state_invalid'', describe ''application_reconciliation_state_invalid'' PERSISTENCE_WORKSPACE INVESTIGATE_DURABLE_STATE
       ''application_reconciliation_state_invalid: Durable reconciliation state is invalid.''),
    (''application_receipt_integrity_invalid'', describe ''application_receipt_integrity_invalid'' PERSISTENCE_WORKSPACE INVESTIGATE_DURABLE_STATE
       ''application_receipt_integrity_invalid: Durable Application receipt integrity could not be verified.''),
    (''application_receipt_not_found'', describe ''application_receipt_not_found'' PERSISTENCE_WORKSPACE INVESTIGATE_DURABLE_STATE
       ''application_receipt_not_found: The Application receipt is missing from durable state.''),
    (''application_replay_validation_required'', describe ''application_replay_validation_required'' PERSISTENCE_WORKSPACE INVESTIGATE_DURABLE_STATE
       ''application_replay_validation_required: Durable Application replay validation is required.'')]"

definition approval_errors :: "(string \<times> error_descriptor) list" where
  "approval_errors = [
    (''approval_audit_ambiguous'', describe ''approval_audit_ambiguous'' IDENTITY_BINDING INVESTIGATE_APPROVAL_STATE
       ''approval_audit_ambiguous: Approval state is bound to more than one eligible Audit.''),
    (''approval_binding_conflict'', describe ''approval_binding_conflict'' IDENTITY_BINDING INVESTIGATE_APPROVAL_STATE
       ''approval_binding_conflict: Existing Approval binding conflicts with the requested Approval.''),
    (''approval_binding_mismatch'', describe ''approval_binding_mismatch'' IDENTITY_BINDING INVESTIGATE_APPROVAL_STATE
       ''approval_binding_mismatch: Approval identity does not match the current Approval context.''),
    (''approval_command_invalid'', describe ''approval_command_invalid'' INPUT_VALIDATION CORRECT_CALLER_INPUT
       ''approval_command_invalid: The Approval command is not valid.''),
    (''approval_invalid'', describe ''approval_invalid'' DOMAIN_BUSINESS INVESTIGATE_APPROVAL_STATE
       ''approval_invalid: Approval data could not be safely validated.''),
    (''approval_not_found'', describe ''approval_not_found'' IDENTITY_BINDING INVESTIGATE_APPROVAL_STATE
       ''approval_not_found: The required Approval record was not found.''),
    (''approval_runtime_boundary_invalid'', describe ''approval_runtime_boundary_invalid'' TRANSPORT_HOST ESCALATE_TO_HOST_OPERATOR
       ''approval_runtime_boundary_invalid: The Approval Runtime boundary is unavailable or invalid.''),
    (''approval_stale'', describe ''approval_stale'' CURRENTNESS_STALENESS RESTART_APPROVAL_CEREMONY
       ''approval_stale: The Approval is no longer current for the target.''),
    (''approval_workspace_mismatch'', describe ''approval_workspace_mismatch'' IDENTITY_BINDING INVESTIGATE_APPROVAL_STATE
       ''approval_workspace_mismatch: Approval workspace binding is inconsistent.'')]"

definition durable_errors :: "(string \<times> error_descriptor) list" where
  "durable_errors = [
    (''attempt_integrity_invalid'', describe ''attempt_integrity_invalid'' PERSISTENCE_WORKSPACE INVESTIGATE_DURABLE_STATE
       ''attempt_integrity_invalid: Durable execution attempt integrity could not be verified.''),
    (''attestation_service_unavailable'', describe ''attestation_service_unavailable'' TRANSPORT_HOST ESCALATE_TO_HOST_OPERATOR
       ''attestation_service_unavailable: The attestation service is unavailable.''),
    (''audit_context_stale'', describe ''audit_context_stale'' CURRENTNESS_STALENESS ESTABLISH_CURRENT_AUDIT_CONTEXT
       ''audit_context_stale: Audit context is no longer current.''),
    (''audit_not_found'', describe ''audit_not_found'' CURRENTNESS_STALENESS ESTABLISH_CURRENT_AUDIT_CONTEXT
       ''audit_not_found: The required Audit was not found.''),
    (''audit_not_approval_eligible'', describe ''audit_not_approval_eligible'' DOMAIN_BUSINESS ESTABLISH_CURRENT_PREVIEW_THEN_RESTART_CEREMONY
       ''audit_not_approval_eligible: The current Audit does not qualify for Approval.''),
    (''audit_stale'', describe ''audit_stale'' CURRENTNESS_STALENESS ESTABLISH_CURRENT_AUDIT_CONTEXT
       ''audit_stale: The Audit is no longer current.''),
    (''authority_issuance_requires_recovery'', describe ''authority_issuance_requires_recovery'' AUTHORITY_CREDENTIAL REESTABLISH_APPLICATION_AUTHORITY_AFTER_CURRENT_APPROVAL
       ''authority_issuance_requires_recovery: Application Authority issuance requires recovery.''),
    (''context_stale'', describe ''context_stale'' CURRENTNESS_STALENESS ESTABLISH_CURRENT_AUDIT_CONTEXT
       ''context_stale: The requested context is no longer current.''),
    (''credential_binding_mismatch'', describe ''credential_binding_mismatch'' IDENTITY_BINDING INVESTIGATE_DURABLE_STATE
       ''credential_binding_mismatch: Credential binding does not match durable authority state.''),
    (''credential_capability_insufficient'', describe ''credential_capability_insufficient'' AUTHORITY_CREDENTIAL REESTABLISH_APPLICATION_AUTHORITY_AFTER_CURRENT_APPROVAL
       ''credential_capability_insufficient: Credential capabilities are insufficient for the current authority.''),
    (''credential_expired'', describe ''credential_expired'' AUTHORITY_CREDENTIAL REACQUIRE_CURRENT_CREDENTIAL
       ''credential_expired: The current credential has expired.''),
    (''driver_trust_context_mismatch'', describe ''driver_trust_context_mismatch'' IDENTITY_BINDING INVESTIGATE_DURABLE_STATE
       ''driver_trust_context_mismatch: Driver trust context does not match durable state.''),
    (''input_invalid'', describe ''input_invalid'' INPUT_VALIDATION CORRECT_CALLER_INPUT
       ''input_invalid: Tool input could not be validated.''),
    (''internal_error'', describe ''internal_error'' TRANSPORT_HOST ESCALATE_TO_HOST_OPERATOR
       ''internal_error: The tool could not complete the request. Escalate to the host operator.''),
    (''operation_receipt_not_found'', describe ''operation_receipt_not_found'' PERSISTENCE_WORKSPACE INVESTIGATE_DURABLE_STATE
       ''operation_receipt_not_found: The operation receipt is missing from durable state.''),
    (''preview_digest_mismatch'', describe ''preview_digest_mismatch'' PERSISTENCE_WORKSPACE INVESTIGATE_DURABLE_STATE
       ''preview_digest_mismatch: Preview integrity could not be verified.'')]"

definition remaining_errors :: "(string \<times> error_descriptor) list" where
  "remaining_errors = [
    (''preview_not_found'', describe ''preview_not_found'' CURRENTNESS_STALENESS ESTABLISH_CURRENT_PREVIEW_THEN_RESTART_CEREMONY
       ''preview_not_found: The requested Preview was not found.''),
    (''preview_stale'', describe ''preview_stale'' CURRENTNESS_STALENESS ESTABLISH_CURRENT_PREVIEW_THEN_RESTART_CEREMONY
       ''preview_stale: The requested Preview is no longer current.''),
    (''reconciliation_operation_unsupported'', describe ''reconciliation_operation_unsupported'' DOMAIN_BUSINESS INVESTIGATE_DURABLE_STATE
       ''reconciliation_operation_unsupported: This application operation cannot be observed through the current recovery path.''),
    (''receipt_integrity_invalid'', describe ''receipt_integrity_invalid'' PERSISTENCE_WORKSPACE INVESTIGATE_DURABLE_STATE
       ''receipt_integrity_invalid: Durable operation receipt integrity could not be verified.''),
    (''remote_observation_unavailable'', describe ''remote_observation_unavailable'' TRANSPORT_HOST ESCALATE_TO_HOST_OPERATOR
       ''remote_observation_unavailable: Remote postcondition observation is unavailable.''),
    (''sealed_preview_schema_invalid'', describe ''sealed_preview_schema_invalid'' PERSISTENCE_WORKSPACE INVESTIGATE_DURABLE_STATE
       ''sealed_preview_schema_invalid: Stored Preview structure could not be validated.''),
    (''sealed_preview_unavailable'', describe ''sealed_preview_unavailable'' PERSISTENCE_WORKSPACE INVESTIGATE_DURABLE_STATE
       ''sealed_preview_unavailable: The sealed Preview is unavailable or incomplete.''),
    (''state_integrity_invalid'', describe ''state_integrity_invalid'' PERSISTENCE_WORKSPACE INVESTIGATE_DURABLE_STATE
       ''state_integrity_invalid: Durable application state integrity could not be verified.''),
    (''store_corrupt'', describe ''store_corrupt'' PERSISTENCE_WORKSPACE INVESTIGATE_DURABLE_STATE
       ''store_corrupt: Durable workspace state appears corrupted.''),
    (''store_unavailable'', describe ''store_unavailable'' PERSISTENCE_WORKSPACE INVESTIGATE_DURABLE_STATE
       ''store_unavailable: Durable workspace storage is unavailable.''),
    (''verified_attestation_context_unverified'', describe ''verified_attestation_context_unverified'' AUTHORITY_CREDENTIAL REESTABLISH_APPLICATION_AUTHORITY_AFTER_CURRENT_APPROVAL
       ''verified_attestation_context_unverified: Verified attestation context is unavailable for current authority issuance.''),
    (''workspace_identity_unavailable'', describe ''workspace_identity_unavailable'' PERSISTENCE_WORKSPACE RESTORE_WORKSPACE_CONTEXT
       ''workspace_identity_unavailable: Workspace context is unavailable for this operation.''),
    (''write_execution_boundary_unavailable'', describe ''write_execution_boundary_unavailable'' TRANSPORT_HOST ESCALATE_TO_HOST_OPERATOR
       ''write_execution_boundary_unavailable: The write execution boundary is unavailable.''),
    (''write_executor_required'', describe ''write_executor_required'' TRANSPORT_HOST ESCALATE_TO_HOST_OPERATOR
       ''write_executor_required: The configured write executor is unavailable.'')]"

definition error_registry :: "(string \<times> error_descriptor) list" where
  "error_registry = application_errors @ approval_errors @ durable_errors @ remaining_errors"

definition registered :: "pyval \<Rightarrow> bool" where
  "registered v \<longleftrightarrow> (case v of PStr code \<Rightarrow> map_of error_registry code \<noteq> None | _ \<Rightarrow> False)"

definition internal_error_code :: string where
  "internal_error_code = ''internal_error''"

definition descriptor_for_code :: "pyval \<Rightarrow> error_descriptor res" where
  "descriptor_for_code v =
     (case (case v of PStr code \<Rightarrow> map_of error_registry code | _ \<Rightarrow> None) of
        Some d \<Rightarrow> Inr d
      | None \<Rightarrow> of_option KeyError (map_of error_registry internal_error_code))"

definition public_error_for_code :: "pyval \<Rightarrow> public_tool_error res" where
  "public_error_for_code v = rbind (descriptor_for_code v) (\<lambda>d. Inr (public_error d))"

section \<open>Exceptions\<close>

text \<open>
  \<open>px_code\<close> is the attribute \<open>code\<close> or \<open>None\<close>, \<open>px_value_error\<close> whether the object is a
  \<open>ValueError\<close>; objects are known by their place in the heap.
\<close>

record py_exception =
  px_code :: pyval
  px_value_error :: bool
  px_args :: "pyval list"
  px_cause :: "nat option"
  px_context :: "nat option"

text \<open>The registered code an exception carries itself.\<close>

definition carried_code :: "py_exception \<Rightarrow> string option" where
  "carried_code x =
     (if registered (px_code x) then Some (str_of (px_code x))
      else case px_args x of
          [candidate] \<Rightarrow> if px_value_error x \<and> registered candidate then Some (str_of candidate) else None
        | _ \<Rightarrow> None)"

definition next_exception :: "py_exception \<Rightarrow> nat option" where
  "next_exception x = (case px_cause x of Some c \<Rightarrow> Some c | None \<Rightarrow> px_context x)"

function find_registered :: "py_exception list \<Rightarrow> nat list \<Rightarrow> nat option \<Rightarrow> string option" where
  "find_registered heap seen current =
     (case current of
        None \<Rightarrow> None
      | Some i \<Rightarrow>
          if i \<in> set seen \<or> length heap \<le> i then None
          else case carried_code (heap ! i) of
              Some code \<Rightarrow> Some code
            | None \<Rightarrow> find_registered heap (i # seen) (next_exception (heap ! i)))"
  by pat_completeness auto
termination
proof (relation "measure (\<lambda>(heap, seen, current). card ({..< length heap} - set seen))")
  fix heap :: "py_exception list" and seen current i
  assume "\<not> (i \<in> set seen \<or> length heap \<le> i)"
  then have "i \<in> {..< length heap} - set seen" "i \<notin> {..< length heap} - set (i # seen)" by simp_all
  moreover have "{..< length heap} - set (i # seen) \<subseteq> {..< length heap} - set seen" by (simp add: subset_insertI Diff_mono)
  ultimately have "{..< length heap} - set (i # seen) \<subset> {..< length heap} - set seen" by blast
  then have "card ({..< length heap} - set (i # seen)) < card ({..< length heap} - set seen)"
    by (intro psubset_card_mono) auto
  then show "((heap, i # seen, next_exception (heap ! i)), heap, seen, current)
      \<in> measure (\<lambda>(heap, seen, current). card ({..< length heap} - set seen))"
    by simp
qed simp

declare find_registered.simps [simp del]

definition registered_code_from_exception :: "py_exception list \<Rightarrow> nat \<Rightarrow> string option" where
  "registered_code_from_exception heap error = find_registered heap [] (Some error)"

section \<open>The registry is total\<close>

lemma registry_rows: "list_all (\<lambda>(k, d). ed_code d = k \<and> prefix (k @ '': '') (ed_safe_text d)) error_registry"
  unfolding error_registry_def list_all_append
proof (intro conjI)
  let ?ok = "\<lambda>(k, d). ed_code d = k \<and> prefix (k @ '': '') (ed_safe_text d)"
  show "list_all ?ok application_errors" by (simp add: application_errors_def describe_def)
  show "list_all ?ok approval_errors" by (simp add: approval_errors_def describe_def)
  show "list_all ?ok durable_errors" by (simp add: durable_errors_def describe_def)
  show "list_all ?ok remaining_errors" by (simp add: remaining_errors_def describe_def)
qed

lemma registry_row: "map_of error_registry k = Some d \<Longrightarrow> ed_code d = k \<and> prefix (k @ '': '') (ed_safe_text d)"
  using registry_rows by (auto simp: list_all_iff dest!: map_of_SomeD)

lemma registry_keys: "distinct (map fst error_registry)"
  by code_simp

lemma internal_registered: "\<exists>d. map_of error_registry internal_error_code = Some d"
proof -
  have "map_of error_registry internal_error_code \<noteq> None" by code_simp
  then show ?thesis by blast
qed

text \<open>
  C39: every code, registered or not, has a public error.  A registered code keeps its name and any
  other value is shown as \<open>internal_error\<close>, so only codes of the registry are ever shown; the text
  shown with it starts with that code, and no error asks for an automatic retry.
\<close>

theorem public_error_total:
  "\<exists>d. descriptor_for_code v = Inr d \<and> public_error_for_code v = Inr (public_error d) \<and>
     map_of error_registry (te_code (public_error d)) = Some d \<and>
     te_code (public_error d) = (if registered v then str_of v else ''internal_error'') \<and>
     prefix (te_code (public_error d) @ '': '') (ed_safe_text d) \<and>
     dict_get (to_meta (public_error d)) ''retry_disposition'' = PStr ''NO_AUTOMATIC_RETRY''"
proof -
  have retry: "r = NO_AUTOMATIC_RETRY" for r by (cases r) simp
  have found: "\<exists>d. descriptor_for_code v = Inr d \<and> map_of error_registry (if registered v then str_of v else ''internal_error'') = Some d"
  proof (cases "registered v")
    case True
    then show ?thesis by (auto simp: registered_def descriptor_for_code_def split: pyval.splits)
  next
    case False
    then have "(case v of PStr code \<Rightarrow> map_of error_registry code | _ \<Rightarrow> None) = None"
      by (auto simp: registered_def split: pyval.splits)
    then show ?thesis using False internal_registered by (auto simp: descriptor_for_code_def internal_error_code_def)
  qed
  then obtain d where d: "descriptor_for_code v = Inr d"
    "map_of error_registry (if registered v then str_of v else ''internal_error'') = Some d" by blast
  show ?thesis
    using d registry_row [OF d(2)] retry [of "ed_retry d"]
    by (intro exI [of _ d]) (simp add: public_error_for_code_def public_error_def to_meta_def dict_get_def)
qed

section \<open>The search along the chain\<close>

text \<open>The reference: the first \<open>n\<close> objects of the chain, repetitions included.\<close>

fun exception_chain :: "nat \<Rightarrow> py_exception list \<Rightarrow> nat option \<Rightarrow> nat list" where
  "exception_chain (Suc n) heap (Some i) =
     (if i < length heap then i # exception_chain n heap (next_exception (heap ! i)) else [])"
| "exception_chain _ heap _ = []"

definition first_carried :: "py_exception list \<Rightarrow> nat list \<Rightarrow> string option" where
  "first_carried heap is = (case List.map_filter (\<lambda>i. carried_code (heap ! i)) is of [] \<Rightarrow> None | c # _ \<Rightarrow> Some c)"

lemma first_carried_simps [simp]:
  "first_carried heap [] = None"
  "first_carried heap (i # is) = (case carried_code (heap ! i) of Some c \<Rightarrow> Some c | None \<Rightarrow> first_carried heap is)"
  by (auto simp: first_carried_def List.map_filter_def split: option.splits)

text \<open>What the search has passed: objects without a code whose successors it has passed as well.\<close>

definition passed :: "py_exception list \<Rightarrow> nat list \<Rightarrow> nat option \<Rightarrow> bool" where
  "passed heap seen current \<longleftrightarrow>
     (\<forall>i \<in> set seen. i < length heap \<and> carried_code (heap ! i) = None \<and>
        (\<forall>j. next_exception (heap ! i) = Some j \<longrightarrow> j \<in> set seen \<or> current = Some j))"

lemma passed_closed:
  "passed heap seen (Some i) \<Longrightarrow> i \<in> set seen \<Longrightarrow> first_carried heap (exception_chain n heap (Some i)) = None"
proof (induction n arbitrary: i)
  case (Suc n)
  have i: "i < length heap" "carried_code (heap ! i) = None" using Suc.prems by (auto simp: passed_def)
  show ?case
  proof (cases "next_exception (heap ! i)")
    case None
    then show ?thesis using i by (cases n) simp_all
  next
    case (Some j)
    then have j: "j \<in> set seen" using Suc.prems by (auto simp: passed_def)
    then have "passed heap seen (Some j)" using Suc.prems by (force simp: passed_def)
    then show ?thesis using Suc.IH [OF _ j] i Some by simp
  qed
qed simp

lemma find_registered_chain:
  "passed heap seen current \<Longrightarrow> card ({..< length heap} - set seen) \<le> n \<Longrightarrow>
     find_registered heap seen current = first_carried heap (exception_chain n heap current)"
proof (induction heap seen current arbitrary: n rule: find_registered.induct)
  case (1 heap seen current)
  show ?case
  proof (cases current)
    case None
    then show ?thesis by (subst find_registered.simps) (cases n; simp)
  next
    case (Some i)
    consider "i \<in> set seen" | "length heap \<le> i" | "i \<notin> set seen" "i < length heap" by linarith
    then show ?thesis
    proof cases
      case 1
      then show ?thesis using "1.prems"(1) Some passed_closed by (subst find_registered.simps) simp
    next
      case 2
      then show ?thesis using Some by (subst find_registered.simps) (cases n; simp)
    next
      case 3
      let ?rest = "{..< length heap} - set seen"
      have "i \<in> ?rest" using 3 by simp
      then have pos: "0 < card ?rest" using card_gt_0_iff by blast
      then obtain m where m: "n = Suc m" using "1.prems"(2) by (cases n) auto
      have "{..< length heap} - set (i # seen) = ?rest - {i}" by auto
      then have "card ({..< length heap} - set (i # seen)) \<le> m"
        using "1.prems"(2) \<open>i \<in> ?rest\<close> m by (simp add: card_Diff_singleton)
      show ?thesis
      proof (cases "carried_code (heap ! i)")
        case None
        then have "passed heap (i # seen) (next_exception (heap ! i))"
          using "1.prems"(1) Some 3 by (auto simp: passed_def)
        then show ?thesis
          using "1.IH" [OF Some _ None] 3 Some None m \<open>card ({..< length heap} - set (i # seen)) \<le> m\<close>
          by (subst find_registered.simps) simp
      next
        case (Some c)
        then show ?thesis using \<open>current = Some i\<close> 3 m by (subst find_registered.simps) simp
      qed
    qed
  qed
qed

text \<open>
  C40: the search for a registered code comes to an end on every chain of exceptions, cyclic ones
  included, and finds the code of the first exception along the chain that carries one; it misses
  none by remembering what it has seen.  Only registered codes are found.
\<close>

theorem registered_code_search:
  "registered_code_from_exception heap error =
     first_carried heap (exception_chain (length heap) heap (Some error)) \<and>
   (\<forall>code. registered_code_from_exception heap error = Some code \<longrightarrow> registered (PStr code))"
proof
  show chain: "registered_code_from_exception heap error = first_carried heap (exception_chain (length heap) heap (Some error))"
    unfolding registered_code_from_exception_def
    by (rule find_registered_chain) (simp_all add: passed_def)
  have carried: "registered (PStr code)" if "carried_code x = Some code" for x code
    using that by (auto simp: carried_code_def registered_def split: if_splits list.splits pyval.splits)
  have "registered (PStr code)" if "first_carried heap is = Some code" for "is" code
    using that by (induction "is") (auto split: option.splits intro: carried)
  then show "\<forall>code. registered_code_from_exception heap error = Some code \<longrightarrow> registered (PStr code)"
    using chain by simp
qed

theorem registered_code_search_witness:
  "registered_code_from_exception
     [\<lparr>px_code = PNone, px_value_error = False, px_args = [], px_cause = Some 1, px_context = None\<rparr>,
      \<lparr>px_code = PNone, px_value_error = True, px_args = [PStr ''preview_stale''], px_cause = None, px_context = Some 0\<rparr>] 0 =
     Some ''preview_stale'' \<and> registered (PStr ''preview_stale'')"
proof -
  let ?heap = "[\<lparr>px_code = PNone, px_value_error = False, px_args = [], px_cause = Some 1, px_context = None\<rparr>,
      \<lparr>px_code = PNone, px_value_error = True, px_args = [PStr ''preview_stale''], px_cause = None, px_context = Some 0\<rparr>]"
  have r: "registered (PStr ''preview_stale'')" by code_simp
  then have "first_carried ?heap (exception_chain (length ?heap) ?heap (Some 0)) = Some ''preview_stale''"
    by (simp add: next_exception_def carried_code_def) (simp add: registered_def)
  then have "registered_code_from_exception ?heap 0 = Some ''preview_stale''"
    using registered_code_search [of ?heap 0] by simp
  then show ?thesis using registered_code_search [of ?heap 0] by simp
qed

end
