(* ===== verification/Sealed_Preview.thy ===== *)
theory Sealed_Preview
  imports Execution_Context
begin

text \<open>
  Model of \<open>SealedPreview\<close> of \<open>delivery_system/formal_preview.py\<close>.

  A stored preview is a mapping.  \<open>sealed_from_dict\<close> reads it into the record, \<open>sealed_to_dict\<close>
  writes the record as a normal form, and \<open>unchanged\<close> is Python's equality between that normal form
  and the stored mapping.  Reading is shown to accept exactly the mappings that hold the fields of a
  well-formed record, and to lose none of them.
\<close>

section \<open>The record\<close>

datatype preview_level = Conceptual | RepositoryAware | WriteEligible

fun level_value :: "preview_level \<Rightarrow> string" where
  "level_value Conceptual = ''Conceptual''"
| "level_value RepositoryAware = ''RepositoryAware''"
| "level_value WriteEligible = ''WriteEligible''"

text \<open>\<open>value in {level.value for level in PreviewLevel}\<close>\<close>

definition read_level :: "string \<Rightarrow> pyval \<Rightarrow> preview_level res" where
  "read_level code v =
     (if \<not> hashable v then Inl TypeError
      else of_option (ValueError code) (find (\<lambda>l. v = PStr (level_value l)) [Conceptual, RepositoryAware, WriteEligible]))"

record sealed_preview =
  sp_workspace_identity :: string
  sp_request_id :: string
  sp_preview_id :: string
  sp_revision :: int
  sp_level :: preview_level
  sp_repository_identity :: "string option"
  sp_remote_authority :: "string option"
  sp_semantic_payload :: pyval
  sp_operations :: "pyval list"
  sp_plan_digest :: string
  sp_operation_set_digest :: string
  sp_snapshot :: pyval
  sp_snapshot_digest :: "string option"
  sp_items :: "pyval list"
  sp_evidence_ids :: "string list"
  sp_blockers :: "string list"
  sp_observations :: "pyval list"
  sp_digest :: string
  sp_bindings :: "pyval list option" \<comment> \<open>the endpoint bindings of canonical version 2\<close>

definition sealed_fields :: "sealed_preview \<Rightarrow> (string \<times> pyval) list" where
  "sealed_fields s =
     [(''workspace_identity'', PStr (sp_workspace_identity s)), (''request_id'', PStr (sp_request_id s)),
      (''preview_id'', PStr (sp_preview_id s)), (''revision'', PInt (sp_revision s)),
      (''preview_level'', PStr (level_value (sp_level s))), (''provenance_status'', PStr ''declared_unverified''),
      (''repository_identity'', opt_str (sp_repository_identity s)), (''remote_authority'', opt_str (sp_remote_authority s)),
      (''semantic_payload'', sp_semantic_payload s), (''operation_intents'', PList (sp_operations s)),
      (''plan_digest'', PStr (sp_plan_digest s)), (''operation_set_digest'', PStr (sp_operation_set_digest s)),
      (''remote_snapshot'', sp_snapshot s), (''remote_snapshot_digest'', opt_str (sp_snapshot_digest s)),
      (''items'', PList (sp_items s)), (''evidence_ids'', strs (sp_evidence_ids s)), (''blockers'', strs (sp_blockers s)),
      (''planner_observations'', PList (sp_observations s)), (''sealed_preview_digest'', PStr (sp_digest s))] @
     (case sp_bindings s of None \<Rightarrow> []
      | Some bs \<Rightarrow> [(''canonical_version'', PStr ''2''), (''existing_endpoint_bindings'', PList bs)])"

definition sealed_to_dict :: "prims \<Rightarrow> sealed_preview \<Rightarrow> json res" where
  "sealed_to_dict P s = normalize P (obj (sealed_fields s))"

definition sealed_required :: "string list" where
  "sealed_required = [''workspace_identity'', ''request_id'', ''preview_id'', ''revision'', ''preview_level'',
     ''provenance_status'', ''repository_identity'', ''remote_authority'', ''semantic_payload'', ''operation_intents'',
     ''plan_digest'', ''operation_set_digest'', ''remote_snapshot'', ''remote_snapshot_digest'', ''items'', ''evidence_ids'',
     ''blockers'', ''planner_observations'', ''sealed_preview_digest'']"

fun list_of :: "(pyval \<Rightarrow> bool) \<Rightarrow> pyval \<Rightarrow> bool" where
  "list_of ok (PList xs) = list_all ok xs"
| "list_of ok _ = False"

fun elements :: "pyval \<Rightarrow> pyval list" where
  "elements (PList xs) = xs"
| "elements _ = []"

fun opt_of :: "pyval \<Rightarrow> string option" where
  "opt_of (PStr s) = Some s"
| "opt_of _ = None"

text \<open>The keys of each version, and whether the version is 2.\<close>

definition sealed_version :: "pyval \<Rightarrow> bool res" where
  "sealed_version payload =
     (let version = dict_get payload ''canonical_version'' in
      if version = PNone then raise_if (\<not> has_exactly payload sealed_required) ''sealed_preview_schema_invalid'' (Inr False)
      else if version = PStr ''2'' then
        raise_if (\<not> has_exactly payload (sealed_required @ [''canonical_version'', ''existing_endpoint_bindings'']))
          ''sealed_preview_schema_invalid''
          (raise_if (\<not> list_of is_mapping (dict_get payload ''existing_endpoint_bindings''))
             ''sealed_preview_endpoint_bindings_invalid'' (Inr True))
      else Inl (ValueError ''sealed_preview_version_invalid''))"

definition sealed_shapes :: "pyval \<Rightarrow> bool" where
  "sealed_shapes payload \<longleftrightarrow>
     is_mapping (dict_get payload ''semantic_payload'') \<and> list_of is_mapping (dict_get payload ''operation_intents'') \<and>
     list_of is_mapping (dict_get payload ''items'') \<and> list_of nonempty_str (dict_get payload ''evidence_ids'') \<and>
     list_of is_str (dict_get payload ''blockers'') \<and> list_of is_mapping (dict_get payload ''planner_observations'')"

definition snapshot_v2 :: "pyval \<Rightarrow> bool" where
  "snapshot_v2 snapshot \<longleftrightarrow> dict_get snapshot ''schema_version'' = PStr ''remote-snapshot-v2''"

text \<open>The snapshot's schema against the preview's version.\<close>

definition sealed_snapshot_checks :: "bool \<Rightarrow> pyval \<Rightarrow> unit res" where
  "sealed_snapshot_checks v2 payload =
     (let snapshot = dict_get payload ''remote_snapshot''; snapshot_digest = dict_get payload ''remote_snapshot_digest'' in
      raise_if (snapshot \<noteq> PNone \<and> \<not> is_mapping snapshot) ''sealed_preview_remote_invalid''
      (raise_if (snapshot \<noteq> PNone \<and> \<not> v2 \<and> snapshot_v2 snapshot) ''sealed_preview_v1_v2_hybrid''
      (raise_if (snapshot \<noteq> PNone \<and> v2 \<and> \<not> snapshot_v2 snapshot) ''sealed_preview_v2_snapshot_invalid''
      (raise_if (v2 \<and> truthy (dict_get payload ''existing_endpoint_bindings'') \<and>
                 (\<not> is_mapping snapshot \<or> \<not> snapshot_v2 snapshot \<or> \<not> nonempty_str snapshot_digest))
         ''sealed_preview_v2_snapshot_required''
      (raise_if (snapshot_digest \<noteq> PNone \<and> \<not> nonempty_str snapshot_digest) ''sealed_preview_remote_digest_invalid''
         (Inr ()))))))"

definition sealed_from_dict :: "pyval \<Rightarrow> sealed_preview res" where
  "sealed_from_dict payload =
     (let get = dict_get payload in
      raise_if (\<not> is_mapping payload) ''sealed_preview_required''
      (rbind (sealed_version payload) (\<lambda>v2.
       raise_if (\<not> list_all (\<lambda>k. nonempty_str (get k)) [''workspace_identity'', ''request_id'', ''preview_id''])
         ''sealed_preview_identity_invalid''
       (raise_if (\<not> (case get ''revision'' of PInt i \<Rightarrow> 1 \<le> i | _ \<Rightarrow> False)) ''sealed_preview_revision_invalid''
       (rbind (read_level ''sealed_preview_level_invalid'' (get ''preview_level'')) (\<lambda>level.
       raise_if (get ''provenance_status'' \<noteq> PStr ''declared_unverified'') ''preview_provenance_invalid''
       (raise_if (\<not> sealed_shapes payload) ''sealed_preview_payload_invalid''
       (raise_if (\<not> list_all (\<lambda>k. nonempty_str (get k)) [''plan_digest'', ''operation_set_digest'', ''sealed_preview_digest''])
         ''sealed_preview_digest_field_invalid''
       (raise_if (get ''repository_identity'' \<noteq> PNone \<and> \<not> nonblank (get ''repository_identity''))
         ''sealed_preview_repository_invalid''
       (raise_if (get ''remote_authority'' \<noteq> PNone \<and> \<not> is_str (get ''remote_authority''))
         ''sealed_preview_authority_invalid''
       (rbind (sealed_snapshot_checks v2 payload) (\<lambda>_.
       Inr \<lparr>sp_workspace_identity = str_of (get ''workspace_identity''), sp_request_id = str_of (get ''request_id''),
            sp_preview_id = str_of (get ''preview_id''),
            sp_revision = (case get ''revision'' of PInt i \<Rightarrow> i | _ \<Rightarrow> 0), sp_level = level,
            sp_repository_identity = opt_of (get ''repository_identity''), sp_remote_authority = opt_of (get ''remote_authority''),
            sp_semantic_payload = get ''semantic_payload'', sp_operations = elements (get ''operation_intents''),
            sp_plan_digest = str_of (get ''plan_digest''), sp_operation_set_digest = str_of (get ''operation_set_digest''),
            sp_snapshot = get ''remote_snapshot'', sp_snapshot_digest = opt_of (get ''remote_snapshot_digest''),
            sp_items = elements (get ''items''), sp_evidence_ids = map str_of (elements (get ''evidence_ids'')),
            sp_blockers = map str_of (elements (get ''blockers'')), sp_observations = elements (get ''planner_observations''),
            sp_digest = str_of (get ''sealed_preview_digest''),
            sp_bindings = (if v2 then Some (elements (get ''existing_endpoint_bindings'')) else None)\<rparr>))))))))))))"

definition is_stale :: "sealed_preview \<Rightarrow> string \<Rightarrow> bool" where
  "is_stale s current \<longleftrightarrow> sp_snapshot_digest s \<noteq> Some current"

section \<open>Equality with the normal form\<close>

text \<open>
  \<open>normalized == value\<close> for the normal form of the same value, whose scalars keep their types:
  mappings are compared without their order, and a list is equal to a list only.
\<close>

function unchanged :: "json \<Rightarrow> pyval \<Rightarrow> bool" where
  "unchanged JNull v = (v = PNone)"
| "unchanged (JBool b) v = (v = PBool b)"
| "unchanged (JInt i) v = (v = PInt i)"
| "unchanged (JFloat r) v = (v = PFloat (Finite r))"
| "unchanged (JStr s) v = (v = PStr s)"
| "unchanged (JArr xs) v =
     (case v of PList ys \<Rightarrow> length xs = length ys \<and> list_all (\<lambda>xy. unchanged (fst xy) (snd xy)) (zip xs ys) | _ \<Rightarrow> False)"
| "unchanged (JObj kvs) v =
     (case v of
        PDict kws \<Rightarrow> length kvs = length kws \<and>
          list_all (\<lambda>kv. case map_of kws (PStr (fst kv)) of None \<Rightarrow> False | Some w \<Rightarrow> unchanged (snd kv) w) kvs
      | _ \<Rightarrow> False)"
  by pat_completeness auto
termination
proof (relation "measure (\<lambda>(j, v). size j)")
  fix xs :: "json list" and v and ys :: "pyval list" and xy
  assume "xy \<in> set (zip xs ys)"
  then have "fst xy \<in> set xs" by (metis prod.collapse set_zip_leftD)
  then show "((fst xy, snd xy), JArr xs, v) \<in> measure (\<lambda>(j, v). size j)"
    by (auto simp: less_Suc_eq_le split_beta intro: size_list_estimation')
next
  fix kvs :: "(string \<times> json) list" and v kv w
  assume "kv \<in> set kvs"
  moreover have "size (snd kv) < size_prod (\<lambda>_. 0) size kv" by (cases kv) simp
  ultimately have "size (snd kv) < size_list (size_prod (\<lambda>_. 0) size) kvs"
    by (rule size_list_estimation)
  then show "((snd kv, w), JObj kvs, v) \<in> measure (\<lambda>(j, v). size j)"
    by simp
qed simp

section \<open>Reading and writing the record\<close>

definition sealed_ok :: "sealed_preview \<Rightarrow> bool" where
  "sealed_ok s \<longleftrightarrow>
     sp_workspace_identity s \<noteq> [] \<and> sp_request_id s \<noteq> [] \<and> sp_preview_id s \<noteq> [] \<and> 1 \<le> sp_revision s \<and>
     (\<forall>r. sp_repository_identity s = Some r \<longrightarrow> strip r \<noteq> []) \<and> is_mapping (sp_semantic_payload s) \<and>
     list_all is_mapping (sp_operations s) \<and> list_all is_mapping (sp_items s) \<and> [] \<notin> set (sp_evidence_ids s) \<and>
     list_all is_mapping (sp_observations s) \<and>
     sp_plan_digest s \<noteq> [] \<and> sp_operation_set_digest s \<noteq> [] \<and> sp_digest s \<noteq> [] \<and>
     (sp_snapshot s = PNone \<or> is_mapping (sp_snapshot s) \<and> (snapshot_v2 (sp_snapshot s) \<longleftrightarrow> sp_bindings s \<noteq> None)) \<and>
     sp_snapshot_digest s \<noteq> Some [] \<and>
     (\<forall>bs. sp_bindings s = Some bs \<longrightarrow> list_all is_mapping bs \<and>
        (bs \<noteq> [] \<longrightarrow> sp_snapshot s \<noteq> PNone \<and> sp_snapshot_digest s \<noteq> None))"

lemma lookup_keys: "is_mapping d \<Longrightarrow> dict_lookup d k = (if PStr k \<in> dict_keys d then Some (dict_get d k) else None)"
proof -
  assume "is_mapping d"
  then obtain kvs where d: "d = PDict kvs" by (auto simp: is_mapping_iff)
  show ?thesis
    unfolding d dict_get_def by (auto split: option.splits simp: map_of_eq_None_iff)
qed

lemma sealed_get:
  "dict_get (obj (sealed_fields s)) ''workspace_identity'' = PStr (sp_workspace_identity s)"
  "dict_get (obj (sealed_fields s)) ''request_id'' = PStr (sp_request_id s)"
  "dict_get (obj (sealed_fields s)) ''preview_id'' = PStr (sp_preview_id s)"
  "dict_get (obj (sealed_fields s)) ''revision'' = PInt (sp_revision s)"
  "dict_get (obj (sealed_fields s)) ''preview_level'' = PStr (level_value (sp_level s))"
  "dict_get (obj (sealed_fields s)) ''provenance_status'' = PStr ''declared_unverified''"
  "dict_get (obj (sealed_fields s)) ''repository_identity'' = opt_str (sp_repository_identity s)"
  "dict_get (obj (sealed_fields s)) ''remote_authority'' = opt_str (sp_remote_authority s)"
  "dict_get (obj (sealed_fields s)) ''semantic_payload'' = sp_semantic_payload s"
  "dict_get (obj (sealed_fields s)) ''operation_intents'' = PList (sp_operations s)"
  "dict_get (obj (sealed_fields s)) ''plan_digest'' = PStr (sp_plan_digest s)"
  "dict_get (obj (sealed_fields s)) ''operation_set_digest'' = PStr (sp_operation_set_digest s)"
  "dict_get (obj (sealed_fields s)) ''remote_snapshot'' = sp_snapshot s"
  "dict_get (obj (sealed_fields s)) ''remote_snapshot_digest'' = opt_str (sp_snapshot_digest s)"
  "dict_get (obj (sealed_fields s)) ''items'' = PList (sp_items s)"
  "dict_get (obj (sealed_fields s)) ''evidence_ids'' = strs (sp_evidence_ids s)"
  "dict_get (obj (sealed_fields s)) ''blockers'' = strs (sp_blockers s)"
  "dict_get (obj (sealed_fields s)) ''planner_observations'' = PList (sp_observations s)"
  "dict_get (obj (sealed_fields s)) ''sealed_preview_digest'' = PStr (sp_digest s)"
  "dict_get (obj (sealed_fields s)) ''canonical_version'' = (if sp_bindings s = None then PNone else PStr ''2'')"
  "dict_get (obj (sealed_fields s)) ''existing_endpoint_bindings'' = (case sp_bindings s of None \<Rightarrow> PNone | Some bs \<Rightarrow> PList bs)"
  by (simp_all add: dict_get_def sealed_fields_def split: option.splits)

lemma sealed_keys: "fst ` set (sealed_fields s) =
    set (if sp_bindings s = None then sealed_required else sealed_required @ [''canonical_version'', ''existing_endpoint_bindings''])"
  by (cases "sp_bindings s") (simp_all add: sealed_fields_def sealed_required_def insert_commute)

lemma read_level_value: "read_level code (PStr (level_value l)) = Inr l"
  by (cases l) (simp_all add: read_level_def)

lemma read_level_Inr: "read_level code v = Inr l \<Longrightarrow> v = PStr (level_value l)"
  by (auto simp: read_level_def of_option_Inr find_Some_iff split: if_splits)

lemma list_of_Inr: "list_of ok v \<longleftrightarrow> (\<exists>xs. v = PList xs \<and> list_all ok xs)"
  by (cases v) simp_all

lemma map_str_of: "list_all is_str xs \<Longrightarrow> map (PStr \<circ> str_of) xs = xs"
  by (induction xs) (auto elim: is_str.elims)

lemma nonblank_str: "nonblank v \<Longrightarrow> is_str v"
  by (cases v) simp_all

lemma sealed_version_Inr:
  "sealed_version d = Inr v2 \<Longrightarrow>
     dict_get d ''canonical_version'' = (if v2 then PStr ''2'' else PNone) \<and>
     has_exactly d (if v2 then sealed_required @ [''canonical_version'', ''existing_endpoint_bindings''] else sealed_required) \<and>
     (v2 \<longrightarrow> list_of is_mapping (dict_get d ''existing_endpoint_bindings''))"
  unfolding sealed_version_def Let_def by (auto simp: raise_if_Inr split: if_splits)

lemma sealed_version_intro:
  "sealed_ok s \<Longrightarrow> sealed_version (obj (sealed_fields s)) = Inr (sp_bindings s \<noteq> None)"
  unfolding sealed_version_def Let_def has_exactly_obj sealed_keys sealed_get
  by (auto simp: sealed_ok_def raise_if_def)

lemma sealed_snapshot_checks_Inr:
  "sealed_snapshot_checks v2 d = Inr () \<longleftrightarrow>
     (dict_get d ''remote_snapshot'' = PNone \<or> is_mapping (dict_get d ''remote_snapshot'') \<and>
        (snapshot_v2 (dict_get d ''remote_snapshot'') \<longleftrightarrow> v2)) \<and>
     (v2 \<and> truthy (dict_get d ''existing_endpoint_bindings'') \<longrightarrow>
        dict_get d ''remote_snapshot'' \<noteq> PNone \<and> nonempty_str (dict_get d ''remote_snapshot_digest'')) \<and>
     (dict_get d ''remote_snapshot_digest'' = PNone \<or> nonempty_str (dict_get d ''remote_snapshot_digest''))"
  unfolding sealed_snapshot_checks_def Let_def by (auto simp: raise_if_Inr)

lemma nonempty_opt: "nonempty_str (opt_str x) \<longleftrightarrow> x \<noteq> None \<and> x \<noteq> Some []"
  by (cases x) auto

lemma opt_str_None [simp]: "opt_str x = PNone \<longleftrightarrow> x = None"
  by (cases x) simp_all

lemma opt_of_str [simp]: "opt_of (opt_str x) = x"
  by (cases x) simp_all

lemma sealed_from_fields:
  assumes "sealed_ok s"
  shows "sealed_from_dict (obj (sealed_fields s)) = Inr s"
proof -
  have "list_all nonempty_str (map PStr (sp_evidence_ids s))" "list_all is_str (map PStr (sp_blockers s))"
    using assms by (auto simp: sealed_ok_def list_all_iff)
  then have shapes: "sealed_shapes (obj (sealed_fields s))"
    unfolding sealed_shapes_def sealed_get using assms by (simp add: sealed_ok_def strs_def)
  have "sealed_snapshot_checks (sp_bindings s \<noteq> None) (obj (sealed_fields s)) = Inr ()"
    unfolding sealed_snapshot_checks_Inr sealed_get
    using assms by (auto simp: sealed_ok_def nonempty_opt split: option.splits)
  moreover have "nonblank (opt_str (sp_repository_identity s)) \<longleftrightarrow> sp_repository_identity s \<noteq> None"
    using assms by (cases "sp_repository_identity s") (auto simp: sealed_ok_def)
  moreover have "is_str (opt_str (sp_remote_authority s)) \<longleftrightarrow> sp_remote_authority s \<noteq> None"
    by (cases "sp_remote_authority s") simp_all
  moreover have "1 \<le> sp_revision s" "sp_workspace_identity s \<noteq> []" "sp_request_id s \<noteq> []" "sp_preview_id s \<noteq> []"
      "sp_plan_digest s \<noteq> []" "sp_operation_set_digest s \<noteq> []" "sp_digest s \<noteq> []"
    using assms by (simp_all add: sealed_ok_def)
  ultimately show ?thesis
    using shapes unfolding sealed_from_dict_def Let_def list.pred_inject sealed_version_intro [OF assms] sealed_get
    by (cases "sp_bindings s"; simp add: read_level_value strs_def comp_def raise_if_def; auto)
qed

lemma sealed_from_dict_cong:
  assumes "is_mapping d" "is_mapping d'" "dict_keys d = dict_keys d'" "\<And>k. dict_get d k = dict_get d' k"
  shows "sealed_from_dict d = sealed_from_dict d'"
  unfolding sealed_from_dict_def sealed_version_def sealed_shapes_def sealed_snapshot_checks_def has_exactly_def Let_def
  by (simp only: assms)

lemma sealed_from_dict_Inr:
  assumes "sealed_from_dict d = Inr s"
  shows "is_mapping d" "sealed_ok s" "dict_keys d = dict_keys (obj (sealed_fields s))"
    "PStr k \<in> dict_keys d \<Longrightarrow> dict_get d k = dict_get (obj (sealed_fields s)) k"
proof -
  let ?get = "dict_get d"
  obtain v2 level where r: "is_mapping d" "sealed_version d = Inr v2"
      "list_all (\<lambda>k. nonempty_str (?get k)) [''workspace_identity'', ''request_id'', ''preview_id'']"
      "case ?get ''revision'' of PInt i \<Rightarrow> 1 \<le> i | _ \<Rightarrow> False"
      "read_level ''sealed_preview_level_invalid'' (?get ''preview_level'') = Inr level"
      "?get ''provenance_status'' = PStr ''declared_unverified''" "sealed_shapes d"
      "list_all (\<lambda>k. nonempty_str (?get k)) [''plan_digest'', ''operation_set_digest'', ''sealed_preview_digest'']"
      "?get ''repository_identity'' = PNone \<or> nonblank (?get ''repository_identity'')"
      "?get ''remote_authority'' = PNone \<or> is_str (?get ''remote_authority'')"
      "sealed_snapshot_checks v2 d = Inr ()"
      "s = \<lparr>sp_workspace_identity = str_of (?get ''workspace_identity''), sp_request_id = str_of (?get ''request_id''),
            sp_preview_id = str_of (?get ''preview_id''),
            sp_revision = (case ?get ''revision'' of PInt i \<Rightarrow> i | _ \<Rightarrow> 0), sp_level = level,
            sp_repository_identity = opt_of (?get ''repository_identity''), sp_remote_authority = opt_of (?get ''remote_authority''),
            sp_semantic_payload = ?get ''semantic_payload'', sp_operations = elements (?get ''operation_intents''),
            sp_plan_digest = str_of (?get ''plan_digest''), sp_operation_set_digest = str_of (?get ''operation_set_digest''),
            sp_snapshot = ?get ''remote_snapshot'', sp_snapshot_digest = opt_of (?get ''remote_snapshot_digest''),
            sp_items = elements (?get ''items''), sp_evidence_ids = map str_of (elements (?get ''evidence_ids'')),
            sp_blockers = map str_of (elements (?get ''blockers'')), sp_observations = elements (?get ''planner_observations''),
            sp_digest = str_of (?get ''sealed_preview_digest''),
            sp_bindings = (if v2 then Some (elements (?get ''existing_endpoint_bindings'')) else None)\<rparr>"
    using assms unfolding sealed_from_dict_def Let_def rbind_Inr raise_if_Inr by auto
  show "is_mapping d" by (fact r(1))
  note v = sealed_version_Inr [OF r(2)]
  show keys: "dict_keys d = dict_keys (obj (sealed_fields s))"
    using v unfolding dict_keys_obj sealed_keys by (simp add: has_exactly_def r(12))
  obtain ws rq pv pd od sd where texts: "?get ''workspace_identity'' = PStr ws" "?get ''request_id'' = PStr rq" "?get ''preview_id'' = PStr pv"
      "?get ''plan_digest'' = PStr pd" "?get ''operation_set_digest'' = PStr od" "?get ''sealed_preview_digest'' = PStr sd"
    using r(3,8) by (auto simp: nonempty_str_iff)
  obtain i where revision: "?get ''revision'' = PInt i" "1 \<le> i"
    using r(4) by (auto split: pyval.splits)
  obtain ops items evs bls obs where lists: "?get ''operation_intents'' = PList ops" "?get ''items'' = PList items"
      "?get ''evidence_ids'' = PList evs" "?get ''blockers'' = PList bls" "?get ''planner_observations'' = PList obs"
      "list_all is_mapping ops" "list_all is_mapping items" "list_all nonempty_str evs" "list_all is_str bls" "list_all is_mapping obs"
      "is_mapping (?get ''semantic_payload'')"
    using r(7) unfolding sealed_shapes_def list_of_Inr by auto
  have evs: "map (PStr \<circ> str_of) evs = evs" "[] \<notin> str_of ` set evs"
    using lists(8) by (auto simp: list_all_iff nonempty_str_iff intro!: map_idI)
  have opt: "opt_str (opt_of v) = v" if "v = PNone \<or> is_str v" for v
    using that by (cases v) simp_all
  have opts: "opt_str (opt_of (?get ''repository_identity'')) = ?get ''repository_identity''"
      "opt_str (opt_of (?get ''remote_authority'')) = ?get ''remote_authority''"
      "opt_str (opt_of (?get ''remote_snapshot_digest'')) = ?get ''remote_snapshot_digest''"
    by (rule opt; use r(9-11) in \<open>auto simp: sealed_snapshot_checks_Inr nonempty_str_iff nonblank_str\<close>)+
  have bindings: "v2 \<Longrightarrow> \<exists>bs. ?get ''existing_endpoint_bindings'' = PList bs \<and> list_all is_mapping bs"
    using v by (auto simp: list_of_Inr)
  show "sealed_ok s"
  proof -
    have "sp_snapshot s = PNone \<or> is_mapping (sp_snapshot s) \<and> (snapshot_v2 (sp_snapshot s) \<longleftrightarrow> sp_bindings s \<noteq> None)"
      using r(11) by (auto simp: r(12) sealed_snapshot_checks_Inr)
    moreover have "sp_snapshot_digest s \<noteq> Some []"
      using r(11) by (auto simp: r(12) sealed_snapshot_checks_Inr nonempty_str_iff)
    moreover have "\<forall>bs. sp_bindings s = Some bs \<longrightarrow> list_all is_mapping bs \<and>
        (bs \<noteq> [] \<longrightarrow> sp_snapshot s \<noteq> PNone \<and> sp_snapshot_digest s \<noteq> None)"
      using bindings r(11) by (auto simp: r(12) sealed_snapshot_checks_Inr nonempty_str_iff split: if_splits)
    moreover have "\<forall>q. sp_repository_identity s = Some q \<longrightarrow> strip q \<noteq> []"
      using r(9) by (cases "?get ''repository_identity''") (simp_all add: r(12))
    ultimately show ?thesis
      using texts r(3,8) revision lists evs unfolding sealed_ok_def by (simp add: r(12))
  qed
  have "list_all (\<lambda>k. dict_get d k = dict_get (obj (sealed_fields s)) k) sealed_required"
    unfolding sealed_required_def list.pred_inject sealed_get
    using texts revision lists evs opts read_level_Inr [OF r(5)] r(6)
    by (simp add: r(12) strs_def map_str_of [unfolded comp_def] comp_def)
  moreover have "list_all (\<lambda>k. dict_get d k = dict_get (obj (sealed_fields s)) k)
      (if v2 then [''canonical_version'', ''existing_endpoint_bindings''] else [])"
  proof (cases v2)
    case True
    then show ?thesis using v bindings unfolding if_P [OF True] list.pred_inject sealed_get by (auto simp: r(12))
  qed simp
  moreover have "dict_keys d = PStr ` set (sealed_required @ (if v2 then [''canonical_version'', ''existing_endpoint_bindings''] else []))"
    using v by (auto simp: has_exactly_def)
  ultimately show "PStr k \<in> dict_keys d \<Longrightarrow> dict_get d k = dict_get (obj (sealed_fields s)) k"
    by (auto simp: list_all_iff)
qed

section \<open>Previews in normal form\<close>

definition normal_value :: "prims \<Rightarrow> pyval \<Rightarrow> bool" where
  "normal_value P v \<longleftrightarrow> (\<exists>j. canonical_json P j \<and> v = py_of j)"

lemma normal_list: "list_all (normal_value P) xs \<Longrightarrow> \<exists>js. list_all (canonical_json P) js \<and> xs = map py_of js"
proof (induction xs)
  case (Cons x xs)
  then obtain j js where "canonical_json P j" "x = py_of j" "list_all (canonical_json P) js" "xs = map py_of js"
    by (auto simp: normal_value_def)
  then show ?case by (intro exI [of _ "j # js"]) simp
qed simp

lemma normal_value_intros:
  "text_norm P t = t \<Longrightarrow> normal_value P (PStr t)" "normal_value P PNone" "normal_value P (PInt i)" "normal_value P (PBool b)"
  "list_all (normal_value P) xs \<Longrightarrow> normal_value P (PList xs)"
proof -
  show "normal_value P (PStr t)" if "text_norm P t = t" unfolding normal_value_def using that by (intro exI [of _ "JStr t"]) simp
  show "normal_value P PNone" unfolding normal_value_def by (intro exI [of _ JNull]) simp
  show "normal_value P (PInt i)" unfolding normal_value_def by (intro exI [of _ "JInt i"]) simp
  show "normal_value P (PBool b)" unfolding normal_value_def by (intro exI [of _ "JBool b"]) simp
  assume "list_all (normal_value P) xs"
  then obtain js where "list_all (canonical_json P) js" "xs = map py_of js" using normal_list by blast
  then show "normal_value P (PList xs)" unfolding normal_value_def by (intro exI [of _ "JArr js"]) simp
qed

lemma normal_value_strs: "list_all (\<lambda>t. text_norm P t = t) ts \<Longrightarrow> normal_value P (strs ts)"
  unfolding strs_def by (intro normal_value_intros) (auto simp: list_all_iff intro: normal_value_intros(1))

lemma normal_value_opt: "(\<And>t. x = Some t \<Longrightarrow> text_norm P t = t) \<Longrightarrow> normal_value P (opt_str x)"
  by (cases x) (auto intro: normal_value_intros)

lemma normal_entries:
  assumes "list_all (\<lambda>kv. normal_value P (snd kv)) kvs"
  obtains vs where "list_all (canonical_json P) vs" "map snd kvs = map py_of vs"
  using normal_list [of P "map snd kvs"] assms by (auto simp: list_all_iff)

text \<open>Entries with the keys of \<open>kvs\<close> and its values as normal forms.\<close>

lemma py_of_entries:
  assumes "map snd kvs = map py_of vs"
  shows "map (\<lambda>kv. (fst kv, py_of (snd kv))) (zip (map fst kvs) vs) = kvs"
proof -
  have "map (\<lambda>kv. (fst kv, py_of (snd kv))) (zip (map fst kvs) vs) = zip (map fst kvs) (map py_of vs)"
    by (simp add: zip_map2 case_prod_unfold)
  then show ?thesis unfolding assms [symmetric] by (simp only: zip_map_fst_snd)
qed

lemma canonical_entries:
  assumes "literal_keys kvs" "list_all (canonical_json P) vs"
  shows "list_all (\<lambda>kv. nfc P (fst kv) = fst kv \<and> canonical_json P (snd kv)) (zip (map fst kvs) vs)"
proof -
  have "nfc P k = k \<and> canonical_json P v" if "(k, v) \<in> set (zip (map fst kvs) vs)" for k v
    using set_zip_leftD [OF that] set_zip_rightD [OF that] assms by (auto simp: literal_keys_def list_all_iff)
  then show ?thesis by (auto simp: list_all_iff)
qed

lemma sorted_keys: "distinct (map fst kvs) \<Longrightarrow> sorted_wrt (<) (map fst (sort_key fst kvs))"
  for kvs :: "(string \<times> 'a) list"
  by (simp add: strict_sorted_iff distinct_map_sort_key)

text \<open>A mapping of normal values, in the order of its keys.\<close>

lemma normal_value_obj:
  assumes "literal_keys kvs" "sorted_wrt (<) (map fst kvs)" "list_all (\<lambda>kv. normal_value P (snd kv)) kvs"
  shows "normal_value P (obj kvs)"
proof -
  obtain vs where vs: "list_all (canonical_json P) vs" "map snd kvs = map py_of vs"
    by (rule normal_entries [OF assms(3)])
  have len: "length (map fst kvs) = length vs" using vs(2) by (metis length_map)
  let ?j = "zip (map fst kvs) vs"
  have "py_of (JObj ?j) = PDict (map (\<lambda>kv. (PStr (fst kv), snd kv)) (map (\<lambda>kv. (fst kv, py_of (snd kv))) ?j))"
    by simp
  then have "obj kvs = py_of (JObj ?j)" unfolding py_of_entries [OF vs(2)] by (simp add: obj_def case_prod_unfold)
  moreover have "canonical_json P (JObj ?j)"
    using assms(2) len canonical_entries [OF assms(1) vs(1)] by simp
  ultimately show ?thesis unfolding normal_value_def by blast
qed

lemma unchanged_py_of: "canonical_json P j \<Longrightarrow> unchanged j (py_of j)"
proof (induction P j rule: canonical_json.induct)
  case (2 P xs)
  then show ?case by (auto simp: list_all_iff zip_same zip_map2)
next
  case (3 P kvs)
  have "distinct (map fst kvs)" using "3.prems" by (simp add: strict_sorted_iff)
  then have "map_of (map (\<lambda>kv. (PStr (fst kv), py_of (snd kv))) kvs) (PStr k) = Some (py_of v)" if "(k, v) \<in> set kvs" for k v
    using that by (induction kvs) (auto simp: image_iff)
  then show ?case using 3 by (auto simp: list_all_iff)
qed auto

text \<open>The normal form of a preview whose fields are normal: the same entries in the order of their keys.\<close>

lemma sealed_normal_form:
  assumes ok: "sealed_ok s" and normal: "list_all (\<lambda>kv. normal_value P (snd kv)) (sealed_fields s)"
  obtains j where "sealed_to_dict P s = Inr j" "canonical_json P j" "is_mapping (py_of j)"
    "dict_lookup (py_of j) = dict_lookup (obj (sealed_fields s))" "dict_keys (py_of j) = dict_keys (obj (sealed_fields s))"
proof -
  let ?kvs = "sealed_fields s"
  have lit: "literal_keys ?kvs"
    by (cases "sp_bindings s") (simp_all add: sealed_fields_def literal_keys_def)
  obtain vs where vs: "list_all (canonical_json P) vs" "map snd ?kvs = map py_of vs"
    by (rule normal_entries [OF normal])
  have len: "length (map fst ?kvs) = length vs" using vs(2) by (metis length_map)
  let ?zs = "zip (map fst ?kvs) vs" let ?j = "JObj (sort_key fst ?zs)"
  have "map (\<lambda>kv. normalize P (snd kv)) ?kvs = map (normalize P) (map snd ?kvs)" by simp
  also have "\<dots> = map Inr vs" unfolding vs(2) using vs(1) by (simp add: list_all_iff normalize_canonical)
  finally have j: "sealed_to_dict P s = Inr ?j"
    unfolding sealed_to_dict_def normalize_obj_Inr [OF lit] by blast
  have keys: "map fst ?zs = map fst ?kvs" using len by simp
  have distinct: "distinct (map fst ?zs)" using lit unfolding keys literal_keys_def by blast
  have canonical: "canonical_json P ?j"
    using sorted_keys [OF distinct] canonical_entries [OF lit vs(1)] by (simp add: list_all_iff)
  have entries: "map_of (map (\<lambda>kv. (PStr (fst kv), py_of (snd kv))) zs) (PStr k) = map_option py_of (map_of zs k)" for zs k
    by (induction zs) auto
  have fields: "map_option py_of (map_of ?zs k) = map_of ?kvs k" for k
  proof -
    have "map_of (map (\<lambda>kv. (fst kv, py_of (snd kv))) zs) k = map_option py_of (map_of zs k)" for zs
      by (induction zs) auto
    from this [of ?zs] show ?thesis unfolding py_of_entries [OF vs(2)] ..
  qed
  have sorted: "map_of (sort_key fst ?zs) = map_of ?zs"
    using distinct by (subst map_of_inject_set) (simp_all add: distinct_map_sort_key)
  have lookups: "dict_lookup (py_of ?j) = dict_lookup (obj ?kvs)"
    by (rule ext) (simp only: py_of.simps dict_lookup.simps entries sorted fields dict_lookup_obj)
  have same: "dict_keys (py_of ?j) = dict_keys (obj ?kvs)"
    using keys by (force simp: image_iff dest: arg_cong [of _ _ set])
  show ?thesis by (rule that [OF j canonical _ lookups same]) simp
qed

text \<open>
  A mapping is read as a sealed preview exactly if it holds the fields of a well-formed preview
  and nothing else, and the record has every one of them; in particular writing the record's fields
  gives back the same entries.
\<close>

theorem sealed_preview_accepts:
  "sealed_from_dict d = Inr s \<longleftrightarrow>
     is_mapping d \<and> sealed_ok s \<and> dict_keys d = dict_keys (obj (sealed_fields s)) \<and>
     dict_lookup d = dict_lookup (obj (sealed_fields s))"
proof
  assume r: "sealed_from_dict d = Inr s"
  note r = sealed_from_dict_Inr [OF r]
  have "dict_lookup d k = dict_lookup (obj (sealed_fields s)) k" for k
    unfolding lookup_keys [OF r(1)] lookup_keys [OF is_mapping_obj] using r(3,4) by simp
  then show "is_mapping d \<and> sealed_ok s \<and> dict_keys d = dict_keys (obj (sealed_fields s)) \<and>
     dict_lookup d = dict_lookup (obj (sealed_fields s))" using r by blast
next
  assume d: "is_mapping d \<and> sealed_ok s \<and> dict_keys d = dict_keys (obj (sealed_fields s)) \<and>
     dict_lookup d = dict_lookup (obj (sealed_fields s))"
  then have "sealed_from_dict d = sealed_from_dict (obj (sealed_fields s))"
    by (intro sealed_from_dict_cong) (simp_all add: dict_get_def)
  then show "sealed_from_dict d = Inr s" using d sealed_from_fields by simp
qed

text \<open>
  C38: a well-formed preview whose fields are in normal form is sealed without change.  What is stored
  is read back as the same preview, and the check that compares a stored preview with its
  normal form accepts it.
\<close>

theorem sealing_faithful:
  assumes "sealed_ok s" "list_all (\<lambda>kv. normal_value P (snd kv)) (sealed_fields s)"
  shows "\<exists>j. sealed_to_dict P s = Inr j \<and> sealed_from_dict (py_of j) = Inr s \<and> unchanged j (py_of j)"
proof (rule sealed_normal_form [OF assms])
  fix j assume j: "sealed_to_dict P s = Inr j" "canonical_json P j" "is_mapping (py_of j)"
    "dict_lookup (py_of j) = dict_lookup (obj (sealed_fields s))" "dict_keys (py_of j) = dict_keys (obj (sealed_fields s))"
  have "sealed_from_dict (py_of j) = sealed_from_dict (obj (sealed_fields s))"
    using j by (intro sealed_from_dict_cong) (simp_all add: dict_get_def)
  then show ?thesis using j unchanged_py_of sealed_from_fields [OF assms(1)] by metis
qed

text \<open>A write-eligible preview of one created issue, under a hash that is constant.\<close>

definition fixed_prims :: prims where
  "fixed_prims = plain_prims\<lparr>sha256_hex := (\<lambda>_. replicate 64 (CHR ''a''))\<rparr>"

definition demo_digest :: string where
  "demo_digest = ''sha256:'' @ replicate 64 (CHR ''a'')"

definition demo_evidence_id :: string where
  "demo_evidence_id = ''ev_'' @ replicate 64 (CHR ''a'')"

definition demo_sealed :: sealed_preview where
  "demo_sealed = \<lparr>sp_workspace_identity = ''ws'', sp_request_id = ''request'', sp_preview_id = ''p'', sp_revision = 1,
     sp_level = WriteEligible, sp_repository_identity = Some ''o/r'', sp_remote_authority = Some demo_digest,
     sp_semantic_payload = obj [(''planned_relationships'', PList [])],
     sp_operations = [obj [(''client_refs'', strs [''A'']), (''depends_on'', strs []), (''operation_kind'', PStr ''create_issue'')]],
     sp_plan_digest = demo_digest, sp_operation_set_digest = demo_digest,
     sp_snapshot = obj [(''evidence_ids'', strs [demo_evidence_id]), (''issue_records'', PList []), (''pagination_complete'', PBool True),
       (''query_complete'', PBool True), (''repository_identity'', PStr ''o/r'')],
     sp_snapshot_digest = Some demo_digest, sp_items = [obj [(''client_ref'', PStr ''A'')]], sp_evidence_ids = [demo_evidence_id], sp_blockers = [],
     sp_observations = [], sp_digest = demo_digest, sp_bindings = None\<rparr>"

lemma demo_sealed_ok: "sealed_ok demo_sealed"
proof -
  have "strip ''o/r'' = ''o/r''" by (rule strip_visible) code_simp+
  then show ?thesis by (simp add: sealed_ok_def demo_sealed_def snapshot_v2_def demo_digest_def demo_evidence_id_def)
qed

lemma demo_sealed_normal: "list_all (\<lambda>kv. normal_value P (snd kv)) (sealed_fields demo_sealed)"
proof -
  have plain: "text_norm P t = t" if "t \<in> {''ws'', ''request'', ''p'', ''WriteEligible'', ''declared_unverified'', ''o/r'', ''A'',
      ''create_issue'', demo_digest, demo_evidence_id}" for t
    using that by (auto intro!: text_norm_printable simp: printable_def demo_digest_def demo_evidence_id_def list_all_iff)
  have semantic: "normal_value P (obj [(''planned_relationships'', PList [])])"
    by (rule normal_value_obj) (simp_all add: literal_keys_def normal_value_intros)
  have operation: "normal_value P (obj [(''client_refs'', strs [''A'']), (''depends_on'', strs []), (''operation_kind'', PStr ''create_issue'')])"
  proof (rule normal_value_obj)
    show "sorted_wrt (<) (map fst [(''client_refs'', strs [''A'']), (''depends_on'', strs []), (''operation_kind'', PStr ''create_issue'')])"
      by code_simp
  qed (simp_all add: literal_keys_def normal_value_intros normal_value_strs plain)
  have snapshot: "normal_value P (obj [(''evidence_ids'', strs [demo_evidence_id]), (''issue_records'', PList []), (''pagination_complete'', PBool True),
       (''query_complete'', PBool True), (''repository_identity'', PStr ''o/r'')])"
  proof (rule normal_value_obj)
    show "sorted_wrt (<) (map fst [(''evidence_ids'', strs [demo_evidence_id]), (''issue_records'', PList []), (''pagination_complete'', PBool True),
       (''query_complete'', PBool True), (''repository_identity'', PStr ''o/r'')])"
      by code_simp
  qed (simp_all add: literal_keys_def normal_value_intros normal_value_strs plain)
  have item: "normal_value P (obj [(''client_ref'', PStr ''A'')])"
    by (rule normal_value_obj) (simp_all add: literal_keys_def normal_value_intros plain)
  show ?thesis
    unfolding demo_sealed_def sealed_fields_def
    using semantic operation snapshot item plain by (simp add: normal_value_intros normal_value_strs)
qed

theorem sealing_faithful_witness:
  "\<exists>j. sealed_to_dict fixed_prims demo_sealed = Inr j \<and> sealed_from_dict (py_of j) = Inr demo_sealed"
  using sealing_faithful [OF demo_sealed_ok demo_sealed_normal] by blast

text \<open>The stored form of the example.\<close>

lemma demo_stored:
  obtains j where "sealed_to_dict P demo_sealed = Inr j" "canonical_json P j" "sealed_from_dict (py_of j) = Inr demo_sealed"
    "unchanged j (py_of j)" "is_mapping (py_of j)" "dict_get (py_of j) = dict_get (obj (sealed_fields demo_sealed))"
proof (rule sealed_normal_form [OF demo_sealed_ok demo_sealed_normal [of P]])
  fix j assume j: "sealed_to_dict P demo_sealed = Inr j" "canonical_json P j" "is_mapping (py_of j)"
    "dict_lookup (py_of j) = dict_lookup (obj (sealed_fields demo_sealed))"
    "dict_keys (py_of j) = dict_keys (obj (sealed_fields demo_sealed))"
  have "sealed_from_dict (py_of j) = sealed_from_dict (obj (sealed_fields demo_sealed))"
    using j by (intro sealed_from_dict_cong) (simp_all add: dict_get_def)
  moreover have "dict_get (py_of j) = dict_get (obj (sealed_fields demo_sealed))" using j(4) by (simp add: dict_get_def fun_eq_iff)
  ultimately show thesis using that [OF j(1,2) _ unchanged_py_of [OF j(2)] j(3)] sealed_from_fields [OF demo_sealed_ok] by simp
qed

lemma digest_fixed: "normalizable fixed_prims v \<Longrightarrow> digest fixed_prims v = Inr demo_digest"
  by (auto simp: normalizable_def digest_def canonical_payload_def fixed_prims_def demo_digest_def)

end
