(* ===== verification/Evidence.thy ===== *)
theory Evidence
  imports Materialize Sealed_Preview
begin

text \<open>
  Model of \<open>delivery_system/evidence.py\<close>: evidence records, how they are made, and how a stored one is
  read back.  An identifier is a digest of the record's binding and of the digest of its content.

  \<open>library\<close> holds what the standard library does with values this development does not look into:
  \<open>int(value)\<close> of a value that is not an integer, \<open>str.casefold\<close> of text that is not ASCII, whether
  \<open>datetime.fromisoformat\<close> reads a text with a UTC offset, \<open>repr(value)\<close>, and \<open>sorted(values)\<close> of values
  that are not all strings.
\<close>

record library =
  int_other :: "pyval \<Rightarrow> int res"
  casefold_other :: "string \<Rightarrow> string"
  iso_offset :: "string \<Rightarrow> bool"
  repr_value :: "pyval \<Rightarrow> string"
  sorted_other :: "pyval list \<Rightarrow> pyval list res"

section \<open>Records\<close>

datatype declared_source = USER_ASSERTED | MODEL_PROPOSED | MODEL_ASSUMPTION

fun source_value :: "declared_source \<Rightarrow> string" where
  "source_value USER_ASSERTED = ''user_asserted''"
| "source_value MODEL_PROPOSED = ''model_proposed''"
| "source_value MODEL_ASSUMPTION = ''model_assumption''"

text \<open>\<open>DeclaredSource(value)\<close>\<close>

definition read_source :: "library \<Rightarrow> pyval \<Rightarrow> declared_source res" where
  "read_source L v =
     of_option (ValueError (repr_value L v @ '' is not a valid DeclaredSource''))
       (find (\<lambda>s. v = PStr (source_value s)) [USER_ASSERTED, MODEL_PROPOSED, MODEL_ASSUMPTION])"

text \<open>\<open>SourcedValue.to_dict\<close>\<close>

definition sourced_to_dict :: "pyval \<Rightarrow> declared_source \<Rightarrow> pyval" where
  "sourced_to_dict value source =
     obj [(''value'', value), (''declared_source'', PStr (source_value source)), (''provenance_status'', PStr ''declared_unverified'')]"

record evidence_record =
  ev_evidence_id :: string
  ev_workspace_identity :: string
  ev_preview_id :: string
  ev_revision :: int
  ev_type :: string
  ev_source_kind :: string
  ev_declared_source :: "declared_source option"
  ev_status :: string
  ev_source_identity :: string
  ev_repository_identity :: pyval
  ev_query_scope :: pyval
  ev_schema_version :: string
  ev_subject_ref :: string
  ev_payload :: pyval
  ev_digest :: string
  ev_created_at :: pyval

definition source_doc :: "declared_source option \<Rightarrow> pyval" where
  "source_doc s = (case s of None \<Rightarrow> PNone | Some d \<Rightarrow> PStr (source_value d))"

definition evidence_content :: "evidence_record \<Rightarrow> (string \<times> pyval) list" where
  "evidence_content r =
     [(''evidence_type'', PStr (ev_type r)), (''source_kind'', PStr (ev_source_kind r)),
      (''declared_source'', source_doc (ev_declared_source r)), (''subject_ref'', PStr (ev_subject_ref r)),
      (''source_identity'', PStr (ev_source_identity r)), (''repository_identity'', ev_repository_identity r),
      (''query_scope'', ev_query_scope r), (''schema_version'', PStr (ev_schema_version r)), (''payload'', ev_payload r)]"

definition evidence_identity :: "evidence_record \<Rightarrow> (string \<times> pyval) list" where
  "evidence_identity r =
     [(''domain'', PStr ''delivery-system:evidence-id:v1''), (''workspace_identity'', PStr (ev_workspace_identity r)),
      (''preview_id'', PStr (ev_preview_id r)), (''revision'', PInt (ev_revision r)), (''evidence_type'', PStr (ev_type r)),
      (''subject_ref'', PStr (ev_subject_ref r)), (''evidence_digest'', PStr (ev_digest r))]"

definition evidence_id_from :: "prims \<Rightarrow> evidence_record \<Rightarrow> string res" where
  "evidence_id_from P r = rbind (digest_hex P (obj (evidence_identity r))) (\<lambda>h. Inr (''ev_'' @ h))"

text \<open>\<open>normalize(value) if value is not None else None\<close>\<close>

definition normal_scope :: "prims \<Rightarrow> pyval \<Rightarrow> pyval res" where
  "normal_scope P v = (if v = PNone then Inr PNone else rbind (normalize P v) (\<lambda>j. Inr (py_of j)))"

section \<open>Making a record\<close>

definition evidence_status :: "bool \<Rightarrow> string \<Rightarrow> declared_source option \<Rightarrow> string res" where
  "evidence_status verified kind source =
     (if verified then
        raise_if (kind \<notin> {''runtime'', ''driver''} \<or> source \<noteq> None) ''verified_evidence_source_invalid'' (Inr (kind @ ''_verified''))
      else if kind = ''declared'' then raise_if (source = None) ''declared_source_required'' (Inr ''declared_unverified'')
      else raise_if (source \<noteq> None) ''declared_source_forbidden'' (Inr ''declared_unverified''))"

text \<open>
  \<open>_create_controlled\<close> of the arguments in \<open>r\<close>, whose identifier, status and digest are computed.  The
  digest is taken of the payload and the scope as given, and the record keeps their normal forms.
\<close>

definition create_controlled :: "prims \<Rightarrow> bool \<Rightarrow> evidence_record \<Rightarrow> evidence_record res" where
  "create_controlled P verified r =
     raise_if (ev_source_kind r \<notin> {''declared'', ''runtime'', ''driver''}) ''invalid_evidence_source_kind''
     (raise_if (\<not> verified \<and> ev_source_kind r \<noteq> ''declared'') ''controlled_evidence_source''
     (rbind (evidence_status verified (ev_source_kind r) (ev_declared_source r)) (\<lambda>status.
      rbind (digest P (obj (evidence_content r))) (\<lambda>d.
      rbind (evidence_id_from P (r\<lparr>ev_digest := d\<rparr>)) (\<lambda>i.
      rbind (normal_scope P (ev_query_scope r)) (\<lambda>scope.
      rbind (normalize P (ev_payload r)) (\<lambda>j.
        Inr (r\<lparr>ev_evidence_id := i, ev_status := status, ev_digest := d, ev_query_scope := scope, ev_payload := py_of j\<rparr>))))))))"

definition create_evidence :: "prims \<Rightarrow> evidence_record \<Rightarrow> evidence_record res" where
  "create_evidence P r =
     raise_if (ev_source_kind r \<in> {''runtime'', ''driver''}) ''controlled_evidence_source'' (create_controlled P False r)"

text \<open>\<open>create_verified_driver\<close>; the arguments it checks are dynamic values.\<close>

definition create_verified_driver ::
  "prims \<Rightarrow> pyval \<Rightarrow> pyval \<Rightarrow> pyval \<Rightarrow> string \<Rightarrow> string \<Rightarrow> pyval \<Rightarrow> pyval \<Rightarrow> pyval \<Rightarrow> pyval \<Rightarrow> pyval \<Rightarrow> string \<Rightarrow> evidence_record res" where
  "create_verified_driver P workspace preview_id revision type subject payload source repository scope created_at schema =
     (case (workspace, preview_id, revision, source) of
        (PStr w, PStr p, PInt i, PStr s) \<Rightarrow>
          raise_if (\<not> nonblank workspace \<or> \<not> nonblank preview_id \<or> i < 1 \<or> \<not> nonblank source \<or> \<not> nonblank repository \<or>
                    \<not> is_mapping scope) ''driver_evidence_binding_invalid''
          (create_controlled P True
             \<lparr>ev_evidence_id = [], ev_workspace_identity = w, ev_preview_id = p, ev_revision = i, ev_type = type,
              ev_source_kind = ''driver'', ev_declared_source = None, ev_status = [], ev_source_identity = s,
              ev_repository_identity = repository, ev_query_scope = scope, ev_schema_version = schema, ev_subject_ref = subject,
              ev_payload = payload, ev_digest = [], ev_created_at = created_at\<rparr>)
      | _ \<Rightarrow> Inl (ValueError ''driver_evidence_binding_invalid''))"

section \<open>Storage\<close>

definition evidence_to_dict :: "evidence_record \<Rightarrow> pyval" where
  "evidence_to_dict r =
     obj [(''evidence_id'', PStr (ev_evidence_id r)), (''workspace_identity'', PStr (ev_workspace_identity r)),
          (''preview_id'', PStr (ev_preview_id r)), (''revision'', PInt (ev_revision r)), (''evidence_type'', PStr (ev_type r)),
          (''source_kind'', PStr (ev_source_kind r)), (''declared_source'', source_doc (ev_declared_source r)),
          (''verification_status'', PStr (ev_status r)), (''source_identity'', PStr (ev_source_identity r)),
          (''repository_identity'', ev_repository_identity r), (''query_scope'', ev_query_scope r),
          (''schema_version'', PStr (ev_schema_version r)), (''subject_ref'', PStr (ev_subject_ref r)),
          (''payload'', ev_payload r), (''evidence_digest'', PStr (ev_digest r)), (''created_at'', ev_created_at r)]"

text \<open>\<open>str(data[key])\<close> and \<open>int(value)\<close>\<close>

definition str_item :: "prims \<Rightarrow> pyval \<Rightarrow> string \<Rightarrow> string res" where
  "str_item P d k = rbind (dict_item d k) (\<lambda>v. Inr (py_str P v))"

definition to_int :: "library \<Rightarrow> pyval \<Rightarrow> int res" where
  "to_int L v = (case v of PInt i \<Rightarrow> Inr i | PBool b \<Rightarrow> Inr (of_bool b) | _ \<Rightarrow> int_other L v)"

definition read_verified :: "prims \<Rightarrow> library \<Rightarrow> string \<Rightarrow> pyval \<Rightarrow> evidence_record res" where
  "read_verified P L kind d =
     rbind (str_item P d ''evidence_id'') (\<lambda>i.
     rbind (str_item P d ''workspace_identity'') (\<lambda>workspace.
     rbind (str_item P d ''preview_id'') (\<lambda>preview_id.
     rbind (rbind (dict_item d ''revision'') (to_int L)) (\<lambda>revision.
     rbind (str_item P d ''evidence_type'') (\<lambda>type.
     rbind (str_item P d ''source_identity'') (\<lambda>source_identity.
     rbind (normal_scope P (dict_get d ''query_scope'')) (\<lambda>scope.
     rbind (str_item P d ''schema_version'') (\<lambda>schema.
     rbind (str_item P d ''subject_ref'') (\<lambda>subject.
     rbind (rbind (dict_item d ''payload'') (normalize P)) (\<lambda>payload.
     rbind (str_item P d ''evidence_digest'') (\<lambda>dig.
       Inr \<lparr>ev_evidence_id = i, ev_workspace_identity = workspace, ev_preview_id = preview_id, ev_revision = revision,
            ev_type = type, ev_source_kind = kind, ev_declared_source = None, ev_status = kind @ ''_verified'',
            ev_source_identity = source_identity, ev_repository_identity = dict_get d ''repository_identity'',
            ev_query_scope = scope, ev_schema_version = schema, ev_subject_ref = subject, ev_payload = py_of payload,
            ev_digest = dig, ev_created_at = dict_get d ''created_at''\<rparr>)))))))))))"

definition read_declared :: "prims \<Rightarrow> library \<Rightarrow> pyval \<Rightarrow> evidence_record res" where
  "read_declared P L d =
     rbind (str_item P d ''workspace_identity'') (\<lambda>workspace.
     rbind (str_item P d ''preview_id'') (\<lambda>preview_id.
     rbind (rbind (dict_item d ''revision'') (to_int L)) (\<lambda>revision.
     rbind (str_item P d ''evidence_type'') (\<lambda>type.
     rbind (str_item P d ''source_kind'') (\<lambda>kind.
     rbind (if dict_get d ''declared_source'' = PNone then Inr None
            else rbind (read_source L (dict_get d ''declared_source'')) (\<lambda>s. Inr (Some s))) (\<lambda>source.
     rbind (str_item P d ''subject_ref'') (\<lambda>subject.
     rbind (dict_item d ''payload'') (\<lambda>payload.
     rbind (str_item P d ''source_identity'') (\<lambda>source_identity.
     rbind (str_item P d ''schema_version'') (\<lambda>schema.
       Inr \<lparr>ev_evidence_id = [], ev_workspace_identity = workspace, ev_preview_id = preview_id, ev_revision = revision,
            ev_type = type, ev_source_kind = kind, ev_declared_source = source, ev_status = [],
            ev_source_identity = source_identity, ev_repository_identity = dict_get d ''repository_identity'',
            ev_query_scope = dict_get d ''query_scope'', ev_schema_version = schema, ev_subject_ref = subject,
            ev_payload = payload, ev_digest = [], ev_created_at = dict_get d ''created_at''\<rparr>))))))))))"

definition evidence_from_dict :: "prims \<Rightarrow> library \<Rightarrow> pyval \<Rightarrow> evidence_record res" where
  "evidence_from_dict P L d =
     rbind (str_item P d ''source_kind'') (\<lambda>kind.
     if kind \<noteq> ''declared'' then
       raise_if (kind \<notin> {''runtime'', ''driver''} \<or> dict_get d ''declared_source'' \<noteq> PNone) ''evidence_source_invalid''
       (raise_if (dict_get d ''verification_status'' \<noteq> PStr (kind @ ''_verified'')) ''evidence_verification_status_invalid''
       (rbind (read_verified P L kind d) (\<lambda>r.
        rbind (digest P (obj (evidence_content r))) (\<lambda>dig.
        raise_if (ev_digest r \<noteq> dig) ''evidence_digest_mismatch''
        (rbind (evidence_id_from P r) (\<lambda>i.
         raise_if (ev_evidence_id r \<noteq> i) ''evidence_id_mismatch'' (Inr r)))))))
     else
       rbind (read_declared P L d) (\<lambda>r.
       rbind (create_controlled P False r) (\<lambda>r'.
       raise_if (dict_get d ''evidence_id'' \<noteq> PStr (ev_evidence_id r') \<or> dict_get d ''evidence_digest'' \<noteq> PStr (ev_digest r'))
         ''evidence_digest_mismatch'' (Inr r'))))"

section \<open>What an identifier binds\<close>

lemma literal_keys_evidence: "literal_keys (evidence_content r)" "literal_keys (evidence_identity r)"
  by (simp_all add: literal_keys_def evidence_content_def evidence_identity_def)

lemma same_fields:
  assumes "literal_keys kvs" "map fst kvs = map fst kvs'" "normalize P (obj kvs) = normalize P (obj kvs')"
    "digest P (obj kvs) = Inr d"
  shows "map (\<lambda>kv. normalize P (snd kv)) kvs = map (\<lambda>kv. normalize P (snd kv)) kvs'"
proof -
  obtain j where "normalize P (obj kvs) = Inr j" using assms(4) by (auto simp: digest_def canonical_payload_def rbind_Inr)
  then show ?thesis using normalize_obj_fields [OF assms(1,2)] assms(3) by simp
qed

text \<open>The record carries its own digest and identifier.\<close>

definition evidence_sealed :: "prims \<Rightarrow> evidence_record \<Rightarrow> bool" where
  "evidence_sealed P r \<longleftrightarrow> digest P (obj (evidence_content r)) = Inr (ev_digest r) \<and> evidence_id_from P r = Inr (ev_evidence_id r)"

lemma verified_sealed:
  assumes "evidence_from_dict P L d = Inr r" "ev_source_kind r \<noteq> ''declared''"
  shows "evidence_sealed P r" "ev_source_kind r \<in> {''runtime'', ''driver''}" "ev_declared_source r = None"
    "ev_status r = ev_source_kind r @ ''_verified''"
proof -
  obtain kind where kind: "str_item P d ''source_kind'' = Inr kind"
    using assms(1) by (auto simp: evidence_from_dict_def rbind_Inr)
  have "kind \<noteq> ''declared''"
  proof
    assume declared: "kind = ''declared''"
    then obtain r0 where "read_declared P L d = Inr r0" "create_controlled P False r0 = Inr r"
      using assms(1) kind by (auto simp: evidence_from_dict_def rbind_Inr raise_if_Inr)
    moreover from this(1) have "ev_source_kind r0 = ''declared''"
      using kind declared by (auto simp: read_declared_def rbind_Inr)
    ultimately show False using assms(2) by (auto simp: create_controlled_def rbind_Inr raise_if_Inr)
  qed
  then have r: "kind \<in> {''runtime'', ''driver''}" "read_verified P L kind d = Inr r" "evidence_sealed P r"
    using assms(1) kind by (auto simp: evidence_from_dict_def evidence_sealed_def rbind_Inr raise_if_Inr)
  then show "evidence_sealed P r" by simp
  have "ev_source_kind r = kind" "ev_declared_source r = None" "ev_status r = kind @ ''_verified''"
    using r(2) by (auto simp: read_verified_def rbind_Inr)
  then show "ev_source_kind r \<in> {''runtime'', ''driver''}" "ev_declared_source r = None" "ev_status r = ev_source_kind r @ ''_verified''"
    using r(1) by auto
qed

lemma sealed_binds:
  assumes r: "evidence_sealed P r" and s: "evidence_sealed P s" and same: "ev_evidence_id r = ev_evidence_id s"
    and free: "collision_free P (obj (evidence_identity r)) (obj (evidence_identity s))"
      "collision_free P (obj (evidence_content r)) (obj (evidence_content s))"
    and floats: "floats_ok (obj (evidence_content r))" "floats_ok (obj (evidence_content s))"
    and hex: "text_norm P (ev_digest r) = ev_digest r" "text_norm P (ev_digest s) = ev_digest s"
  shows "map (\<lambda>kv. normalize P (snd kv)) (evidence_identity r) = map (\<lambda>kv. normalize P (snd kv)) (evidence_identity s)"
    and "map (\<lambda>kv. normalize P (snd kv)) (evidence_content r) = map (\<lambda>kv. normalize P (snd kv)) (evidence_content s)"
proof -
  obtain h h' where "digest_hex P (obj (evidence_identity r)) = Inr h" "ev_evidence_id r = ''ev_'' @ h"
      "digest_hex P (obj (evidence_identity s)) = Inr h'" "ev_evidence_id s = ''ev_'' @ h'"
    using r s by (force simp: evidence_sealed_def evidence_id_from_def rbind_Inr)
  then have h: "digest_hex P (obj (evidence_identity r)) = Inr h" "digest_hex P (obj (evidence_identity s)) = Inr h"
    using same by simp_all
  have plain: "floats_ok (obj (evidence_identity t))" for t by (simp add: evidence_identity_def floats_ok_obj)
  have keys: "map fst (evidence_identity r) = map fst (evidence_identity s)" "map fst (evidence_content r) = map fst (evidence_content s)"
    by (simp_all add: evidence_identity_def evidence_content_def)
  obtain d where d: "digest P (obj (evidence_identity r)) = Inr d" using h(1) by (auto simp: digest_hex_def rbind_Inr)
  show ids: "map (\<lambda>kv. normalize P (snd kv)) (evidence_identity r) = map (\<lambda>kv. normalize P (snd kv)) (evidence_identity s)"
    by (rule same_fields [OF literal_keys_evidence(2) keys(1) digest_hex_binds [OF h free(1) plain plain] d])
  then have "ev_digest r = ev_digest s" using hex by (simp add: evidence_identity_def)
  then have "digest P (obj (evidence_content r)) = Inr (ev_digest r)" "digest P (obj (evidence_content s)) = Inr (ev_digest r)"
    using r s by (simp_all add: evidence_sealed_def)
  from digest_binds [OF this free(2) floats]
  show "map (\<lambda>kv. normalize P (snd kv)) (evidence_content r) = map (\<lambda>kv. normalize P (snd kv)) (evidence_content s)"
    using same_fields [OF literal_keys_evidence(1) keys(2)] r by (auto simp: evidence_sealed_def)
qed

text \<open>
  C35: the identifier of verified evidence binds it.  Two stored records that are read back as evidence
  of a driver or of the runtime and have the same identifier belong to the same workspace, preview and
  revision, and have the same type, subject, source, repository, query scope and payload, up to the
  normalisation of text.
\<close>

theorem evidence_binds:
  assumes "evidence_from_dict P L a = Inr r" "evidence_from_dict P L b = Inr s"
    and "ev_source_kind r \<noteq> ''declared''" "ev_source_kind s \<noteq> ''declared''" "ev_evidence_id r = ev_evidence_id s"
    and "collision_free P (obj (evidence_identity r)) (obj (evidence_identity s))"
      "collision_free P (obj (evidence_content r)) (obj (evidence_content s))"
    and "floats_ok (obj (evidence_content r))" "floats_ok (obj (evidence_content s))"
    and "text_norm P (ev_digest r) = ev_digest r" "text_norm P (ev_digest s) = ev_digest s"
  shows "text_norm P (ev_workspace_identity r) = text_norm P (ev_workspace_identity s) \<and>
    text_norm P (ev_preview_id r) = text_norm P (ev_preview_id s) \<and> ev_revision r = ev_revision s \<and>
    text_norm P (ev_type r) = text_norm P (ev_type s) \<and> text_norm P (ev_subject_ref r) = text_norm P (ev_subject_ref s) \<and>
    text_norm P (ev_source_identity r) = text_norm P (ev_source_identity s) \<and>
    normalize P (ev_repository_identity r) = normalize P (ev_repository_identity s) \<and>
    normalize P (ev_query_scope r) = normalize P (ev_query_scope s) \<and> normalize P (ev_payload r) = normalize P (ev_payload s)"
  using sealed_binds [OF verified_sealed(1) [OF assms(1,3)] verified_sealed(1) [OF assms(2,4)] assms(5-11)]
  by (simp add: evidence_identity_def evidence_content_def)

section \<open>Storage round trip\<close>

lemma evidence_item: "map_of kvs k = Some v \<Longrightarrow> dict_item (obj kvs) k = Inr v"
  by (simp add: dict_item_def)

lemma evidence_readback:
  assumes "evidence_sealed P r" "ev_source_kind r \<in> {''runtime'', ''driver''}" "ev_declared_source r = None"
    "ev_status r = ev_source_kind r @ ''_verified''" "normal_scope P (ev_query_scope r) = Inr (ev_query_scope r)"
    "normalize P (ev_payload r) = Inr j" "ev_payload r = py_of j"
  shows "evidence_from_dict P L (evidence_to_dict r) = Inr r"
proof -
  let ?d = "evidence_to_dict r"
  have item: "str_item P ?d ''evidence_id'' = Inr (ev_evidence_id r)" "str_item P ?d ''workspace_identity'' = Inr (ev_workspace_identity r)"
    "str_item P ?d ''preview_id'' = Inr (ev_preview_id r)" "dict_item ?d ''revision'' = Inr (PInt (ev_revision r))"
    "str_item P ?d ''evidence_type'' = Inr (ev_type r)" "str_item P ?d ''source_identity'' = Inr (ev_source_identity r)"
    "str_item P ?d ''schema_version'' = Inr (ev_schema_version r)" "str_item P ?d ''subject_ref'' = Inr (ev_subject_ref r)"
    "dict_item ?d ''payload'' = Inr (ev_payload r)" "str_item P ?d ''evidence_digest'' = Inr (ev_digest r)"
    "str_item P ?d ''source_kind'' = Inr (ev_source_kind r)"
    by (simp_all add: evidence_to_dict_def str_item_def evidence_item)
  have get: "dict_get ?d ''query_scope'' = ev_query_scope r" "dict_get ?d ''repository_identity'' = ev_repository_identity r"
    "dict_get ?d ''created_at'' = ev_created_at r" "dict_get ?d ''declared_source'' = PNone"
    "dict_get ?d ''verification_status'' = PStr (ev_status r)"
    by (simp_all add: evidence_to_dict_def dict_get_def source_doc_def assms(3))
  have "read_verified P L (ev_source_kind r) ?d = Inr r"
    using assms by (simp add: read_verified_def item get to_int_def)
  moreover have "ev_source_kind r \<noteq> ''declared''" using assms(2) by auto
  ultimately show ?thesis
    using assms by (simp add: evidence_from_dict_def item get evidence_sealed_def)
qed

text \<open>The evidence of a driver over one repository, under the constant hash.\<close>

definition driver_evidence :: "pyval \<Rightarrow> evidence_record" where
  "driver_evidence created_at =
     \<lparr>ev_evidence_id = demo_evidence_id, ev_workspace_identity = ''ws'', ev_preview_id = ''p'', ev_revision = 1,
      ev_type = ''remote'', ev_source_kind = ''driver'', ev_declared_source = None, ev_status = ''driver_verified'',
      ev_source_identity = ''dr'', ev_repository_identity = PStr ''o/r'', ev_query_scope = PNone, ev_schema_version = ''v1'',
      ev_subject_ref = ''s'', ev_payload = PInt 1, ev_digest = demo_digest, ev_created_at = created_at\<rparr>"

lemma driver_evidence_sealed: "evidence_sealed fixed_prims (driver_evidence c)"
proof -
  have "normalizable fixed_prims (obj (evidence_content (driver_evidence c)))"
       "normalizable fixed_prims (obj (evidence_identity (driver_evidence c)))"
    by (rule normalizable_obj, rule literal_keys_evidence,
        simp add: evidence_content_def evidence_identity_def driver_evidence_def source_doc_def)+
  moreover have "after_colon demo_digest = replicate 64 (CHR ''a'')" by code_simp
  ultimately show ?thesis
    by (simp add: evidence_sealed_def evidence_id_from_def digest_hex_def digest_fixed)
       (simp add: driver_evidence_def demo_evidence_id_def)
qed

lemma driver_evidence_read: "evidence_from_dict fixed_prims L (evidence_to_dict (driver_evidence c)) = Inr (driver_evidence c)"
  by (rule evidence_readback [OF driver_evidence_sealed, where j = "JInt 1"]) (simp_all add: driver_evidence_def normal_scope_def)

theorem evidence_binds_witness:
  "ev_revision (driver_evidence PNone) = ev_revision (driver_evidence (PStr ''now''))"
proof -
  have same: "evidence_identity (driver_evidence c) = evidence_identity (driver_evidence c')"
    "evidence_content (driver_evidence c) = evidence_content (driver_evidence c')" for c c'
    by (simp_all add: evidence_identity_def evidence_content_def driver_evidence_def)
  have free: "collision_free fixed_prims v v" for v by (simp add: collision_free_def separates_def)
  have "text_norm fixed_prims demo_digest = demo_digest"
    by (rule text_norm_printable) (simp add: printable_def demo_digest_def list_all_iff)
  then have hex: "text_norm fixed_prims (ev_digest (driver_evidence c)) = ev_digest (driver_evidence c)" for c
    by (simp add: driver_evidence_def)
  have floats: "floats_ok (obj (evidence_content (driver_evidence c)))" for c
    by (simp add: evidence_content_def driver_evidence_def source_doc_def)
  let ?r = "driver_evidence PNone" and ?s = "driver_evidence (PStr ''now'')"
  have "collision_free fixed_prims (obj (evidence_identity ?r)) (obj (evidence_identity ?s))"
    "collision_free fixed_prims (obj (evidence_content ?r)) (obj (evidence_content ?s))"
    unfolding same [of PNone "PStr ''now''"] by (rule free)+
  moreover have "ev_source_kind ?r \<noteq> ''declared''" "ev_source_kind ?s \<noteq> ''declared''" "ev_evidence_id ?r = ev_evidence_id ?s"
    by (simp_all add: driver_evidence_def)
  ultimately show ?thesis
    using evidence_binds [OF driver_evidence_read driver_evidence_read _ _ _ _ _ floats floats hex hex] by blast
qed

end
