(* ===== verification/Remote_Snapshot.thy ===== *)
theory Remote_Snapshot
  imports Evidence
begin

text \<open>
  Model of \<open>delivery_system/remote_snapshot.py\<close>: the typed snapshot of a repository, made of the records
  of a read driver, and its digest.  \<open>TypedRemoteSnapshot\<close> and \<open>TypedRemoteSnapshotV2\<close> differ in their issue
  records only (\<open>issue_row\<close>), so both are one record with the version as a field.
\<close>

section \<open>Values\<close>

definition casefold :: "library \<Rightarrow> string \<Rightarrow> string" where
  "casefold L s = (if is_ascii s then map lower_char s else casefold_other L s)"

text \<open>\<open>_is_timezone_aware_timestamp\<close>\<close>

definition is_timezone_aware_timestamp :: "library \<Rightarrow> string \<Rightarrow> bool" where
  "is_timezone_aware_timestamp L s = iso_offset L (concat (map (\<lambda>c. if c = CHR ''Z'' then ''+00:00'' else [c]) s))"

definition elements_of :: "pyval \<Rightarrow> pyval list res" where
  "elements_of v = of_option TypeError (iterate v)"

fun str_or_int :: "pyval \<Rightarrow> bool" where
  "str_or_int (PStr _) = True"
| "str_or_int (PInt _) = True"
| "str_or_int (PBool _) = True"
| "str_or_int _ = False"

text \<open>\<open>dict(value)\<close>: of a mapping, or of an iterable of pairs.\<close>

definition pair_of :: "nat \<times> pyval \<Rightarrow> (pyval \<times> pyval) res" where
  "pair_of indexed =
     (case indexed of (i, v) \<Rightarrow>
        rbind (elements_of v) (\<lambda>xs. case xs of
          [k, x] \<Rightarrow> if hashable k then Inr (k, x) else Inl TypeError
        | _ \<Rightarrow> Inl (ValueError (''dictionary update sequence element #'' @ nat_repr i @ '' has length '' @ nat_repr (length xs) @
                 ''; 2 is required''))))"

definition as_dict :: "pyval \<Rightarrow> (pyval \<times> pyval) list res" where
  "as_dict v =
     (case v of
        PDict kvs \<Rightarrow> Inr kvs
      | _ \<Rightarrow> rbind (elements_of v) (\<lambda>xs. rbind (sequence (map pair_of (List.enumerate 0 xs))) (\<lambda>ps.
             Inr (foldl (\<lambda>d kv. AList.update (fst kv) (snd kv) d) [] ps))))"

text \<open>Values that are equal as members of a set.\<close>

fun set_key :: "pyval \<Rightarrow> pyval" where
  "set_key (PBool b) = PInt (of_bool b)"
| "set_key v = v"

fun is_str :: "pyval \<Rightarrow> bool" where
  "is_str (PStr _) = True"
| "is_str _ = False"

definition sorted_values :: "library \<Rightarrow> pyval list \<Rightarrow> pyval list res" where
  "sorted_values L xs =
     (if list_all is_str xs then Inr (sort_key str_of xs) else if length xs \<le> 1 then Inr xs else sorted_other L xs)"

fun without_key :: "string \<Rightarrow> pyval \<Rightarrow> pyval" where
  "without_key k (PDict kvs) = PDict (filter (\<lambda>kv. fst kv \<noteq> PStr k) kvs)"
| "without_key k v = v"

section \<open>Issues\<close>

record remote_issue =
  ri_issue_id :: string
  ri_item_type :: string
  ri_title :: string
  ri_updated_at :: string
  ri_repository :: string

definition issue_from_dict :: "prims \<Rightarrow> library \<Rightarrow> pyval \<Rightarrow> remote_issue res" where
  "issue_from_dict P L v =
     (if \<not> is_mapping v then Inl AttributeError
      else let get = dict_get v; i = get ''issue_id''; kind = get ''item_type'' in
        raise_if (\<not> str_or_int i \<or> py_str P i = []) ''remote_issue_identity_incomplete''
        (if \<not> hashable kind then Inl TypeError
         else raise_if (kind \<notin> {PStr ''issue'', PStr ''pull_request''}) ''remote_item_type_required''
        (raise_if (\<not> nonblank (get ''title'')) ''remote_issue_title_required''
        (raise_if (\<not> nonblank (get ''updated_at'')) ''remote_issue_updated_at_required''
        (raise_if (\<not> nonblank (get ''repository_identity'')) ''remote_issue_repository_identity_required''
        (raise_if (\<not> is_timezone_aware_timestamp L (str_of (get ''updated_at''))) ''remote_issue_updated_at_timezone_required''
          (Inr \<lparr>ri_issue_id = py_str P i, ri_item_type = str_of kind, ri_title = str_of (get ''title''),
                ri_updated_at = str_of (get ''updated_at''), ri_repository = str_of (get ''repository_identity'')\<rparr>)))))))"

definition issue_to_dict :: "remote_issue \<Rightarrow> pyval" where
  "issue_to_dict r =
     obj [(''issue_id'', PStr (ri_issue_id r)), (''item_type'', PStr (ri_item_type r)), (''title'', PStr (ri_title r)),
          (''updated_at'', PStr (ri_updated_at r)), (''repository_identity'', PStr (ri_repository r))]"

record remote_issue_v2 =
  r2_issue_id :: string
  r2_numeric_issue_id :: string
  r2_issue_number :: int
  r2_title :: string
  r2_body :: string
  r2_state :: string
  r2_updated_at :: string
  r2_repository :: string

definition issue_v2_fields :: "string list" where
  "issue_v2_fields = [''issue_id'', ''numeric_issue_id'', ''issue_number'', ''item_type'', ''title'', ''body'', ''state'',
     ''updated_at'', ''repository_identity'']"

text \<open>\<open>set(value) != set(required)\<close>; a value that is not a mapping cannot be indexed by a field.\<close>

definition exact_fields :: "pyval \<Rightarrow> unit res" where
  "exact_fields v =
     (let code = ''remote_snapshot_v2_issue_schema_invalid'' in
      if is_mapping v then raise_if (\<not> has_exactly v issue_v2_fields) code (Inr ())
      else rbind (elements_of v) (\<lambda>xs.
        if \<not> list_all hashable xs then Inl TypeError
        else raise_if (set xs \<noteq> PStr ` set issue_v2_fields) code (Inl TypeError)))"

text \<open>\<open>re.fullmatch(r"[1-9][0-9]{0,19}", text)\<close>\<close>

definition numeric_id :: "string \<Rightarrow> bool" where
  "numeric_id s \<longleftrightarrow> (case s of [] \<Rightarrow> False | c # cs \<Rightarrow> is_digit c \<and> c \<noteq> CHR ''0'' \<and> length cs \<le> 19 \<and> list_all is_digit cs)"

definition issue_v2_from_dict :: "library \<Rightarrow> pyval \<Rightarrow> remote_issue_v2 res" where
  "issue_v2_from_dict L v =
     rbind (exact_fields v) (\<lambda>_.
      let get = dict_get v; numeric = get ''numeric_issue_id''; body = get ''body''; state = get ''state''; updated = get ''updated_at'' in
      raise_if (\<not> nonblank (get ''issue_id'') \<or> \<not> is_str numeric \<or> \<not> numeric_id (str_of numeric)) ''remote_issue_identity_incomplete''
      (case get ''issue_number'' of
         PInt number \<Rightarrow>
           raise_if (number < 1) ''remote_issue_number_invalid''
           (raise_if (get ''item_type'' \<noteq> PStr ''issue'') ''pull_request_not_issue_candidate''
           (raise_if (\<not> nonblank (get ''title'')) ''remote_issue_title_required''
           (raise_if (body \<noteq> PNone \<and> \<not> is_str body) ''remote_issue_body_invalid''
           (raise_if (\<not> is_str state \<or> casefold L (str_of state) \<notin> {''open'', ''closed''}) ''remote_issue_state_invalid''
           (raise_if (\<not> is_str updated \<or> \<not> is_timezone_aware_timestamp L (str_of updated)) ''remote_issue_updated_at_timezone_required''
           (raise_if (\<not> nonblank (get ''repository_identity'')) ''remote_issue_repository_identity_required''
             (Inr \<lparr>r2_issue_id = str_of (get ''issue_id''), r2_numeric_issue_id = str_of numeric, r2_issue_number = number,
                   r2_title = str_of (get ''title''), r2_body = (if body = PNone then [] else str_of body),
                   r2_state = casefold L (str_of state), r2_updated_at = str_of updated,
                   r2_repository = str_of (get ''repository_identity'')\<rparr>)))))))
       | _ \<Rightarrow> Inl (ValueError ''remote_issue_number_invalid'')))"

definition issue_v2_to_dict :: "prims \<Rightarrow> remote_issue_v2 \<Rightarrow> pyval res" where
  "issue_v2_to_dict P r =
     rbind (normalize P (obj
       [(''issue_id'', PStr (r2_issue_id r)), (''numeric_issue_id'', PStr (r2_numeric_issue_id r)),
        (''issue_number'', PInt (r2_issue_number r)), (''item_type'', PStr ''issue''), (''title'', PStr (r2_title r)),
        (''body'', PStr (r2_body r)), (''state'', PStr (r2_state r)), (''updated_at'', PStr (r2_updated_at r)),
        (''repository_identity'', PStr (r2_repository r))])) (\<lambda>j. Inr (py_of j))"

datatype issue_row = IssueV1 remote_issue | IssueV2 remote_issue_v2

fun row_id :: "issue_row \<Rightarrow> string" where
  "row_id (IssueV1 r) = ri_issue_id r"
| "row_id (IssueV2 r) = r2_issue_id r"

fun row_repository :: "issue_row \<Rightarrow> string" where
  "row_repository (IssueV1 r) = ri_repository r"
| "row_repository (IssueV2 r) = r2_repository r"

fun is_pull_request :: "issue_row \<Rightarrow> bool" where
  "is_pull_request (IssueV1 r) = (ri_item_type r = ''pull_request'')"
| "is_pull_request (IssueV2 r) = False"

fun row_to_dict :: "prims \<Rightarrow> issue_row \<Rightarrow> pyval res" where
  "row_to_dict P (IssueV1 r) = Inr (issue_to_dict r)"
| "row_to_dict P (IssueV2 r) = issue_v2_to_dict P r"

definition read_row :: "prims \<Rightarrow> library \<Rightarrow> bool \<Rightarrow> pyval \<Rightarrow> issue_row res" where
  "read_row P L v2 v =
     (if v2 then rbind (issue_v2_from_dict L v) (\<lambda>r. Inr (IssueV2 r)) else rbind (issue_from_dict P L v) (\<lambda>r. Inr (IssueV1 r)))"

section \<open>Relationships, permissions and capabilities\<close>

record relationship =
  rr_kind :: string
  rr_source :: string
  rr_target :: string

definition relationship_kinds :: "string list" where
  "relationship_kinds = [''existing_dependency'', ''existing_parent'', ''proposed_dependency_candidate'', ''proposed_parent_candidate'']"

definition relationship_from_dict :: "prims \<Rightarrow> pyval \<Rightarrow> relationship res" where
  "relationship_from_dict P v =
     (if \<not> is_mapping v then Inl AttributeError
      else let get = dict_get v; kind = get ''kind'' in
        if \<not> hashable kind then Inl TypeError
        else raise_if (kind \<notin> PStr ` set relationship_kinds) ''remote_relationship_type_required''
          (raise_if (\<not> str_or_int (get ''from'') \<or> \<not> str_or_int (get ''to'')) ''remote_relationship_reference_required''
             (Inr \<lparr>rr_kind = str_of kind, rr_source = py_str P (get ''from''), rr_target = py_str P (get ''to'')\<rparr>)))"

definition relationship_to_dict :: "relationship \<Rightarrow> pyval" where
  "relationship_to_dict r = obj [(''kind'', PStr (rr_kind r)), (''from'', PStr (rr_source r)), (''to'', PStr (rr_target r))]"

definition relationship_key :: "relationship \<Rightarrow> string list" where
  "relationship_key r = [rr_kind r, rr_source r, rr_target r]"

definition permissions_to_dict :: "(pyval \<times> pyval) list \<Rightarrow> pyval res" where
  "permissions_to_dict kvs =
     raise_if (\<not> list_all (\<lambda>kv. is_str (fst kv) \<and> (case snd kv of PBool _ \<Rightarrow> True | _ \<Rightarrow> False)) kvs) ''remote_permission_boolean_required''
       (Inr (PDict (sort_key (\<lambda>kv. str_of (fst kv)) kvs)))"

definition capability_set :: "pyval list \<Rightarrow> string list res" where
  "capability_set xs =
     raise_if (\<not> list_all nonempty_str xs \<or> \<not> distinct xs) ''remote_capability_set_invalid'' (Inr (map str_of xs))"

section \<open>Snapshots\<close>

record remote_snapshot =
  rs_repository :: string
  rs_query_scope :: pyval
  rs_query_complete :: bool
  rs_pagination_complete :: bool
  rs_issues :: "issue_row list"
  rs_permissions :: "(pyval \<times> pyval) list"
  rs_capabilities :: "string list"
  rs_relationships :: "relationship list"
  rs_evidence_ids :: "pyval list"
  rs_v2 :: bool
  rs_observed_at :: pyval

definition check_rows :: "string \<Rightarrow> issue_row list \<Rightarrow> unit res" where
  "check_rows repository rows =
     raise_if (\<not> list_all (\<lambda>r. row_repository r = repository) rows) ''remote_issue_repository_identity_mismatch''
     (raise_if (\<not> list_all (\<lambda>r. \<not> is_pull_request r) rows) ''pull_request_not_issue_candidate''
     (raise_if (\<not> distinct (map row_id rows)) ''duplicate_remote_issue_id'' (Inr ())))"

definition evidence_tuple :: "pyval \<Rightarrow> pyval list res" where
  "evidence_tuple v =
     rbind (if truthy v then elements_of v else Inr []) (\<lambda>xs.
     if \<not> list_all hashable xs then Inl TypeError
     else raise_if (\<not> distinct (map set_key xs)) ''duplicate_remote_evidence_id'' (Inr xs))"

definition snapshot_from_records ::
  "prims \<Rightarrow> library \<Rightarrow> bool \<Rightarrow> pyval \<Rightarrow> pyval \<Rightarrow> pyval \<Rightarrow> pyval \<Rightarrow> pyval \<Rightarrow> pyval \<Rightarrow> pyval \<Rightarrow> pyval \<Rightarrow> pyval \<Rightarrow> pyval \<Rightarrow> remote_snapshot res" where
  "snapshot_from_records P L v2 repository scope query_complete pagination_complete issues permissions capabilities relationships
     evidence_ids observed_at =
     raise_if (\<not> nonblank repository) ''remote_repository_identity_required''
     (case (query_complete, pagination_complete) of
        (PBool q, PBool p) \<Rightarrow>
          rbind (elements_of issues) (\<lambda>xs.
          rbind (sequence (map (read_row P L v2) xs)) (\<lambda>rows.
          rbind (check_rows (str_of repository) rows) (\<lambda>_.
          rbind (elements_of relationships) (\<lambda>ys.
          rbind (sequence (map (relationship_from_dict P) ys)) (\<lambda>rels.
          raise_if (\<not> list_all (\<lambda>r. rr_source r \<in> row_id ` set rows \<and> rr_target r \<in> row_id ` set rows) rels)
            ''remote_relationship_reference_required''
          (rbind (evidence_tuple evidence_ids) (\<lambda>es.
           rbind (as_dict scope) (\<lambda>kvs.
           rbind (normalize P (PDict kvs)) (\<lambda>j.
           rbind (as_dict permissions) (\<lambda>granted.
           rbind (elements_of capabilities) (\<lambda>cs.
           rbind (capability_set cs) (\<lambda>able.
           rbind (sorted_values L es) (\<lambda>ids.
             Inr \<lparr>rs_repository = str_of repository, rs_query_scope = py_of j, rs_query_complete = q, rs_pagination_complete = p,
                  rs_issues = rows, rs_permissions = granted, rs_capabilities = able, rs_relationships = rels,
                  rs_evidence_ids = ids, rs_v2 = v2, rs_observed_at = observed_at\<rparr>)))))))))))))
      | _ \<Rightarrow> Inl (ValueError ''remote_query_completeness_boolean_required''))"

definition snapshot_fields :: "remote_snapshot \<Rightarrow> pyval \<Rightarrow> pyval list \<Rightarrow> pyval \<Rightarrow> pyval list \<Rightarrow> (string \<times> pyval) list" where
  "snapshot_fields s scope issues permissions ids =
     [(''repository_identity'', PStr (rs_repository s)), (''query_scope'', scope), (''query_complete'', PBool (rs_query_complete s)),
      (''pagination_complete'', PBool (rs_pagination_complete s)), (''issue_records'', PList issues), (''permissions'', permissions),
      (''capabilities'', strs (sort (rs_capabilities s))),
      (''relationship_records'', PList (map relationship_to_dict (sort_key relationship_key (rs_relationships s)))),
      (''evidence_ids'', PList ids),
      (''schema_version'', PStr (if rs_v2 s then ''remote-snapshot-v2'' else ''remote-snapshot-v1''))]"

definition snapshot_to_dict :: "prims \<Rightarrow> library \<Rightarrow> remote_snapshot \<Rightarrow> json res" where
  "snapshot_to_dict P L s =
     rbind (normalize P (rs_query_scope s)) (\<lambda>scope.
     rbind (sequence (map (row_to_dict P) (sort_key row_id (rs_issues s)))) (\<lambda>issues.
     rbind (permissions_to_dict (rs_permissions s)) (\<lambda>permissions.
     rbind (sorted_values L (rs_evidence_ids s)) (\<lambda>ids.
     normalize P (obj (snapshot_fields s (py_of scope) issues permissions ids @ [(''observed_at'', rs_observed_at s)]))))))"

definition snapshot_digest :: "prims \<Rightarrow> library \<Rightarrow> remote_snapshot \<Rightarrow> string res" where
  "snapshot_digest P L s = rbind (snapshot_to_dict P L s) (\<lambda>j. digest P (without_key ''observed_at'' (py_of j)))"

section \<open>The digest does not depend on the order of the records\<close>

lemma mapped_perm:
  assumes "map f xs = map Inr ys" "mset xs' = mset xs"
  obtains ys' where "map f xs' = map Inr ys'" "mset ys' = mset ys"
proof -
  have ys: "ys = map (\<lambda>x. projr (f x)) xs" and all: "\<forall>x \<in> set xs. \<exists>y. f x = Inr y"
    using assms(1) by (induction xs arbitrary: ys) (auto simp: Cons_eq_map_conv)
  have "\<forall>x \<in> set xs'. \<exists>y. f x = Inr y" using all mset_eq_setD [OF assms(2)] by simp
  then have "map f xs' = map Inr (map (\<lambda>x. projr (f x)) xs')" by (induction xs') auto
  moreover have "mset (map (\<lambda>x. projr (f x)) xs') = mset ys" unfolding ys using assms(2) by simp
  ultimately show ?thesis by (rule that)
qed

lemma relationship_key_inj: "inj relationship_key"
proof (rule injI)
  fix a b :: relationship
  assume "relationship_key a = relationship_key b"
  then show "a = b" by (simp add: relationship_key_def)
qed

lemma literal_keys_snapshot: "literal_keys (snapshot_fields s scope issues permissions ids)"
  "literal_keys (snapshot_fields s scope issues permissions ids @ [(''observed_at'', v)])"
  by (simp_all add: literal_keys_def snapshot_fields_def)

lemma normalize_without_last:
  assumes keys: "literal_keys (kvs @ [(k, v)])" "literal_keys kvs"
  shows "normalize P (obj (kvs @ [(k, v)])) = Inr j \<Longrightarrow> \<exists>j'. normalize P (obj kvs) = Inr j' \<and> without_key k (py_of j) = py_of j'"
    and "normalize P (obj kvs) = Inr j' \<Longrightarrow> normalizable P v \<Longrightarrow>
      \<exists>j. normalize P (obj (kvs @ [(k, v)])) = Inr j \<and> without_key k (py_of j) = py_of j'"
proof -
  let ?obj = "\<lambda>ks vs. JObj (sort_key fst (zip ks vs))"
  have drop: "without_key k (py_of (?obj (map fst kvs @ [k]) (vs @ [x]))) = py_of (?obj (map fst kvs) vs)"
    if "length vs = length kvs" for vs x
  proof -
    have "filter (\<lambda>e. fst e \<noteq> k) (zip (map fst kvs) vs) = zip (map fst kvs) vs"
      using keys(1) by (intro filter_True) (auto simp: literal_keys_def dest!: set_zip_leftD)
    then show ?thesis using that by (simp add: filter_map comp_def filter_sort)
  qed
  show "\<exists>j'. normalize P (obj kvs) = Inr j' \<and> without_key k (py_of j) = py_of j'" if n: "normalize P (obj (kvs @ [(k, v)])) = Inr j"
  proof -
    obtain ws where ws: "map (\<lambda>kv. normalize P (snd kv)) (kvs @ [(k, v)]) = map Inr ws" "j = ?obj (map fst (kvs @ [(k, v)])) ws"
      using n unfolding normalize_obj_Inr [OF keys(1)] by blast
    then obtain vs x where vs: "ws = vs @ [x]" by (cases ws rule: rev_cases) auto
    then have "map (\<lambda>kv. normalize P (snd kv)) kvs = map Inr vs" using ws(1) by simp
    moreover from this have "length vs = length kvs" by (metis length_map)
    ultimately show ?thesis using drop ws(2) vs normalize_obj_Inr [OF keys(2)] by auto
  qed
  show "\<exists>j. normalize P (obj (kvs @ [(k, v)])) = Inr j \<and> without_key k (py_of j) = py_of j'"
    if n: "normalize P (obj kvs) = Inr j'" "normalizable P v"
  proof -
    obtain vs where vs: "map (\<lambda>kv. normalize P (snd kv)) kvs = map Inr vs" "j' = ?obj (map fst kvs) vs"
      using n(1) unfolding normalize_obj_Inr [OF keys(2)] by blast
    obtain x where "normalize P v = Inr x" using n(2) by (auto simp: normalizable_def)
    then have "map (\<lambda>kv. normalize P (snd kv)) (kvs @ [(k, v)]) = map Inr (vs @ [x])" using vs(1) by simp
    then have "normalize P (obj (kvs @ [(k, v)])) = Inr (?obj (map fst (kvs @ [(k, v)])) (vs @ [x]))"
      unfolding normalize_obj_Inr [OF keys(1)] by blast
    moreover have "length vs = length kvs" using vs(1) by (metis length_map)
    ultimately show ?thesis using drop [of vs x] vs(2) by auto
  qed
qed

lemma normalize_last:
  assumes "literal_keys (kvs @ [(k, v)])" "normalize P (obj (kvs @ [(k, v)])) = Inr j"
  shows "normalizable P v"
proof -
  obtain ws where "map (\<lambda>kv. normalize P (snd kv)) (kvs @ [(k, v)]) = map Inr ws"
    using assms(2) unfolding normalize_obj_Inr [OF assms(1)] by blast
  then show ?thesis by (cases ws rule: rev_cases) (auto simp: normalizable_def)
qed

text \<open>The digest of a snapshot is that of its fields, without the moment of the observation.\<close>

lemma snapshot_digest_Inr:
  "snapshot_digest P L s = Inr d \<longleftrightarrow> normalizable P (rs_observed_at s) \<and>
     (\<exists>scope issues permissions ids j. normalize P (rs_query_scope s) = Inr scope \<and>
        map (row_to_dict P) (sort_key row_id (rs_issues s)) = map Inr issues \<and> permissions_to_dict (rs_permissions s) = Inr permissions \<and>
        sorted_values L (rs_evidence_ids s) = Inr ids \<and> normalize P (obj (snapshot_fields s (py_of scope) issues permissions ids)) = Inr j \<and>
        digest P (py_of j) = Inr d)"
  (is "?lhs \<longleftrightarrow> ?rhs")
proof
  assume ?lhs
  then obtain scope issues permissions ids j where *: "normalize P (rs_query_scope s) = Inr scope"
    "map (row_to_dict P) (sort_key row_id (rs_issues s)) = map Inr issues" "permissions_to_dict (rs_permissions s) = Inr permissions"
    "sorted_values L (rs_evidence_ids s) = Inr ids"
    "normalize P (obj (snapshot_fields s (py_of scope) issues permissions ids @ [(''observed_at'', rs_observed_at s)])) = Inr j"
    "digest P (without_key ''observed_at'' (py_of j)) = Inr d"
    by (auto simp: snapshot_digest_def snapshot_to_dict_def rbind_Inr sequence_Inr)
  from normalize_without_last(1) [OF literal_keys_snapshot(2,1) *(5)] normalize_last [OF literal_keys_snapshot(2) *(5)] *
  show ?rhs by metis
next
  assume ?rhs
  then obtain scope issues permissions ids j where *: "normalize P (rs_query_scope s) = Inr scope"
    "map (row_to_dict P) (sort_key row_id (rs_issues s)) = map Inr issues" "permissions_to_dict (rs_permissions s) = Inr permissions"
    "sorted_values L (rs_evidence_ids s) = Inr ids" "normalizable P (rs_observed_at s)"
    "normalize P (obj (snapshot_fields s (py_of scope) issues permissions ids)) = Inr j" "digest P (py_of j) = Inr d" by blast
  obtain j2 where "normalize P (obj (snapshot_fields s (py_of scope) issues permissions ids @ [(''observed_at'', rs_observed_at s)])) = Inr j2"
    "without_key ''observed_at'' (py_of j2) = py_of j"
    using normalize_without_last(2) [OF literal_keys_snapshot(2,1) *(6,5)] by blast
  then show ?lhs using * by (simp add: snapshot_digest_def snapshot_to_dict_def rbind_Inr sequence_Inr)
qed

text \<open>Snapshots with the same sorted records have the same digest.\<close>

lemma snapshot_digest_cong:
  assumes "snapshot_digest P L s = Inr d" "normalizable P (rs_observed_at t)"
    "rs_query_scope t = rs_query_scope s" "sort_key row_id (rs_issues t) = sort_key row_id (rs_issues s)"
    "rs_permissions t = rs_permissions s" "rs_evidence_ids t = rs_evidence_ids s" "rs_repository t = rs_repository s"
    "rs_query_complete t = rs_query_complete s" "rs_pagination_complete t = rs_pagination_complete s" "rs_v2 t = rs_v2 s"
    "sort (rs_capabilities t) = sort (rs_capabilities s)"
    "sort_key relationship_key (rs_relationships t) = sort_key relationship_key (rs_relationships s)"
  shows "snapshot_digest P L t = Inr d"
proof -
  have "snapshot_fields t = snapshot_fields s" using assms by (intro ext) (simp add: snapshot_fields_def)
  then show ?thesis using assms unfolding snapshot_digest_Inr by simp
qed

lemma evidence_tuple_list: "evidence_tuple (PList ids) = (if \<not> list_all hashable ids then Inl TypeError
     else raise_if (\<not> distinct (map set_key ids)) ''duplicate_remote_evidence_id'' (Inr ids))"
  by (simp add: evidence_tuple_def elements_of_def)

lemma is_str_of: "is_str x \<Longrightarrow> PStr (str_of x) = x"
  by (cases x) simp_all

lemma strings_sorted:
  assumes "list_all is_str ids" "mset ids' = mset ids"
  shows "sorted_values L ids' = sorted_values L ids"
proof -
  have strings: "list_all is_str ids'" using assms mset_eq_setD [OF assms(2)] by (simp add: list_all_iff)
  have "inj_on str_of (set ids')"
  proof (rule inj_onI)
    fix x y assume "x \<in> set ids'" "y \<in> set ids'" "str_of x = str_of y"
    then show "x = y" using strings is_str_of by (metis list_all_iff)
  qed
  then have "sort_key str_of ids' = sort_key str_of ids" using assms(2) by (rule sort_key_mset_cong [rotated])
  then show ?thesis using assms(1) strings by (simp add: sorted_values_def)
qed

lemma sorted_strings: "list_all is_str ids \<Longrightarrow> sorted_values L (sort_key str_of ids) = sorted_values L ids"
  by (rule strings_sorted) simp_all

lemma distinct_perm: "mset xs' = mset xs \<Longrightarrow> distinct (map f xs') = distinct (map f xs)"
  by (rule mset_eq_imp_distinct_iff) simp

lemma list_all_perm: "mset xs' = mset xs \<Longrightarrow> list_all Q xs' = list_all Q xs"
  by (metis list_all_iff mset_eq_setD)

text \<open>
  C36: the digest of a remote snapshot does not depend on the order the driver lists its records in,
  nor on the moment of the observation.  A snapshot made of a permutation of the issues, the
  relationships, the capabilities and the evidence identifiers is accepted as the first one was and
  has the same digest.
\<close>

theorem snapshot_digest_order:
  assumes s: "snapshot_from_records P L v2 repository scope qc pc (PList issues) permissions (PList caps) (PList rels) (PList ids)
      observed = Inr s"
    and d: "snapshot_digest P L s = Inr d"
    and perm: "mset issues' = mset issues" "mset caps' = mset caps" "mset rels' = mset rels" "mset ids' = mset ids"
    and ids: "list_all is_str ids" and observed': "normalizable P observed'"
  shows "\<exists>s'. snapshot_from_records P L v2 repository scope qc pc (PList issues') permissions (PList caps') (PList rels') (PList ids')
      observed' = Inr s' \<and> snapshot_digest P L s' = Inr d"
proof -
  obtain q p rows rs kvs j granted able where r: "nonblank repository" "qc = PBool q" "pc = PBool p"
      "map (read_row P L v2) issues = map Inr rows" "check_rows (str_of repository) rows = Inr ()"
      "map (relationship_from_dict P) rels = map Inr rs"
      "list_all (\<lambda>r. rr_source r \<in> row_id ` set rows \<and> rr_target r \<in> row_id ` set rows) rs"
      "list_all hashable ids" "distinct (map set_key ids)" "as_dict scope = Inr kvs" "normalize P (PDict kvs) = Inr j"
      "as_dict permissions = Inr granted" "capability_set caps = Inr able"
    and s_eq: "s = \<lparr>rs_repository = str_of repository, rs_query_scope = py_of j, rs_query_complete = q, rs_pagination_complete = p,
        rs_issues = rows, rs_permissions = granted, rs_capabilities = able, rs_relationships = rs,
        rs_evidence_ids = sort_key str_of ids, rs_v2 = v2, rs_observed_at = observed\<rparr>"
    using s ids unfolding snapshot_from_records_def elements_of_def evidence_tuple_list sorted_values_def
    by (auto simp: rbind_Inr raise_if_Inr sequence_Inr split: pyval.splits if_splits)
  obtain rows' where rows': "map (read_row P L v2) issues' = map Inr rows'" "mset rows' = mset rows"
    by (rule mapped_perm [OF r(4) perm(1)])
  obtain rs' where rs': "map (relationship_from_dict P) rels' = map Inr rs'" "mset rs' = mset rs"
    by (rule mapped_perm [OF r(6) perm(3)])
  have same_set: "set rows' = set rows" using rows'(2) by (rule mset_eq_setD)
  have rows_ok: "check_rows (str_of repository) rows' = Inr ()"
    using r(5) distinct_perm [OF rows'(2), of row_id] list_all_perm [OF rows'(2), of "\<lambda>r. row_repository r = str_of repository"]
      list_all_perm [OF rows'(2), of "\<lambda>r. \<not> is_pull_request r"]
    by (simp add: check_rows_def raise_if_Inr del: distinct_map)
  have able: "able = map str_of caps" "list_all nonempty_str caps" "distinct caps"
    using r(13) by (auto simp: capability_set_def raise_if_Inr)
  have able': "capability_set caps' = Inr (map str_of caps')"
    using able list_all_perm [OF perm(2)] distinct_perm [OF perm(2), of "\<lambda>x. x"] by (simp add: capability_set_def)
  let ?t = "\<lparr>rs_repository = str_of repository, rs_query_scope = py_of j, rs_query_complete = q, rs_pagination_complete = p,
        rs_issues = rows', rs_permissions = granted, rs_capabilities = map str_of caps', rs_relationships = rs',
        rs_evidence_ids = sort_key str_of ids', rs_v2 = v2, rs_observed_at = observed'\<rparr>"
  have ids': "list_all is_str ids'" "list_all hashable ids'" "distinct (map set_key ids')"
    using ids r(8,9) list_all_perm [OF perm(4)] distinct_perm [OF perm(4), of set_key] by (simp_all del: distinct_map)
  have made: "snapshot_from_records P L v2 repository scope qc pc (PList issues') permissions (PList caps') (PList rels') (PList ids')
      observed' = Inr ?t"
    unfolding snapshot_from_records_def elements_of_def evidence_tuple_list sorted_values_def
    using r rows' rs' rows_ok able' ids' same_set list_all_perm [OF rs'(2)] by (simp add: sequence_Inr [THEN iffD2])
  have sorted: "sort_key str_of ids' = sort_key str_of ids"
    using strings_sorted [OF ids perm(4), of L] ids ids'(1) by (simp add: sorted_values_def)
  have "inj_on row_id (set rows')" using rows_ok by (simp add: check_rows_def raise_if_Inr distinct_map)
  then have "sort_key row_id rows' = sort_key row_id rows" by (rule sort_key_mset_cong [OF rows'(2)])
  moreover have "sort_key relationship_key rs' = sort_key relationship_key rs"
    by (rule sort_key_mset_cong [OF rs'(2)]) (rule inj_on_subset [OF relationship_key_inj subset_UNIV])
  moreover have "sort (map str_of caps') = sort able"
    using perm(2) unfolding able(1) by (intro sort_key_mset_cong) simp_all
  ultimately have "snapshot_digest P L ?t = Inr d"
    by (intro snapshot_digest_cong [OF d]) (simp_all add: s_eq sorted observed')
  then show ?thesis using made by blast
qed

text \<open>Two issues in either order.\<close>

definition demo_library :: library where
  "demo_library = \<lparr>int_other = (\<lambda>_. Inl TypeError), casefold_other = (\<lambda>s. s), iso_offset = (\<lambda>_. True), repr_value = (\<lambda>_. ''value''),
     sorted_other = (\<lambda>_. Inl TypeError)\<rparr>"

definition demo_issue :: "string \<Rightarrow> pyval" where
  "demo_issue i = obj [(''issue_id'', PStr i), (''item_type'', PStr ''issue''), (''title'', PStr ''t''), (''updated_at'', PStr ''now''),
     (''repository_identity'', PStr ''o/r'')]"

lemma demo_nonblank: "nonblank (PStr ''t'')" "nonblank (PStr ''now'')" "nonblank (PStr ''o/r'')"
proof -
  have "strip ''t'' = ''t''" "strip ''now'' = ''now''" "strip ''o/r'' = ''o/r''" by (rule strip_visible; code_simp)+
  then show "nonblank (PStr ''t'')" "nonblank (PStr ''now'')" "nonblank (PStr ''o/r'')" by simp_all
qed

lemma digest_normal_form: "normalize fixed_prims v = Inr j \<Longrightarrow> ascii_val v \<Longrightarrow> digest fixed_prims (py_of j) = Inr demo_digest"
  by (rule digest_fixed) (use normalize_canonical normalize_ascii_canonical in \<open>auto simp: normalizable_def\<close>)

lemma demo_read_issue: "i \<noteq> [] \<Longrightarrow> read_row fixed_prims demo_library False (demo_issue i) =
    Inr (IssueV1 \<lparr>ri_issue_id = i, ri_item_type = ''issue'', ri_title = ''t'', ri_updated_at = ''now'', ri_repository = ''o/r''\<rparr>)"
  using demo_nonblank
  by (simp add: read_row_def issue_from_dict_def demo_issue_def dict_get_def is_timezone_aware_timestamp_def demo_library_def)

lemma demo_two_issues:
  obtains s where "snapshot_from_records fixed_prims demo_library False (PStr ''o/r'') (obj []) (PBool True) (PBool True)
      (PList [demo_issue ''2'', demo_issue ''1'']) (obj []) (PList []) (PList []) (PList []) PNone = Inr s"
    "snapshot_digest fixed_prims demo_library s = Inr demo_digest"
proof -
  let ?row = "\<lambda>i. IssueV1 \<lparr>ri_issue_id = i, ri_item_type = ''issue'', ri_title = ''t'', ri_updated_at = ''now'', ri_repository = ''o/r''\<rparr>"
  let ?s = "\<lparr>rs_repository = ''o/r'', rs_query_scope = PDict [], rs_query_complete = True, rs_pagination_complete = True,
      rs_issues = [?row ''2'', ?row ''1''], rs_permissions = [], rs_capabilities = [], rs_relationships = [], rs_evidence_ids = [],
      rs_v2 = False, rs_observed_at = PNone\<rparr>"
  have made: "snapshot_from_records fixed_prims demo_library False (PStr ''o/r'') (obj []) (PBool True) (PBool True)
      (PList [demo_issue ''2'', demo_issue ''1'']) (obj []) (PList []) (PList []) (PList []) PNone = Inr ?s"
    using demo_nonblank(3)
    by (simp add: snapshot_from_records_def elements_of_def demo_read_issue check_rows_def evidence_tuple_list as_dict_def obj_def
        capability_set_def sorted_values_def)
  have sorted: "sort_key row_id (rs_issues ?s) = [?row ''1'', ?row ''2'']" by code_simp
  let ?issues = "[issue_to_dict \<lparr>ri_issue_id = ''1'', ri_item_type = ''issue'', ri_title = ''t'', ri_updated_at = ''now'', ri_repository = ''o/r''\<rparr>,
      issue_to_dict \<lparr>ri_issue_id = ''2'', ri_item_type = ''issue'', ri_title = ''t'', ri_updated_at = ''now'', ri_repository = ''o/r''\<rparr>]"
  let ?fields = "obj (snapshot_fields ?s (PDict []) ?issues (PDict []) [])"
  have "normalizable fixed_prims (issue_to_dict r)" for r
    unfolding issue_to_dict_def by (rule normalizable_obj) (simp_all add: literal_keys_def)
  moreover have "normalizable fixed_prims (PDict [])" by (simp add: normalizable_def)
  ultimately have "normalizable fixed_prims ?fields"
    by (intro normalizable_obj literal_keys_snapshot) (simp add: snapshot_fields_def)
  then obtain j where j: "normalize fixed_prims ?fields = Inr j" by (auto simp: normalizable_def)
  have "ascii_val ?fields" by code_simp
  then have "snapshot_digest fixed_prims demo_library ?s = Inr demo_digest"
    unfolding snapshot_digest_Inr sorted using digest_normal_form [OF j] j
    by (intro conjI exI [of _ "JObj []"] exI [of _ ?issues] exI [of _ "PDict []"] exI [of _ "[]"] exI [of _ j])
      (simp_all add: permissions_to_dict_def sorted_values_def)
  then show ?thesis using that made by blast
qed

theorem snapshot_digest_order_witness:
  "\<exists>s. snapshot_from_records fixed_prims demo_library False (PStr ''o/r'') (obj []) (PBool True) (PBool True)
      (PList [demo_issue ''1'', demo_issue ''2'']) (obj []) (PList []) (PList []) (PList []) (PStr ''later'') = Inr s \<and>
    snapshot_digest fixed_prims demo_library s = Inr demo_digest"
proof (rule demo_two_issues)
  fix s
  assume "snapshot_from_records fixed_prims demo_library False (PStr ''o/r'') (obj []) (PBool True) (PBool True)
      (PList [demo_issue ''2'', demo_issue ''1'']) (obj []) (PList []) (PList []) (PList []) PNone = Inr s"
    "snapshot_digest fixed_prims demo_library s = Inr demo_digest"
  from snapshot_digest_order [OF this, of "[demo_issue ''1'', demo_issue ''2'']" "[]" "[]" "[]"]
  show ?thesis by simp
qed

end
