(* ===== verification/Promotion.thy ===== *)
theory Promotion
  imports Remote_Snapshot
begin

text \<open>
  Model of \<open>_reload_promotion\<close> of \<open>delivery_system/runtime_authority.py\<close> and of its second version in
  \<open>delivery_system/runtime.py\<close>: the promotion of a stored preview to a repository-aware level, rebuilt
  from the trust context of the store and the driver evidence the preview refers to.
\<close>

record trust_context =
  tc_driver :: string
  tc_origin :: string
  tc_contract_version :: string

text \<open>\<open>DriverTrustContext.remote_authority\<close> and \<open>to_dict\<close>\<close>

definition trust_remote_authority :: "prims \<Rightarrow> trust_context \<Rightarrow> string res" where
  "trust_remote_authority P t =
     digest P (obj [(''domain'', PStr ''delivery-system:remote-authority:v1''), (''trusted_driver_identity'', PStr (tc_driver t)),
       (''origin'', PStr (tc_origin t)), (''contract_version'', PStr (tc_contract_version t))])"

definition trust_to_dict :: "prims \<Rightarrow> trust_context \<Rightarrow> pyval res" where
  "trust_to_dict P t =
     rbind (trust_remote_authority P t) (\<lambda>authority.
     Inr (obj [(''trusted_driver_identity'', PStr (tc_driver t)), (''origin'', PStr (tc_origin t)),
       (''contract_version'', PStr (tc_contract_version t)), (''remote_authority'', PStr authority)]))"

record promotion =
  pm_evidence_id :: string
  pm_trusted_driver :: string
  pm_remote_authority :: string
  pm_snapshot_digest :: string
  pm_content_digest :: string

definition repository_levels :: "pyval set" where
  "repository_levels = {PStr (level_value RepositoryAware), PStr (level_value WriteEligible)}"

text \<open>\<open>[record for record in evidence if record.get("source_kind") == "driver"]\<close>\<close>

fun driver_records :: "pyval list \<Rightarrow> pyval list res" where
  "driver_records [] = Inr []"
| "driver_records (r # rs) =
     (if \<not> is_mapping r then Inl AttributeError
      else rbind (driver_records rs) (\<lambda>rest. Inr (if dict_get r ''source_kind'' = PStr ''driver'' then r # rest else rest)))"

text \<open>The typed snapshot of a remote payload.\<close>

definition snapshot_of :: "prims \<Rightarrow> library \<Rightarrow> bool \<Rightarrow> string \<Rightarrow> pyval \<Rightarrow> remote_snapshot res" where
  "snapshot_of P L v2 repository remote =
     snapshot_from_records P L v2 (PStr repository) (get_or remote ''query_scope'' (obj [])) (dict_get remote ''query_complete'')
       (dict_get remote ''pagination_complete'') (get_or remote ''issue_records'' (PList [])) (get_or remote ''permissions'' (obj []))
       (get_or remote ''capabilities'' (PList [])) (get_or remote ''relationship_records'' (PList []))
       (get_or remote ''evidence_ids'' (PList [])) (dict_get remote ''observed_at'')"

text \<open>\<open>record.evidence_id not in set(canonical.get("evidence_ids", []))\<close>\<close>

definition evidence_listed :: "pyval \<Rightarrow> evidence_record \<Rightarrow> unit res" where
  "evidence_listed canonical r =
     rbind (elements_of (get_or canonical ''evidence_ids'' (PList []))) (\<lambda>xs.
     if \<not> list_all hashable xs then Inl TypeError
     else raise_if (PStr (ev_evidence_id r) \<notin> set xs) ''evidence_reference_mismatch'' (Inr ()))"

definition promote :: "prims \<Rightarrow> library \<Rightarrow> bool \<Rightarrow> trust_context \<Rightarrow> pyval \<Rightarrow> pyval \<Rightarrow> promotion res" where
  "promote P L v2 trust canonical doc =
     (let remote = dict_get canonical ''remote_snapshot'' in
      rbind (evidence_from_dict P L doc) (\<lambda>r.
      raise_if (ev_source_identity r \<noteq> tc_driver trust) ''driver_trust_context_mismatch''
      (raise_if (\<not> is_mapping remote) ''remote_snapshot_invalid''
      (rbind (snapshot_of P L v2 (py_str P (dict_get remote ''repository_identity'')) remote) (\<lambda>s.
       rbind (sorted_values L (rs_evidence_ids s)) (\<lambda>ids.
       raise_if (ids \<noteq> [PStr (ev_evidence_id r)]) ''snapshot_evidence_mismatch''
       (rbind (if v2 then Inr () else evidence_listed canonical r) (\<lambda>_.
        rbind (digest P (ev_payload r)) (\<lambda>content.
        rbind (snapshot_digest P L s) (\<lambda>d.
        rbind (trust_remote_authority P trust) (\<lambda>authority.
        raise_if (dict_get canonical ''remote_authority'' \<noteq> PStr authority \<or>
                  dict_get canonical ''remote_snapshot_digest'' \<noteq> PStr d) ''driver_trust_context_mismatch''
          (Inr \<lparr>pm_evidence_id = ev_evidence_id r, pm_trusted_driver = tc_driver trust,
                pm_remote_authority = authority, pm_snapshot_digest = d, pm_content_digest = content\<rparr>))))))))))))"

definition reload_promotion ::
  "prims \<Rightarrow> library \<Rightarrow> trust_context option \<Rightarrow> pyval \<Rightarrow> pyval list \<Rightarrow> promotion option res" where
  "reload_promotion P L trust canonical evidence =
     (let v2 = (dict_get canonical ''canonical_version'' = PStr ''2''); level = dict_get canonical ''preview_level'' in
      if \<not> hashable level then Inl TypeError
      else if level \<notin> repository_levels then Inr None
      else raise_if (\<not> v2 \<and> trust = None) ''driver_trust_context_required''
        (rbind (driver_records evidence) (\<lambda>docs.
         case (trust, docs) of
           (Some t, [doc]) \<Rightarrow> rbind (promote P L v2 t canonical doc) (\<lambda>p. Inr (Some p))
         | _ \<Rightarrow> Inl (ValueError ''repository_aware_promotion_required''))))"

section \<open>A promotion is earned\<close>

lemma driver_records_Inr: "driver_records evidence = Inr docs \<Longrightarrow> docs = filter (\<lambda>r. dict_get r ''source_kind'' = PStr ''driver'') evidence"
  by (induction evidence arbitrary: docs) (auto simp: rbind_Inr split: if_splits)

lemma driver_kind:
  assumes "evidence_from_dict P L doc = Inr r" "dict_get doc ''source_kind'' = PStr ''driver''"
  shows "ev_source_kind r = ''driver''"
proof -
  have "dict_item doc ''source_kind'' = Inr (PStr ''driver'')"
    using assms(2) by (auto simp: dict_get_def dict_item_def split: option.splits)
  then have "str_item P doc ''source_kind'' = Inr ''driver''" by (simp add: str_item_def)
  then show ?thesis using assms(1) by (auto simp: evidence_from_dict_def read_verified_def rbind_Inr raise_if_Inr)
qed

text \<open>
  C34: a promotion is earned.  It is rebuilt only if the store trusts a driver and exactly one of the
  evidence records is a driver's; that record carries its own digest and identifier and comes from the
  trusted driver, the sealed snapshot refers to it alone, and the promotion carries the digests of the
  record's payload and of the snapshot, the latter being the one the preview is sealed with.
\<close>

theorem promotion_earned:
  assumes "reload_promotion P L trust canonical evidence = Inr (Some p)"
  shows "\<exists>t doc r s. trust = Some t \<and> filter (\<lambda>e. dict_get e ''source_kind'' = PStr ''driver'') evidence = [doc] \<and>
     evidence_from_dict P L doc = Inr r \<and> evidence_sealed P r \<and> ev_status r = ''driver_verified'' \<and>
     ev_source_identity r = tc_driver t \<and> pm_trusted_driver p = tc_driver t \<and> pm_evidence_id p = ev_evidence_id r \<and>
     trust_remote_authority P t = Inr (pm_remote_authority p) \<and> dict_get canonical ''remote_authority'' = PStr (pm_remote_authority p) \<and>
     digest P (ev_payload r) = Inr (pm_content_digest p) \<and>
     snapshot_of P L (dict_get canonical ''canonical_version'' = PStr ''2'')
       (py_str P (dict_get (dict_get canonical ''remote_snapshot'') ''repository_identity'')) (dict_get canonical ''remote_snapshot'') = Inr s \<and>
     sorted_values L (rs_evidence_ids s) = Inr [PStr (ev_evidence_id r)] \<and>
     snapshot_digest P L s = Inr (pm_snapshot_digest p) \<and> dict_get canonical ''remote_snapshot_digest'' = PStr (pm_snapshot_digest p)"
proof -
  obtain docs where docs: "driver_records evidence = Inr docs"
    using assms by (auto simp: reload_promotion_def Let_def rbind_Inr raise_if_Inr split: if_splits)
  obtain t doc where t: "trust = Some t" "docs = [doc]"
      "promote P L (dict_get canonical ''canonical_version'' = PStr ''2'') t canonical doc = Inr p"
    using assms docs by (auto simp: reload_promotion_def Let_def rbind_Inr raise_if_Inr split: if_splits option.splits list.splits)
  have only: "filter (\<lambda>e. dict_get e ''source_kind'' = PStr ''driver'') evidence = [doc]"
    using driver_records_Inr [OF docs] t(2) by simp
  then have "doc \<in> set (filter (\<lambda>e. dict_get e ''source_kind'' = PStr ''driver'') evidence)" by simp
  then have "dict_get doc ''source_kind'' = PStr ''driver''" by simp
  moreover obtain r where r: "evidence_from_dict P L doc = Inr r"
    using t(3) by (auto simp: promote_def Let_def rbind_Inr)
  ultimately have kind: "ev_source_kind r = ''driver''" by (metis driver_kind)
  then have "evidence_sealed P r" "ev_status r = ''driver_verified''" using verified_sealed [OF r] by simp_all
  then show ?thesis
    using t(1,3) only r unfolding promote_def Let_def by (auto simp: rbind_Inr raise_if_Inr)
qed

text \<open>The promotion of the example preview, from the evidence of the driver the store trusts.\<close>

definition demo_trust :: trust_context where
  "demo_trust = \<lparr>tc_driver = ''dr'', tc_origin = ''github.com'', tc_contract_version = ''v1''\<rparr>"

definition demo_promotion :: promotion where
  "demo_promotion = \<lparr>pm_evidence_id = demo_evidence_id, pm_trusted_driver = ''dr'', pm_remote_authority = demo_digest,
     pm_snapshot_digest = demo_digest, pm_content_digest = demo_digest\<rparr>"

lemma demo_snapshot:
  obtains s where "snapshot_of fixed_prims demo_library False ''o/r'' (sp_snapshot demo_sealed) = Inr s"
    "rs_evidence_ids s = [PStr demo_evidence_id]" "snapshot_digest fixed_prims demo_library s = Inr demo_digest"
proof -
  let ?s = "\<lparr>rs_repository = ''o/r'', rs_query_scope = PDict [], rs_query_complete = True, rs_pagination_complete = True,
      rs_issues = [], rs_permissions = [], rs_capabilities = [], rs_relationships = [], rs_evidence_ids = [PStr demo_evidence_id],
      rs_v2 = False, rs_observed_at = PNone\<rparr>"
  have made: "snapshot_of fixed_prims demo_library False ''o/r'' (sp_snapshot demo_sealed) = Inr ?s"
    using demo_nonblank(3)
    by (simp add: snapshot_of_def snapshot_from_records_def demo_sealed_def get_or_def dict_get_def elements_of_def check_rows_def
        evidence_tuple_def as_dict_def obj_def capability_set_def sorted_values_def strs_def)
  let ?fields = "obj (snapshot_fields ?s (PDict []) [] (PDict []) [PStr demo_evidence_id])"
  have "normalizable fixed_prims (PDict [])" by (simp add: normalizable_def)
  then have "normalizable fixed_prims ?fields"
    by (intro normalizable_obj literal_keys_snapshot) (simp add: snapshot_fields_def)
  then obtain j where j: "normalize fixed_prims ?fields = Inr j" by (auto simp: normalizable_def)
  have "ascii_val ?fields" by code_simp
  then have "snapshot_digest fixed_prims demo_library ?s = Inr demo_digest"
    unfolding snapshot_digest_Inr using digest_normal_form [OF j] j
    by (intro conjI exI [of _ "JObj []"] exI [of _ "[]"] exI [of _ "PDict []"] exI [of _ "[PStr demo_evidence_id]"] exI [of _ j])
      (simp_all add: permissions_to_dict_def sorted_values_def)
  then show ?thesis using that made by simp
qed

lemma demo_reload:
  assumes "dict_get c = dict_get (obj (sealed_fields demo_sealed))"
  shows "reload_promotion fixed_prims demo_library (Some demo_trust) c [evidence_to_dict (driver_evidence PNone)] = Inr (Some demo_promotion)"
proof (rule demo_snapshot)
  fix s
  assume s: "snapshot_of fixed_prims demo_library False ''o/r'' (sp_snapshot demo_sealed) = Inr s"
    "rs_evidence_ids s = [PStr demo_evidence_id]" "snapshot_digest fixed_prims demo_library s = Inr demo_digest"
  let ?e = "driver_evidence PNone"
  have get: "dict_get c ''preview_level'' = PStr ''WriteEligible''" "dict_get c ''remote_authority'' = PStr demo_digest"
    "dict_get c ''remote_snapshot'' = sp_snapshot demo_sealed" "dict_get c ''remote_snapshot_digest'' = PStr demo_digest"
    "dict_get c ''evidence_ids'' = PList [PStr demo_evidence_id]" "dict_get c ''canonical_version'' = PNone"
    unfolding assms sealed_get by (simp_all add: demo_sealed_def strs_def)
  have remote: "is_mapping (sp_snapshot demo_sealed)" "dict_get (sp_snapshot demo_sealed) ''repository_identity'' = PStr ''o/r''"
    by (simp_all add: demo_sealed_def)
  have ids: "get_or c ''evidence_ids'' (PList []) = PList [PStr demo_evidence_id]"
    using get(5) by (simp add: get_or_def dict_get_def split: option.splits)
  have e: "ev_source_identity ?e = ''dr''" "ev_evidence_id ?e = demo_evidence_id" "ev_payload ?e = PInt 1"
    by (simp_all add: driver_evidence_def)
  have "digest fixed_prims (PInt 1) = Inr demo_digest" by (rule digest_fixed) (simp add: normalizable_def)
  moreover have "trust_remote_authority fixed_prims demo_trust = Inr demo_digest"
    unfolding trust_remote_authority_def by (intro digest_fixed normalizable_obj) (simp_all add: literal_keys_def)
  ultimately have "promote fixed_prims demo_library False demo_trust c (evidence_to_dict ?e) = Inr demo_promotion"
    using s by (simp add: promote_def Let_def driver_evidence_read get remote e ids sorted_values_def evidence_listed_def elements_of_def
        demo_trust_def demo_promotion_def)
  moreover have "driver_records [evidence_to_dict ?e] = Inr [evidence_to_dict ?e]"
    by (simp add: evidence_to_dict_def driver_evidence_def obj_def dict_get_def)
  ultimately show ?thesis by (simp add: reload_promotion_def Let_def get repository_levels_def)
qed

theorem promotion_earned_witness:
  "\<exists>r s. evidence_sealed fixed_prims r \<and> ev_status r = ''driver_verified'' \<and> pm_evidence_id demo_promotion = ev_evidence_id r \<and>
     snapshot_digest fixed_prims demo_library s = Inr (pm_snapshot_digest demo_promotion)"
proof (rule demo_stored [of fixed_prims])
  fix j
  assume "dict_get (py_of j) = dict_get (obj (sealed_fields demo_sealed))"
  from promotion_earned [OF demo_reload [OF this]] show ?thesis by blast
qed

end
