(* ===== verification/Preview_Validation.thy ===== *)
theory Preview_Validation
  imports Promotion
begin

text \<open>
  Model of \<open>delivery_system/preview_validation.py\<close>, of the record digests of
  \<open>delivery_system/existing_endpoints.py\<close> and of \<open>_preview_is_approval_eligible\<close> of
  \<open>delivery_system/runtime.py\<close>.

  The snapshot of a stored preview is read by \<open>snapshot_of\<close>, its evidence by \<open>evidence_from_dict\<close>; the
  promotion they are checked against is the one \<open>reload_promotion\<close> rebuilds.
\<close>

section \<open>Records of existing issues\<close>

definition endpoint_text :: "prims \<Rightarrow> pyval \<Rightarrow> string res" where
  "endpoint_text P v =
     (case v of
        PNone \<Rightarrow> Inr []
      | PStr s \<Rightarrow> Inr (nfc P (replace_cr (replace_crlf s)))
      | _ \<Rightarrow> Inl (ValueError ''existing_endpoint_text_invalid''))"

definition normalize_title :: "prims \<Rightarrow> pyval \<Rightarrow> string res" where
  "normalize_title P v =
     rbind (endpoint_text P v) (\<lambda>t. raise_if (strip t = []) ''existing_endpoint_title_required'' (Inr (strip t)))"

definition normalize_body :: "prims \<Rightarrow> pyval \<Rightarrow> string res" where
  "normalize_body P v = rbind (endpoint_text P v) (\<lambda>t. Inr (strip t))"

definition normalize_state :: "library \<Rightarrow> pyval \<Rightarrow> string res" where
  "normalize_state L v =
     (case v of
        PStr s \<Rightarrow>
          (let stripped = strip s;
               state = casefold L stripped in
           raise_if (state \<notin> {''open'', ''closed''}) ''existing_endpoint_state_invalid'' (Inr state))
      | _ \<Rightarrow> Inl (ValueError ''existing_endpoint_state_invalid''))"

definition semantic_digest :: "prims \<Rightarrow> library \<Rightarrow> pyval \<Rightarrow> string res" where
  "semantic_digest P L rec =
     rbind (dict_item rec ''item_type'') (\<lambda>item_type.
     rbind (dict_item rec ''title'') (\<lambda>title.
     rbind (normalize_title P title) (\<lambda>title.
     rbind (normalize_body P (dict_get rec ''body'')) (\<lambda>body.
     rbind (dict_item rec ''state'') (\<lambda>state.
     rbind (normalize_state L state) (\<lambda>state.
     digest P (obj [(''domain'', PStr ''delivery-system:existing-issue-semantics:v1''), (''item_type'', item_type),
       (''title'', PStr title), (''body'', PStr body), (''state'', PStr state)])))))))"

definition identity_digest :: "prims \<Rightarrow> pyval \<Rightarrow> string res" where
  "identity_digest P rec =
     rbind (dict_item rec ''repository_identity'') (\<lambda>repository.
     rbind (dict_item rec ''issue_id'') (\<lambda>node.
     digest P (obj [(''domain'', PStr ''delivery-system:existing-issue-identity:v1''),
       (''repository_identity'', repository), (''node_id'', node)])))"

definition write_address_digest :: "prims \<Rightarrow> pyval \<Rightarrow> string res" where
  "write_address_digest P rec =
     rbind (dict_item rec ''repository_identity'') (\<lambda>repository.
     rbind (dict_item rec ''issue_id'') (\<lambda>node.
     rbind (dict_item rec ''issue_number'') (\<lambda>number.
     rbind (dict_item rec ''numeric_issue_id'') (\<lambda>numeric.
     digest P (obj [(''domain'', PStr ''delivery-system:existing-issue-address:v1''), (''repository_identity'', repository),
       (''node_id'', node), (''issue_number'', number), (''numeric_issue_id'', numeric)])))))"

section \<open>Endpoint authority\<close>

text \<open>The references of a list of declarations or of bindings.\<close>

definition endpoint_refs_in :: "string \<Rightarrow> pyval list \<Rightarrow> string list res" where
  "endpoint_refs_in code entries =
     sequence (map (\<lambda>e. raise_if (\<not> is_mapping e \<or> \<not> nonblank (dict_get e ''endpoint_ref'')) code
       (Inr (str_of (dict_get e ''endpoint_ref'')))) entries)"

definition validate_v2_endpoint_authority :: "pyval \<Rightarrow> unit res" where
  "validate_v2_endpoint_authority canonical =
     (if dict_get canonical ''canonical_version'' \<noteq> PStr ''2'' then Inr ()
      else
        let semantic = dict_get canonical ''semantic_payload''; level = dict_get canonical ''preview_level'' in
        case (if is_mapping semantic then dict_get semantic ''existing_issue_endpoints'' else PNone) of
          PList declarations \<Rightarrow>
            rbind (endpoint_refs_in ''sealed_preview_endpoint_declaration_invalid'' declarations) (\<lambda>declared.
            raise_if (\<not> distinct declared) ''sealed_preview_endpoint_declaration_duplicate''
            (case dict_get canonical ''existing_endpoint_bindings'' of
               PList bindings \<Rightarrow>
                 rbind (endpoint_refs_in ''sealed_preview_endpoint_binding_invalid'' bindings) (\<lambda>bound.
                 raise_if (\<not> distinct bound) ''sealed_preview_endpoint_binding_duplicate''
                 (raise_if (\<not> set bound \<subseteq> set declared) ''sealed_preview_endpoint_binding_undeclared''
                 (if \<not> hashable level then Inl TypeError
                  else raise_if (level \<in> repository_levels \<and> set declared \<noteq> set bound)
                         ''sealed_preview_endpoint_binding_coverage_invalid'' (Inr ()))))
             | _ \<Rightarrow> Inl (ValueError ''sealed_preview_endpoint_bindings_invalid'')))
        | _ \<Rightarrow> Inl (ValueError ''sealed_preview_endpoint_declarations_invalid''))"

section \<open>The state machine of preview levels\<close>

fun issues_in_repository :: "pyval \<Rightarrow> pyval list \<Rightarrow> unit res" where
  "issues_in_repository repository [] = Inr ()"
| "issues_in_repository repository (issue # rest) =
     (if \<not> is_mapping issue then Inl AttributeError
      else raise_if (dict_get issue ''repository_identity'' \<noteq> repository) ''repository_identity_mismatch''
             (issues_in_repository repository rest))"

definition validate_sealed_preview_invariants :: "pyval \<Rightarrow> string \<Rightarrow> promotion option \<Rightarrow> unit res" where
  "validate_sealed_preview_invariants canonical workspace promoted =
     (let get = dict_get canonical; repository = get ''repository_identity''; remote = get ''remote_snapshot'';
          remote_digest = get ''remote_snapshot_digest'' in
      raise_if (\<not> is_mapping canonical) ''sealed_preview_required''
      (raise_if (get ''provenance_status'' \<noteq> PStr ''declared_unverified'') ''preview_provenance_invalid''
      (raise_if (get ''workspace_identity'' \<noteq> PStr workspace) ''workspace_identity_mismatch''
      (rbind (read_level ''preview_level_unverified'' (get ''preview_level'')) (\<lambda>level.
      if level = Conceptual then
        raise_if (repository \<noteq> PNone \<or> remote \<noteq> PNone \<or> remote_digest \<noteq> PNone \<or> get ''remote_authority'' \<noteq> PNone)
          ''conceptual_repository_forbidden'' (Inr ())
      else
        raise_if (\<not> nonblank repository \<or> \<not> is_mapping remote \<or> \<not> nonempty_str remote_digest) ''repository_identity_mismatch''
        (raise_if (dict_get remote ''repository_identity'' \<noteq> repository) ''repository_identity_mismatch''
        (rbind (elements_of (get_or remote ''issue_records'' (PList []))) (\<lambda>issues.
         rbind (issues_in_repository repository issues) (\<lambda>_.
         case promoted of
           None \<Rightarrow> Inl (ValueError ''preview_level_unverified'')
         | Some p \<Rightarrow>
             raise_if (get ''remote_authority'' \<noteq> PStr (pm_remote_authority p)) ''driver_trust_context_mismatch''
             (raise_if (remote_digest \<noteq> PStr (pm_snapshot_digest p)) ''remote_snapshot_digest_mismatch'' (Inr ())))))))))))"

section \<open>The payload of a stored preview\<close>

definition endpoint_binding_fields :: "string list" where
  "endpoint_binding_fields = [''endpoint_ref'', ''selector_digest'', ''issue_id'', ''remote_record_digest'', ''identity_digest'',
     ''write_address_digest'', ''semantic_digest'']"

text \<open>\<open>{record.get("issue_id"): record for record in records if isinstance(record, Mapping)}\<close>\<close>

fun records_by_id :: "pyval list \<Rightarrow> (pyval \<times> pyval) list res" where
  "records_by_id [] = Inr []"
| "records_by_id (r # rs) =
     (if \<not> is_mapping r then records_by_id rs
      else if \<not> hashable (dict_get r ''issue_id'') then Inl TypeError
      else rbind (records_by_id rs) (\<lambda>rest. Inr ((dict_get r ''issue_id'', r) # rest)))"

definition check_binding :: "prims \<Rightarrow> library \<Rightarrow> (pyval \<times> pyval) list \<Rightarrow> pyval \<Rightarrow> unit res" where
  "check_binding P L records binding =
     raise_if (\<not> is_mapping binding \<or> \<not> has_exactly binding endpoint_binding_fields) ''sealed_preview_endpoint_binding_invalid''
     (rbind (item_lookup records (dict_get binding ''issue_id'')) (\<lambda>found.
      case found of
        None \<Rightarrow> Inl (ValueError ''sealed_preview_endpoint_binding_invalid'')
      | Some r \<Rightarrow>
          rbind (digest P r) (\<lambda>d.
          raise_if (PStr d \<noteq> dict_get binding ''remote_record_digest'') ''sealed_preview_endpoint_binding_invalid''
          (rbind (identity_digest P r) (\<lambda>i.
           raise_if (PStr i \<noteq> dict_get binding ''identity_digest'') ''sealed_preview_endpoint_binding_invalid''
           (rbind (write_address_digest P r) (\<lambda>a.
            raise_if (PStr a \<noteq> dict_get binding ''write_address_digest'') ''sealed_preview_endpoint_binding_invalid''
            (rbind (semantic_digest P L r) (\<lambda>m.
             raise_if (PStr m \<noteq> dict_get binding ''semantic_digest'') ''sealed_preview_endpoint_binding_invalid''
             (Inr ()))))))))))"

definition check_snapshot :: "prims \<Rightarrow> library \<Rightarrow> bool \<Rightarrow> pyval \<Rightarrow> pyval \<Rightarrow> unit res" where
  "check_snapshot P L v2 canonical remote_digest =
     (let remote = dict_get canonical ''remote_snapshot'' in
      if remote = PNone then Inr ()
      else
        raise_if (\<not> is_mapping remote) ''remote_snapshot_invalid''
        (case (dict_get remote ''query_complete'', dict_get remote ''pagination_complete'') of
           (PBool _, PBool _) \<Rightarrow>
             rbind (snapshot_of P L (dict_get remote ''schema_version'' = PStr ''remote-snapshot-v2'')
                      (py_str P (get_or remote ''repository_identity'' (PStr []))) remote) (\<lambda>s.
             rbind (snapshot_digest P L s) (\<lambda>d.
             raise_if (PStr d \<noteq> remote_digest) ''remote_snapshot_digest_mismatch''
             (if \<not> v2 then Inr ()
              else case dict_get canonical ''existing_endpoint_bindings'' of
                PList bindings \<Rightarrow>
                  rbind (elements_of (get_or remote ''issue_records'' (PList []))) (\<lambda>issues.
                  rbind (records_by_id issues) (\<lambda>records.
                  rbind (sequence (map (check_binding P L records) bindings)) (\<lambda>_. Inr ())))
              | _ \<Rightarrow> Inl (ValueError ''sealed_preview_endpoint_bindings_invalid''))))
         | _ \<Rightarrow> Inl (ValueError ''remote_snapshot_invalid'')))"

text \<open>\<open>str(record.get("evidence_id"))\<close>\<close>

definition evidence_id_of :: "prims \<Rightarrow> pyval \<Rightarrow> string res" where
  "evidence_id_of P rec = (if is_mapping rec then Inr (py_str P (dict_get rec ''evidence_id'')) else Inl AttributeError)"

definition check_evidence ::
  "prims \<Rightarrow> library \<Rightarrow> string \<Rightarrow> pyval \<Rightarrow> pyval \<Rightarrow> promotion option \<Rightarrow> pyval \<Rightarrow> unit res" where
  "check_evidence P L workspace preview_id revision promoted rec =
     (let kind = dict_get rec ''source_kind'' in
      if \<not> hashable kind then Inl TypeError
      else
        raise_if (kind \<notin> {PStr ''declared'', PStr ''driver''}) ''controlled_evidence_source''
        (rbind (evidence_from_dict P L rec) (\<lambda>parsed.
         raise_if (ev_workspace_identity parsed \<noteq> workspace \<or> PStr (ev_preview_id parsed) \<noteq> preview_id \<or>
                   PInt (ev_revision parsed) \<noteq> revision) ''evidence_scope_mismatch''
         (if kind \<noteq> PStr ''driver'' then Inr ()
          else case promoted of
            None \<Rightarrow> Inl (ValueError ''repository_aware_promotion_required'')
          | Some p \<Rightarrow>
              raise_if (ev_evidence_id parsed \<noteq> pm_evidence_id p) ''repository_aware_promotion_required''
              (raise_if (ev_source_identity parsed \<noteq> pm_trusted_driver p) ''driver_trust_context_mismatch''
              (raise_if (ev_payload parsed = PNone) ''remote_content_digest_mismatch''
              (rbind (digest P (ev_payload parsed)) (\<lambda>d.
               raise_if (d \<noteq> pm_content_digest p) ''remote_content_digest_mismatch'' (Inr ())))))))))"

definition preview_arguments_ok :: "pyval \<Rightarrow> pyval \<Rightarrow> pyval \<Rightarrow> pyval \<Rightarrow> pyval \<Rightarrow> pyval \<Rightarrow> pyval \<Rightarrow> bool" where
  "preview_arguments_ok request_id preview_id revision plan_digest set_digest remote_digest repository \<longleftrightarrow>
     nonempty_str request_id \<and> nonempty_str preview_id \<and> (case revision of PInt i \<Rightarrow> 1 \<le> i | _ \<Rightarrow> False) \<and>
     nonempty_str plan_digest \<and> nonempty_str set_digest \<and> (remote_digest = PNone \<or> nonempty_str remote_digest) \<and>
     (repository = PNone \<or> nonblank repository)"

text \<open>\<open>SealedPreview.from_dict(v).to_dict()\<close>, refused with \<open>code\<close> unless it equals \<open>dict(v)\<close>.\<close>

definition canonical_form :: "prims \<Rightarrow> string \<Rightarrow> pyval \<Rightarrow> pyval res" where
  "canonical_form P code v =
     rbind (sealed_from_dict v) (\<lambda>parsed.
     rbind (sealed_to_dict P parsed) (\<lambda>j.
     raise_if (\<not> unchanged j v) code (Inr (py_of j))))"

definition plan_payload :: "bool \<Rightarrow> pyval \<Rightarrow> pyval" where
  "plan_payload v2 semantic =
     (if v2 then obj [(''canonical_version'', PStr ''2''), (''semantic_payload'', semantic)] else semantic)"

definition set_payload :: "bool \<Rightarrow> pyval \<Rightarrow> pyval res" where
  "set_payload v2 operations = (if v2 then operation_set_digest_payload_v2 operations else operation_set_digest_payload operations)"

definition validate_preview_payload ::
  "prims \<Rightarrow> library \<Rightarrow> pyval \<Rightarrow> pyval \<Rightarrow> pyval \<Rightarrow> pyval \<Rightarrow> pyval \<Rightarrow> pyval \<Rightarrow> pyval \<Rightarrow> pyval \<Rightarrow> pyval list \<Rightarrow> string \<Rightarrow>
   promotion option \<Rightarrow> pyval res" where
  "validate_preview_payload P L stored request_id preview_id revision plan_digest set_digest remote_digest repository
     evidence_records workspace promoted =
     raise_if (\<not> is_mapping stored) ''sealed_preview_required''
     (raise_if (\<not> preview_arguments_ok request_id preview_id revision plan_digest set_digest remote_digest repository)
       ''sealed_preview_argument_invalid''
     (rbind (canonical_form P ''sealed_preview_not_canonical'' stored) (\<lambda>canonical.
      let get = dict_get canonical; v2 = (get ''canonical_version'' = PStr ''2'') in
      raise_if (get ''request_id'' \<noteq> request_id \<or> get ''preview_id'' \<noteq> preview_id \<or> get ''revision'' \<noteq> revision)
        ''preview_identity_mismatch''
      (raise_if (get ''workspace_identity'' \<noteq> PStr workspace) ''workspace_identity_mismatch''
      (rbind (validate_sealed_preview_invariants canonical workspace promoted) (\<lambda>_.
       rbind (validate_v2_endpoint_authority canonical) (\<lambda>_.
       raise_if (\<not> is_mapping (get ''semantic_payload'') \<or> \<not> list_of (\<lambda>_. True) (get ''operation_intents''))
         ''sealed_preview_incomplete''
       (rbind (digest P (plan_payload v2 (get ''semantic_payload''))) (\<lambda>plan.
        raise_if (PStr plan \<noteq> plan_digest \<or> get ''plan_digest'' \<noteq> plan_digest) ''plan_digest_mismatch''
        (rbind (set_payload v2 (get ''operation_intents'')) (\<lambda>operation_semantics.
         rbind (digest P operation_semantics) (\<lambda>set.
         raise_if (PStr set \<noteq> set_digest \<or> get ''operation_set_digest'' \<noteq> set_digest) ''operation_set_digest_mismatch''
         (raise_if (get ''remote_snapshot_digest'' \<noteq> remote_digest) ''remote_snapshot_digest_mismatch''
         (raise_if (get ''repository_identity'' \<noteq> repository) ''repository_identity_mismatch''
         (rbind (check_snapshot P L v2 canonical remote_digest) (\<lambda>_.
          rbind (sequence (map (evidence_id_of P) evidence_records)) (\<lambda>ids.
          raise_if (\<not> distinct ids) ''duplicate_evidence_id''
          (rbind (elements_of (get_or canonical ''evidence_ids'' (PList []))) (\<lambda>listed.
           let canonical_ids = map (py_str P) listed in
           raise_if (\<not> distinct canonical_ids) ''duplicate_evidence_id''
           (raise_if (sort canonical_ids \<noteq> sort ids) ''evidence_reference_mismatch''
           (rbind (sequence (map (check_evidence P L workspace preview_id revision promoted) evidence_records)) (\<lambda>_.
            rbind (digest P (without_key ''sealed_preview_digest'' canonical)) (\<lambda>sealed.
            raise_if (get ''sealed_preview_digest'' \<noteq> PStr sealed) ''sealed_preview_digest_mismatch''
              (Inr canonical))))))))))))))))))))))))"

section \<open>Eligibility\<close>

text \<open>
  Both callers answer the same for a failed and for an ineligible evaluation.  The relationship
  records are only visited for a planned pair of existing issues, which is a blocker by itself, so
  records that are not iterable may be read as none.
\<close>

definition evaluation_v1 :: "pyval \<Rightarrow> pyval \<Rightarrow> pyval \<Rightarrow> write_operation_evaluation res" where
  "evaluation_v1 operations items semantic =
     rbind (elements_of items) (\<lambda>items. evaluate_write_operations operations items semantic)"

definition evaluation_v2 :: "pyval \<Rightarrow> pyval \<Rightarrow> pyval \<Rightarrow> pyval \<Rightarrow> pyval \<Rightarrow> write_operation_evaluation_v2 res" where
  "evaluation_v2 operations items semantic bindings relationships =
     rbind (elements_of items) (\<lambda>items.
     rbind (elements_of bindings) (\<lambda>bindings.
     evaluate_write_operations_v2 operations items semantic bindings
       (case iterate relationships of None \<Rightarrow> [] | Some rs \<Rightarrow> rs)))"

text \<open>\<open>canonical.get("remote_snapshot") or {}\<close>, and its relationship records.\<close>

definition relationship_records_of :: "pyval \<Rightarrow> pyval res" where
  "relationship_records_of canonical =
     (let remote = dict_get canonical ''remote_snapshot''; remote = (if truthy remote then remote else PDict []) in
      if is_mapping remote then Inr (get_or remote ''relationship_records'' (PList [])) else Inl AttributeError)"

definition operations_eligible :: "pyval \<Rightarrow> bool res" where
  "operations_eligible canonical =
     (if dict_get canonical ''canonical_version'' = PStr ''2'' then
        rbind (relationship_records_of canonical) (\<lambda>relationships.
        rbind (evaluation_v2 (get_or canonical ''operation_intents'' (PList [])) (get_or canonical ''items'' (PList []))
                 (get_or canonical ''semantic_payload'' (PDict [])) (get_or canonical ''existing_endpoint_bindings'' (PList []))
                 relationships) (\<lambda>e. Inr (eligible_v2 e)))
      else
        rbind (evaluation_v1 (get_or canonical ''operation_intents'' (PList [])) (get_or canonical ''items'' (PList []))
                 (get_or canonical ''semantic_payload'' (PDict []))) (\<lambda>e. Inr (eligible e)))"

definition runtime_preview_level :: "pyval \<Rightarrow> preview_level res" where
  "runtime_preview_level canonical =
     (let remote = dict_get canonical ''remote_snapshot'' in
      if \<not> is_mapping remote \<or> dict_get canonical ''remote_snapshot_digest'' = PNone then Inr Conceptual
      else if dict_get remote ''query_complete'' = PBool True \<and> dict_get remote ''pagination_complete'' = PBool True then
        (case operations_eligible canonical of
           Inr e \<Rightarrow> Inr (if e \<and> \<not> truthy (dict_get canonical ''blockers'') then WriteEligible else RepositoryAware)
         | Inl TypeError \<Rightarrow> Inr RepositoryAware
         | Inl (ValueError _) \<Rightarrow> Inr RepositoryAware
         | Inl e \<Rightarrow> Inl e)
      else Inr Conceptual)"

fun endpoint_doc :: "endpoint \<Rightarrow> pyval" where
  "endpoint_doc (WorkItem r) = obj [(''endpoint_type'', PStr ''work_item''), (''client_ref'', PStr r)]"
| "endpoint_doc (ExistingIssue r) = obj [(''endpoint_type'', PStr ''existing_issue''), (''endpoint_ref'', PStr r)]"

fun operation_doc_v2 :: "write_op_v2 \<Rightarrow> pyval" where
  "operation_doc_v2 (CreateIssueV2 e deps) =
     obj [(''operation_kind'', PStr ''create_issue''), (''endpoint'', endpoint_doc e), (''depends_on'', strs deps)]"
| "operation_doc_v2 (RelationshipV2 kind a b deps) =
     obj [(''operation_kind'', PStr kind), (''operands'', PList [endpoint_doc a, endpoint_doc b]), (''depends_on'', strs deps)]"

text \<open>\<open>evaluation.eligible\<close> and the payload of \<open>evaluation.operations\<close>.\<close>

definition approval_evaluation :: "pyval \<Rightarrow> (bool \<times> pyval) res" where
  "approval_evaluation canonical =
     rbind (dict_item canonical ''operation_intents'') (\<lambda>operations.
     rbind (dict_item canonical ''items'') (\<lambda>items.
     rbind (dict_item canonical ''semantic_payload'') (\<lambda>semantic.
     if dict_get canonical ''canonical_version'' = PStr ''2'' then
       rbind (relationship_records_of canonical) (\<lambda>relationships.
       rbind (evaluation_v2 operations items semantic (get_or canonical ''existing_endpoint_bindings'' (PList [])) relationships) (\<lambda>e.
       rbind (operation_set_digest_payload_v2 (PTuple (map operation_doc_v2 (eval_operations_v2 e)))) (\<lambda>payload.
       Inr (eligible_v2 e, payload))))
     else
       rbind (evaluation_v1 operations items semantic) (\<lambda>e.
       rbind (operation_set_digest_payload (PTuple (map operation_doc (eval_operations e)))) (\<lambda>payload.
       Inr (eligible e, payload))))))"

definition approval_digests :: "prims \<Rightarrow> pyval \<Rightarrow> bool res" where
  "approval_digests P canonical =
     (let get = dict_get canonical in
      rbind (approval_evaluation canonical) (\<lambda>(ok, payload).
      rbind (digest P payload) (\<lambda>set.
      rbind (digest P (plan_payload (get ''canonical_version'' = PStr ''2'') (get ''semantic_payload''))) (\<lambda>plan.
      if ok \<and> get ''operation_set_digest'' = PStr set \<and> get ''plan_digest'' = PStr plan
      then rbind (digest P (without_key ''sealed_preview_digest'' canonical)) (\<lambda>sealed.
             Inr (get ''sealed_preview_digest'' = PStr sealed))
      else Inr False))))"

definition preview_is_approval_eligible :: "prims \<Rightarrow> pyval \<Rightarrow> bool res" where
  "preview_is_approval_eligible P preview =
     (let canonical = dict_get preview ''canonical_payload''; get = dict_get canonical in
      if \<not> is_mapping canonical \<or> get ''preview_level'' \<noteq> PStr (level_value WriteEligible) then Inr False
      else if \<not> is_str (get ''workspace_identity'') \<or> \<not> is_str (get ''repository_identity'') \<or>
              \<not> is_str (get ''remote_snapshot_digest'') \<or> get ''blockers'' \<noteq> PList [] then Inr False
      else catch (approval_digests P canonical) (\<lambda>e. case e of
             KeyError \<Rightarrow> Inr False | TypeError \<Rightarrow> Inr False | ValueError _ \<Rightarrow> Inr False | _ \<Rightarrow> Inl e))"

section \<open>What an accepted preview guarantees\<close>

lemma endpoint_refs_in_Inr:
  "endpoint_refs_in code entries = Inr refs \<Longrightarrow> map (\<lambda>e. dict_get e ''endpoint_ref'') entries = map PStr refs"
proof -
  assume "endpoint_refs_in code entries = Inr refs"
  then have "list_all2 (\<lambda>e r. dict_get e ''endpoint_ref'' = PStr r) entries refs"
    unfolding endpoint_refs_in_def sequence_Inr map_Inr_eq_conv
    by (rule list_all2_mono) (auto simp: raise_if_Inr elim!: nonblank.elims)
  then show ?thesis by (simp add: list_all2_map1 list_all2_map2 list_all2_eq [symmetric] list.rel_map flip: list.rel_eq)
qed

lemma validate_v2_endpoint_authority_Inr:
  assumes "validate_v2_endpoint_authority canonical = Inr ()" "dict_get canonical ''canonical_version'' = PStr ''2''"
  obtains declarations bindings where "dict_get (dict_get canonical ''semantic_payload'') ''existing_issue_endpoints'' = PList declarations"
    "dict_get canonical ''existing_endpoint_bindings'' = PList bindings"
    "distinct (map (\<lambda>e. dict_get e ''endpoint_ref'') declarations)" "distinct (map (\<lambda>e. dict_get e ''endpoint_ref'') bindings)"
    "(\<lambda>e. dict_get e ''endpoint_ref'') ` set bindings \<subseteq> (\<lambda>e. dict_get e ''endpoint_ref'') ` set declarations"
    "dict_get canonical ''preview_level'' \<in> repository_levels \<Longrightarrow>
       (\<lambda>e. dict_get e ''endpoint_ref'') ` set bindings = (\<lambda>e. dict_get e ''endpoint_ref'') ` set declarations"
proof -
  let ?ds = "if is_mapping (dict_get canonical ''semantic_payload'')
    then dict_get (dict_get canonical ''semantic_payload'') ''existing_issue_endpoints'' else PNone"
  let ?bs = "dict_get canonical ''existing_endpoint_bindings''"
  have "\<exists>ds. ?ds = PList ds"
    using assms unfolding validate_v2_endpoint_authority_def Let_def by (cases ?ds) simp_all
  then obtain declarations where ds: "?ds = PList declarations" by blast
  have "\<exists>bs. ?bs = PList bs"
    using assms unfolding validate_v2_endpoint_authority_def Let_def ds by (cases ?bs) (simp_all add: rbind_Inr raise_if_Inr)
  then obtain bindings where bs: "?bs = PList bindings" by blast
  obtain declared bound where r: "endpoint_refs_in ''sealed_preview_endpoint_declaration_invalid'' declarations = Inr declared"
    "distinct declared" "endpoint_refs_in ''sealed_preview_endpoint_binding_invalid'' bindings = Inr bound" "distinct bound"
    "set bound \<subseteq> set declared" "dict_get canonical ''preview_level'' \<in> repository_levels \<Longrightarrow> set declared = set bound"
    using assms unfolding validate_v2_endpoint_authority_def Let_def ds bs
    by (auto simp: rbind_Inr raise_if_Inr split: if_splits)
  have ds': "dict_get (dict_get canonical ''semantic_payload'') ''existing_issue_endpoints'' = PList declarations"
    using ds by (simp split: if_splits)
  have maps: "map (\<lambda>e. dict_get e ''endpoint_ref'') declarations = map PStr declared"
    "map (\<lambda>e. dict_get e ''endpoint_ref'') bindings = map PStr bound"
    using endpoint_refs_in_Inr r(1,3) by blast+
  have sets: "(\<lambda>e. dict_get e ''endpoint_ref'') ` set declarations = PStr ` set declared"
    "(\<lambda>e. dict_get e ''endpoint_ref'') ` set bindings = PStr ` set bound"
    using arg_cong [OF maps(1), of set] arg_cong [OF maps(2), of set] by simp_all
  show ?thesis
    by (rule that [OF ds' bs]) (use maps sets r in \<open>auto simp: distinct_map inj_on_def\<close>)
qed

lemma level_known: "read_level code v = Inr l \<Longrightarrow> l \<noteq> Conceptual \<Longrightarrow> v \<in> repository_levels"
  using read_level_Inr [of code v l] by (cases l) (auto simp: repository_levels_def)

lemma validate_sealed_preview_invariants_Inr:
  assumes "validate_sealed_preview_invariants canonical workspace promoted = Inr ()"
  shows "dict_get canonical ''preview_level'' \<in> repository_levels \<Longrightarrow>
      \<exists>p. promoted = Some p \<and> dict_get canonical ''remote_snapshot_digest'' = PStr (pm_snapshot_digest p) \<and>
        dict_get canonical ''remote_authority'' = PStr (pm_remote_authority p) \<and>
        nonblank (dict_get canonical ''repository_identity'') \<and>
        dict_get (dict_get canonical ''remote_snapshot'') ''repository_identity'' = dict_get canonical ''repository_identity''"
    and "dict_get canonical ''preview_level'' \<notin> repository_levels \<Longrightarrow>
      dict_get canonical ''repository_identity'' = PNone \<and> dict_get canonical ''remote_snapshot_digest'' = PNone"
proof -
  obtain level where r: "read_level ''preview_level_unverified'' (dict_get canonical ''preview_level'') = Inr level"
    using assms unfolding validate_sealed_preview_invariants_def Let_def by (auto simp: rbind_Inr raise_if_Inr)
  have level: "level = Conceptual \<longleftrightarrow> dict_get canonical ''preview_level'' \<notin> repository_levels"
    using read_level_Inr [OF r] by (cases level) (auto simp: repository_levels_def)
  show "\<exists>p. promoted = Some p \<and> dict_get canonical ''remote_snapshot_digest'' = PStr (pm_snapshot_digest p) \<and>
        dict_get canonical ''remote_authority'' = PStr (pm_remote_authority p) \<and>
        nonblank (dict_get canonical ''repository_identity'') \<and>
        dict_get (dict_get canonical ''remote_snapshot'') ''repository_identity'' = dict_get canonical ''repository_identity''"
    if "dict_get canonical ''preview_level'' \<in> repository_levels"
    using assms that r level unfolding validate_sealed_preview_invariants_def Let_def
    by (auto simp: rbind_Inr raise_if_Inr split: option.splits)
  show "dict_get canonical ''repository_identity'' = PNone \<and> dict_get canonical ''remote_snapshot_digest'' = PNone"
    if "dict_get canonical ''preview_level'' \<notin> repository_levels"
    using assms that r level unfolding validate_sealed_preview_invariants_def Let_def
    by (auto simp: rbind_Inr raise_if_Inr)
qed

lemma Inr_unit: "r = Inr (u :: unit) \<Longrightarrow> r = Inr ()"
  by simp

lemma sorted_mset: "sort xs = sort ys \<Longrightarrow> mset xs = mset ys"
  by (metis mset_sort)

lemma check_snapshot_digest:
  assumes "check_snapshot P L v2 canonical remote_digest = Inr ()" "dict_get canonical ''remote_snapshot'' \<noteq> PNone"
  shows "\<exists>v repo s d. snapshot_of P L v repo (dict_get canonical ''remote_snapshot'') = Inr s \<and> snapshot_digest P L s = Inr d \<and>
    remote_digest = PStr d"
  using assms unfolding check_snapshot_def Let_def by (auto simp: rbind_Inr raise_if_Inr split: pyval.splits)

lemma canonical_form_Inr:
  "canonical_form P code v = Inr c \<longleftrightarrow> (\<exists>s j. sealed_from_dict v = Inr s \<and> sealed_to_dict P s = Inr j \<and> unchanged j v \<and> c = py_of j)"
  by (auto simp: canonical_form_def rbind_Inr raise_if_Inr)

text \<open>What a run of the validation has checked.\<close>

lemma validate_preview_payload_run:
  assumes "validate_preview_payload P L stored request_id preview_id revision plan_digest set_digest remote_digest repository
     evidence workspace promoted = Inr canonical"
    and form: "canonical_form P ''sealed_preview_not_canonical'' stored = Inr canonical"
  obtains u v plan payload od x ids listed us sealed where
    "dict_get canonical ''request_id'' = request_id" "dict_get canonical ''preview_id'' = preview_id"
    "dict_get canonical ''revision'' = revision" "dict_get canonical ''workspace_identity'' = PStr workspace"
    "validate_sealed_preview_invariants canonical workspace promoted = Inr u" "validate_v2_endpoint_authority canonical = Inr v"
    "digest P (plan_payload (dict_get canonical ''canonical_version'' = PStr ''2'') (dict_get canonical ''semantic_payload'')) = Inr plan"
    "PStr plan = plan_digest" "dict_get canonical ''plan_digest'' = plan_digest"
    "set_payload (dict_get canonical ''canonical_version'' = PStr ''2'') (dict_get canonical ''operation_intents'') = Inr payload"
    "digest P payload = Inr od" "PStr od = set_digest" "dict_get canonical ''operation_set_digest'' = set_digest"
    "dict_get canonical ''remote_snapshot_digest'' = remote_digest" "dict_get canonical ''repository_identity'' = repository"
    "check_snapshot P L (dict_get canonical ''canonical_version'' = PStr ''2'') canonical remote_digest = Inr x"
    "sequence (map (evidence_id_of P) evidence) = Inr ids" "distinct ids"
    "elements_of (get_or canonical ''evidence_ids'' (PList [])) = Inr listed" "sort (map (py_str P) listed) = sort ids"
    "sequence (map (check_evidence P L workspace preview_id revision promoted) evidence) = Inr us"
    "digest P (without_key ''sealed_preview_digest'' canonical) = Inr sealed"
    "dict_get canonical ''sealed_preview_digest'' = PStr sealed"
proof -
  show ?thesis
    using assms(1) unfolding validate_preview_payload_def Let_def form rbind_simps
    unfolding rbind_Inr raise_if_Inr not_not de_Morgan_disj
    by (elim exE conjE) (rule that, assumption+)
qed

lemma validate_preview_payload_Inr:
  assumes "validate_preview_payload P L stored request_id preview_id revision plan_digest set_digest remote_digest repository
     evidence workspace promoted = Inr canonical"
  obtains payload od sealed ids plan listed where
    "canonical_form P ''sealed_preview_not_canonical'' stored = Inr canonical"
    "dict_get canonical ''request_id'' = request_id" "dict_get canonical ''preview_id'' = preview_id"
    "dict_get canonical ''revision'' = revision" "dict_get canonical ''workspace_identity'' = PStr workspace"
    "dict_get canonical ''remote_snapshot_digest'' = remote_digest" "dict_get canonical ''repository_identity'' = repository"
    "validate_sealed_preview_invariants canonical workspace promoted = Inr ()"
    "validate_v2_endpoint_authority canonical = Inr ()"
    "set_payload (dict_get canonical ''canonical_version'' = PStr ''2'') (dict_get canonical ''operation_intents'') = Inr payload"
    "digest P payload = Inr od" "set_digest = PStr od" "dict_get canonical ''operation_set_digest'' = set_digest"
    "digest P (plan_payload (dict_get canonical ''canonical_version'' = PStr ''2'') (dict_get canonical ''semantic_payload'')) = Inr plan"
    "plan_digest = PStr plan" "dict_get canonical ''plan_digest'' = plan_digest"
    "check_snapshot P L (dict_get canonical ''canonical_version'' = PStr ''2'') canonical remote_digest = Inr ()"
    "sequence (map (evidence_id_of P) evidence) = Inr ids" "distinct ids"
    "elements_of (get_or canonical ''evidence_ids'' (PList [])) = Inr listed" "mset (map (py_str P) listed) = mset ids"
    "list_all (\<lambda>r. check_evidence P L workspace preview_id revision promoted r = Inr ()) evidence"
    "digest P (without_key ''sealed_preview_digest'' canonical) = Inr sealed"
    "dict_get canonical ''sealed_preview_digest'' = PStr sealed"
proof -
  have unit: "list_all (\<lambda>r. f r = Inr ()) xs" if "sequence (map f xs) = Inr us" for f :: "pyval \<Rightarrow> unit res" and xs us
    using that by (auto simp: sequence_Inr map_Inr_eq_conv list_all2_conv_all_nth list_all_length)
  have form: "canonical_form P ''sealed_preview_not_canonical'' stored = Inr canonical"
    using assms unfolding validate_preview_payload_def Let_def by (auto simp: rbind_Inr raise_if_Inr)
  show ?thesis
    by (rule validate_preview_payload_run [OF assms form])
      (rule that [OF form], (assumption | erule sym | erule sorted_mset | erule unit | erule Inr_unit)+)
qed

text \<open>
  C33: a stored preview is accepted only if it is canonical, is the one asked for, its digests bind it
  and its level is earned.  It is what the sealed preview it is read as writes (\<open>unchanged\<close>, Python's
  equality), with the request, the preview, the revision, the workspace and the repository of the
  call.  The plan digest is that of its plan, the operation-set digest that of its operations, the
  snapshot digest that of its snapshot and the sealed digest that of all its other fields, and the
  first three are those of the call.  A preview of a repository rests on the promotion of a
  driver's evidence and on a snapshot of that repository, and one of version 2 binds exactly the
  endpoints it declares; a conceptual preview names neither repository nor snapshot.  The evidence
  it lists is the evidence given, without repetition; all of it belongs to this preview's revision,
  and evidence of a driver is the promoted one.
\<close>

theorem accepted_preview:
  assumes "validate_preview_payload P L stored request_id preview_id revision plan_digest set_digest remote_digest repository
     evidence workspace promoted = Inr canonical"
  shows "(\<exists>s j. sealed_from_dict stored = Inr s \<and> sealed_to_dict P s = Inr j \<and> unchanged j stored \<and> canonical = py_of j) \<and>
     dict_get canonical ''request_id'' = request_id \<and> dict_get canonical ''preview_id'' = preview_id \<and>
     dict_get canonical ''revision'' = revision \<and> dict_get canonical ''workspace_identity'' = PStr workspace \<and>
     dict_get canonical ''repository_identity'' = repository \<and>
     (\<exists>d. digest P (plan_payload (dict_get canonical ''canonical_version'' = PStr ''2'') (dict_get canonical ''semantic_payload'')) = Inr d \<and>
       plan_digest = PStr d \<and> dict_get canonical ''plan_digest'' = PStr d) \<and>
     (\<exists>payload d. set_payload (dict_get canonical ''canonical_version'' = PStr ''2'') (dict_get canonical ''operation_intents'') =
       Inr payload \<and> digest P payload = Inr d \<and> set_digest = PStr d \<and> dict_get canonical ''operation_set_digest'' = PStr d) \<and>
     dict_get canonical ''remote_snapshot_digest'' = remote_digest \<and>
     (dict_get canonical ''remote_snapshot'' \<noteq> PNone \<longrightarrow>
       (\<exists>v repo s d. snapshot_of P L v repo (dict_get canonical ''remote_snapshot'') = Inr s \<and> snapshot_digest P L s = Inr d \<and>
          remote_digest = PStr d)) \<and>
     (\<exists>d. digest P (without_key ''sealed_preview_digest'' canonical) = Inr d \<and>
       dict_get canonical ''sealed_preview_digest'' = PStr d) \<and>
     (if dict_get canonical ''preview_level'' \<in> repository_levels
      then (\<exists>p. promoted = Some p \<and> remote_digest = PStr (pm_snapshot_digest p) \<and> nonblank repository \<and>
              dict_get (dict_get canonical ''remote_snapshot'') ''repository_identity'' = repository) \<and>
           (dict_get canonical ''canonical_version'' = PStr ''2'' \<longrightarrow>
              (\<exists>declarations bindings.
                 dict_get (dict_get canonical ''semantic_payload'') ''existing_issue_endpoints'' = PList declarations \<and>
                 dict_get canonical ''existing_endpoint_bindings'' = PList bindings \<and>
                 mset (map (\<lambda>e. dict_get e ''endpoint_ref'') bindings) = mset (map (\<lambda>e. dict_get e ''endpoint_ref'') declarations)))
      else repository = PNone \<and> remote_digest = PNone) \<and>
     (\<exists>ids listed. sequence (map (evidence_id_of P) evidence) = Inr ids \<and> distinct ids \<and>
        elements_of (get_or canonical ''evidence_ids'' (PList [])) = Inr listed \<and> mset (map (py_str P) listed) = mset ids) \<and>
     list_all (\<lambda>r. \<exists>e. evidence_from_dict P L r = Inr e \<and> ev_workspace_identity e = workspace \<and>
        PStr (ev_preview_id e) = preview_id \<and> PInt (ev_revision e) = revision \<and>
        (dict_get r ''source_kind'' = PStr ''declared'' \<or> (\<exists>p. promoted = Some p \<and> ev_evidence_id e = pm_evidence_id p))) evidence"
  using assms
proof (rule validate_preview_payload_Inr)
  fix payload od sealed ids plan listed
  assume r: "dict_get canonical ''remote_snapshot_digest'' = remote_digest" "dict_get canonical ''repository_identity'' = repository"
    "validate_sealed_preview_invariants canonical workspace promoted = Inr ()" "validate_v2_endpoint_authority canonical = Inr ()"
    "set_payload (dict_get canonical ''canonical_version'' = PStr ''2'') (dict_get canonical ''operation_intents'') = Inr payload"
    "digest P payload = Inr od" "set_digest = PStr od"
    "list_all (\<lambda>r. check_evidence P L workspace preview_id revision promoted r = Inr ()) evidence"
    "digest P (without_key ''sealed_preview_digest'' canonical) = Inr sealed"
    "dict_get canonical ''sealed_preview_digest'' = PStr sealed"
  assume form: "canonical_form P ''sealed_preview_not_canonical'' stored = Inr canonical"
    and named: "dict_get canonical ''request_id'' = request_id" "dict_get canonical ''preview_id'' = preview_id"
      "dict_get canonical ''revision'' = revision" "dict_get canonical ''workspace_identity'' = PStr workspace"
      "dict_get canonical ''operation_set_digest'' = set_digest"
    and plan: "digest P (plan_payload (dict_get canonical ''canonical_version'' = PStr ''2'') (dict_get canonical ''semantic_payload'')) = Inr plan"
      "plan_digest = PStr plan" "dict_get canonical ''plan_digest'' = plan_digest"
    and snapshot: "check_snapshot P L (dict_get canonical ''canonical_version'' = PStr ''2'') canonical remote_digest = Inr ()"
    and ids: "sequence (map (evidence_id_of P) evidence) = Inr ids" "distinct ids"
      "elements_of (get_or canonical ''evidence_ids'' (PList [])) = Inr listed" "mset (map (py_str P) listed) = mset ids"
  note level = validate_sealed_preview_invariants_Inr [OF r(3)]
  have bound: "\<exists>declarations bindings.
       dict_get (dict_get canonical ''semantic_payload'') ''existing_issue_endpoints'' = PList declarations \<and>
       dict_get canonical ''existing_endpoint_bindings'' = PList bindings \<and>
       mset (map (\<lambda>e. dict_get e ''endpoint_ref'') bindings) = mset (map (\<lambda>e. dict_get e ''endpoint_ref'') declarations)"
    if "dict_get canonical ''preview_level'' \<in> repository_levels" "dict_get canonical ''canonical_version'' = PStr ''2''"
  proof (rule validate_v2_endpoint_authority_Inr [OF r(4) that(2)])
    let ?ref = "\<lambda>e. dict_get e ''endpoint_ref''"
    fix ds bs
    assume e: "dict_get (dict_get canonical ''semantic_payload'') ''existing_issue_endpoints'' = PList ds"
      "dict_get canonical ''existing_endpoint_bindings'' = PList bs" "distinct (map ?ref ds)" "distinct (map ?ref bs)"
      "dict_get canonical ''preview_level'' \<in> repository_levels \<Longrightarrow> ?ref ` set bs = ?ref ` set ds"
    have "set (map ?ref bs) = set (map ?ref ds)" using e(5) that(1) by simp
    then show ?thesis using e(1,2) set_eq_iff_mset_eq_distinct [OF e(4,3)] by metis
  qed
  have evidence: "list_all (\<lambda>r. \<exists>e. evidence_from_dict P L r = Inr e \<and> ev_workspace_identity e = workspace \<and>
      PStr (ev_preview_id e) = preview_id \<and> PInt (ev_revision e) = revision \<and>
      (dict_get r ''source_kind'' = PStr ''declared'' \<or> (\<exists>p. promoted = Some p \<and> ev_evidence_id e = pm_evidence_id p))) evidence"
    using r(8) by (rule list.pred_mono_strong)
      (auto simp: check_evidence_def Let_def rbind_Inr raise_if_Inr split: if_splits option.splits)
  show ?thesis
  proof (intro conjI)
    show "if dict_get canonical ''preview_level'' \<in> repository_levels
      then (\<exists>p. promoted = Some p \<and> remote_digest = PStr (pm_snapshot_digest p) \<and> nonblank repository \<and>
              dict_get (dict_get canonical ''remote_snapshot'') ''repository_identity'' = repository) \<and>
           (dict_get canonical ''canonical_version'' = PStr ''2'' \<longrightarrow>
              (\<exists>declarations bindings.
                 dict_get (dict_get canonical ''semantic_payload'') ''existing_issue_endpoints'' = PList declarations \<and>
                 dict_get canonical ''existing_endpoint_bindings'' = PList bindings \<and>
                 mset (map (\<lambda>e. dict_get e ''endpoint_ref'') bindings) = mset (map (\<lambda>e. dict_get e ''endpoint_ref'') declarations)))
      else repository = PNone \<and> remote_digest = PNone"
      using r(1,2) level bound by auto
  qed (use form r named plan ids evidence check_snapshot_digest [OF snapshot] in \<open>simp_all add: canonical_form_Inr\<close>)
qed

text \<open>The example preview is accepted.\<close>

definition stored_evidence :: "pyval list" where
  "stored_evidence = [evidence_to_dict (driver_evidence PNone)]"

lemma stored_evidence_checked:
  "check_evidence fixed_prims demo_library ''ws'' (PStr ''p'') (PInt 1) (Some demo_promotion) (evidence_to_dict (driver_evidence PNone)) = Inr ()"
proof -
  have kind: "dict_get (evidence_to_dict (driver_evidence PNone)) ''source_kind'' = PStr ''driver''"
    by (simp add: evidence_to_dict_def driver_evidence_def dict_get_def)
  have "digest fixed_prims (PInt 1) = Inr demo_digest" by (rule digest_fixed) (simp add: normalizable_def)
  then show ?thesis
    by (simp add: check_evidence_def kind driver_evidence_read) (simp add: driver_evidence_def demo_promotion_def)
qed

lemma stored_evidence_ids: "sequence (map (evidence_id_of P) stored_evidence) = Inr [demo_evidence_id]"
  by (simp add: stored_evidence_def evidence_id_of_def evidence_to_dict_def driver_evidence_def dict_get_def)

lemma normalizable_without:
  assumes "canonical_json P j" "is_mapping (py_of j)"
  shows "normalizable P (without_key k (py_of j))"
proof -
  obtain kvs where j: "j = JObj kvs" using assms(2) by (cases j) auto
  let ?kvs = "filter (\<lambda>kv. fst kv \<noteq> k) kvs"
  have sorted: "sorted_wrt (<) (map fst (filter R kvs))" if "sorted_wrt (<) (map fst kvs)" for R
    using that by (induction kvs) auto
  have "canonical_json P (JObj ?kvs)"
    using assms(1) sorted unfolding j by (simp add: list_all_iff)
  moreover have "without_key k (py_of j) = py_of (JObj ?kvs)"
    unfolding j by (induction kvs) auto
  ultimately show ?thesis using normalize_canonical unfolding normalizable_def by metis
qed

lemma normalizable_normal: "normal_value P v \<Longrightarrow> normalizable P v"
  using normalize_canonical by (auto simp: normal_value_def normalizable_def)

lemma demo_accepted:
  obtains j where "sealed_from_dict (py_of j) = Inr demo_sealed" "canonical_json fixed_prims j" "is_mapping (py_of j)"
    "dict_get (py_of j) = dict_get (obj (sealed_fields demo_sealed))"
    "\<And>code. canonical_form fixed_prims code (py_of j) = Inr (py_of j)"
    "digest fixed_prims (without_key ''sealed_preview_digest'' (py_of j)) = Inr demo_digest"
    "validate_preview_payload fixed_prims demo_library (py_of j) (PStr ''request'') (PStr ''p'') (PInt 1) (PStr demo_digest)
       (PStr demo_digest) (PStr demo_digest) (PStr ''o/r'') stored_evidence ''ws'' (Some demo_promotion) = Inr (py_of j)"
proof (rule demo_stored [of fixed_prims])
  fix j
  assume j: "sealed_to_dict fixed_prims demo_sealed = Inr j" "canonical_json fixed_prims j" "sealed_from_dict (py_of j) = Inr demo_sealed"
    "unchanged j (py_of j)" "is_mapping (py_of j)" "dict_get (py_of j) = dict_get (obj (sealed_fields demo_sealed))"
  let ?c = "py_of j"
  have form: "canonical_form fixed_prims code ?c = Inr ?c" for code using j by (simp add: canonical_form_def)
  have d: "demo_digest \<noteq> []" by (simp add: demo_digest_def)
  have visible: "strip ''o/r'' \<noteq> []" using demo_sealed_ok by (simp add: sealed_ok_def demo_sealed_def)
  have get: "dict_get ?c ''request_id'' = PStr ''request''" "dict_get ?c ''preview_id'' = PStr ''p''" "dict_get ?c ''revision'' = PInt 1"
    "dict_get ?c ''workspace_identity'' = PStr ''ws''" "dict_get ?c ''preview_level'' = PStr ''WriteEligible''"
    "dict_get ?c ''provenance_status'' = PStr ''declared_unverified''" "dict_get ?c ''repository_identity'' = PStr ''o/r''"
    "dict_get ?c ''remote_authority'' = PStr demo_digest" "dict_get ?c ''semantic_payload'' = sp_semantic_payload demo_sealed"
    "dict_get ?c ''operation_intents'' = PList (sp_operations demo_sealed)" "dict_get ?c ''plan_digest'' = PStr demo_digest"
    "dict_get ?c ''operation_set_digest'' = PStr demo_digest" "dict_get ?c ''remote_snapshot'' = sp_snapshot demo_sealed"
    "dict_get ?c ''remote_snapshot_digest'' = PStr demo_digest" "dict_get ?c ''evidence_ids'' = PList [PStr demo_evidence_id]"
    "dict_get ?c ''sealed_preview_digest'' = PStr demo_digest" "dict_get ?c ''canonical_version'' = PNone"
    unfolding j(6) sealed_get by (simp_all add: demo_sealed_def strs_def)
  have invariants: "validate_sealed_preview_invariants ?c ''ws'' (Some demo_promotion) = Inr ()"
    using get j(5) d visible unfolding validate_sealed_preview_invariants_def Let_def
    by (simp add: read_level_def demo_sealed_def demo_promotion_def elements_of_def get_or_def)
  have authority: "validate_v2_endpoint_authority ?c = Inr ()"
    by (simp add: validate_v2_endpoint_authority_def get)
  have normal: "normal_value fixed_prims (sp_semantic_payload demo_sealed)" "normal_value fixed_prims (PList (sp_operations demo_sealed))"
    using demo_sealed_normal [of fixed_prims] by (simp_all add: sealed_fields_def)
  have plan: "digest fixed_prims (plan_payload False (dict_get ?c ''semantic_payload'')) = Inr demo_digest"
    unfolding plan_payload_def get by (simp add: digest_fixed normalizable_normal normal)
  let ?op = "obj [(''client_refs'', strs [''A'']), (''depends_on'', strs []), (''operation_kind'', PStr ''create_issue'')]"
  have set: "set_payload False (dict_get ?c ''operation_intents'') = Inr (obj [(''operation_intents'', PList [?op])])"
    unfolding set_payload_def get by (simp add: operation_set_digest_payload_def demo_sealed_def obj_def)
  have "normalizable fixed_prims ?op" using normal(2) normal_list by (force simp: demo_sealed_def intro: normalizable_normal normalizable_obj simp: literal_keys_def)
  then have opset: "digest fixed_prims (obj [(''operation_intents'', PList [?op])]) = Inr demo_digest"
    by (intro digest_fixed normalizable_obj) (simp_all add: literal_keys_def)
  have remote: "dict_get (sp_snapshot demo_sealed) ''schema_version'' = PNone" "is_mapping (sp_snapshot demo_sealed)"
    "get_or (sp_snapshot demo_sealed) ''repository_identity'' (PStr []) = PStr ''o/r''" "sp_snapshot demo_sealed \<noteq> PNone"
    "dict_get (sp_snapshot demo_sealed) ''query_complete'' = PBool True" "dict_get (sp_snapshot demo_sealed) ''pagination_complete'' = PBool True"
    by (simp_all add: demo_sealed_def get_or_def obj_def dict_get_def)
  obtain s where "snapshot_of fixed_prims demo_library False ''o/r'' (sp_snapshot demo_sealed) = Inr s"
    "snapshot_digest fixed_prims demo_library s = Inr demo_digest" by (rule demo_snapshot)
  then have snapshot: "check_snapshot fixed_prims demo_library False ?c (PStr demo_digest) = Inr ()"
    unfolding check_snapshot_def Let_def get by (simp add: remote)
  have sealed: "digest fixed_prims (without_key ''sealed_preview_digest'' ?c) = Inr demo_digest"
    by (rule digest_fixed [OF normalizable_without [OF j(2,5)]])
  have ids: "get_or ?c ''evidence_ids'' (PList []) = PList [PStr demo_evidence_id]"
    using get(15) by (simp add: get_or_def dict_get_def split: option.splits)
  have "validate_preview_payload fixed_prims demo_library ?c (PStr ''request'') (PStr ''p'') (PInt 1) (PStr demo_digest)
       (PStr demo_digest) (PStr demo_digest) (PStr ''o/r'') stored_evidence ''ws'' (Some demo_promotion) = Inr ?c"
    unfolding validate_preview_payload_def Let_def form rbind_simps
    using j(5) d visible invariants authority plan set opset snapshot sealed ids
    by (simp add: get preview_arguments_ok_def elements_of_def stored_evidence_ids)
      (simp add: demo_sealed_def stored_evidence_def stored_evidence_checked)
  then show thesis using that [OF j(3,2,5,6) form sealed] by blast
qed

theorem accepted_preview_witness:
  "\<exists>stored canonical. validate_preview_payload fixed_prims demo_library stored (PStr ''request'') (PStr ''p'') (PInt 1) (PStr demo_digest)
       (PStr demo_digest) (PStr demo_digest) (PStr ''o/r'') stored_evidence ''ws'' (Some demo_promotion) = Inr canonical \<and>
     dict_get canonical ''request_id'' = PStr ''request'' \<and> dict_get canonical ''plan_digest'' = PStr demo_digest \<and>
     dict_get canonical ''preview_level'' \<in> repository_levels \<and>
     dict_get (dict_get canonical ''remote_snapshot'') ''repository_identity'' = PStr ''o/r''"
proof (rule demo_accepted)
  fix j
  assume get: "dict_get (py_of j) = dict_get (obj (sealed_fields demo_sealed))" and
    r: "validate_preview_payload fixed_prims demo_library (py_of j) (PStr ''request'') (PStr ''p'') (PInt 1) (PStr demo_digest)
       (PStr demo_digest) (PStr demo_digest) (PStr ''o/r'') stored_evidence ''ws'' (Some demo_promotion) = Inr (py_of j)"
  have level: "dict_get (py_of j) ''preview_level'' \<in> repository_levels"
    unfolding get sealed_get by (simp add: demo_sealed_def repository_levels_def)
  have "dict_get (py_of j) ''request_id'' = PStr ''request'' \<and> dict_get (py_of j) ''plan_digest'' = PStr demo_digest \<and>
     dict_get (dict_get (py_of j) ''remote_snapshot'') ''repository_identity'' = PStr ''o/r''"
    using accepted_preview [OF r] level by auto
  with r level show ?thesis by blast
qed

section \<open>What approval presupposes\<close>

lemma evaluation_v1_Inr:
  assumes "evaluation_v1 operations items semantic = Inr ev" "eligible ev"
  obtains refs pairs where "normalize_write_operations operations = Inr (expected_operations_for refs pairs)"
    "rbind (elements_of items) item_refs_of = Inr refs" "list_all (\<lambda>(k, s, t). s \<in> set refs \<and> t \<in> set refs) pairs"
proof -
  obtain xs where xs: "elements_of items = Inr xs" "evaluate_write_operations operations xs semantic = Inr ev"
    using assms(1) by (auto simp: evaluation_v1_def rbind_Inr)
  obtain refs pairs where p: "item_refs_of xs = Inr refs" "planned_pairs_of (PTuple []) semantic = Inr pairs"
      "normalize_write_operations operations = Inr (eval_operations ev)"
    using xs(2) by (auto simp: evaluate_write_operations_def rbind_Inr Let_def)
  then show ?thesis
    using that [of refs pairs] evaluate_write_operations_eligible [OF xs(2) p(1,2)] assms(2) xs(1) by (auto simp: list_all_iff)
qed

lemma evaluation_v2_Inr:
  assumes "evaluation_v2 operations items semantic bindings relationships = Inr ev" "eligible_v2 ev"
  obtains refs pairs where "normalize_write_operations_v2 operations = Inr (expected_operations_v2_for refs pairs)"
    "rbind (elements_of items) item_refs_v2_of = Inr refs"
proof -
  obtain xs bs where xs: "elements_of items = Inr xs" "evaluate_write_operations_v2 operations xs semantic bs
      (case iterate relationships of None \<Rightarrow> [] | Some rs \<Rightarrow> rs) = Inr ev"
    using assms(1) by (auto simp: evaluation_v2_def rbind_Inr)
  obtain refs erefs pairs where p: "item_refs_v2_of xs = Inr refs" "endpoint_refs_v2_of bs = Inr erefs"
      "planned_pairs_v2_of semantic = Inr pairs" "normalize_write_operations_v2 operations = Inr (eval_operations_v2 ev)"
    using xs(2) by (auto simp: evaluate_write_operations_v2_def rbind_Inr raise_if_Inr Let_def)
  then show ?thesis
    using that [of refs pairs] evaluate_write_operations_v2_eligible [OF xs(2) p(1-3)] assms(2) xs(1) by auto
qed

lemma intents_item: "dict_item d ''operation_intents'' = Inr v \<Longrightarrow> operation_intents_of d = v"
  by (simp add: dict_item_def operation_intents_of_def of_option_Inr)

text \<open>
  C37: a preview that is eligible for approval can be executed.  Its execution operations exist and
  are the canonical sequence, one creation per item in the order of the items followed by one
  relationship per planned pair, and the operation-set and sealed digests shown to the approver are
  those of the operations and of the preview.
\<close>

theorem approval_eligible_executes:
  assumes "preview_is_approval_eligible P preview = Inr True"
  shows "\<exists>c items. c = dict_get preview ''canonical_payload'' \<and> dict_item c ''items'' = Inr items \<and>
     (if dict_get c ''canonical_version'' = PStr ''2''
      then \<exists>refs pairs. rbind (elements_of items) item_refs_v2_of = Inr refs \<and>
        execution_operations c = Inr (map encode_operation_v2 (expected_operations_v2_for refs pairs)) \<and>
        (\<exists>payload d. operation_set_digest_payload_v2 (PTuple (map operation_doc_v2 (expected_operations_v2_for refs pairs))) = Inr payload \<and>
           digest P payload = Inr d \<and> dict_get c ''operation_set_digest'' = PStr d)
      else \<exists>refs pairs. rbind (elements_of items) item_refs_of = Inr refs \<and>
        list_all (\<lambda>(k, s, t). s \<in> set refs \<and> t \<in> set refs) pairs \<and>
        execution_operations c = Inr (expected_operations_for refs pairs) \<and>
        (\<exists>payload d. operation_set_digest_payload (PTuple (map operation_doc (expected_operations_for refs pairs))) = Inr payload \<and>
           digest P payload = Inr d \<and> dict_get c ''operation_set_digest'' = PStr d)) \<and>
     (\<exists>d. digest P (without_key ''sealed_preview_digest'' c) = Inr d \<and> dict_get c ''sealed_preview_digest'' = PStr d)"
proof -
  define c where "c = dict_get preview ''canonical_payload''"
  have "approval_digests P c = Inr True"
    using assms unfolding preview_is_approval_eligible_def Let_def c_def [symmetric]
    by (cases "approval_digests P c") (auto split: if_splits exn.splits)
  then obtain payload od sd where a: "approval_evaluation c = Inr (True, payload)" "digest P payload = Inr od"
      "dict_get c ''operation_set_digest'' = PStr od"
      "digest P (without_key ''sealed_preview_digest'' c) = Inr sd" "dict_get c ''sealed_preview_digest'' = PStr sd"
    unfolding approval_digests_def Let_def by (auto simp: rbind_Inr split: if_splits)
  obtain operations items semantic where i: "dict_item c ''operation_intents'' = Inr operations" "dict_item c ''items'' = Inr items"
      "dict_item c ''semantic_payload'' = Inr semantic"
    using a(1) by (auto simp: approval_evaluation_def rbind_Inr)
  show ?thesis
  proof (cases "dict_get c ''canonical_version'' = PStr ''2''")
    case True
    obtain relationships ev where e: "evaluation_v2 operations items semantic (get_or c ''existing_endpoint_bindings'' (PList []))
        relationships = Inr ev" "eligible_v2 ev"
        "operation_set_digest_payload_v2 (PTuple (map operation_doc_v2 (eval_operations_v2 ev))) = Inr payload"
      using a(1) i True by (auto simp: approval_evaluation_def rbind_Inr)
    obtain refs pairs where p: "normalize_write_operations_v2 operations = Inr (expected_operations_v2_for refs pairs)"
        "rbind (elements_of items) item_refs_v2_of = Inr refs"
      by (rule evaluation_v2_Inr [OF e(1,2)])
    have "eval_operations_v2 ev = expected_operations_v2_for refs pairs"
      using e(1) p(1) by (auto simp: evaluation_v2_def evaluate_write_operations_v2_def rbind_Inr raise_if_Inr Let_def)
    then show ?thesis
      using True p i a e(3) intents_item [OF i(1)] c_def by (auto simp: execution_operations_def)
  next
    case False
    obtain ev where e: "evaluation_v1 operations items semantic = Inr ev" "eligible ev"
        "operation_set_digest_payload (PTuple (map operation_doc (eval_operations ev))) = Inr payload"
      using a(1) i False by (auto simp: approval_evaluation_def rbind_Inr)
    obtain refs pairs where p: "normalize_write_operations operations = Inr (expected_operations_for refs pairs)"
        "rbind (elements_of items) item_refs_of = Inr refs" "list_all (\<lambda>(k, s, t). s \<in> set refs \<and> t \<in> set refs) pairs"
      by (rule evaluation_v1_Inr [OF e(1,2)])
    have "eval_operations ev = expected_operations_for refs pairs"
      using e(1) p(1) by (auto simp: evaluation_v1_def evaluate_write_operations_def rbind_Inr Let_def)
    then show ?thesis
      using False p i a e(3) intents_item [OF i(1)] c_def by (auto simp: execution_operations_def)
  qed
qed

lemma item_of_get: "dict_get d k = v \<Longrightarrow> v \<noteq> PNone \<Longrightarrow> dict_item d k = Inr v"
  by (auto simp: dict_item_def dict_get_def split: option.splits)

lemma demo_sealed_evaluation:
  "evaluate_write_operations (PList (sp_operations demo_sealed)) (sp_items demo_sealed) (sp_semantic_payload demo_sealed) =
     Inr \<lparr>eval_operations = [create_op ''A''], eligible = True, blockers = []\<rparr>"
  by code_simp

lemma demo_approvable:
  obtains c where "preview_is_approval_eligible fixed_prims (obj [(''canonical_payload'', c)]) = Inr True"
    "dict_get c ''canonical_version'' = PNone" "dict_item c ''items'' = Inr (PList (sp_items demo_sealed))"
proof (rule demo_accepted)
  fix j
  assume j: "is_mapping (py_of j)" "dict_get (py_of j) = dict_get (obj (sealed_fields demo_sealed))"
    "digest fixed_prims (without_key ''sealed_preview_digest'' (py_of j)) = Inr demo_digest"
  let ?c = "py_of j"
  have get: "dict_get ?c ''workspace_identity'' = PStr ''ws''" "dict_get ?c ''preview_level'' = PStr ''WriteEligible''"
    "dict_get ?c ''repository_identity'' = PStr ''o/r''" "dict_get ?c ''semantic_payload'' = sp_semantic_payload demo_sealed"
    "dict_get ?c ''operation_intents'' = PList (sp_operations demo_sealed)" "dict_get ?c ''plan_digest'' = PStr demo_digest"
    "dict_get ?c ''operation_set_digest'' = PStr demo_digest" "dict_get ?c ''remote_snapshot_digest'' = PStr demo_digest"
    "dict_get ?c ''sealed_preview_digest'' = PStr demo_digest" "dict_get ?c ''canonical_version'' = PNone"
    "dict_get ?c ''blockers'' = PList []" "dict_get ?c ''items'' = PList (sp_items demo_sealed)"
    unfolding j(2) sealed_get by (simp_all add: demo_sealed_def strs_def)
  have semantic: "sp_semantic_payload demo_sealed \<noteq> PNone" by (simp add: demo_sealed_def obj_def)
  have items: "dict_item ?c ''operation_intents'' = Inr (PList (sp_operations demo_sealed))"
    "dict_item ?c ''items'' = Inr (PList (sp_items demo_sealed))" "dict_item ?c ''semantic_payload'' = Inr (sp_semantic_payload demo_sealed)"
    using item_of_get get(4,5,12) semantic by simp_all
  have payload: "operation_set_digest_payload (PTuple [operation_doc (create_op ''A'')]) =
      Inr (obj [(''operation_intents'', PList [operation_doc (create_op ''A'')])])"
    by (simp add: operation_set_digest_payload_def operation_doc_def obj_def)
  have evaluation: "approval_evaluation ?c = Inr (True, obj [(''operation_intents'', PList [operation_doc (create_op ''A'')])])"
    using demo_sealed_evaluation payload
    by (simp add: approval_evaluation_def items get evaluation_v1_def elements_of_def)
  have set: "digest fixed_prims (obj [(''operation_intents'', PList [operation_doc (create_op ''A'')])]) = Inr demo_digest"
    by (intro digest_fixed normalizable_obj) (simp_all add: literal_keys_def)
  have plan: "digest fixed_prims (plan_payload False (sp_semantic_payload demo_sealed)) = Inr demo_digest"
    using demo_sealed_normal [of fixed_prims] by (simp add: plan_payload_def sealed_fields_def digest_fixed normalizable_normal)
  have "approval_digests fixed_prims ?c = Inr True"
    using set plan j(3) by (simp add: approval_digests_def evaluation get)
  then have "preview_is_approval_eligible fixed_prims (obj [(''canonical_payload'', ?c)]) = Inr True"
    using j(1) get by (simp add: preview_is_approval_eligible_def)
  then show thesis using that get(10) items(2) by blast
qed

theorem approval_eligible_executes_witness:
  "\<exists>c refs pairs. rbind (elements_of (PList (sp_items demo_sealed))) item_refs_of = Inr refs \<and>
     execution_operations c = Inr (expected_operations_for refs pairs)"
proof (rule demo_approvable)
  fix c
  assume c: "preview_is_approval_eligible fixed_prims (obj [(''canonical_payload'', c)]) = Inr True"
    "dict_get c ''canonical_version'' = PNone" "dict_item c ''items'' = Inr (PList (sp_items demo_sealed))"
  show ?thesis using approval_eligible_executes [OF c(1)] c(2,3) by auto
qed

end
