(* ===== verification/App_Status.thy ===== *)
theory App_Status
  imports Preview_Validation
begin

text \<open>
  Model of \<open>RuntimeApplicationStatusService\<close> of \<open>delivery_system/runtime.py\<close>: the read-only projection of
  what the execution store holds of an application.

  A status is built from the coordination record, the operations of the sealed preview the record is
  bound to, the attempts and the receipts, each read from the store and checked against the others.
  The preview store is an argument (\<open>preview_store\<close>), asked afresh for every read; the driver it trusts is
  fixed, and the promotion is rebuilt from it (\<open>reload_promotion\<close>).
\<close>

section \<open>Errors\<close>

text \<open>\<open>try: m except ...: raise f(e)\<close>\<close>

definition recode :: "(exn \<Rightarrow> exn) \<Rightarrow> 'a io \<Rightarrow> 'a io" where
  "recode f m = handle m (\<lambda>e. fail (f e))"

definition digest_mismatch :: exn where
  "digest_mismatch = ValueError ''preview_digest_mismatch''"

definition binding_conflict :: exn where
  "binding_conflict = ValueError ''application_binding_conflict''"

definition state_invalid :: exn where
  "state_invalid = ValueError ''state_integrity_invalid''"

text \<open>\<open>except ValueError: raise  except (TypeError, KeyError): raise ValueError(code)\<close>\<close>

definition keep_value_errors :: "exn \<Rightarrow> exn \<Rightarrow> exn" where
  "keep_value_errors code e = (case e of TypeError \<Rightarrow> code | KeyError \<Rightarrow> code | _ \<Rightarrow> e)"

definition state_error :: "exn \<Rightarrow> exn" where
  "state_error e =
     (case e of
        ValueError code \<Rightarrow>
          if code \<in> {''application_not_found'', ''application_binding_conflict'', ''state_integrity_invalid'',
                ''application_replay_validation_required'', ''application_receipt_not_found''}
          then e else state_invalid
      | TypeError \<Rightarrow> state_invalid
      | KeyError \<Rightarrow> state_invalid
      | _ \<Rightarrow> e)"

section \<open>The application identifier\<close>

definition application_id_valid :: "pyval \<Rightarrow> bool" where
  "application_id_valid v \<longleftrightarrow>
     (case v of
        PStr s \<Rightarrow> prefix ''application-'' s \<and> length s = 76 \<and> list_all is_lower_hex (drop 12 s)
      | _ \<Rightarrow> False)"

definition load_initial_records :: "prims \<Rightarrow> env \<Rightarrow> exec_store \<Rightarrow> string \<Rightarrow> logical_identity io" where
  "load_initial_records P E st app = recode state_error (get_execution_bootstrap P E st app)"

section \<open>The operations of the sealed preview\<close>

record preview_store =
  ps_read :: "nat \<Rightarrow> string \<Rightarrow> string \<Rightarrow> int \<Rightarrow> pyval res"
  ps_evidence :: "nat \<Rightarrow> string \<Rightarrow> pyval list \<Rightarrow> pyval list res"
  ps_trust :: "trust_context option"

text \<open>Python's \<open>==\<close> with an integer; a float below \<open>10 ^ 16\<close> with an integral value ends in \<open>.0\<close>.\<close>

definition equals_int :: "pyval \<Rightarrow> int \<Rightarrow> bool" where
  "equals_int v i =
     (case v of
        PInt k \<Rightarrow> k = i
      | PBool b \<Rightarrow> of_bool b = i
      | PFloat (Finite r) \<Rightarrow> r = int_repr i @ ''.0''
      | _ \<Rightarrow> False)"

definition preview_bindings :: "app_values \<Rightarrow> (string \<times> pyval) list" where
  "preview_bindings v =
     [(''workspace_identity'', PStr (v_workspace_identity v)), (''repository_identity'', PStr (v_repository_identity v)),
      (''preview_id'', PStr (v_preview_id v)), (''revision'', PInt (v_revision v)),
      (''sealed_preview_digest'', PStr (v_sealed_preview_digest v)), (''plan_digest'', PStr (v_plan_digest v)),
      (''operation_set_digest'', PStr (v_operation_set_digest v)), (''remote_snapshot_digest'', PStr (v_remote_snapshot_digest v))]"

fun check_bindings :: "pyval \<Rightarrow> (string \<times> pyval) list \<Rightarrow> unit res" where
  "check_bindings normalized [] = Inr ()"
| "check_bindings normalized ((field, value) # rest) =
     (if dict_get normalized field \<noteq> value
      then Inl (if field = ''workspace_identity'' then binding_conflict else digest_mismatch)
      else check_bindings normalized rest)"

definition preview_digest_errors :: "string list" where
  "preview_digest_errors = [''preview_identity_mismatch'', ''plan_digest_mismatch'', ''operation_set_digest_mismatch'',
     ''sealed_preview_digest_mismatch'', ''remote_snapshot_digest_mismatch'', ''repository_identity_mismatch'',
     ''sealed_preview_not_canonical'', ''sealed_preview_incomplete'']"

definition validate_preview_envelope :: "prims \<Rightarrow> pyval \<Rightarrow> app_values \<Rightarrow> (pyval \<times> pyval) res" where
  "validate_preview_envelope P preview v =
     raise_if (\<not> is_mapping preview) ''preview_digest_mismatch''
     (let request_id = dict_get preview ''request_id'' in
      catch
        (rbind (canonical_form P ''preview_digest_mismatch'' (dict_get preview ''canonical_payload'')) (\<lambda>normalized.
         raise_if (\<not> equals_int (dict_get preview ''revision'') (v_revision v) \<or>
                   request_id \<noteq> dict_get normalized ''request_id'' \<or> \<not> nonempty_str request_id) ''preview_digest_mismatch''
         (rbind (check_bindings normalized (preview_bindings v)) (\<lambda>_.
          rbind (digest P (without_key ''sealed_preview_digest'' normalized)) (\<lambda>d.
          raise_if (dict_get normalized ''sealed_preview_digest'' \<noteq> PStr d) ''preview_digest_mismatch''
            (Inr (normalized, request_id)))))))
        (\<lambda>e. Inl (keep_value_errors digest_mismatch e)))"

definition read_preview :: "preview_store \<Rightarrow> string \<Rightarrow> app_values \<Rightarrow> pyval io" where
  "read_preview S workspace v =
     recode (\<lambda>e. if e = ValueError ''preview crosses Workspace boundary'' then binding_conflict
                 else keep_value_errors digest_mismatch e)
       (bnd (ask (\<lambda>t. ps_read S t workspace (v_preview_id v) (v_revision v))) lift)"

definition read_promotion :: "prims \<Rightarrow> library \<Rightarrow> preview_store \<Rightarrow> string \<Rightarrow> pyval \<Rightarrow> (pyval list \<times> promotion option) io" where
  "read_promotion P L S workspace canonical =
     (if dict_get canonical ''preview_level'' \<in> repository_levels then
        recode (keep_value_errors digest_mismatch)
          (bnd (lift (rbind (dict_item canonical ''evidence_ids'') elements_of)) (\<lambda>ids.
           bnd (ask (\<lambda>t. ps_evidence S t workspace ids)) (\<lambda>found.
           bnd (lift found) (\<lambda>evidence.
           bnd (lift (reload_promotion P L (ps_trust S) canonical evidence)) (\<lambda>p. ret (evidence, p))))))
      else ret ([], None))"

definition payload_error :: "exn \<Rightarrow> exn" where
  "payload_error e =
     (case e of
        ValueError code \<Rightarrow>
          if code = ''workspace_identity_mismatch'' then binding_conflict
          else if code \<in> set preview_digest_errors then digest_mismatch else e
      | _ \<Rightarrow> keep_value_errors digest_mismatch e)"

definition bound_operations :: "prims \<Rightarrow> pyval \<Rightarrow> app_values \<Rightarrow> write_op list res" where
  "bound_operations P normalized v =
     catch
       (rbind (set_payload (dict_get normalized ''canonical_version'' = PStr ''2'') (operation_intents_of normalized)) (\<lambda>payload.
        rbind (digest P payload) (\<lambda>d.
        raise_if (d \<noteq> v_operation_set_digest v) ''preview_digest_mismatch'' (execution_operations normalized))))
       (\<lambda>e. Inl (keep_value_errors digest_mismatch e))"

definition load_preview_operations ::
  "prims \<Rightarrow> library \<Rightarrow> preview_store \<Rightarrow> string \<Rightarrow> logical_identity \<Rightarrow> write_op list io" where
  "load_preview_operations P L S workspace ident =
     (let v = id_values ident in
      bnd (read_preview S workspace v) (\<lambda>preview.
      bnd (lift (validate_preview_envelope P preview v)) (\<lambda>(canonical, request_id).
      bnd (read_promotion P L S workspace canonical) (\<lambda>(evidence, promotion).
      bnd (recode payload_error (lift (validate_preview_payload P L canonical request_id (PStr (v_preview_id v)) (PInt (v_revision v))
             (PStr (v_plan_digest v)) (PStr (v_operation_set_digest v)) (PStr (v_remote_snapshot_digest v))
             (PStr (v_repository_identity v)) evidence workspace promotion))) (\<lambda>normalized.
      bnd (lift (check_bindings normalized (preview_bindings v))) (\<lambda>_.
      lift (bound_operations P normalized v)))))))"

section \<open>The coordination record\<close>

definition execution_error :: "exn \<Rightarrow> exn" where
  "execution_error e =
     (case e of
        ValueError code \<Rightarrow>
          if code = ''application_replay_binding_invalid'' then ValueError ''application_receipt_integrity_invalid'' else e
      | _ \<Rightarrow> keep_value_errors state_invalid e)"

definition load_execution :: "prims \<Rightarrow> env \<Rightarrow> exec_store \<Rightarrow> string \<Rightarrow> write_op list \<Rightarrow> exec_state io" where
  "load_execution P E st app operations =
     recode execution_error (get_execution P E st app (Some (map operation_doc operations)))"

fun plain_value :: "pyval \<Rightarrow> pyval" where
  "plain_value (PDict kvs) = PDict (map (\<lambda>kv. (fst kv, plain_value (snd kv))) kvs)"
| "plain_value (PList xs) = PList (map plain_value xs)"
| "plain_value (PTuple xs) = PList (map plain_value xs)"
| "plain_value v = v"

definition authority_binding_matches_execution :: "provenance \<Rightarrow> logical_identity \<Rightarrow> continuity_anchor \<Rightarrow> string \<Rightarrow> bool" where
  "authority_binding_matches_execution binding ident anchor app \<longleftrightarrow>
     (let v = id_values ident in
      pv_application_id binding = app \<and> pv_github_subject_identity binding = v_github_subject_identity v \<and>
      pv_driver_identity binding = v_driver_identity v \<and> pv_remote_authority binding = v_remote_authority v \<and>
      (case anchor_mode anchor of
         PRINCIPAL \<Rightarrow> (case anchor_values anchor of p # _ \<Rightarrow> pv_credential_principal_identity binding = p | _ \<Rightarrow> False)
       | LEGACY_INSTANCE \<Rightarrow>
           (case anchor_values anchor of i # c # _ \<Rightarrow> pv_issuer_id binding = i \<and> pv_credential_instance_id binding = c | _ \<Rightarrow> False)))"

definition claimed_status :: "status \<Rightarrow> bool" where
  "claimed_status s \<longleftrightarrow> s \<in> {Applying, Failed, Blocked, OutcomeUnknown}"

text \<open>The fields a state allows, for \<open>n\<close> operations.\<close>

definition state_consistent :: "exec_state \<Rightarrow> nat \<Rightarrow> bool" where
  "state_consistent s n \<longleftrightarrow>
     (let completed = es_next s; unowned = (es_owner s = PNone \<and> es_attempt s = PNone) in
      case es_state s of
        Pending \<Rightarrow> completed = 0 \<and> unowned \<and> es_recovery s = PNone \<and> es_completed_at s = PNone
      | Applying \<Rightarrow> completed < n \<and> nonempty_str (es_owner s) \<and> nonempty_str (es_attempt s) \<and>
          es_recovery s = PNone \<and> es_completed_at s = PNone
      | PartiallyApplied \<Rightarrow> 0 < completed \<and> unowned \<and> es_recovery s = PNone \<and> es_completed_at s = PNone
      | Applied \<Rightarrow> completed = n \<and> unowned \<and> es_recovery s = PNone \<and> es_completed_at s \<noteq> PNone
      | _ \<Rightarrow> completed < n \<and> es_owner s = PNone \<and> nonempty_str (es_attempt s) \<and> nonempty_str (es_recovery s) \<and>
          es_completed_at s = PNone)"

text \<open>Two instants in order.\<close>

definition in_order :: "string \<Rightarrow> pyval \<Rightarrow> pyval \<Rightarrow> unit res" where
  "in_order code first later =
     rbind (execution_timestamp first) (\<lambda>a. rbind (execution_timestamp later) (\<lambda>b.
       raise_if (instant b < instant a) code (Inr ())))"

definition validate_execution_state_invariants :: "exec_state \<Rightarrow> write_op list \<Rightarrow> unit res" where
  "validate_execution_state_invariants s operations =
     catch
       (rbind (in_order ''state_integrity_invalid'' (es_started_at s) (es_updated_at s)) (\<lambda>_.
        rbind (if es_completed_at s = PNone then Inr ()
               else in_order ''state_integrity_invalid'' (es_updated_at s) (es_completed_at s)) (\<lambda>_.
        raise_if (length operations < es_next s \<or> length (es_refs s) \<noteq> es_next s) ''state_integrity_invalid''
        (raise_if (\<not> state_consistent s (length operations)) ''state_integrity_invalid'' (Inr ())))))
       (\<lambda>e. Inl (case e of ValueError _ \<Rightarrow> state_invalid | TypeError \<Rightarrow> state_invalid | AttributeError \<Rightarrow> state_invalid | _ \<Rightarrow> e))"

section \<open>Receipts and attempts\<close>

definition application_receipt_invalid :: exn where
  "application_receipt_invalid = ValueError ''application_receipt_integrity_invalid''"

definition receipt_invalid :: exn where
  "receipt_invalid = ValueError ''receipt_integrity_invalid''"

definition attempt_invalid :: exn where
  "attempt_invalid = ValueError ''attempt_integrity_invalid''"

definition load_application_receipt :: "prims \<Rightarrow> env \<Rightarrow> exec_store \<Rightarrow> string \<Rightarrow> application_receipt option io" where
  "load_application_receipt P E st app =
     attempt_then (get_application_receipt P E st app)
       (\<lambda>e. case e of
          ValueError code \<Rightarrow>
            if code = ''application_receipt_not_found'' then ret None
            else if code = ''application_binding_conflict'' then fail e else fail application_receipt_invalid
        | _ \<Rightarrow> fail (keep_value_errors application_receipt_invalid e))
       (\<lambda>r. ret (Some r))"

text \<open>\<open>except ValueError: ...  except (TypeError, AttributeError, OverflowError): ...\<close> with one code.\<close>

definition any_error :: "exn \<Rightarrow> exn \<Rightarrow> exn" where
  "any_error code e = (case e of ValueError _ \<Rightarrow> code | TypeError \<Rightarrow> code | AttributeError \<Rightarrow> code | _ \<Rightarrow> e)"

text \<open>The interval \<open>first .. later\<close> is in order and lies within \<open>start .. stop\<close>.\<close>

definition within :: "exn \<Rightarrow> pyval \<Rightarrow> pyval \<Rightarrow> pyval \<Rightarrow> pyval \<Rightarrow> unit res" where
  "within code first later start stop =
     catch
       (rbind (execution_timestamp first) (\<lambda>a. rbind (execution_timestamp later) (\<lambda>b.
        if instant b < instant a then Inl code
        else rbind (execution_timestamp start) (\<lambda>c.
        if instant a < instant c then Inl code
        else rbind (execution_timestamp stop) (\<lambda>d.
        if instant d < instant b then Inl code else Inr ())))))
       (\<lambda>e. Inl (any_error code e))"

record attempt_view =
  av_operation_identity :: string
  av_operation_index :: nat
  av_state :: status
  av_attempt_digest :: pyval
  av_started_at :: pyval
  av_updated_at :: pyval
  av_failure_code :: pyval

definition attempt_lookup_error :: "exec_state \<Rightarrow> nat \<Rightarrow> exn \<Rightarrow> attempt option io" where
  "attempt_lookup_error s index e =
     (case e of
        ValueError code \<Rightarrow>
          if code \<in> {''operation_attempt_invalid'', ''operation_attempt_binding_invalid'',
                ''operation_attempt_binding_conflict'', ''attempt_integrity_invalid''} then fail attempt_invalid
          else if code \<noteq> ''operation_attempt_not_found'' then fail e
          else if index < es_next s \<or> index = es_next s \<and> claimed_status (es_state s) then fail e
          else ret None
      | _ \<Rightarrow> fail e)"

definition failure_code_consistent :: "attempt \<Rightarrow> bool" where
  "failure_code_consistent a \<longleftrightarrow>
     (if at_state a \<in> {Failed, Blocked, OutcomeUnknown} then nonempty_str (at_failure_code a) else at_failure_code a = PNone)"

definition check_attempt :: "prims \<Rightarrow> string \<Rightarrow> exec_state \<Rightarrow> nat \<Rightarrow> write_op \<Rightarrow> string \<Rightarrow> attempt \<Rightarrow> attempt_view res" where
  "check_attempt P app s index operation op_id a =
     (let v = id_values (es_identity s); completed = es_next s in
      if completed < index \<or> at_application_id a \<noteq> app \<or> id_values (at_identity a) \<noteq> v \<or>
         at_operation_identity a \<noteq> op_id \<or>
         plain_value (operation_doc (at_operation a)) \<noteq> plain_value (operation_doc operation) then Inl attempt_invalid
      else rbind (request_identity P op_id) (\<lambda>request.
      if at_request_identity a \<noteq> request \<or>
         pv_driver_identity (at_provenance a) \<noteq> v_driver_identity v \<or>
         pv_remote_authority (at_provenance a) \<noteq> v_remote_authority v \<or>
         \<not> authority_binding_matches_execution (at_provenance a) (es_identity s) (es_anchor s) app then Inl attempt_invalid
      else if es_state s = Pending then Inl state_invalid
      else if at_state a \<noteq> (if index < completed then Applied else es_state s) \<or> at_index a \<noteq> index then Inl state_invalid
      else if index = completed \<and> claimed_status (es_state s) \<and> es_attempt s \<noteq> PStr op_id then Inl state_invalid
      else rbind (within attempt_invalid (at_started_at a) (at_updated_at a) (es_started_at s) (es_updated_at s)) (\<lambda>_.
      if \<not> failure_code_consistent a then Inl attempt_invalid
      else Inr \<lparr>av_operation_identity = at_operation_identity a, av_operation_index = at_index a, av_state = at_state a,
                av_attempt_digest = at_digest a, av_started_at = at_started_at a, av_updated_at = at_updated_at a,
                av_failure_code = at_failure_code a\<rparr>)))"

definition project_attempt ::
  "prims \<Rightarrow> env \<Rightarrow> exec_store \<Rightarrow> string \<Rightarrow> exec_state \<Rightarrow> nat \<times> write_op \<Rightarrow> attempt_view list io" where
  "project_attempt P E st app s indexed =
     (case indexed of (index, operation) \<Rightarrow>
        bnd (lift (operation_identity P app (int index) (operation_doc operation))) (\<lambda>op_id.
        bnd (attempt_then (get_attempt P E st app op_id) (attempt_lookup_error s index) (\<lambda>a. ret (Some a))) (\<lambda>found.
        case found of
          None \<Rightarrow> ret []
        | Some a \<Rightarrow> bnd (lift (check_attempt P app s index operation op_id a)) (\<lambda>view. ret [view]))))"

definition project_attempts ::
  "prims \<Rightarrow> env \<Rightarrow> exec_store \<Rightarrow> string \<Rightarrow> exec_state \<Rightarrow> write_op list \<Rightarrow> attempt_view list io" where
  "project_attempts P E st app s operations =
     (let completed = es_next s in
      bnd (refuse (length operations < completed \<or> length (es_refs s) \<noteq> completed) ''state_integrity_invalid'') (\<lambda>_.
      bnd (refuse (claimed_status (es_state s) \<and> length operations \<le> completed) ''state_integrity_invalid'') (\<lambda>_.
      bnd (refuse (es_state s \<in> {Pending, PartiallyApplied, Applied} \<and> es_attempt s \<noteq> PNone) ''state_integrity_invalid'') (\<lambda>_.
      bnd (each (project_attempt P E st app s) (List.enumerate 0 operations)) (\<lambda>views. ret (concat views))))))"

record receipt_view =
  rv_operation_receipt_id :: string
  rv_receipt_digest :: pyval
  rv_operation_index :: int
  rv_started_at :: string
  rv_completed_at :: string

definition receipt_lookup_error :: "exn \<Rightarrow> exn" where
  "receipt_lookup_error e =
     (case e of
        ValueError code \<Rightarrow>
          if code \<in> {''operation_receipt_invalid'', ''operation_receipt_binding_invalid'', ''receipt_binding_conflict'',
                ''workspace_mismatch''} then receipt_invalid else e
      | _ \<Rightarrow> e)"

definition check_receipt ::
  "prims \<Rightarrow> string \<Rightarrow> exec_state \<Rightarrow> nat \<Rightarrow> write_op \<Rightarrow> string \<Rightarrow> operation_receipt \<Rightarrow> receipt_view res" where
  "check_receipt P app s index operation op_id r =
     (if or_application_id r \<noteq> app \<or> id_values (or_identity r) \<noteq> id_values (es_identity s) \<or>
         or_operation_identity r \<noteq> op_id \<or>
         plain_value (operation_doc (or_operation r)) \<noteq> plain_value (operation_doc operation) \<or>
         or_index r \<noteq> int index then Inl receipt_invalid
      else rbind (list_item (es_refs s) index) (\<lambda>ref.
      if or_receipt_id r \<noteq> ref then Inl receipt_invalid
      else rbind (request_identity P op_id) (\<lambda>request.
      if or_request_identity r \<noteq> request \<or>
         \<not> authority_binding_matches_execution (or_provenance r) (es_identity s) (es_anchor s) app then Inl receipt_invalid
      else rbind (within receipt_invalid (PStr (or_started_at r)) (PStr (or_completed_at r)) (es_started_at s) (es_updated_at s)) (\<lambda>_.
      Inr \<lparr>rv_operation_receipt_id = or_receipt_id r, rv_receipt_digest = or_digest r, rv_operation_index = or_index r,
           rv_started_at = or_started_at r, rv_completed_at = or_completed_at r\<rparr>))))"

definition project_receipt :: "prims \<Rightarrow> env \<Rightarrow> exec_store \<Rightarrow> string \<Rightarrow> exec_state \<Rightarrow> write_op list \<Rightarrow> nat \<Rightarrow> receipt_view io" where
  "project_receipt P E st app s operations index =
     bnd (lift (list_item operations index)) (\<lambda>operation.
     bnd (lift (operation_identity P app (int index) (operation_doc operation))) (\<lambda>op_id.
     bnd (recode receipt_lookup_error (get_operation_receipt P E st app op_id)) (\<lambda>r.
     lift (check_receipt P app s index operation op_id r))))"

text \<open>No receipt may exist for an operation that has not completed.\<close>

definition receipt_absent :: "prims \<Rightarrow> env \<Rightarrow> exec_store \<Rightarrow> string \<Rightarrow> write_op list \<Rightarrow> nat \<Rightarrow> unit io" where
  "receipt_absent P E st app operations index =
     bnd (lift (list_item operations index)) (\<lambda>operation.
     bnd (lift (operation_identity P app (int index) (operation_doc operation))) (\<lambda>op_id.
     attempt_then (get_operation_receipt P E st app op_id)
       (\<lambda>e. case e of
          ValueError code \<Rightarrow> if code = ''operation_receipt_not_found'' then ret () else fail receipt_invalid
        | _ \<Rightarrow> fail e)
       (\<lambda>_. fail receipt_invalid)))"

definition project_operation_receipts ::
  "prims \<Rightarrow> env \<Rightarrow> exec_store \<Rightarrow> string \<Rightarrow> exec_state \<Rightarrow> write_op list \<Rightarrow> receipt_view list io" where
  "project_operation_receipts P E st app s operations =
     bnd (each (project_receipt P E st app s operations) [0..<es_next s]) (\<lambda>views.
     bnd (each (receipt_absent P E st app operations) [es_next s..<length operations]) (\<lambda>_. ret views))"

record application_receipt_view =
  arv_application_receipt_id :: string
  arv_receipt_digest :: pyval
  arv_operation_receipt_count :: nat
  arv_started_at :: pyval
  arv_completed_at :: pyval

definition project_application_receipt :: "application_receipt \<Rightarrow> exec_state \<Rightarrow> application_receipt_view res" where
  "project_application_receipt r s =
     rbind (within application_receipt_invalid (ar_started_at r) (ar_completed_at r) (es_started_at s) (es_completed_at s)) (\<lambda>_.
     Inr \<lparr>arv_application_receipt_id = ar_receipt_id r, arv_receipt_digest = ar_digest r,
          arv_operation_receipt_count = length (ar_refs r), arv_started_at = ar_started_at r, arv_completed_at = ar_completed_at r\<rparr>)"

section \<open>The status\<close>

record status_view =
  sv_application_id :: string
  sv_preview_id :: string
  sv_revision :: int
  sv_operation_set_digest :: string
  sv_state :: status
  sv_next_operation_index :: nat
  sv_completed_operation_count :: nat
  sv_total_operation_count :: nat
  sv_attempt_count :: nat
  sv_recovery_code :: pyval
  sv_application_receipt :: "application_receipt_view option"
  sv_operation_receipts :: "receipt_view list"
  sv_attempts :: "attempt_view list"
  sv_started_at :: pyval
  sv_updated_at :: pyval
  sv_completed_at :: pyval

definition receipt_projection :: "exec_state \<Rightarrow> application_receipt option \<Rightarrow> application_receipt_view option res" where
  "receipt_projection s receipt =
     (if es_state s = Applied then
        case receipt of
          None \<Rightarrow> Inl (ValueError ''application_receipt_not_found'')
        | Some r \<Rightarrow> rbind (project_application_receipt r s) (\<lambda>view. Inr (Some view))
      else if receipt \<noteq> None then Inl application_receipt_invalid
      else Inr None)"

definition get_status ::
  "prims \<Rightarrow> env \<Rightarrow> exec_store \<Rightarrow> library \<Rightarrow> preview_store \<Rightarrow> string \<Rightarrow> pyval \<Rightarrow> status_view io" where
  "get_status P E st L S workspace application_id =
     (case application_id of
        PStr app \<Rightarrow>
          bnd (refuse (\<not> application_id_valid application_id) ''application_id_invalid'') (\<lambda>_.
          bnd (load_initial_records P E st app) (\<lambda>ident.
          bnd (refuse (id_application_id ident \<noteq> app) ''application_binding_conflict'') (\<lambda>_.
          bnd (load_preview_operations P L S workspace ident) (\<lambda>operations.
          bnd (load_execution P E st app operations) (\<lambda>s.
          bnd (refuse (es_application_id s \<noteq> app \<or> id_values (es_identity s) \<noteq> id_values ident) ''application_binding_conflict'') (\<lambda>_.
          bnd (lift (validate_execution_state_invariants s operations)) (\<lambda>_.
          bnd (load_application_receipt P E st app) (\<lambda>receipt.
          bnd (project_operation_receipts P E st app s operations) (\<lambda>receipts.
          bnd (project_attempts P E st app s operations) (\<lambda>attempts.
          bnd (lift (receipt_projection s receipt)) (\<lambda>projection.
          ret \<lparr>sv_application_id = app, sv_preview_id = v_preview_id (id_values ident), sv_revision = v_revision (id_values ident),
               sv_operation_set_digest = v_operation_set_digest (id_values ident), sv_state = es_state s,
               sv_next_operation_index = es_next s, sv_completed_operation_count = length receipts,
               sv_total_operation_count = length operations, sv_attempt_count = length attempts,
               sv_recovery_code = es_recovery s, sv_application_receipt = projection, sv_operation_receipts = receipts,
               sv_attempts = attempts, sv_started_at = es_started_at s, sv_updated_at = es_updated_at s,
               sv_completed_at = es_completed_at s\<rparr>)))))))))))
      | _ \<Rightarrow> fail (ValueError ''application_id_invalid''))"

definition get_status_by_approved_context ::
  "prims \<Rightarrow> env \<Rightarrow> exec_store \<Rightarrow> library \<Rightarrow> preview_store \<Rightarrow> string \<Rightarrow> pyval \<Rightarrow> pyval \<Rightarrow> pyval \<Rightarrow> pyval \<Rightarrow> status_view io" where
  "get_status_by_approved_context P E st L S workspace preview_id revision approval_id approval_digest =
     bnd (resolve_application_id_by_approved_context P E st preview_id revision approval_id approval_digest) (\<lambda>app.
     get_status P E st L S workspace (PStr app))"

end
