(* ===== verification/Status_Properties.thy ===== *)
theory Status_Properties
  imports App_Status Demo_Run Applier_Completion
begin

text \<open>
  What an application status says of the execution it projects: reading it writes nothing, its
  receipts and attempts are exactly those the progress of the execution calls for, and the operations
  it counts are those of the preview the application is bound to.
\<close>

section \<open>Reads\<close>

lemma awaits_recode: "moves (awaits E) m \<Longrightarrow> moves (awaits E) (recode f m)"
  unfolding recode_def by (intro awaits.moves_rules)

lemma awaits_ask: "moves (awaits E) (ask f)"
  by (rule awaits_quiet [OF quiet_ask])

lemma awaits_get_bootstrap: "moves (awaits E) (get_execution_bootstrap P E st app)"
  unfolding get_execution_bootstrap_def by (intro awaits.moves_rules awaits_load)

lemma awaits_preview: "moves (awaits E) (load_preview_operations P L S ws ident)"
  unfolding load_preview_operations_def read_preview_def read_promotion_def Let_def
  by (intro awaits.moves_rules awaits_recode awaits_ask moves_split)

lemma awaits_lookup_error: "moves (awaits E) (attempt_lookup_error s i e)"
  unfolding attempt_lookup_error_def by (auto intro!: awaits.moves_rules split: exn.split)

lemma awaits_project_attempts: "moves (awaits E) (project_attempts P E st app s ops)"
  unfolding project_attempts_def project_attempt_def Let_def
  by (intro awaits.moves_rules moves_split awaits_get_attempt awaits_lookup_error)

lemma awaits_project_receipts: "moves (awaits E) (project_operation_receipts P E st app s ops)"
  unfolding project_operation_receipts_def project_receipt_def receipt_absent_def
  by (intro awaits.moves_rules awaits_recode awaits_get_operation_receipt)
     (auto intro!: awaits.moves_rules split: exn.split)

lemma awaits_application_receipt: "moves (awaits E) (load_application_receipt P E st app)"
  unfolding load_application_receipt_def
  by (intro awaits.moves_rules awaits_get_application_receipt) (auto intro!: awaits.moves_rules split: exn.split)

lemma awaits_get_status: "moves (awaits E) (get_status P E st L S ws aid)"
proof (cases aid)
  case (PStr app)
  show ?thesis unfolding PStr get_status_def load_initial_records_def load_execution_def pyval.case Let_def
    by (intro awaits.moves_rules awaits_recode awaits_get_bootstrap awaits_preview awaits_get_execution
          awaits_application_receipt awaits_project_receipts awaits_project_attempts)
qed (simp_all add: get_status_def awaits.moves_fail)

section \<open>Runs of a loop\<close>

lemma each_results:
  "each f xs w = (Inr ys, w') \<Longrightarrow> list_all2 (\<lambda>x y. \<exists>v v'. f x v = (Inr y, v')) xs ys"
  by (induction xs arbitrary: w ys w') (auto simp: run_simps)

lemma each_length: "each f xs w = (Inr ys, w') \<Longrightarrow> length ys = length xs"
  by (drule each_results) (simp add: list_all2_lengthD)

section \<open>Attempts\<close>

lemma attempt_then_run:
  "attempt_then m h f w = (Inr y, w'') \<longleftrightarrow>
     (\<exists>x w'. m w = (Inr x, w') \<and> f x w' = (Inr y, w'')) \<or> (\<exists>e w'. m w = (Inl e, w') \<and> h e w' = (Inr y, w''))"
  by (auto simp: attempt_then_def split: prod.splits sum.splits)

lemma get_attempt_state:
  assumes "get_attempt P E st app op w = (Inr a, w')"
  shows "at_state a \<in> set attempt_states"
proof -
  obtain doc where "decode_attempt P doc = Inr a"
    using assms unfolding get_attempt_def by (auto simp: run_simps integrity_Inr)
  then show ?thesis unfolding decode_attempt_def by (auto split: if_splits dest: OperationAttemptState_Inr)
qed

lemma lookup_error_run:
  assumes "attempt_lookup_error s i e w = (Inr found, w')"
  shows "found = None \<and> \<not> i < es_next s \<and> \<not> (i = es_next s \<and> claimed_status (es_state s))"
  using assms unfolding attempt_lookup_error_def by (auto simp: run_simps split: exn.splits if_splits)

text \<open>The attempt a status shows of an operation: its index, its state and its identifier.\<close>

definition attempt_key :: "attempt_view \<Rightarrow> nat \<times> status \<times> string res" where
  "attempt_key v = (av_operation_index v, av_state v, Inr (av_operation_identity v))"

definition due_key :: "prims \<Rightarrow> string \<Rightarrow> nat \<Rightarrow> status \<Rightarrow> write_op list \<Rightarrow> nat \<Rightarrow> nat \<times> status \<times> string res" where
  "due_key P app completed state ops i =
     (i, if i < completed then Applied else state, operation_identity P app (int i) (operation_doc (ops ! i)))"

definition attempts_due :: "exec_state \<Rightarrow> nat" where
  "attempts_due s = es_next s + (if claimed_status (es_state s) then 1 else 0)"

lemma check_attempt_key:
  assumes "check_attempt P app s i op op_id a = Inr v"
  shows "attempt_key v = (i, if i < es_next s then Applied else es_state s, Inr op_id)"
    and "i \<le> es_next s" "es_state s \<noteq> Pending" "at_state a = (if i < es_next s then Applied else es_state s)"
  using assms unfolding check_attempt_def attempt_key_def Let_def
  by (auto simp: rbind_Inr split: if_splits)

lemma project_attempt_key:
  assumes run: "project_attempt P E st app s (i, ops ! i) w = (Inr vs, w')"
    and applied: "es_state s = Applied \<Longrightarrow> i < es_next s"
  shows "map attempt_key vs = (if i < attempts_due s then [due_key P app (es_next s) (es_state s) ops i] else [])"
proof -
  obtain op_id found w1 w2
    where op_id: "operation_identity P app (int i) (operation_doc (ops ! i)) = Inr op_id"
      and found: "attempt_then (get_attempt P E st app op_id) (attempt_lookup_error s i) (\<lambda>a. ret (Some a)) w1 = (Inr found, w2)"
      and rest: "(case found of None \<Rightarrow> ret [] | Some a \<Rightarrow> bnd (lift (check_attempt P app s i (ops ! i) op_id a)) (\<lambda>view. ret [view])) w2
        = (Inr vs, w')"
    using run unfolding project_attempt_def prod.case by (auto simp: run_simps)
  show ?thesis
  proof (cases found)
    case None
    then have "\<not> i < es_next s \<and> \<not> (i = es_next s \<and> claimed_status (es_state s))"
      using found lookup_error_run by (auto simp: attempt_then_run run_simps)
    then show ?thesis using rest None by (auto simp: run_simps attempts_due_def)
  next
    case (Some a)
    then obtain v3 v4 where "get_attempt P E st app op_id v3 = (Inr a, v4)"
      using found lookup_error_run by (fastforce simp: attempt_then_run run_simps)
    note state = get_attempt_state [OF this]
    obtain v where v: "check_attempt P app s i (ops ! i) op_id a = Inr v" "vs = [v]"
      using rest Some by (auto simp: run_simps)
    note c = check_attempt_key [OF v(1)]
    have "i < es_next s \<or> claimed_status (es_state s)"
      using c(3,4) state applied by (cases "es_state s") (auto simp: attempt_states_def claimed_status_def split: if_splits)
    then show ?thesis using c(1,2) v(2) op_id by (auto simp: attempts_due_def due_key_def)
  qed
qed

lemma concat_prefix: "concat (map (\<lambda>i. if i < k then [f i] else []) [0..<n]) = map f [0..<min n k]"
proof (induction n)
  case (Suc n)
  show ?case
  proof (cases "n < k")
    case True
    then have "min (Suc n) k = Suc n" "min n k = n" by simp_all
    then show ?thesis using Suc True by simp
  next
    case False
    then have "min (Suc n) k = min n k" by simp
    then show ?thesis using Suc False by simp
  qed
qed simp

lemma project_attempts_keys:
  assumes run: "project_attempts P E st app s ops w = (Inr vs, w')"
    and applied: "es_state s = Applied \<Longrightarrow> es_next s = length ops"
    and bound: "attempts_due s \<le> length ops"
  shows "map attempt_key vs = map (due_key P app (es_next s) (es_state s) ops) [0..<attempts_due s]"
proof -
  obtain w1 views where views: "each (project_attempt P E st app s) (List.enumerate 0 ops) w1 = (Inr views, w')" "vs = concat views"
    using run unfolding project_attempts_def Let_def by (auto simp: run_simps)
  let ?shown = "\<lambda>i. if i < attempts_due s then [due_key P app (es_next s) (es_state s) ops i] else []"
  have "map attempt_key (views ! i) = ?shown i" if i: "i < length ops" for i
  proof -
    obtain v v' where "project_attempt P E st app s (i, ops ! i) v = (Inr (views ! i), v')"
      using list_all2_nthD [OF each_results [OF views(1)], of i] i by (auto simp: nth_enumerate_eq)
    then show ?thesis by (rule project_attempt_key) (use applied i in simp)
  qed
  then have "map (map attempt_key) views = map ?shown [0..<length ops]"
    using each_length [OF views(1)] by (auto intro: nth_equalityI)
  then have "map attempt_key vs = concat (map ?shown [0..<length ops])"
    unfolding views(2) by (simp add: map_concat)
  then show ?thesis using bound unfolding concat_prefix by (simp add: min_absorb2)
qed

section \<open>Receipts\<close>

lemma check_receipt_index:
  "check_receipt P app s i op op_id r = Inr v \<Longrightarrow> rv_operation_index v = int i \<and> rv_operation_receipt_id v = es_refs s ! i"
  unfolding check_receipt_def by (auto simp: rbind_Inr list_item_def split: if_splits)

lemma project_receipts_shown:
  assumes run: "project_operation_receipts P E st app s ops w = (Inr vs, w')"
  shows "map rv_operation_index vs = map int [0..<es_next s]" "map rv_operation_receipt_id vs = map ((!) (es_refs s)) [0..<es_next s]"
proof -
  obtain w1 where e: "each (project_receipt P E st app s ops) [0..<es_next s] w = (Inr vs, w1)"
    using run unfolding project_operation_receipts_def by (auto simp: run_simps)
  have "rv_operation_index (vs ! i) = int i \<and> rv_operation_receipt_id (vs ! i) = es_refs s ! i" if i: "i < es_next s" for i
  proof -
    have "\<exists>v v'. project_receipt P E st app s ops i v = (Inr (vs ! i), v')"
      using list_all2_nthD [OF each_results [OF e], of i] i by simp
    then show ?thesis unfolding project_receipt_def by (auto simp: run_simps dest: check_receipt_index)
  qed
  then show "map rv_operation_index vs = map int [0..<es_next s]" "map rv_operation_receipt_id vs = map ((!) (es_refs s)) [0..<es_next s]"
    using each_length [OF e] by (auto intro: nth_equalityI)
qed

lemma state_invariants_hold:
  assumes "validate_execution_state_invariants s ops = Inr ()"
  shows "es_next s \<le> length ops" "length (es_refs s) = es_next s" "state_consistent s (length ops)"
proof -
  have "es_next s \<le> length ops \<and> length (es_refs s) = es_next s \<and> state_consistent s (length ops)"
    using assms unfolding validate_execution_state_invariants_def catch_def
    by (auto simp: rbind_Inr raise_if_Inr split: sum.splits exn.splits)
  then show "es_next s \<le> length ops" "length (es_refs s) = es_next s" "state_consistent s (length ops)" by auto
qed

lemma consistent_progress:
  assumes "state_consistent s n" "es_next s \<le> n"
  shows "attempts_due s \<le> n" "es_state s = Applied \<Longrightarrow> es_next s = n" "es_state s = Pending \<Longrightarrow> es_next s = 0"
  using assms by (cases "es_state s"; auto simp: state_consistent_def attempts_due_def claimed_status_def Let_def)+

text \<open>
  A record last updated before it was started has no status.  \<open>settle_operation\<close> does not compare the
  clock with the record it settles, as every other managed operation does, so it can write such a record.
\<close>

lemma backward_update_has_no_status:
  assumes "execution_timestamp (es_started_at s) = Inr a" "execution_timestamp (es_updated_at s) = Inr b" "instant b < instant a"
  shows "validate_execution_state_invariants s ops = Inl state_invalid"
  using assms by (simp add: validate_execution_state_invariants_def in_order_def catch_def state_invalid_def)

section \<open>Operations\<close>

text \<open>The operations a status counts are those of a sealed preview with the operation set of the application.\<close>

definition bound_to :: "prims \<Rightarrow> app_values \<Rightarrow> write_op list \<Rightarrow> bool" where
  "bound_to P v ops \<longleftrightarrow> (\<exists>sealed payload.
     execution_operations sealed = Inr ops \<and>
     dict_get sealed ''workspace_identity'' = PStr (v_workspace_identity v) \<and>
     dict_get sealed ''preview_id'' = PStr (v_preview_id v) \<and> dict_get sealed ''revision'' = PInt (v_revision v) \<and>
     dict_get sealed ''sealed_preview_digest'' = PStr (v_sealed_preview_digest v) \<and>
     set_payload (dict_get sealed ''canonical_version'' = PStr ''2'') (operation_intents_of sealed) = Inr payload \<and>
     digest P payload = Inr (v_operation_set_digest v))"

lemma check_bindings_Inr: "check_bindings normalized kvs = Inr () \<longleftrightarrow> list_all (\<lambda>kv. dict_get normalized (fst kv) = snd kv) kvs"
  by (induction normalized kvs rule: check_bindings.induct) auto

lemma load_preview_operations_bound:
  assumes "load_preview_operations P L S ws ident w = (Inr ops, w')"
  shows "bound_to P (id_values ident) ops"
proof -
  obtain normalized where n: "check_bindings normalized (preview_bindings (id_values ident)) = Inr ()"
      "bound_operations P normalized (id_values ident) = Inr ops"
    using assms unfolding load_preview_operations_def Let_def by (auto simp: run_simps)
  then obtain payload where p: "set_payload (dict_get normalized ''canonical_version'' = PStr ''2'') (operation_intents_of normalized) = Inr payload"
      "digest P payload = Inr (v_operation_set_digest (id_values ident))" "execution_operations normalized = Inr ops"
    unfolding bound_operations_def catch_def by (auto simp: rbind_Inr raise_if_Inr split: sum.splits)
  show ?thesis using n(1) p unfolding bound_to_def check_bindings_Inr preview_bindings_def
    by (intro exI [of _ normalized] exI [of _ payload]) simp
qed

section \<open>The status\<close>

lemma receipt_projection_shown:
  "receipt_projection s receipt = Inr projection \<Longrightarrow> (projection \<noteq> None) = (es_state s = Applied)"
  unfolding receipt_projection_def by (auto simp: rbind_Inr split: if_splits option.splits)

lemma get_status_shows:
  assumes run: "get_status P E st L S ws (PStr app) w = (Inr v, w')"
  obtains s ops vals receipts attempts projection where
    "v = \<lparr>sv_application_id = app, sv_preview_id = v_preview_id vals, sv_revision = v_revision vals,
          sv_operation_set_digest = v_operation_set_digest vals, sv_state = es_state s,
          sv_next_operation_index = es_next s, sv_completed_operation_count = length receipts,
          sv_total_operation_count = length ops, sv_attempt_count = length attempts,
          sv_recovery_code = es_recovery s, sv_application_receipt = projection, sv_operation_receipts = receipts,
          sv_attempts = attempts, sv_started_at = es_started_at s, sv_updated_at = es_updated_at s,
          sv_completed_at = es_completed_at s\<rparr>"
    "es_next s \<le> length ops" "length (es_refs s) = es_next s" "state_consistent s (length ops)"
    "map rv_operation_index receipts = map int [0..<es_next s]" "map rv_operation_receipt_id receipts = es_refs s"
    "map attempt_key attempts = map (due_key P app (es_next s) (es_state s) ops) [0..<attempts_due s]"
    "(projection \<noteq> None) = (es_state s = Applied)" "bound_to P vals ops"
proof -
  obtain ident ops s receipt receipts attempts projection w1 w2 w3 w4 w5 w6
    where v: "v = \<lparr>sv_application_id = app, sv_preview_id = v_preview_id (id_values ident), sv_revision = v_revision (id_values ident),
          sv_operation_set_digest = v_operation_set_digest (id_values ident), sv_state = es_state s,
          sv_next_operation_index = es_next s, sv_completed_operation_count = length receipts,
          sv_total_operation_count = length ops, sv_attempt_count = length attempts,
          sv_recovery_code = es_recovery s, sv_application_receipt = projection, sv_operation_receipts = receipts,
          sv_attempts = attempts, sv_started_at = es_started_at s, sv_updated_at = es_updated_at s,
          sv_completed_at = es_completed_at s\<rparr>"
      and ops: "load_preview_operations P L S ws ident w1 = (Inr ops, w2)"
      and inv: "validate_execution_state_invariants s ops = Inr ()"
      and receipts: "project_operation_receipts P E st app s ops w3 = (Inr receipts, w4)"
      and attempts: "project_attempts P E st app s ops w5 = (Inr attempts, w6)"
      and projection: "receipt_projection s receipt = Inr projection"
    using run unfolding get_status_def by (auto simp: run_simps)
  note i = state_invariants_hold [OF inv]
  note c = consistent_progress [OF i(3,1)]
  have "map rv_operation_receipt_id receipts = es_refs s"
    using project_receipts_shown(2) [OF receipts] i(2) by (metis map_nth)
  then show ?thesis
    using that [OF v i project_receipts_shown(1) [OF receipts] _ project_attempts_keys [OF attempts c(2,1)]
      receipt_projection_shown [OF projection] load_preview_operations_bound [OF ops]] by blast
qed

text \<open>What a status shows of the progress of its application.\<close>

definition progress_shown :: "prims \<Rightarrow> string \<Rightarrow> status_view \<Rightarrow> bool" where
  "progress_shown P app v \<longleftrightarrow>
    (let completed = sv_next_operation_index v; n = sv_total_operation_count v; state = sv_state v;
         due = completed + (if claimed_status state then 1 else 0) in
     sv_application_id v = app \<and> sv_completed_operation_count v = completed \<and> completed \<le> n \<and> due \<le> n \<and>
     map rv_operation_index (sv_operation_receipts v) = map int [0..<completed] \<and>
     (state = Pending \<longrightarrow> completed = 0) \<and> (state = Applied \<longrightarrow> completed = n) \<and>
     (sv_application_receipt v \<noteq> None) = (state = Applied) \<and>
     (\<exists>ops vals. bound_to P vals ops \<and> length ops = n \<and> v_preview_id vals = sv_preview_id v \<and>
        v_revision vals = sv_revision v \<and> v_operation_set_digest vals = sv_operation_set_digest v \<and>
        map attempt_key (sv_attempts v) = map (due_key P app completed state ops) [0..<due]))"

text \<open>
  C32: an application status agrees with the execution it projects.  Asking for it writes no row and
  sends nothing, whether it returns or raises.  A returned status counts one verified receipt for each
  completed operation, in order, and one attempt for each of them and for the operation being carried
  out, with the identifiers of the operations of the sealed preview the application is bound to; it has
  an application receipt exactly when the application is applied, which is when every operation is
  completed.
\<close>
theorem status_agrees:
  assumes run: "get_status P E st L S ws (PStr app) w = (r, w')"
  shows "awaits E w w' \<and> (\<forall>v. r = Inr v \<longrightarrow>
    progress_shown P app v)"
proof (intro conjI allI impI)
  show "awaits E w w'" by (rule moves_run [OF awaits_get_status run])
  fix v
  assume "r = Inr v"
  with run have "get_status P E st L S ws (PStr app) w = (Inr v, w')" by simp
  from get_status_shows [OF this] show "progress_shown P app v"
  proof cases
    case (1 s ops vals receipts attempts projection)
    note c = consistent_progress [OF 1(4,2)]
    have "length receipts = es_next s" using 1(6,3) by (metis length_map)
    moreover have "\<exists>ops' vals'. bound_to P vals' ops' \<and> length ops' = length ops \<and> v_preview_id vals' = v_preview_id vals \<and>
        v_revision vals' = v_revision vals \<and> v_operation_set_digest vals' = v_operation_set_digest vals \<and>
        map attempt_key attempts = map (due_key P app (es_next s) (es_state s) ops') [0..<attempts_due s]"
      using 1(7,9) by blast
    ultimately show ?thesis
      unfolding progress_shown_def 1(1) Let_def using 1(2,5,8) c unfolding attempts_due_def by simp
  qed
qed

section \<open>A status\<close>

text \<open>The application of the example preview, created and not yet claimed.\<close>

definition status_values :: app_values where
  "status_values = demo_values\<lparr>v_sealed_preview_digest := demo_digest, v_plan_digest := demo_digest,
     v_operation_set_digest := demo_digest, v_remote_snapshot_digest := demo_digest\<rparr>"

definition status_previews :: "pyval \<Rightarrow> preview_store" where
  "status_previews c = \<lparr>ps_read = (\<lambda>_ _ _ _. Inr (obj [(''canonical_payload'', c), (''request_id'', PStr ''request''), (''revision'', PInt 1)])),
     ps_evidence = (\<lambda>_ _ _. Inr stored_evidence), ps_trust = Some demo_trust\<rparr>"

definition status_state :: "logical_identity \<Rightarrow> exec_state" where
  "status_state ident = \<lparr>es_application_id = id_application_id ident, es_identity = ident, es_state = Pending, es_next = 0,
     es_owner = PNone, es_attempt = PNone, es_recovery = PNone, es_refs = [], es_started_at = PStr demo_now,
     es_updated_at = PStr demo_now, es_completed_at = PNone, es_anchor = \<lparr>anchor_mode = PRINCIPAL, anchor_values = [''principal'']\<rparr>,
     es_managed = True, es_digest = PStr demo_digest\<rparr>"

definition status_world :: "exec_state \<Rightarrow> world" where
  "status_world s = \<lparr>w_db = empty_database\<lparr>db_executions := [((''ws'', es_application_id s), exec_state_doc s)]\<rparr>,
     w_contexts = (\<lambda>_. None), w_artifacts = (\<lambda>_. None), w_next = 0, w_tick = 0, w_sent = [], w_commits = []\<rparr>"

lemma status_identity:
  obtains ident where "identity_ok fixed_prims ident" "id_values ident = status_values"
    "application_id_valid (PStr (id_application_id ident))"
proof -
  have d: "digest fixed_prims (identity_to_dict status_values) = Inr demo_digest"
    by (rule digest_fixed [OF normalizable_identity])
  have hex: "after_colon demo_digest = replicate 64 (CHR ''a'')" by code_simp
  let ?i = "\<lparr>id_values = status_values, id_application_id = ''application-'' @ replicate 64 (CHR ''a'')\<rparr>"
  have "values_ok status_values" by (simp add: status_values_def values_ok_def demo_values_def demo_digest_def)
  then have "identity_ok fixed_prims ?i" using d hex by (simp add: identity_ok_def digest_hex_def)
  moreover have "application_id_valid (PStr (''application-'' @ replicate 64 (CHR ''a'')))" by code_simp
  ultimately show ?thesis using that by force
qed

lemma status_state_stored:
  assumes "identity_ok fixed_prims ident" "id_values ident = status_values"
  shows "exec_state_ok fixed_prims (status_state ident)" "exec_state_verify fixed_prims (status_state ident) = Inr True"
    "identity_workspace ident = ''ws''"
proof -
  show "exec_state_ok fixed_prims (status_state ident)"
    using assms by (simp add: exec_state_ok_def status_state_def anchor_ok_def)
  have "normalizable fixed_prims (exec_state_payload (status_state ident))"
    by (rule normalizable_exec_state) (simp_all add: status_state_def)
  then show "exec_state_verify fixed_prims (status_state ident) = Inr True"
    using digest_fixed by (simp add: exec_state_verify_True) (simp add: status_state_def)
  show "identity_workspace ident = ''ws''" using assms by (simp add: identity_workspace_def status_values_def demo_values_def)
qed

lemma status_operations:
  obtains c where "\<And>ident w. id_values ident = status_values \<Longrightarrow>
    load_preview_operations fixed_prims demo_library (status_previews c) ''ws'' ident w = (Inr [create_op ''A''], ticked 2 w)"
proof (rule demo_accepted)
  fix j
  assume j: "dict_get (py_of j) = dict_get (obj (sealed_fields demo_sealed))"
    and form: "\<And>code. canonical_form fixed_prims code (py_of j) = Inr (py_of j)"
    and sealed: "digest fixed_prims (without_key ''sealed_preview_digest'' (py_of j)) = Inr demo_digest"
    and accepted: "validate_preview_payload fixed_prims demo_library (py_of j) (PStr ''request'') (PStr ''p'') (PInt 1) (PStr demo_digest)
       (PStr demo_digest) (PStr demo_digest) (PStr ''o/r'') stored_evidence ''ws'' (Some demo_promotion) = Inr (py_of j)"
  let ?c = "py_of j" and ?v = status_values
  have get: "dict_get ?c ''request_id'' = PStr ''request''" "dict_get ?c ''preview_id'' = PStr ''p''" "dict_get ?c ''revision'' = PInt 1"
    "dict_get ?c ''workspace_identity'' = PStr ''ws''" "dict_get ?c ''preview_level'' = PStr ''WriteEligible''"
    "dict_get ?c ''repository_identity'' = PStr ''o/r''"
    "dict_get ?c ''operation_intents'' = PList (sp_operations demo_sealed)" "dict_get ?c ''plan_digest'' = PStr demo_digest"
    "dict_get ?c ''operation_set_digest'' = PStr demo_digest" "dict_get ?c ''remote_snapshot_digest'' = PStr demo_digest"
    "dict_get ?c ''evidence_ids'' = PList [PStr demo_evidence_id]"
    "dict_get ?c ''sealed_preview_digest'' = PStr demo_digest" "dict_get ?c ''canonical_version'' = PNone"
    unfolding j sealed_get by (simp_all add: demo_sealed_def strs_def)
  have vals: "v_workspace_identity ?v = ''ws''" "v_repository_identity ?v = ''o/r''" "v_preview_id ?v = ''p''" "v_revision ?v = 1"
    "v_sealed_preview_digest ?v = demo_digest" "v_plan_digest ?v = demo_digest" "v_operation_set_digest ?v = demo_digest"
    "v_remote_snapshot_digest ?v = demo_digest"
    by (simp_all add: status_values_def demo_values_def)
  have bindings: "check_bindings ?c (preview_bindings ?v) = Inr ()"
    unfolding check_bindings_Inr preview_bindings_def by (simp add: get vals)
  let ?preview = "obj [(''canonical_payload'', ?c), (''request_id'', PStr ''request''), (''revision'', PInt 1)]"
  have preview: "dict_get ?preview ''canonical_payload'' = ?c" "dict_get ?preview ''request_id'' = PStr ''request''"
    "dict_get ?preview ''revision'' = PInt 1" "is_mapping ?preview"
    by (simp_all add: dict_get_def obj_def)
  have envelope: "validate_preview_envelope fixed_prims ?preview ?v = Inr (?c, PStr ''request'')"
    unfolding validate_preview_envelope_def Let_def preview form
    by (simp add: bindings sealed get vals equals_int_def)
  have "dict_item ?c ''evidence_ids'' = Inr (PList [PStr demo_evidence_id])" by (rule item_of_get [OF get(11)]) simp
  moreover have "reload_promotion fixed_prims demo_library (Some demo_trust) ?c stored_evidence = Inr (Some demo_promotion)"
    unfolding stored_evidence_def by (rule demo_reload [OF j])
  ultimately have promotion: "read_promotion fixed_prims demo_library (status_previews ?c) ''ws'' ?c w =
      (Inr (stored_evidence, Some demo_promotion), ticked 1 w)" for w
    unfolding read_promotion_def recode_def
    by (simp add: get repository_levels_def elements_of_def handle_def bnd_exec ask_def status_previews_def)
  have intents: "operation_intents_of ?c = PList (sp_operations demo_sealed)"
    using intents_item [OF item_of_get [OF get(7)]] by simp
  obtain payload where "set_payload False (PList (sp_operations demo_sealed)) = Inr payload" "digest fixed_prims payload = Inr demo_digest"
    using accepted by (rule validate_preview_payload_Inr) (use get in auto)
  moreover have "execution_operations ?c = Inr [create_op ''A'']"
  proof -
    have "normalize_write_operations (PList (sp_operations demo_sealed)) = Inr [create_op ''A'']" by code_simp
    then show ?thesis by (simp add: execution_operations_def intents get)
  qed
  ultimately have operations: "bound_operations fixed_prims ?c ?v = Inr [create_op ''A'']"
    by (simp add: bound_operations_def intents get vals)
  have "load_preview_operations fixed_prims demo_library (status_previews ?c) ''ws'' ident w = (Inr [create_op ''A''], ticked 2 w)"
    if "id_values ident = status_values" for ident w
  proof -
    have "read_preview (status_previews ?c) ''ws'' ?v w = (Inr ?preview, ticked 1 w)"
      by (simp add: read_preview_def recode_def handle_def bnd_exec ask_def status_previews_def)
    then show ?thesis
      unfolding load_preview_operations_def that Let_def
      by (simp add: bnd_exec envelope promotion recode_def handle_def vals accepted bindings operations)
  qed
  then show ?thesis using that by blast
qed

lemma status_run:
  assumes ident: "identity_ok fixed_prims ident" "id_values ident = status_values" "application_id_valid (PStr (id_application_id ident))"
    and previews: "\<And>ident w. id_values ident = status_values \<Longrightarrow>
      load_preview_operations fixed_prims demo_library S ''ws'' ident w = (Inr [create_op ''A''], ticked 2 w)"
  obtains v w' where "get_status fixed_prims demo_env demo_store demo_library S ''ws'' (PStr (id_application_id ident))
      (status_world (status_state ident)) = (Inr v, w')" "sv_state v = Pending" "sv_total_operation_count v = 1"
proof -
  let ?app = "id_application_id ident" and ?s = "status_state ident" and ?ops = "[create_op ''A'']"
  let ?w = "status_world ?s"
  note stored = status_state_stored [OF ident(1,2)]
  have s: "es_application_id ?s = ?app" "es_identity ?s = ident" "es_state ?s = Pending" "es_next ?s = 0" "es_refs ?s = []"
    by (simp_all add: status_state_def)
  have tick: "?w\<lparr>w_tick := 0\<rparr> = ?w" by (simp add: status_world_def)
  have row: "select_row (''ws'', ?app) (db_executions (w_db (?w\<lparr>w_tick := n\<rparr>))) = Some (exec_state_doc ?s)" for n
    by (simp add: status_world_def select_row_def s)
  have no_rows: "select_row k (db_attempts (w_db (?w\<lparr>w_tick := n\<rparr>))) = None" "select_row k (db_operation_receipts (w_db (?w\<lparr>w_tick := n\<rparr>))) = None"
      "select_row k' (db_application_receipts (w_db (?w\<lparr>w_tick := n\<rparr>))) = None" for n k k'
    by (simp_all add: status_world_def empty_database_def select_row_def)
  have load: "load_execution_state fixed_prims demo_env demo_store ?app (?w\<lparr>w_tick := n\<rparr>) = (Inr ?s, ?w\<lparr>w_tick := Suc n\<rparr>)" for n
    using row [of n] row [of "Suc n"] stored exec_state_roundtrip [OF stored(1)] s
    by (simp add: load_execution_state_def read_db_def bnd_exec steps_simps integrity_def)
  have wf: "wf_op (create_op ''A'')" by (simp add: wf_op_def create_op_def)
  have "?app \<noteq> []" using ident(1) by (auto simp: identity_ok_def)
  then obtain op where op: "operation_identity fixed_prims ?app 0 (operation_doc (create_op ''A'')) = Inr op"
    using operation_identity_exists [OF wf, of 0] by auto
  have "valid_timestamp demo_time" by (simp add: valid_timestamp_def demo_time_def days_in_month_def)
  then have time: "execution_timestamp (PStr demo_now) = Inr demo_time" by (simp add: execution_timestamp_Inr demo_now_def)
  have invariants: "validate_execution_state_invariants ?s ?ops = Inr ()"
    by (simp add: validate_execution_state_invariants_def in_order_def status_state_def time state_consistent_def Let_def)
  have initial: "load_initial_records fixed_prims demo_env demo_store ?app ?w = (Inr ident, ?w\<lparr>w_tick := 1\<rparr>)"
    using load [of 0] s tick by (simp add: load_initial_records_def recode_def handle_def get_execution_bootstrap_def bnd_exec)
  have execution: "load_execution fixed_prims demo_env demo_store ?app ?ops (?w\<lparr>w_tick := n\<rparr>) = (Inr ?s, ?w\<lparr>w_tick := Suc n\<rparr>)" for n
    using load [of n] s by (simp add: load_execution_def recode_def handle_def get_execution_def bnd_exec)
  have receipt: "load_application_receipt fixed_prims demo_env demo_store ?app (?w\<lparr>w_tick := n\<rparr>) = (Inr None, ?w\<lparr>w_tick := Suc n\<rparr>)" for n
    using no_rows(3) [of _ n] no_rows(3) [of _ "Suc n"]
    by (simp add: load_application_receipt_def attempt_then_def get_application_receipt_def read_db_def bnd_exec steps_simps present_def)
  have receipts: "project_operation_receipts fixed_prims demo_env demo_store ?app ?s ?ops (?w\<lparr>w_tick := n\<rparr>) = (Inr [], ?w\<lparr>w_tick := Suc n\<rparr>)" for n
    using no_rows(2) [of _ n] no_rows(2) [of _ "Suc n"] op
    by (simp add: project_operation_receipts_def receipt_absent_def list_item_def attempt_then_def get_operation_receipt_def
        read_db_def bnd_exec steps_simps present_def s)
  have attempts: "project_attempts fixed_prims demo_env demo_store ?app ?s ?ops (?w\<lparr>w_tick := n\<rparr>) = (Inr [], ?w\<lparr>w_tick := Suc n\<rparr>)" for n
    using no_rows(1) [of _ n] no_rows(1) [of _ "Suc n"] op
    by (simp add: project_attempts_def project_attempt_def attempt_then_def get_attempt_def read_db_def bnd_exec steps_simps
        present_def attempt_lookup_error_def claimed_status_def status_state_def Let_def)
  have "\<exists>v w'. get_status fixed_prims demo_env demo_store demo_library S ''ws'' (PStr ?app) ?w = (Inr v, w') \<and>
      sv_state v = Pending \<and> sv_total_operation_count v = 1"
    using ident(3) s
    by (simp add: get_status_def bnd_exec initial invariants receipt_projection_def previews [OF ident(2)] execution receipt
        receipts attempts)
  then show ?thesis using that by blast
qed

theorem status_agrees_witness:
  "\<exists>P E st L S ws app w v w'. get_status P E st L S ws (PStr app) w = (Inr v, w') \<and> sv_state v = Pending \<and>
     sv_total_operation_count v = 1 \<and> sv_completed_operation_count v = 0 \<and> sv_attempts v = [] \<and> awaits E w w'"
proof -
  obtain ident where i: "identity_ok fixed_prims ident" "id_values ident = status_values"
    "application_id_valid (PStr (id_application_id ident))" by (rule status_identity)
  obtain c where c: "\<And>ident w. id_values ident = status_values \<Longrightarrow>
    load_preview_operations fixed_prims demo_library (status_previews c) ''ws'' ident w = (Inr [create_op ''A''], ticked 2 w)"
    by (rule status_operations) blast
  obtain v w' where run: "get_status fixed_prims demo_env demo_store demo_library (status_previews c) ''ws'' (PStr (id_application_id ident))
      (status_world (status_state ident)) = (Inr v, w')" "sv_state v = Pending" "sv_total_operation_count v = 1"
    by (rule status_run [OF i c])
  have "sv_completed_operation_count v = 0 \<and> sv_attempts v = [] \<and> awaits demo_env (status_world (status_state ident)) w'"
    using status_agrees [OF run(1)] run(2) by (auto simp: progress_shown_def Let_def claimed_status_def)
  then show ?thesis using run by blast
qed

end
