(* ===== verification/Spec2Isabelle.thy ===== *)
theory Spec2Isabelle
  imports Store_Properties Applier_Properties Public_Errors Status_Properties
begin

text \<open>
  A verification library for the write pipeline of delivery-system (Python, \<open>src/delivery_system\<close>).

  \<^bold>\<open>The program.\<close>  A planner proposes issues and relationships for a repository; the proposal is sealed
  into a preview, audited and approved; an application authority is issued for the approved preview;
  and the applier carries the approved operations out, one remote write at a time, under durable
  coordination records, so that no operation is sent twice and every outcome leaves evidence.  This
  library follows that path from the data of a preview to the receipts of an application:

    \<^item> values are normalised and digested (\<open>canonical.py\<close>), and every identifier is such a digest
      (\<open>application_identity.py\<close>, \<open>receipts.py\<close>);
    \<^item> the sealed preview (\<open>formal_preview.py\<close>) is validated (\<open>preview_validation.py\<close>,
      \<open>existing_endpoints.py\<close>), and its operations are evaluated (\<open>write_operations.py\<close>);
    \<^item> the runtime (\<open>runtime.py\<close>) creates an execution context for an authority and makes live evidence;
    \<^item> the execution store (\<open>execution_store.py\<close>) turns live evidence into rows of four SQLite tables,
      one transaction per call, while other processes do the same;
    \<^item> the applier (\<open>applier.py\<close>) claims an operation, materialises its command
      (\<open>drivers/write_contract.py\<close>), has the service check the credential (\<open>attestation_github_app.py\<close>,
      \<open>github_app_credential.py\<close>), dispatches it to the driver, and completes or settles the operation;
    \<^item> the status service (\<open>runtime.py\<close>) projects what the store holds, and the error contract
      (\<open>public_error_contract.py\<close>) decides what of a failure a caller may see.

  \<^bold>\<open>How Python is modelled.\<close>  \<open>DS_Prelude\<close> has the dynamic values (\<open>pyval\<close>; strings are their UTF-8
  bytes, mappings keep their order), the exceptions the code raises or lets through (\<open>exn\<close>), the
  result type \<open>'a res\<close> and the parameters \<open>prims\<close>: SHA-256, NFC and lower case of non-ASCII text,
  and \<open>str\<close> of objects; a float is its printed form.  \<open>library\<close> of \<open>Evidence\<close> has the few other
  functions of the standard library that are asked (\<open>int\<close>, \<open>sorted\<close>, \<open>casefold\<close>, \<open>fromisoformat\<close>).  \<open>Program\<close> has stateful programs with exceptions: the state
  an exception leaves is kept, and only a transaction undoes its writes.  A class becomes a record, and
  a constructor with checks a function to \<open>res\<close> of the same name.  Object identity matters in one place,
  the registry of live artifacts: there an artifact is the record \<open>live\<close> with the number of its object.
  \<open>world\<close> is the state of the process and the database, and \<open>env\<close> what surrounds it: the clock, the
  writes of other processes before each transaction, the answers of the driver, the credential service
  and the endpoint verifier, each as a function of the moment (\<open>w_tick\<close>) it is asked at.

  \<^bold>\<open>Theories, in the order of the code.\<close>
    \<^item> \<open>Canonical\<close>: \<open>canonical.py\<close> (\<open>normalize\<close>, \<open>canonical_payload\<close>, \<open>digest\<close>).  Normalisation is idempotent
      and ignores the order of entries; equal texts mean equal normal forms.
    \<^item> \<open>Write_Operations\<close>: \<open>write_operations.py\<close>.  Both versions of the evaluation accept exactly the
      canonical sequence of a proposal; the execution envelope of V2 operations.
    \<^item> \<open>App_Identity\<close>: \<open>application_identity.py\<close> and the data of \<open>application_authority.py\<close>; what the
      identifiers bind.
    \<^item> \<open>Receipts\<close>, \<open>Execution_Clock\<close>, \<open>Execution_State\<close>: \<open>receipts.py\<close>, the timestamps of
      \<open>execution_store.py\<close>, and \<open>execution_state.py\<close>; storage round trips, transitions, validation.
    \<^item> \<open>Credentials\<close>, \<open>Write_Contract\<close>: leases, evidence, commands and observations.
    \<^item> \<open>Evidence\<close>, \<open>Remote_Snapshot\<close>, \<open>Promotion\<close>: \<open>evidence.py\<close>, \<open>remote_snapshot.py\<close> and the reload of a
      promotion (\<open>runtime_authority.py\<close>, \<open>runtime.py\<close>).  Identifiers bind the evidence, the digest of a
      snapshot ignores the order of its records, and a promotion rests on the trusted driver's evidence.
    \<^item> \<open>Sealed_Preview\<close>, \<open>Preview_Validation\<close>: what a sealed preview is, what the validation guarantees,
      and which previews can be approved.
    \<^item> \<open>Database\<close>, \<open>Execution_Context\<close>, \<open>Execution_Store\<close>: the tables, the live evidence, and every read,
      managed and generic operation of the store.
    \<^item> \<open>Store_Protocol\<close>: the abstract contract of a managed application, a step relation with its
      invariant and measure.  \<open>Store_Runs\<close>, \<open>Store_Effects\<close> and \<open>Store_Refinement\<close> show that each call is at
      most one of its steps; \<open>Store_Progress\<close> and \<open>Store_Completion\<close> that the calls do succeed when the
      authority is current and nobody interferes.
    \<^item> \<open>Rendering\<close>, \<open>Materialize\<close>, \<open>Applier\<close>: \<open>applier.py\<close> and \<open>_ApplierCapability\<close> of \<open>runtime.py\<close>.
      \<open>Applier_Runs\<close>, \<open>Applier_Effects\<close> and \<open>Applier_Completion\<close> follow the loop; \<open>process\<close> of
      \<open>Applier_Properties\<close> is a process that runs the applier any number of times beside others.
    \<^item> \<open>App_Status\<close>, \<open>Status_Properties\<close>: \<open>RuntimeApplicationStatusService\<close> of \<open>runtime.py\<close>.
    \<^item> \<open>Public_Errors\<close>: \<open>public_error_contract.py\<close>.
    \<^item> \<open>Store_Properties\<close>, \<open>Applier_Properties\<close>: the theorems that span components.  \<open>Demo_Run\<close> and
      \<open>Applier_Demo\<close>: a concrete application that the theorems are instantiated on.

  \<^bold>\<open>Interfaces.\<close>  The store relies on tables with keys: the locale \<open>keyed_table\<close> of \<open>Database\<close>, interpreted on
  the rows of the model.  What a program may do to the state, whether it returns or raises, is bounded by
  a preorder: the locale \<open>frame\<close> of \<open>Program\<close>, interpreted for each relation the components use (\<open>quiet\<close>,
  \<open>awaits\<close>, \<open>inert\<close>, \<open>grows\<close>, \<open>later\<close>, \<open>still\<close>, \<open>same_rows\<close>).

  \<^bold>\<open>Bounds and fuel.\<close>  The loop of the applier (\<open>apply_loop\<close>) has as fuel the number of approved operations
  plus one.  It is enough: each pass either returns or leaves the durable index one higher, which
  \<open>apply_returns\<close> proves, so running out of fuel is not an outcome.  Every other loop of the sources is
  structural or has a termination proof.  Python's integers are unbounded and so are those of the model.

  \<^bold>\<open>Hypotheses.\<close>  The identity theorems ask that the hash distinguishes the two values at hand, never that
  it is injective.  The theorems about several processes ask that the others reach the database
  through the calls of the store (\<open>rely\<close>; \<open>store_history\<close> shows that every call is of this kind), and
  \<open>operations_sent_once\<close>, which is about the dispatches of several processes together, that SQLite
  serialises their transactions (\<open>serialised\<close>): it orders the entries of \<open>w_commits\<close>, a history variable
  that records what each committed transaction found and left and that no definition reads.  The
  invariant, finality and bound of the store (\<open>store_invariant\<close>, \<open>terminal_is_final\<close>, \<open>store_run_bounded\<close>) are
  about calls of orchestrated stores with sound arguments (\<open>call_sound\<close>), each running undisturbed; a
  store that is not orchestrated is refused by \<open>managed_application_protected\<close> on a managed application
  and may rewrite one that is not managed.  The completion theorem asks that the authority stays
  current, the clock does not run back and the driver answers with matching evidence (\<open>favourable\<close>).

  \<^bold>\<open>Not modelled.\<close>  HTTP transport and its parsing (\<open>drivers/rest.py\<close>, \<open>drivers/github_write.py\<close>): the
  driver is a function.  Signatures, keys and their persistence (the \<open>attestation_*.py\<close> files other than
  the evidence a dispatch checks, \<open>ed25519_lifecycle.py\<close>): they rest on a cryptographic library.  Process
  composition (\<open>host_composition.py\<close>): files, keys and the network.  DDL, migrations
  and maintenance of the database files; of \<open>sqlite_schema.py\<close> only the execution tables are modelled.
  The audit rules, the planner and the preflight of a driver's answer (\<open>drivers/preflight.py\<close>), which
  precede an approval: what a preflight leaves behind, evidence, snapshot and promotion, is modelled.
\<close>

end
